(* ===== verification/Prelude.thy ===== *)
theory Prelude
  imports Main "HOL-Library.Word" "HOL-Library.Monad_Syntax"
begin

text \<open>
  Shared ground of the development: the machine integers of the 32-bit Xbox target, byte
  buffers, and the small collection of list and word facts that the component theories share.

  Conventions used by every component.
  \<^item> \<open>unsigned char\<close>, \<open>u16\<close>, \<open>u32\<close> and \<open>u64\<close> are \<open>8 word\<close>, \<open>16 word\<close>, \<open>32 word\<close> and
    \<open>64 word\<close>; a C \<open>int\<close> is a \<open>32 word\<close> too and is compared with the signed orders where the
    code does so.
  \<^item> A C object that is accessed by index (an array, a buffer, a struct seen as bytes) is a
    \<open>u8 list\<close> of the length of the object.
  \<^item> A routine that may have no defined outcome (it reads or writes outside an object, or it
    spins for ever) returns an \<open>option\<close>: \<open>None\<close> says that the C call has no defined result.
  \<^item> Hardware is a parameter: the functions that answer a port or bus access together with
    a state of type \<open>'d\<close> that is threaded through the calls.
\<close>

unbundle bit_operations_syntax

type_synonym u8 = "8 word"
type_synonym u16 = "16 word"
type_synonym u32 = "32 word"
type_synonym u64 = "64 word"
type_synonym bytes = "u8 list"

named_theorems buf_simps \<open>reading and writing byte buffers\<close>

section \<open>Buffers\<close>

definition byte_at :: "bytes \<Rightarrow> nat \<Rightarrow> u8 option" where
  "byte_at bs i = (if i < length bs then Some (bs ! i) else None)"

definition put_bytes :: "bytes \<Rightarrow> nat \<Rightarrow> bytes \<Rightarrow> bytes option" where
  "put_bytes buf pos bs =
     (if pos + length bs \<le> length buf
      then Some (take pos buf @ bs @ drop (pos + length bs) buf) else None)"

definition slice :: "nat \<Rightarrow> nat \<Rightarrow> bytes \<Rightarrow> bytes" where
  "slice pos n bs = take n (drop pos bs)"

lemma byte_at_Some [buf_simps]: "i < length bs \<Longrightarrow> byte_at bs i = Some (bs ! i)"
  by (simp add: byte_at_def)

lemma byte_at_None [buf_simps]: "length bs \<le> i \<Longrightarrow> byte_at bs i = None"
  by (simp add: byte_at_def)

lemma put_bytes_Some [buf_simps]:
  "pos + length bs \<le> length buf \<Longrightarrow>
   put_bytes buf pos bs = Some (take pos buf @ bs @ drop (pos + length bs) buf)"
  by (simp add: put_bytes_def)

lemma put_bytes_length: "put_bytes buf pos bs = Some buf' \<Longrightarrow> length buf' = length buf"
  by (auto simp: put_bytes_def split: if_splits)

lemma put_bytes_slice: "put_bytes buf pos bs = Some buf' \<Longrightarrow> slice pos (length bs) buf' = bs"
  by (auto simp: put_bytes_def slice_def min_def split: if_splits)

lemma length_slice [simp]: "length (slice pos n bs) = min n (length bs - pos)"
  by (simp add: slice_def)

lemma slice_append_slice:
  "slice pos m bs @ slice (pos + m) n bs = slice pos (m + n) bs"
  by (simp add: slice_def take_add add.commute)

lemma slice_0_all: "length bs \<le> n \<Longrightarrow> slice 0 n bs = bs"
  by (simp add: slice_def)

lemma nth_slice: "i < n \<Longrightarrow> p + i < length bs \<Longrightarrow> slice p n bs ! i = bs ! (p + i)"
  by (simp add: slice_def)

lemma slice_slice: "q + n \<le> m \<Longrightarrow> slice q n (slice p m bs) = slice (p + q) n bs"
  by (simp add: slice_def take_drop min_def add.commute)

section \<open>Word facts\<close>

lemma unat_of_nat_u32: "n < 2 ^ 32 \<Longrightarrow> unat (of_nat n :: u32) = n"
  by (simp add: unat_of_nat take_bit_nat_eq_self)

lemma unat_lt_u32: "unat (w :: u32) < 2 ^ 32"
  using unsigned_less [of w] by simp

lemma unat_lt_u8: "unat (b :: u8) < 256"
  using unsigned_less [of b] by simp

text \<open>A property of a byte is checked on the 256 bytes.\<close>

lemma all_u8: "\<forall>n\<in>set [0..<256]. P (of_nat n) \<Longrightarrow> P (c :: u8)"
  by (cases c) auto

lemma of_nat_u32_eq_0: "n < 2 ^ 32 \<Longrightarrow> (of_nat n :: u32) = 0 \<longleftrightarrow> n = 0"
  using unat_of_nat_u32 [of n] by (auto simp: unat_eq_zero [symmetric] simp del: unat_eq_zero)

lemma ucast_of_nat: "(ucast w :: u8) = of_nat (unat (w :: u32))"
  by (rule bit_word_eqI) (simp add: bit_simps)

lemma of_nat_byte_cong: "m mod 256 = n mod 256 \<Longrightarrow> (of_nat m :: u8) = of_nat n"
  by (simp add: word_of_nat_eq_iff take_bit_eq_mod)

lemma ucast_Suc: "(ucast (c + 1 :: u32) :: u8) = ucast c + 1"
proof -
  have u: "unat (c + 1) = (unat c + 1) mod 2 ^ 32" by (simp add: unat_word_ariths)
  have "(2 :: nat) ^ 32 = 256 * 2 ^ 24" by simp
  then have "(unat c + 1) mod 2 ^ 32 mod 256 = (unat c + 1) mod 256" by (simp only: mod_mult2_eq) simp
  then have "(of_nat ((unat c + 1) mod 2 ^ 32) :: u8) = of_nat (unat c + 1)" by (rule of_nat_byte_cong)
  then show ?thesis unfolding ucast_of_nat u by simp
qed

text \<open>Clearing the low \<open>n\<close> bits of a word rounds it down to a multiple of \<open>2 ^ n\<close>.\<close>

lemma and_not_mask_u32: "(w :: u32) AND NOT (mask n) = push_bit n (drop_bit n w)"
  by (rule bit_word_eqI) (auto simp: bit_simps)

lemma unat_drop_bit_u32: "unat (drop_bit n (w :: u32)) = unat w div 2 ^ n"
  by (simp only: unat_drop_bit_eq) (simp only: drop_bit_eq_div)

lemma unat_and_not_mask_u32: "unat ((w :: u32) AND NOT (mask n)) = unat w div 2 ^ n * 2 ^ n"
proof -
  have le: "unat w div 2 ^ n * 2 ^ n < 2 ^ 32"
    using unat_lt_u32 [of w] by (rule le_less_trans [OF div_times_less_eq_dividend])
  have "drop_bit n w = of_nat (unat (drop_bit n w))" by simp
  also note unat_drop_bit_u32
  finally have "w AND NOT (mask n) = of_nat (unat w div 2 ^ n * 2 ^ n)"
    by (simp add: and_not_mask_u32 push_bit_eq_mult)
  then show ?thesis using unat_of_nat_u32 [OF le] by simp
qed

section \<open>Little-endian fields\<close>

definition le16 :: "u8 \<Rightarrow> u8 \<Rightarrow> u16" where
  "le16 b0 b1 = ucast b0 OR push_bit 8 (ucast b1)"

definition le32 :: "u8 \<Rightarrow> u8 \<Rightarrow> u8 \<Rightarrow> u8 \<Rightarrow> u32" where
  "le32 b0 b1 b2 b3 =
     ucast b0 OR push_bit 8 (ucast b1) OR push_bit 16 (ucast b2) OR push_bit 24 (ucast b3)"

definition le32_bytes :: "u32 \<Rightarrow> bytes" where
  "le32_bytes w = [ucast w, ucast (drop_bit 8 w), ucast (drop_bit 16 w), ucast (drop_bit 24 w)]"

definition le16_at :: "bytes \<Rightarrow> nat \<Rightarrow> u16 option" where
  "le16_at bs i = (if i + 1 < length bs then Some (le16 (bs ! i) (bs ! (i + 1))) else None)"

definition le32_at :: "bytes \<Rightarrow> nat \<Rightarrow> u32 option" where
  "le32_at bs i =
     (if i + 3 < length bs
      then Some (le32 (bs ! i) (bs ! (i + 1)) (bs ! (i + 2)) (bs ! (i + 3))) else None)"

lemma length_le32_bytes [simp]: "length (le32_bytes w) = 4"
  by (simp add: le32_bytes_def)

lemma le32_of_bytes:
  "le32 (ucast (w::u32)) (ucast (drop_bit 8 w)) (ucast (drop_bit 16 w)) (ucast (drop_bit 24 w)) = w"
proof (rule bit_word_eqI)
  fix n assume "n < LENGTH(32)"
  then consider "n < 8" | "8 \<le> n" "n < 16" | "16 \<le> n" "n < 24" | "24 \<le> n" "n < 32"
    by fastforce
  then show "bit (le32 (ucast w) (ucast (drop_bit 8 w)) (ucast (drop_bit 16 w))
      (ucast (drop_bit 24 w))) n = bit w n"
    by cases (auto simp: le32_def bit_simps)
qed

lemma le32_at_bytes: "le32_at (le32_bytes w @ rest) 0 = Some w"
  by (simp add: le32_at_def le32_bytes_def le32_of_bytes)

end
