(* ===== verification/CString.thy ===== *)
theory CString
  imports Prelude
begin

text \<open>
  The string and memory routines of \<open>lib/misc/BootLibrary.c\<close>.

  A \<open>char *\<close> argument that is only read is the list of bytes from the pointer to the end of
  the object it points into; a routine that walks past that end has no defined result
  (\<open>None\<close>). A pointer that a routine returns is an offset into its argument. Routines that
  write take the object and return its new contents. The inline assembly of \<open>strlen\<close>,
  \<open>strncmp\<close>, \<open>strcpy\<close>, \<open>strncpy\<close>, \<open>memset\<close> and \<open>memcpy\<close> is modelled instruction by
  instruction as the loop it runs.
\<close>

section \<open>Characters\<close>

definition tolower :: "u32 \<Rightarrow> u32" where
  "tolower ch = (if ch - 65 < 26 then ch + 32 else ch)"

definition isspace :: "u32 \<Rightarrow> bool" where
  "isspace c \<longleftrightarrow> c = 32 \<or> c = 9 \<or> c = 13 \<or> c = 10"

section \<open>Reading\<close>

fun strlen :: "bytes \<Rightarrow> nat option" where
  "strlen [] = None"
| "strlen (b # bs) = (if b = 0 then Some 0 else map_option Suc (strlen bs))"

text \<open>\<open>_strncmp\<close>: a difference of two plain (signed) characters, or 0 as soon as one of the
  strings or \<open>nMax\<close> is used up.\<close>

fun u_strncmp :: "bytes \<Rightarrow> bytes \<Rightarrow> u32 \<Rightarrow> int option" where
  "u_strncmp [] _ _ = None"
| "u_strncmp (c1 # s1) s2 n =
     (if c1 = 0 then (if n = 0 \<or> s2 \<noteq> [] then Some 0 else None)
      else (case s2 of
              [] \<Rightarrow> None
            | c2 # s2' \<Rightarrow>
                if c2 = 0 \<or> n = 0 then Some 0
                else if c1 \<noteq> c2 then Some (sint c1 - sint c2)
                else u_strncmp s1 s2' (n - 1)))"

fun u_strncasecmp :: "bytes \<Rightarrow> bytes \<Rightarrow> u32 \<Rightarrow> int option" where
  "u_strncasecmp [] _ _ = None"
| "u_strncasecmp (c1 # s1) s2 n =
     (if c1 = 0 then (if n = 0 \<or> s2 \<noteq> [] then Some 0 else None)
      else (case s2 of
              [] \<Rightarrow> None
            | c2 # s2' \<Rightarrow>
                if c2 = 0 \<or> n = 0 then Some 0
                else if tolower (scast c1) \<noteq> tolower (scast c2) then Some (sint c1 - sint c2)
                else u_strncasecmp s1 s2' (n - 1)))"

fun memcmp :: "bytes \<Rightarrow> bytes \<Rightarrow> nat \<Rightarrow> int option" where
  "memcmp _ _ 0 = Some 0"
| "memcmp (a # as) (b # bs) (Suc n) =
     (if a \<noteq> b then Some (uint a - uint b) else memcmp as bs n)"
| "memcmp _ _ (Suc n) = None"

lemma memcmp_eq: "length xs = n \<Longrightarrow> length ys = n \<Longrightarrow> \<exists>r. memcmp xs ys n = Some r \<and> (r = 0 \<longleftrightarrow> xs = ys)"
  by (induction xs ys n rule: memcmp.induct) (auto dest: unsigned_word_eqI)

text \<open>\<open>strncmp\<close>: \<open>decl/js\<close> on the count, \<open>lodsb\<close>, \<open>scasb\<close>, and \<open>sbbl/orb\<close> turning the borrow
  of the unsigned comparison into \<open>-1\<close> or \<open>1\<close>.\<close>

fun strncmp :: "bytes \<Rightarrow> bytes \<Rightarrow> nat \<Rightarrow> int option" where
  "strncmp _ _ 0 = Some 0"
| "strncmp (a # as) (b # bs) (Suc n) =
     (if a \<noteq> b then Some (if a < b then -1 else 1)
      else if a = 0 then Some 0
      else strncmp as bs n)"
| "strncmp _ _ (Suc n) = None"

text \<open>\<open>strrchr0\<close> and \<open>strpbrk\<close> return \<open>Some None\<close> for a null pointer.\<close>

fun strrchr0 :: "bytes \<Rightarrow> u8 \<Rightarrow> nat option option" where
  "strrchr0 [] _ = None"
| "strrchr0 (b # bs) ch =
     (if b = 0 then Some None
      else if b = ch then Some (Some 0)
      else map_option (map_option Suc) (strrchr0 bs ch))"

fun in_cstr :: "u8 \<Rightarrow> bytes \<Rightarrow> bool option" where
  "in_cstr c [] = None"
| "in_cstr c (b # bs) = (if b = 0 then Some False else if c = b then Some True else in_cstr c bs)"

fun strpbrk :: "bytes \<Rightarrow> bytes \<Rightarrow> nat option option" where
  "strpbrk [] _ = None"
| "strpbrk (b # bs) ct =
     (if b = 0 then Some None
      else do { hit \<leftarrow> in_cstr b ct;
                if hit then Some (Some 0) else map_option (map_option Suc) (strpbrk bs ct) })"

text \<open>\<open>strstr\<close>: the loop of the code over the remaining length \<open>l1\<close> of \<open>s1\<close>.\<close>

fun strstr_loop :: "bytes \<Rightarrow> bytes \<Rightarrow> nat \<Rightarrow> nat \<Rightarrow> nat option option" where
  "strstr_loop s1 s2 l2 0 = (if l2 = 0 then None else Some None)"
| "strstr_loop s1 s2 l2 (Suc l1) =
     (if l2 \<le> Suc l1
      then do { r \<leftarrow> memcmp s1 s2 l2;
                if r = 0 then Some (Some 0)
                else map_option (map_option Suc) (strstr_loop (tl s1) s2 l2 l1) }
      else Some None)"

definition strstr :: "bytes \<Rightarrow> bytes \<Rightarrow> nat option option" where
  "strstr s1 s2 = do {
     l2 \<leftarrow> strlen s2;
     if l2 = 0 then Some (Some 0)
     else do { l1 \<leftarrow> strlen s1; strstr_loop s1 s2 l2 l1 } }"

section \<open>Writing\<close>

definition memset :: "bytes \<Rightarrow> u8 \<Rightarrow> nat \<Rightarrow> bytes option" where
  "memset s c count = put_bytes s 0 (replicate count c)"

definition memcpy :: "bytes \<Rightarrow> bytes \<Rightarrow> nat \<Rightarrow> bytes option" where
  "memcpy to from n = (if n \<le> length from then put_bytes to 0 (take n from) else None)"

definition strcpy :: "bytes \<Rightarrow> bytes \<Rightarrow> bytes option" where
  "strcpy dest src = do { n \<leftarrow> strlen src; put_bytes dest 0 (take n src @ [0]) }"

fun strncpy_bytes :: "bytes \<Rightarrow> nat \<Rightarrow> bytes option" where
  "strncpy_bytes _ 0 = Some []"
| "strncpy_bytes [] (Suc n) = None"
| "strncpy_bytes (b # bs) (Suc n) =
     (if b = 0 then Some (0 # replicate n 0) else map_option ((#) b) (strncpy_bytes bs n))"

definition strncpy :: "bytes \<Rightarrow> bytes \<Rightarrow> nat \<Rightarrow> bytes option" where
  "strncpy dest src count = do { w \<leftarrow> strncpy_bytes src count; put_bytes dest 0 w }"

text \<open>
  \<open>chrreplace\<close> does not advance after it has stored \<open>ch\<close>: it looks at the same byte again.
  Each step of the loop spends one unit of fuel; \<open>None\<close> is a loop that is still running.
\<close>

fun chrreplace_loop :: "nat \<Rightarrow> bytes \<Rightarrow> nat \<Rightarrow> u8 \<Rightarrow> u8 \<Rightarrow> bytes option" where
  "chrreplace_loop 0 s ptr search ch = None"
| "chrreplace_loop (Suc fuel) s ptr search ch =
     (if ptr \<ge> length s then None
      else if s ! ptr = 0 then Some s
      else if s ! ptr = search then chrreplace_loop fuel (s[ptr := ch]) ptr search ch
      else chrreplace_loop fuel s (Suc ptr) search ch)"

definition chrreplace :: "nat \<Rightarrow> bytes \<Rightarrow> u8 \<Rightarrow> u8 \<Rightarrow> bytes option" where
  "chrreplace fuel s search ch = chrreplace_loop fuel s 0 search ch"

text \<open>
  \<open>strsep(char **s, ct)\<close>: the pointer \<open>*s\<close> is an offset into the buffer (\<open>None\<close> when null).
  The result is the token's offset (\<open>None\<close> when null), the new \<open>*s\<close> and the new buffer.
\<close>

definition strsep :: "bytes \<Rightarrow> nat option \<Rightarrow> bytes \<Rightarrow> (nat option \<times> nat option \<times> bytes) option" where
  "strsep buf s ct =
     (case s of
        None \<Rightarrow> Some (None, None, buf)
      | Some sbegin \<Rightarrow> do {
          e \<leftarrow> strpbrk (drop sbegin buf) ct;
          (case e of
             None \<Rightarrow> Some (Some sbegin, None, buf)
           | Some k \<Rightarrow> Some (Some sbegin, Some (sbegin + k + 1), buf[sbegin + k := 0])) })"

section \<open>Null-terminated strings\<close>

text \<open>\<open>cstring s bs\<close>: the bytes at the pointer are the string \<open>s\<close>, its terminator, and more.\<close>

definition cstring :: "bytes \<Rightarrow> bytes \<Rightarrow> bool" where
  "cstring s bs \<longleftrightarrow> 0 \<notin> set s \<and> (\<exists>rest. bs = s @ 0 # rest)"

lemma cstringE [elim]:
  assumes "cstring s bs"
  obtains rest where "0 \<notin> set s" and "bs = s @ 0 # rest"
  using assms by (auto simp: cstring_def)

lemma strlen_cstring [simp]: "0 \<notin> set s \<Longrightarrow> strlen (s @ 0 # rest) = Some (length s)"
  by (induction s) auto

lemma strlen_Some_iff: "strlen bs = Some n \<longleftrightarrow> n < length bs \<and> cstring (take n bs) bs"
proof (induction bs arbitrary: n)
  case Nil
  then show ?case by simp
next
  case (Cons b bs)
  show ?case
  proof (cases "b = 0")
    case True
    then show ?thesis by (cases n) (auto simp: cstring_def)
  next
    case False
    with Cons.IH show ?thesis by (cases n) (auto simp: cstring_def)
  qed
qed

lemma strncpy_bytes_length: "strncpy_bytes src n = Some w \<Longrightarrow> length w = n"
  by (induction src n arbitrary: w rule: strncpy_bytes.induct) (auto split: if_splits)

lemma strncpy_bytes_short:
  "0 \<notin> set s \<Longrightarrow> length s < n \<Longrightarrow>
   strncpy_bytes (s @ 0 # rest) n = Some (s @ replicate (n - length s) 0)"
proof (induction s arbitrary: n)
  case Nil
  then show ?case by (cases n) auto
next
  case (Cons a s)
  then show ?case by (cases n) auto
qed

lemma strncpy_bytes_full:
  "0 \<notin> set (take n src) \<Longrightarrow> n \<le> length src \<Longrightarrow> strncpy_bytes src n = Some (take n src)"
  by (induction src n rule: strncpy_bytes.induct) auto

subsection \<open>Comparison\<close>

definition lower8 :: "u8 \<Rightarrow> u8" where
  "lower8 c = (if 65 \<le> c \<and> c \<le> 90 then c + 32 else c)"

lemma tolower_scast: "tolower (scast (c::u8)) = scast (lower8 c)"
proof -
  have "\<forall>c::u8. tolower (scast c) = scast (lower8 c)"
  proof
    fix c :: u8
    obtain n where c: "c = of_nat n" and n: "n < 256"
      by (cases c) auto
    have "\<forall>n\<in>set [0..<256]. tolower (scast (of_nat n :: u8)) = scast (lower8 (of_nat n))"
      by code_simp
    with n c show "tolower (scast c) = scast (lower8 c)" by simp
  qed
  then show ?thesis by simp
qed

lemma scast8_inj: "(scast (a::u8) :: u32) = scast b \<longleftrightarrow> a = b"
proof
  assume eq: "(scast a :: u32) = scast b"
  show "a = b"
  proof (rule bit_word_eqI)
    fix n assume "n < LENGTH(8)"
    moreover have "bit (scast a :: u32) n = bit (scast b :: u32) n" by (simp add: eq)
    ultimately show "bit a n = bit b n" by (simp add: bit_simps)
  qed
qed simp

text \<open>
  \<open>_strncasecmp\<close> answers 0 also when one string is a proper prefix of the other; together
  with equal lengths, which its callers check first, it decides equality up to case.
\<close>

lemma u_strncasecmp_zero_iff:
  assumes "0 \<notin> set s" and "0 \<notin> set t" and "length s < 2 ^ 32"
  shows "u_strncasecmp (s @ 0 # r) (t @ 0 # r') (of_nat (length s)) = Some 0
         \<longleftrightarrow> map lower8 (take (length t) s) = map lower8 (take (length s) t)"
  using assms
proof (induction s arbitrary: t)
  case Nil
  then show ?case by (cases t) auto
next
  case (Cons a s)
  show ?case
  proof (cases t)
    case Nil
    with Cons.prems show ?thesis by simp
  next
    case (Cons b t')
    have len: "length (a # s) < 2 ^ 32" using Cons.prems by simp
    have n0: "(of_nat (length (a # s)) :: u32) \<noteq> 0"
      using of_nat_u32_eq_0 [OF len] by (simp del: of_nat_Suc)
    have dec: "(of_nat (length (a # s)) :: u32) - 1 = of_nat (length s)" by simp
    have low: "tolower (scast a) = tolower (scast b) \<longleftrightarrow> lower8 a = lower8 b"
      by (simp add: tolower_scast scast8_inj)
    have ne: "lower8 a \<noteq> lower8 b \<Longrightarrow> sint a - sint b \<noteq> 0"
      by (metis eq_iff_diff_eq_0 signed_word_eqI)
    show ?thesis
      using Cons.prems Cons.IH [of t'] low ne n0 dec by (auto simp: Cons)
  qed
qed

subsection \<open>Searching\<close>

lemma strrchr0_cstring:
  "0 \<notin> set s \<Longrightarrow>
   strrchr0 (s @ 0 # r) ch =
     Some (if ch \<in> set s then Some (length (takeWhile (\<lambda>c. c \<noteq> ch) s)) else None)"
  by (induction s) auto

lemma in_cstr_cstring: "0 \<notin> set ct \<Longrightarrow> in_cstr c (ct @ 0 # r) = Some (c \<in> set ct)"
  by (induction ct) auto

lemma strpbrk_cstring:
  assumes "0 \<notin> set s" and "0 \<notin> set ct"
  shows "strpbrk (s @ 0 # r) (ct @ 0 # r') =
     Some (if set s \<inter> set ct = {} then None else Some (length (takeWhile (\<lambda>c. c \<notin> set ct) s)))"
  using assms by (induction s) (auto simp: in_cstr_cstring)

text \<open>\<open>strsep\<close> cuts the string at the first delimiter: the token, and the rest of the string.\<close>

lemma strsep_cut:
  assumes "0 \<notin> set tok" and "set tok \<inter> set ct = {}" and "d \<in> set ct" and "0 \<notin> set ct"
    and "0 \<notin> set more"
  shows "strsep (pre @ tok @ d # more @ 0 # r) (Some (length pre)) (ct @ 0 # r') =
     Some (Some (length pre), Some (length pre + length tok + 1), pre @ tok @ 0 # more @ 0 # r)"
proof -
  have d0: "d \<noteq> 0" using assms by auto
  have tw: "takeWhile (\<lambda>c. c \<notin> set ct) (tok @ d # more) = tok"
    using assms(2,3) by (subst takeWhile_append2) auto
  have "strpbrk ((tok @ d # more) @ 0 # r) (ct @ 0 # r') = Some (Some (length tok))"
    using assms d0 by (subst strpbrk_cstring) (auto simp: tw)
  then show ?thesis
    by (simp add: strsep_def list_update_append)
qed

lemma strsep_last:
  assumes "0 \<notin> set tok" and "set tok \<inter> set ct = {}" and "0 \<notin> set ct"
  shows "strsep (pre @ tok @ 0 # r) (Some (length pre)) (ct @ 0 # r') =
     Some (Some (length pre), None, pre @ tok @ 0 # r)"
  using strpbrk_cstring [OF assms(1,3), of r r'] assms(2) by (simp add: strsep_def)

subsection \<open>Replacing\<close>

lemma chrreplace_loop_returns:
  assumes "search \<noteq> ch" and "ch \<noteq> 0" and "0 \<notin> set s" and "2 * length s < fuel"
  shows "chrreplace_loop fuel (pre @ s @ 0 # r) (length pre) search ch =
     Some (pre @ map (\<lambda>c. if c = search then ch else c) s @ 0 # r)"
  using assms
proof (induction s arbitrary: fuel pre)
  case Nil
  then show ?case by (cases fuel) auto
next
  case (Cons c s)
  then obtain f where f: "fuel = Suc (Suc f)" "2 * length s < f"
    by (cases fuel; cases "fuel - 1") auto
  have shift: "chrreplace_loop g (pre @ x # s @ 0 # r) (Suc (length pre)) search ch =
      Some (pre @ x # map (\<lambda>c. if c = search then ch else c) s @ 0 # r)" if "2 * length s < g" for g x
    using Cons.IH [of g "pre @ [x]"] Cons.prems that by simp
  show ?case
    using Cons.prems f shift [of f ch] shift [of "Suc f" c]
    by (auto simp: nth_append list_update_append)
qed

lemma chrreplace_loop_spins:
  assumes "c \<noteq> 0" and "ptr < length s" and "s ! ptr = c"
  shows "chrreplace_loop fuel s ptr c c = None"
  using assms by (induction fuel) (auto simp: list_update_same_conv)

lemma chrreplace_loop_reaches:
  assumes "c \<in> set s" and "0 \<notin> set s"
  shows "chrreplace_loop fuel (pre @ s @ r) (length pre) c c = None"
  using assms
proof (induction s arbitrary: fuel pre)
  case Nil
  then show ?case by simp
next
  case (Cons a s)
  show ?case
  proof (cases "a = c")
    case True
    with Cons.prems show ?thesis by (intro chrreplace_loop_spins) (auto simp: nth_append)
  next
    case False
    with Cons.prems Cons.IH [of "fuel - 1" "pre @ [a]"] show ?thesis
      by (cases fuel) (auto simp: nth_append)
  qed
qed

text \<open>
  \<open>chrreplace\<close> replaces every occurrence of a character by another non-null one and
  returns, whatever the string.
\<close>

lemma chrreplace_replaces:
  assumes "search \<noteq> ch" and "ch \<noteq> 0" and "0 \<notin> set s"
  shows "chrreplace (2 * length s + 1) (s @ 0 # r) search ch =
     Some (map (\<lambda>c. if c = search then ch else c) s @ 0 # r)"
  using chrreplace_loop_returns [OF assms, of "2 * length s + 1" "[]" r]
  by (simp add: chrreplace_def)

lemma chrreplace_replaces_example:
  "chrreplace 7 [97, 92, 98, 0, 5] 92 47 = Some [97, 47, 98, 0, 5]"
  using chrreplace_replaces [of 92 47 "[97, 92, 98]" "[5]"] by simp

text \<open>
  C40. Called with the same character twice, \<open>chrreplace\<close> never returns on a string that
  contains it: it stores the character and looks at the same byte again, for ever.
\<close>

theorem chrreplace_same_hangs:
  assumes "c \<in> set s" and "0 \<notin> set s"
  shows "chrreplace fuel (s @ 0 # r) c c = None"
  using chrreplace_loop_reaches [OF assms, of fuel "[]" "0 # r"] by (simp add: chrreplace_def)

theorem chrreplace_same_hangs_witness: "chrreplace 1000 [97, 47, 98, 0] 47 47 = None"
  using chrreplace_same_hangs [of 47 "[97, 47, 98]" 1000 "[]"] by simp

end
