(* ===== verification/MemMgr.thy ===== *)
theory MemMgr
  imports Prelude
begin

text \<open>
  The memory manager of \<open>lib/misc/BootLibrary.c\<close>: a pool of clusters of 0x4000 bytes with a
  table of one byte per cluster, \<open>t_malloc\<close> and \<open>t_free\<close> over that table, and \<open>malloc\<close> and
  \<open>free\<close>, which put an eight-byte header in front of the block they hand out.

  The table is the first cluster of the pool, 0x4000 bytes, of which the code uses the first
  0x400 as cluster states. The header words live in the block itself; they are the map
  \<open>header\<close> from addresses to 32-bit words. \<open>cli\<close> and \<open>sti\<close> are not modelled.
\<close>

record heap =
  MemoryManagerStartAddress :: u32
  memsmall :: bytes
  header :: "u32 \<Rightarrow> u32"

section \<open>Operations\<close>

definition MemoryManagerGetFree :: "heap \<Rightarrow> nat" where
  "MemoryManagerGetFree h = length (filter (\<lambda>c. memsmall h ! c = 0) [0..<0x400])"

definition MemoryManagementInitialization :: "heap \<Rightarrow> u32 \<Rightarrow> u32 \<Rightarrow> heap" where
  "MemoryManagementInitialization h pvStartAddress dwTotalMemoryAllocLength =
     h\<lparr>MemoryManagerStartAddress := pvStartAddress,
       memsmall := (replicate 0x4000 0)[0 := 0xff]\<rparr>"

definition mark :: "bytes \<Rightarrow> nat \<Rightarrow> bytes \<Rightarrow> bytes" where
  "mark t c bs = take c t @ bs @ drop (c + length bs) t"

definition cluster_address :: "heap \<Rightarrow> nat \<Rightarrow> u32" where
  "cluster_address h c = MemoryManagerStartAddress h + of_nat c * 0x4000"

definition big_mark :: "nat \<Rightarrow> bytes" where
  "big_mark n = (((replicate n 0xFF)[0 := 0xBB])[1 := 0xCC])[n - 2 := 0xCC, n - 1 := 0xBB]"

text \<open>The three size classes search the table from cluster 1 for the first fit.\<close>

definition t_malloc :: "heap \<Rightarrow> u32 \<Rightarrow> u32 \<times> heap" where
  "t_malloc h sz =
     (if sz < 0x4000 + 1 then
        (case find (\<lambda>c. memsmall h ! c = 0) [1..<0x400] of
           Some c \<Rightarrow> (cluster_address h c, h\<lparr>memsmall := mark (memsmall h) c [0xAA]\<rparr>)
         | None \<Rightarrow> (0, h))
      else if sz < 0x10000 + 1 then
        (case find (\<lambda>c. slice c 4 (memsmall h) = le32_bytes 0) [1..<0x400] of
           Some c \<Rightarrow> (cluster_address h c,
                       h\<lparr>memsmall := mark (memsmall h) c (le32_bytes 0xB8BADCFE)\<rparr>)
         | None \<Rightarrow> (0, h))
      else if sz < 5 * 1024 * 1024 + 1 then
        (let temp = (sz AND 0xffffc000) + 0x4000;
             needsectory = unat (temp div 0x4000)
         in case find (\<lambda>c. \<forall>b\<in>set [0..<needsectory]. memsmall h ! (c + b) = 0) [1..<0x400] of
              Some c \<Rightarrow> (cluster_address h c,
                          h\<lparr>memsmall := mark (memsmall h) c (big_mark needsectory)\<rparr>)
            | None \<Rightarrow> (0, h))
      else (0, h))"

function free_big :: "bytes \<Rightarrow> nat \<Rightarrow> bytes" where
  "free_big t counter =
     (if counter < 0x400 then
        if t ! counter = 0xCC \<and> t ! (counter + 1) = 0xBB
        then t[counter := 0, counter + 1 := 0]
        else free_big (t[counter := 0]) (counter + 1)
      else t)"
  by pat_completeness auto
termination by (relation "measure (\<lambda>(t, counter). 0x400 - counter)") auto

declare free_big.simps [simp del]

text \<open>A pointer whose cluster index lies outside the table makes the code read past it.\<close>

definition t_free :: "heap \<Rightarrow> u32 \<Rightarrow> heap option" where
  "t_free h ptr =
     (let temp = ptr - MemoryManagerStartAddress h in
      if (temp AND 0xffffc000) = temp then
        (let c = unat (temp div 0x4000); t = memsmall h in
         if c + 3 < length t then
           if t ! c = 0xAA then Some (h\<lparr>memsmall := t[c := 0]\<rparr>)
           else if slice c 4 t = le32_bytes 0xB8BADCFE
           then Some (h\<lparr>memsmall := mark t c (replicate 4 0)\<rparr>)
           else if slice c 4 t = le32_bytes 0xFFFFCCBB
           then Some (h\<lparr>memsmall := free_big t c\<rparr>)
           else Some h
         else None)
      else Some h)"

definition malloc :: "heap \<Rightarrow> u32 \<Rightarrow> u32 \<times> heap" where
  "malloc h sz =
     (let temp = (sz + 0x200) AND 0xffffff00;
          (block, h1) = t_malloc h temp;
          user = (block + 0x100) AND 0xffffff00
      in (user, h1\<lparr>header := (header h1)(user - 8 := block, user - 4 := 0x1234567)\<rparr>))"

definition mfree :: "heap \<Rightarrow> u32 \<Rightarrow> heap option" where
  "mfree h ptr =
     (if ptr = 0 then Some h
      else if header h (ptr - 4) \<noteq> 0x1234567 then Some h
      else t_free h (header h (ptr - 8)))"

section \<open>The table as a sequence of blocks\<close>

text \<open>
  What the bytes of the table mean: the clusters are free or belong to a block of one, four
  or \<open>n\<close> clusters, each block marked by its pattern. A table is well formed when it is the
  reserved first byte followed by such patterns.
\<close>

datatype block = Free | Small | Mid | Big nat

fun pattern :: "block \<Rightarrow> bytes" where
  "pattern Free = [0]"
| "pattern Small = [0xAA]"
| "pattern Mid = [0xFE, 0xDC, 0xBA, 0xB8]"
| "pattern (Big n) = 0xBB # 0xCC # replicate (n - 4) 0xFF @ [0xCC, 0xBB]"

fun good_block :: "block \<Rightarrow> bool" where
  "good_block (Big n) = (5 \<le> n)"
| "good_block _ = True"

definition table_of :: "block list \<Rightarrow> bytes" where
  "table_of bs = 0xff # concat (map pattern bs)"

definition wf_heap :: "block list \<Rightarrow> heap \<Rightarrow> bool" where
  "wf_heap bs h \<longleftrightarrow> list_all good_block bs \<and> memsmall h = table_of bs
     \<and> length (memsmall h) = 0x4000"

lemma wf_heap_length: "wf_heap bs h \<Longrightarrow> length (memsmall h) = 0x4000"
  by (auto simp: wf_heap_def)

lemma le32_bytes_0 [simp]: "le32_bytes 0 = [0, 0, 0, 0]"
  by (simp add: le32_bytes_def)

lemma le32_bytes_mid [simp]: "le32_bytes 0xB8BADCFE = pattern Mid"
  by (simp add: le32_bytes_def)

lemma le32_bytes_big [simp]: "le32_bytes 0xFFFFCCBB = [0xBB, 0xCC, 0xFF, 0xFF]"
  by (simp add: le32_bytes_def)

lemma replicate_plus_4: "replicate (m + 4) x = x # x # replicate m x @ [x, x]"
  by (induction m) (auto simp: numeral_eq_Suc)

lemma big_mark_pattern:
  assumes "5 \<le> n" shows "big_mark n = pattern (Big n)"
proof -
  have "n = (n - 4) + 4" using assms by simp
  then obtain m where n: "n = m + 4" by blast
  show ?thesis
    unfolding big_mark_def n replicate_plus_4 by (simp add: list_update_append)
qed

lemma length_pattern_Big: "5 \<le> n \<Longrightarrow> length (pattern (Big n)) = n"
  by simp

lemma pattern_no_zero: "b \<noteq> Free \<Longrightarrow> 0 \<notin> set (pattern b)"
  by (cases b) auto

lemma pattern_nonempty [simp]: "pattern b \<noteq> []"
  by (cases b) auto

text \<open>A run of free clusters in the table is a run of free blocks.\<close>

lemma split_at_zero:
  assumes "concat (map pattern bs) = pre @ 0 # post"
  shows "\<exists>xs ys. bs = xs @ Free # ys \<and> concat (map pattern xs) = pre
           \<and> concat (map pattern ys) = post"
  using assms
proof (induction bs arbitrary: pre)
  case Nil
  then show ?case by simp
next
  case (Cons b bs)
  show ?case
  proof (cases "b = Free \<and> pre = []")
    case True
    with Cons.prems show ?thesis by (intro exI [of _ "[]"] exI [of _ bs]) auto
  next
    case False
    have "\<exists>us. pre = pattern b @ us \<and> concat (map pattern bs) = us @ 0 # post"
    proof -
      from Cons.prems have "pattern b @ concat (map pattern bs) = pre @ 0 # post" by simp
      then consider us where "pattern b = pre @ us" "us @ concat (map pattern bs) = 0 # post"
        | us where "pattern b @ us = pre" "concat (map pattern bs) = us @ 0 # post"
        by (auto simp: append_eq_append_conv2)
      then show ?thesis
      proof cases
        case (1 us)
        show ?thesis
        proof (cases us)
          case Nil
          with 1 show ?thesis by auto
        next
          case (Cons u us')
          with 1 have "0 \<in> set (pattern b)" by auto
          then have "b = Free" using pattern_no_zero by blast
          with 1 Cons False show ?thesis by (cases pre) auto
        qed
      qed auto
    qed
    then obtain us where us: "pre = pattern b @ us" "concat (map pattern bs) = us @ 0 # post"
      by blast
    with Cons.IH obtain xs ys where "bs = xs @ Free # ys" "concat (map pattern xs) = us"
      "concat (map pattern ys) = post" by blast
    with us show ?thesis by (intro exI [of _ "b # xs"] exI [of _ ys]) auto
  qed
qed

lemma split_at_zeros:
  assumes "concat (map pattern bs) = pre @ replicate k 0 @ post" and "0 < k"
  shows "\<exists>xs ys. bs = xs @ replicate k Free @ ys \<and> concat (map pattern xs) = pre
           \<and> concat (map pattern ys) = post"
  using assms
proof (induction k arbitrary: bs pre)
  case 0
  then show ?case by simp
next
  case (Suc k)
  from split_at_zero [of bs pre "replicate k 0 @ post"] Suc.prems(1)
  obtain xs ys where xy: "bs = xs @ Free # ys" "concat (map pattern xs) = pre"
    "concat (map pattern ys) = replicate k 0 @ post" by auto
  show ?case
  proof (cases "k = 0")
    case True
    with xy show ?thesis by (intro exI [of _ xs] exI [of _ ys]) auto
  next
    case False
    with Suc.IH [of ys "[]"] xy obtain us vs where uv: "ys = us @ replicate k Free @ vs"
      "concat (map pattern us) = []" "concat (map pattern vs) = post" by auto
    then have "us = []" by (cases us) auto
    with xy uv show ?thesis by (intro exI [of _ xs] exI [of _ vs]) auto
  qed
qed

section \<open>Allocation\<close>

lemma find_SomeD: "find P xs = Some x \<Longrightarrow> P x \<and> x \<in> set xs"
  by (induction xs) (auto split: if_splits)

lemma mask_cluster: "(w :: u32) AND 0xffffc000 = w AND NOT (mask 14)"
proof -
  have "(0xffffc000 :: u32) = NOT (mask 14)" by code_simp
  then show ?thesis by simp
qed

text \<open>The number of clusters the code computes for a big block.\<close>

definition big_clusters :: "u32 \<Rightarrow> nat" where
  "big_clusters sz = unat (((sz AND 0xffffc000) + 0x4000) div 0x4000)"

lemma big_clusters_eq:
  assumes "sz < 5 * 1024 * 1024 + 1"
  shows "big_clusters sz = unat sz div 0x4000 + 1"
proof -
  have sz: "unat sz < 5242881" using assms by (simp add: word_less_nat_alt)
  have r: "unat (sz AND 0xffffc000) = unat sz div 0x4000 * 0x4000"
    unfolding mask_cluster unat_and_not_mask_u32 by simp
  also have "\<dots> \<le> unat sz" by simp
  finally have "unat ((sz AND 0xffffc000) + 0x4000) = unat sz div 0x4000 * 0x4000 + 0x4000"
    using sz by (subst unat_add_lem [THEN iffD1]) (auto simp: r)
  then show ?thesis
    by (simp add: big_clusters_def unat_div)
qed

lemma alloc_block:
  assumes wf: "wf_heap bs h" and c: "1 \<le> c" "c + k \<le> length (memsmall h)" and k: "0 < k"
    and free: "\<And>b. b < k \<Longrightarrow> memsmall h ! (c + b) = 0"
    and nb: "length (pattern nb) = k" "good_block nb"
  shows "\<exists>xs ys. bs = xs @ replicate k Free @ ys \<and> length (table_of xs) = c
           \<and> wf_heap (xs @ nb # ys) (h\<lparr>memsmall := mark (memsmall h) c (pattern nb)\<rparr>)"
proof -
  define C where "C = concat (map pattern bs)"
  obtain i where i: "c = Suc i" using c(1) by (cases c) auto
  have tab: "memsmall h = 0xff # C" using wf by (simp add: wf_heap_def table_of_def C_def)
  have len: "i + k \<le> length C" using c(2) by (simp add: tab i)
  have "take k (drop i C) = replicate k 0"
    using free len by (intro nth_equalityI) (auto simp: tab i)
  then have "C = take i C @ replicate k 0 @ drop (i + k) C"
    by (metis append_take_drop_id drop_drop add.commute)
  with split_at_zeros [of bs "take i C" k] k obtain xs ys where
    xy: "bs = xs @ replicate k Free @ ys" "concat (map pattern xs) = take i C"
      "concat (map pattern ys) = drop (i + k) C"
    unfolding C_def by metis
  have "mark (memsmall h) c (pattern nb) = table_of (xs @ nb # ys)"
    by (simp add: mark_def tab i nb(1) table_of_def xy)
  moreover have "length (table_of xs) = c" using len by (simp add: table_of_def xy i)
  moreover have "length (mark (memsmall h) c (pattern nb)) = length (memsmall h)"
    using c(2) nb(1) by (simp add: mark_def)
  ultimately show ?thesis
    using wf nb(2) xy(1) by (intro exI [of _ xs] exI [of _ ys]) (auto simp: wf_heap_def)
qed

text \<open>
  What a successful allocation does: a run of free clusters, large enough for the request,
  becomes one block, everything else keeps its state, and the result is that run's address.
\<close>

definition block_for :: "u32 \<Rightarrow> block" where
  "block_for sz =
     (if sz < 0x4000 + 1 then Small else if sz < 0x10000 + 1 then Mid
      else Big (unat sz div 0x4000 + 1))"

definition allocated :: "block list \<Rightarrow> heap \<Rightarrow> u32 \<Rightarrow> u32 \<Rightarrow> heap \<Rightarrow> block list \<Rightarrow> block \<Rightarrow> block list \<Rightarrow> bool"
  where
  "allocated bs h sz p h' xs nb ys \<longleftrightarrow>
     bs = xs @ replicate (length (pattern nb)) Free @ ys
     \<and> wf_heap (xs @ nb # ys) h' \<and> h' = h\<lparr>memsmall := table_of (xs @ nb # ys)\<rparr>
     \<and> length (table_of xs) < 0x400 \<and> nb \<noteq> Free
     \<and> p = cluster_address h (length (table_of xs))
     \<and> unat sz \<le> length (pattern nb) * 0x4000"

lemma allocatedI:
  assumes wf: "wf_heap bs h" and c: "1 \<le> c" "c < 0x400" "c + length (pattern nb) \<le> 0x4000"
    and free: "\<And>b. b < length (pattern nb) \<Longrightarrow> memsmall h ! (c + b) = 0"
    and nb: "good_block nb" "nb \<noteq> Free" and sz: "unat sz \<le> length (pattern nb) * 0x4000"
  shows "\<exists>xs ys. allocated bs h sz (cluster_address h c)
           (h\<lparr>memsmall := mark (memsmall h) c (pattern nb)\<rparr>) xs nb ys"
proof -
  have "c + length (pattern nb) \<le> length (memsmall h)" using wf c(3) by (auto simp: wf_heap_def)
  with alloc_block [OF wf c(1) this _ free refl nb(1)] obtain xs ys where
    "bs = xs @ replicate (length (pattern nb)) Free @ ys" "length (table_of xs) = c"
    "wf_heap (xs @ nb # ys) (h\<lparr>memsmall := mark (memsmall h) c (pattern nb)\<rparr>)" by auto
  with nb sz c(2) show ?thesis
    by (intro exI [of _ xs] exI [of _ ys]) (auto simp: allocated_def wf_heap_def)
qed

lemma allocated_find:
  assumes wf: "wf_heap bs h" and nb: "good_block nb" "nb \<noteq> Free" "length (pattern nb) \<le> 0x1000"
    and sz: "unat sz \<le> length (pattern nb) * 0x4000"
    and free: "\<And>c b. P c \<Longrightarrow> b < length (pattern nb) \<Longrightarrow> memsmall h ! (c + b) = 0"
    and eq: "(case find P [1..<0x400] of
          Some c \<Rightarrow> (cluster_address h c, h\<lparr>memsmall := mark (memsmall h) c (pattern nb)\<rparr>)
        | None \<Rightarrow> (0, h)) = (p, h')"
  shows "(p = 0 \<and> h' = h) \<or> (\<exists>xs ys. allocated bs h sz p h' xs nb ys)"
proof (cases "find P [1..<0x400]")
  case None
  with eq show ?thesis by simp
next
  case (Some c)
  then have c: "P c" "1 \<le> c" "c < 0x400" by (auto dest!: find_SomeD)
  have "c + length (pattern nb) \<le> 0x4000" using c(3) nb(3) by simp
  from allocatedI [OF wf c(2,3) this free [OF c(1)] nb(1,2) sz] eq Some
  show ?thesis by auto
qed

lemma slice4_zero:
  assumes "slice c 4 t = [0, 0, 0, 0]" and "b < 4" shows "t ! (c + b) = 0"
proof -
  have "c + b < length t" using assms length_slice [of c 4 t] by simp
  then have "t ! (c + b) = slice c 4 t ! b"
    using assms(2) by (simp add: slice_def)
  also have "\<dots> = 0" using assms by (auto simp: less_Suc_eq numeral_eq_Suc)
  finally show ?thesis .
qed

lemma slice4_length: "slice c 4 t = [w, x, y, z] \<Longrightarrow> c + 4 \<le> length t"
  using length_slice [of c 4 t] by simp

lemma t_malloc_allocates:
  assumes wf: "wf_heap bs h" and eq: "t_malloc h sz = (p, h')"
  shows "(p = 0 \<and> h' = h) \<or> (\<exists>xs ys. allocated bs h sz p h' xs (block_for sz) ys)"
proof -
  have huge_none: "p = 0 \<and> h' = h" if "\<not> sz < 5 * 1024 * 1024 + 1"
  proof -
    have "\<not> sz < 0x4000 + 1" "\<not> sz < 0x10000 + 1"
      using that by (auto simp: word_less_nat_alt)
    with eq that show ?thesis by (simp add: t_malloc_def)
  qed
  consider (small) "sz < 0x4000 + 1" | (mid) "\<not> sz < 0x4000 + 1" "sz < 0x10000 + 1"
    | (big) "\<not> sz < 0x4000 + 1" "\<not> sz < 0x10000 + 1" "sz < 5 * 1024 * 1024 + 1"
    | (huge) "\<not> sz < 5 * 1024 * 1024 + 1" by blast
  then show ?thesis
  proof cases
    case small
    then have "unat sz \<le> length (pattern Small) * 0x4000" by (simp add: word_less_nat_alt)
    moreover from eq small have "(case find (\<lambda>c. memsmall h ! c = 0) [1..<0x400] of
        Some c \<Rightarrow> (cluster_address h c, h\<lparr>memsmall := mark (memsmall h) c (pattern Small)\<rparr>)
      | None \<Rightarrow> (0, h)) = (p, h')" by (simp add: t_malloc_def cong: option.case_cong)
    moreover have bf: "block_for sz = Small" using small by (simp add: block_for_def)
    ultimately show ?thesis unfolding bf by (intro allocated_find [OF wf]) auto
  next
    case mid
    then have "unat sz \<le> length (pattern Mid) * 0x4000" by (simp add: word_less_nat_alt)
    moreover from eq mid have
      "(case find (\<lambda>c. slice c 4 (memsmall h) = [0, 0, 0, 0]) [1..<0x400] of
        Some c \<Rightarrow> (cluster_address h c, h\<lparr>memsmall := mark (memsmall h) c (pattern Mid)\<rparr>)
      | None \<Rightarrow> (0, h)) = (p, h')" by (simp add: t_malloc_def cong: option.case_cong)
    moreover have bf: "block_for sz = Mid" using mid by (simp add: block_for_def)
    ultimately show ?thesis unfolding bf
      by (intro allocated_find [OF wf]) (auto intro: slice4_zero)
  next
    case big
    define n where "n = big_clusters sz"
    have n: "n = unat sz div 0x4000 + 1" by (simp add: n_def big_clusters_eq [OF big(3)])
    have sz: "65536 < unat sz" "unat sz < 5242881"
      using big by (auto simp: word_less_nat_alt)
    then have n5: "5 \<le> n" "n \<le> 0x141" unfolding n by auto
    have len: "length (pattern (Big n)) = n" using n5 by simp
    have szn: "unat sz \<le> length (pattern (Big n)) * 0x4000" unfolding len n by simp
    have e: "unat (((sz AND 0xffffc000) + 0x4000) div 0x4000) = n"
      by (simp add: n_def big_clusters_def)
    from eq big have "(case find (\<lambda>c. \<forall>b\<in>set [0..<n]. memsmall h ! (c + b) = 0) [1..<0x400] of
        Some c \<Rightarrow> (cluster_address h c, h\<lparr>memsmall := mark (memsmall h) c (pattern (Big n))\<rparr>)
      | None \<Rightarrow> (0, h)) = (p, h')"
      unfolding big_mark_pattern [OF n5(1), symmetric] by (simp add: t_malloc_def Let_def e cong: option.case_cong)
    moreover have bf: "block_for sz = Big n" using big by (simp add: block_for_def n)
    ultimately show ?thesis unfolding bf
      using n5 szn len by (intro allocated_find [OF wf]) (auto simp del: pattern.simps)
  next
    case huge
    with huge_none show ?thesis by blast
  qed
qed

section \<open>Release\<close>

lemma free_big_tail:
  assumes "length A + m < 0x400"
  shows "free_big (A @ replicate m 0xFF @ 0xCC # 0xBB # B) (length A) = A @ replicate (m + 2) 0 @ B"
  using assms
proof (induction m arbitrary: A)
  case 0
  then show ?case by (subst free_big.simps) (simp add: nth_append list_update_append numeral_eq_Suc)
next
  case (Suc m)
  have "free_big (A @ replicate (Suc m) 0xFF @ 0xCC # 0xBB # B) (length A)
      = free_big ((A @ [0]) @ replicate m 0xFF @ 0xCC # 0xBB # B) (length (A @ [0]))"
    using Suc.prems by (subst free_big.simps) (simp add: nth_append list_update_append)
  also have "\<dots> = (A @ [0]) @ replicate (m + 2) 0 @ B"
    using Suc.prems by (intro Suc.IH) simp
  finally show ?case by simp
qed

lemma free_big_block:
  assumes "length A + n \<le> 0x400" and "5 \<le> n"
  shows "free_big (A @ pattern (Big n) @ B) (length A) = A @ replicate n 0 @ B"
proof -
  obtain m where n: "n = Suc m + 4" using assms(2) by (metis add.commute add_Suc_right le_Suc_ex
        numeral_eq_Suc pred_numeral_simps(3) plus_nat.simps(2))
  have "free_big (A @ pattern (Big n) @ B) (length A)
      = free_big ((A @ [0]) @ 0xCC # 0xFF # replicate m 0xFF @ 0xCC # 0xBB # B) (length (A @ [0]))"
    using assms(1) by (subst free_big.simps) (simp add: n nth_append list_update_append)
  also have "\<dots> = free_big ((A @ [0, 0]) @ replicate (Suc m) 0xFF @ 0xCC # 0xBB # B) (length (A @ [0, 0]))"
    using assms(1) by (subst free_big.simps) (simp add: n nth_append list_update_append)
  also have "\<dots> = (A @ [0, 0]) @ replicate (Suc m + 2) 0 @ B"
    using assms(1) by (intro free_big_tail) (simp add: n)
  finally show ?thesis by (simp add: n numeral_eq_Suc)
qed

lemma cluster_index:
  assumes "c < 0x400"
  shows "((cluster_address h c - MemoryManagerStartAddress h) AND 0xffffc000)
           = cluster_address h c - MemoryManagerStartAddress h"
    and "unat ((cluster_address h c - MemoryManagerStartAddress h) div 0x4000) = c"
proof -
  let ?t = "cluster_address h c - MemoryManagerStartAddress h"
  have e: "?t = of_nat (c * 0x4000)" by (simp add: cluster_address_def)
  have t: "unat ?t = c * 0x4000" unfolding e using assms by (intro unat_of_nat_u32) simp
  then show "unat (?t div 0x4000) = c" by (simp add: unat_div)
  show "(?t AND 0xffffc000) = ?t"
    using t by (intro word_unat_eq_iff [THEN iffD2])
      (simp add: mask_cluster unat_and_not_mask_u32)
qed

definition releasable :: "nat \<Rightarrow> block \<Rightarrow> bool" where
  "releasable c nb \<longleftrightarrow> (case nb of Big n \<Rightarrow> 6 \<le> n \<and> c + n \<le> 0x400 | Free \<Rightarrow> False | _ \<Rightarrow> True)"

lemma table_of_split: "table_of (xs @ nb # ys) = table_of xs @ pattern nb @ concat (map pattern ys)"
  by (simp add: table_of_def)

lemma table_of_free: "table_of (xs @ replicate k Free @ ys) =
    table_of xs @ replicate k 0 @ concat (map pattern ys)"
  by (induction k) (auto simp: table_of_def)

lemma t_free_block:
  assumes wf: "wf_heap (xs @ nb # ys) h" and c: "length (table_of xs) < 0x400"
    and rel: "releasable (length (table_of xs)) nb"
  shows "t_free h (cluster_address h (length (table_of xs))) =
     Some (h\<lparr>memsmall := table_of (xs @ replicate (length (pattern nb)) Free @ ys)\<rparr>)"
proof -
  let ?c = "length (table_of xs)"
  have t: "memsmall h = table_of xs @ pattern nb @ concat (map pattern ys)"
    using wf by (simp add: wf_heap_def table_of_split)
  have len: "length (memsmall h) = 0x4000" using wf by (rule wf_heap_length)
  have inb: "?c + 3 < length (memsmall h)" using c len by simp
  show ?thesis
  proof (cases nb)
    case Free
    with rel show ?thesis by (simp add: releasable_def)
  next
    case Small
    with inb show ?thesis
      by (simp add: t_free_def Let_def cluster_index [OF c] t table_of_free
          nth_append list_update_append) (simp add: table_of_def)
  next
    case Mid
    with inb show ?thesis
      by (simp add: t_free_def Let_def cluster_index [OF c] t table_of_free
          nth_append slice_def mark_def) (simp add: table_of_def numeral_eq_Suc)
  next
    case (Big n)
    with rel have n: "6 \<le> n" "?c + n \<le> 0x400" by (auto simp: releasable_def)
    define m where "m = n - 6"
    have n6: "n = m + 6" using n(1) by (simp add: m_def)
    have pat: "pattern (Big n) = 0xBB # 0xCC # 0xFF # 0xFF # replicate m 0xFF @ [0xCC, 0xBB]"
      by (simp add: n6 numeral_eq_Suc)
    have "free_big (memsmall h) ?c = table_of xs @ replicate n 0 @ concat (map pattern ys)"
      using n unfolding t Big by (intro free_big_block) auto
    moreover have "slice ?c 4 (memsmall h) = [0xBB, 0xCC, 0xFF, 0xFF]" "memsmall h ! ?c = 0xBB"
      by (simp_all add: t Big pat slice_def nth_append del: pattern.simps)
    moreover have "length (pattern (Big n)) = n" using n(1) by simp
    ultimately show ?thesis
      using inb unfolding Big table_of_free
      by (simp add: t_free_def Let_def cluster_index [OF c] del: pattern.simps(4))
  qed
qed

text \<open>A block of exactly five clusters carries a pattern that \<open>t_free\<close> does not know.\<close>

lemma t_free_five:
  assumes wf: "wf_heap (xs @ Big 5 # ys) h" and c: "length (table_of xs) < 0x400"
  shows "t_free h (cluster_address h (length (table_of xs))) = Some h"
proof -
  let ?c = "length (table_of xs)"
  have t: "memsmall h = table_of xs @ [0xBB, 0xCC, 0xFF, 0xCC, 0xBB] @ concat (map pattern ys)"
    using wf by (simp add: wf_heap_def table_of_split)
  have "?c + 3 < length (memsmall h)" using c wf_heap_length [OF wf] by simp
  then show ?thesis
    by (simp add: t_free_def Let_def cluster_index [OF c] t nth_append slice_def)
qed

section \<open>Properties\<close>

lemma allocated_block_for_release:
  assumes al: "allocated bs h sz p h' xs nb ys" and rel: "releasable (length (table_of xs)) nb"
    and wf: "wf_heap bs h"
  shows "t_free h' p = Some h"
proof -
  have h': "h' = h\<lparr>memsmall := table_of (xs @ nb # ys)\<rparr>" and wf': "wf_heap (xs @ nb # ys) h'"
    and c: "length (table_of xs) < 0x400" and p: "p = cluster_address h (length (table_of xs))"
    and bs: "bs = xs @ replicate (length (pattern nb)) Free @ ys"
    using al by (auto simp: allocated_def)
  have "cluster_address h' = cluster_address h" by (simp add: h' cluster_address_def fun_eq_iff)
  moreover have "memsmall h = table_of bs" using wf by (simp add: wf_heap_def)
  ultimately show ?thesis
    using t_free_block [OF wf' c rel] by (simp add: p h' flip: bs)
qed


definition fresh_heap :: "u32 \<Rightarrow> heap" where
  "fresh_heap start = MemoryManagementInitialization
     \<lparr>MemoryManagerStartAddress = 0, memsmall = [], header = (\<lambda>_. 0)\<rparr> start 0x00FFFFFF"

lemma wf_fresh_heap: "wf_heap (replicate 0x3fff Free) (fresh_heap start)"
proof -
  have "concat (map pattern (replicate n Free)) = replicate n 0" for n
    by (induction n) auto
  moreover have "(replicate 0x4000 0)[0 := 0xff :: u8] = 0xff # replicate 0x3fff 0"
    using replicate_Suc [of "0x3fff" "0 :: u8"] by simp
  ultimately show ?thesis
    by (simp add: wf_heap_def fresh_heap_def MemoryManagementInitialization_def table_of_def
        list_all_iff)
qed

lemma fresh_first:
  assumes "sz < 0x4000 + 1"
  shows "t_malloc (fresh_heap start) sz =
     (start + 0x4000, (fresh_heap start)\<lparr>memsmall := mark (memsmall (fresh_heap start)) 1 [0xAA]\<rparr>)"
proof -
  have "[1..<0x400] = 1 # [Suc 1..<0x400]" by (rule upt_conv_Cons) simp
  with assms show ?thesis
    by (simp add: t_malloc_def fresh_heap_def MemoryManagementInitialization_def
        cluster_address_def del: upt_Suc One_nat_def upt_rec_numeral)
qed




text \<open>
  A block of five clusters (a request of 0x10001 to 0x13fff bytes) is leaked: \<open>t_free\<close> does
  not recognise its pattern and leaves the heap as it is.
\<close>

lemma t_free_leaks_five:
  assumes "wf_heap bs h" and "t_malloc h sz = (p, h')" and "p \<noteq> 0"
    and "0x10000 < unat sz" and "unat sz < 0x14000"
  shows "t_free h' p = Some h'"
proof -
  from t_malloc_allocates [OF assms(1,2)] assms(3) obtain xs ys where
    al: "allocated bs h sz p h' xs (block_for sz) ys" by auto
  have "block_for sz = Big 5"
    using assms(4,5) by (simp add: block_for_def word_less_nat_alt)
  with al have wf': "wf_heap (xs @ Big 5 # ys) h'" and c: "length (table_of xs) < 0x400"
    and p: "p = cluster_address h' (length (table_of xs))"
    by (auto simp: allocated_def cluster_address_def)
  show ?thesis unfolding p by (rule t_free_five [OF wf' c])
qed

text \<open>A witness state for the leak: on a fresh heap the five clusters from cluster 1 are free.\<close>

lemma fresh_zero: "1 \<le> c \<Longrightarrow> c < 0x4000 \<Longrightarrow> memsmall (fresh_heap start) ! c = 0"
  by (simp add: fresh_heap_def MemoryManagementInitialization_def)

lemma fresh_first_big:
  assumes "0x10000 < unat sz" and "unat sz < 5 * 1024 * 1024 + 1"
  shows "fst (t_malloc (fresh_heap start) sz) = start + 0x4000"
proof -
  have b: "big_clusters sz \<le> 0x141"
    using assms by (subst big_clusters_eq) (auto simp: word_less_nat_alt)
  have "[1..<0x400] = 1 # [Suc 1..<0x400]" by (rule upt_conv_Cons) simp
  then have "find (\<lambda>c. \<forall>b\<in>set [0..<big_clusters sz]. memsmall (fresh_heap start) ! (c + b) = 0)
      [1..<0x400] = Some 1"
    using b by (simp add: fresh_zero del: upt_rec_numeral One_nat_def)
  with assms show ?thesis
    by (simp add: t_malloc_def word_less_nat_alt big_clusters_def Let_def cluster_address_def
        fresh_heap_def MemoryManagementInitialization_def del: upt_rec_numeral One_nat_def)
qed

lemma t_free_leaks_five_witness:
  "t_free (snd (t_malloc (fresh_heap 0x02A00000) 0x10001)) 0x02A04000
     = Some (snd (t_malloc (fresh_heap 0x02A00000) 0x10001))"
proof -
  have "fst (t_malloc (fresh_heap 0x02A00000) 0x10001) = 0x02A04000"
    by (subst fresh_first_big) auto
  then have e: "t_malloc (fresh_heap 0x02A00000) 0x10001
      = (0x02A04000, snd (t_malloc (fresh_heap 0x02A00000) 0x10001))"
    by (metis prod.collapse)
  show ?thesis by (rule t_free_leaks_five [OF wf_fresh_heap e]) auto
qed

text \<open>The pool in use but for the last two of its clusters.\<close>

definition crowded_heap :: "u32 \<Rightarrow> heap" where
  "crowded_heap start = (fresh_heap start)
     \<lparr>memsmall := table_of (replicate 0x3fd Small @ replicate 0x3c02 Free)\<rparr>"

lemma concat_pattern_replicate:
  "concat (map pattern (replicate n Free)) = replicate n 0"
  "concat (map pattern (replicate n Small)) = replicate n 0xAA"
  by (induction n) auto

text \<open>
  \<open>t_malloc\<close> hands out memory beyond its pool: it only checks that a big block starts in
  one of the 0x400 clusters, and the table bytes behind them are zero, so with the two last
  clusters free a request for seven clusters succeeds and the block ends five clusters past
  the pool.
\<close>

lemma t_malloc_overruns_pool:
  "\<exists>h'. t_malloc (crowded_heap start) 0x18001 = (start + 0x3fe * 0x4000, h')
     \<and> wf_heap (replicate 0x3fd Small @ Big 7 # replicate 0x3bfb Free) h'
     \<and> 0x3fe + length (pattern (Big 7)) > 0x400"
proof -
  let ?h = "crowded_heap start"
  have t: "memsmall ?h = 0xff # replicate 0x3fd 0xAA @ replicate 0x3c02 0"
    unfolding crowded_heap_def table_of_def map_append concat_append concat_pattern_replicate
    by simp
  have tab_nth: "memsmall ?h ! c = (if c = 0 then 0xff else if c < 0x3fe then 0xAA else 0)"
    if "c < 0x4000" for c
    using that unfolding t by (cases c) (auto simp: nth_append)
  have n7: "unat (((0x18001 AND 0xffffc000) + 0x4000 :: u32) div 0x4000) = 7"
    using big_clusters_eq [of "0x18001"] by (simp add: big_clusters_def)
  let ?P = "\<lambda>c. \<forall>b\<in>set [0..<7]. memsmall ?h ! (c + b) = 0"
  have f: "find ?P [1..<0x400] = Some 0x3fe"
  proof (rule find_Some_iff [THEN iffD2], intro exI [of _ "0x3fd"] conjI allI impI)
    show "\<not> ?P ([1..<0x400] ! j)" if "j < 0x3fd" for j
      using that tab_nth [of "Suc j"] by (auto intro!: bexI [of _ 0] simp del: upt_rec_numeral)
  qed (use tab_nth in \<open>auto simp del: upt_rec_numeral\<close>)
  have "mark (memsmall ?h) 0x3fe (big_mark 7)
      = table_of (replicate 0x3fd Small @ Big 7 # replicate 0x3bfb Free)"
    unfolding t table_of_def map_append concat_append concat_pattern_replicate
    by (simp add: mark_def big_mark_pattern concat_pattern_replicate)
  moreover have "length (table_of (replicate 0x3fd Small @ Big 7 # replicate 0x3bfb Free)) = 0x4000"
    unfolding table_of_def map_append concat_append concat_pattern_replicate
    by (simp add: concat_pattern_replicate)
  ultimately show ?thesis
    using f n7 by (simp add: t_malloc_def Let_def cluster_address_def wf_heap_def list_all_iff
        crowded_heap_def fresh_heap_def MemoryManagementInitialization_def del: upt_rec_numeral)
qed

subsection \<open>malloc and free\<close>

lemma mask_page: "(w :: u32) AND 0xffffff00 = w AND NOT (mask 8)"
proof -
  have "(0xffffff00 :: u32) = NOT (mask 8)" by code_simp
  then show ?thesis by simp
qed

text \<open>\<open>malloc\<close> asks \<open>t_malloc\<close> for the request and a page of slack.\<close>

lemma malloc_request:
  assumes "unat (sz :: u32) < 2 ^ 32 - 0x200"
  shows "unat ((sz + 0x200) AND 0xffffff00) = (unat sz + 0x200) div 0x100 * 0x100"
proof -
  have "unat (sz + 0x200) = unat sz + 0x200"
    using assms by (subst unat_add_lem [THEN iffD1]) auto
  then show ?thesis unfolding mask_page unat_and_not_mask_u32 by simp
qed

lemma page_of_block:
  assumes "start AND 0xff = (0 :: u32)" and "unat start + c * 0x4000 + 0x100 < 2 ^ 32"
  shows "((start + of_nat c * 0x4000 + 0x100) AND 0xffffff00) = start + of_nat c * 0x4000 + 0x100"
    and "start + of_nat c * 0x4000 + 0x100 \<noteq> 0"
proof -
  let ?w = "start + of_nat c * 0x4000 + 0x100"
  have "?w = of_nat (unat start + c * 0x4000 + 0x100)" by simp
  then have w: "unat ?w = unat start + c * 0x4000 + 0x100"
    using assms(2) by (metis unat_of_nat_u32)
  then show "?w \<noteq> 0" by auto
  have "unat (start AND mask 8) = 0" using assms(1) by (simp add: mask_eq_exp_minus_1)
  then have "take_bit 8 (unat start) = 0"
    by (simp only: take_bit_eq_mask [symmetric] unsigned_take_bit_eq)
  then have "0x100 dvd unat start" by (simp add: take_bit_eq_mod dvd_eq_mod_eq_0)
  moreover have "0x100 dvd c * 0x4000" by (rule dvd_mult) (simp add: dvd_eq_mod_eq_0)
  ultimately have "0x100 dvd unat ?w" unfolding w by (intro dvd_add) auto
  then have "unat ?w div 0x100 * 0x100 = unat ?w" by (rule dvd_div_mult_self)
  then have "unat (?w AND 0xffffff00) = unat ?w"
    unfolding mask_page unat_and_not_mask_u32 by simp
  then show "(?w AND 0xffffff00) = ?w" by (rule word_unat_eq_iff [THEN iffD2])
qed

lemma free_malloc_facts:
  assumes "wf_heap bs h" and "MemoryManagerStartAddress h AND 0xff = 0"
    and "unat (MemoryManagerStartAddress h) + 0x1000000 < 2 ^ 32"
    and "unat sz \<le> 65024" and "t_malloc h ((sz + 0x200) AND 0xffffff00) = (block, h1)" and "block \<noteq> 0"
  shows "fst (malloc h sz) = block + 0x100"
    and "map_option memsmall (mfree (snd (malloc h sz)) (fst (malloc h sz))) = Some (memsmall h)"
    and "0x100 + unat sz \<le> length (pattern (block_for ((sz + 0x200) AND 0xffffff00))) * 0x4000"
proof -
  let ?rq = "(sz + 0x200) AND 0xffffff00"
  have rq: "unat ?rq = (unat sz + 0x200) div 0x100 * 0x100"
    using assms(4) by (intro malloc_request) simp
  then have lim: "unat ?rq \<le> 0x10000" "0x100 + unat sz \<le> unat ?rq"
    using assms(4) by (simp, linarith)
  from t_malloc_allocates [OF assms(1,5)] assms(6) obtain xs ys where
    al: "allocated bs h ?rq block h1 xs (block_for ?rq) ys" by auto
  then have c: "length (table_of xs) < 0x400" and b: "block = cluster_address h (length (table_of xs))"
    and h1: "h1 = h\<lparr>memsmall := memsmall h1\<rparr>" and fits: "unat ?rq \<le> length (pattern (block_for ?rq)) * 0x4000"
    by (auto simp: allocated_def)
  have pg: "((block + 0x100) AND 0xffffff00) = block + 0x100" "block + 0x100 \<noteq> 0"
    using page_of_block [OF assms(2), of "length (table_of xs)"] assms(3) c
    by (auto simp: b cluster_address_def)
  show f: "fst (malloc h sz) = block + 0x100"
    by (simp add: malloc_def Let_def assms(5) pg)
  show "0x100 + unat sz \<le> length (pattern (block_for ?rq)) * 0x4000"
    using lim(2) fits by linarith
  have rel: "releasable (length (table_of xs)) (block_for ?rq)"
    using lim(1) by (auto simp: releasable_def block_for_def word_less_nat_alt)
  define h2 where "h2 = h1\<lparr>header := (header h1)(block + 0x100 - 8 := block,
      block + 0x100 - 4 := 0x1234567)\<rparr>"
  have "wf_heap (xs @ block_for ?rq # ys) h2" "cluster_address h2 = cluster_address h"
    using al h1 by (auto simp: allocated_def wf_heap_def h2_def cluster_address_def fun_eq_iff)
  from t_free_block [OF this(1) c rel] this(2)
  have "t_free h2 block = Some (h2\<lparr>memsmall := table_of (xs @ replicate
      (length (pattern (block_for ?rq))) Free @ ys)\<rparr>)" by (simp add: b)
  moreover have "memsmall h = table_of (xs @ replicate (length (pattern (block_for ?rq))) Free @ ys)"
    using al assms(1) by (auto simp: allocated_def wf_heap_def)
  ultimately have "map_option memsmall (t_free h2 block) = Some (memsmall h)" by simp
  then show "map_option memsmall (mfree (snd (malloc h sz)) (fst (malloc h sz))) = Some (memsmall h)"
    using pg by (simp add: f) (simp add: malloc_def Let_def assms(5) mfree_def h2_def)
qed

text \<open>
  \<open>free\<close> undoes \<open>malloc\<close>: for a pool that is aligned to 256 bytes and lies in the address
  space, a request up to 65024 bytes that succeeds is given back completely, and the block
  holds the header and the whole of the request.
\<close>

lemma free_malloc:
  assumes "wf_heap bs h" and "MemoryManagerStartAddress h AND 0xff = 0"
    and "unat (MemoryManagerStartAddress h) + 0x1000000 < 2 ^ 32"
    and "unat sz \<le> 65024" and "t_malloc h ((sz + 0x200) AND 0xffffff00) = (block, h1)" and "block \<noteq> 0"
  shows "fst (malloc h sz) = block + 0x100
    \<and> map_option memsmall (mfree (snd (malloc h sz)) (fst (malloc h sz))) = Some (memsmall h)
    \<and> 0x100 + unat sz \<le> length (pattern (block_for ((sz + 0x200) AND 0xffffff00))) * 0x4000"
  using free_malloc_facts [OF assms] by blast

lemma free_malloc_witness:
  "fst (malloc (fresh_heap 0x02A00000) 100) = 0x02A04100 \<and>
   map_option memsmall (mfree (snd (malloc (fresh_heap 0x02A00000) 100)) 0x02A04100)
     = Some (memsmall (fresh_heap 0x02A00000))"
proof -
  have e: "t_malloc (fresh_heap 0x02A00000) ((100 + 0x200) AND 0xffffff00)
      = (0x02A04000, (fresh_heap 0x02A00000)
      \<lparr>memsmall := mark (memsmall (fresh_heap 0x02A00000)) 1 [0xAA]\<rparr>)"
    by (subst fresh_first) auto
  have s: "MemoryManagerStartAddress (fresh_heap 0x02A00000) = 0x02A00000"
    by (simp add: fresh_heap_def MemoryManagementInitialization_def)
  let ?m = "malloc (fresh_heap 0x02A00000) 100"
  have all: "fst ?m = 0x02A04000 + 0x100
    \<and> map_option memsmall (mfree (snd ?m) (fst ?m)) = Some (memsmall (fresh_heap 0x02A00000))
    \<and> 0x100 + unat (100 :: u32)
        \<le> length (pattern (block_for ((100 + 0x200) AND 0xffffff00))) * 0x4000"
    by (rule free_malloc [OF wf_fresh_heap _ _ _ e]) (simp_all add: s)
  then have f: "fst ?m = 0x02A04100" by simp
  from all have "map_option memsmall (mfree (snd ?m) (fst ?m)) =
    Some (memsmall (fresh_heap 0x02A00000))" by blast
  with f show ?thesis by (simp only: simp_thms)
qed

text \<open>
  \<open>malloc\<close> never reports failure: when \<open>t_malloc\<close> has nothing to give, it writes its header
  at addresses 0xf8 and 0xfc and returns the address 0x100, so the null-pointer checks of its
  callers cannot see that memory has run out.
\<close>

lemma malloc_exhausted:
  assumes "t_malloc h ((sz + 0x200) AND 0xffffff00) = (0, h1)"
  shows "fst (malloc h sz) = 0x100
    \<and> header (snd (malloc h sz)) 0xf8 = 0 \<and> header (snd (malloc h sz)) 0xfc = 0x1234567"
  using assms by (simp_all add: malloc_def)

lemma malloc_exhausted_witness:
  "fst (malloc (fresh_heap 0x02A00000) 0x600000) = 0x100"
proof -
  have "t_malloc (fresh_heap 0x02A00000) ((0x600000 + 0x200) AND 0xffffff00)
      = (0, fresh_heap 0x02A00000)" by (simp add: t_malloc_def)
  from malloc_exhausted [OF this] show ?thesis by blast
qed

end
