(* ===== verification/Sha1.thy ===== *)
theory Sha1
  imports Prelude
begin

text \<open>
  SHA-1, \<open>lib/crypt/sha1.c\<close>, and its correctness against the definition of the standard
  (FIPS PUB 180-1, the document the file names).

  The context is the struct of \<open>sha1.h\<close>. The message block index is a natural number, the
  message length is the pair of 32-bit words of the code, and the error codes are those of
  \<open>sha1.h\<close>. A null context or message is not a value of the model: the callers in this
  repository pass the addresses of objects.
\<close>

record SHA1Context =
  Intermediate_Hash :: "u32 list"
  Length_Low :: u32
  Length_High :: u32
  Message_Block_Index :: nat
  Message_Block :: bytes
  Computed :: u32
  Corrupted :: u32

abbreviation (input) "shaSuccess \<equiv> 0 :: u32"
abbreviation (input) "shaStateError \<equiv> 3 :: u32"

section \<open>Operations\<close>

definition SHA1CircularShift :: "nat \<Rightarrow> u32 \<Rightarrow> u32" where
  "SHA1CircularShift n w = push_bit n w OR drop_bit (32 - n) w"

definition SHA1Reset :: "SHA1Context \<Rightarrow> u32 \<times> SHA1Context" where
  "SHA1Reset c = (shaSuccess, c\<lparr>
     Length_Low := 0, Length_High := 0, Message_Block_Index := 0,
     Intermediate_Hash := [0x67452301, 0xEFCDAB89, 0x98BADCFE, 0x10325476, 0xC3D2E1F0],
     Computed := 0, Corrupted := 0\<rparr>)"

definition block_word :: "bytes \<Rightarrow> nat \<Rightarrow> u32" where
  "block_word b t =
     push_bit 24 (ucast (b ! (t * 4))) OR push_bit 16 (ucast (b ! (t * 4 + 1)))
     OR push_bit 8 (ucast (b ! (t * 4 + 2))) OR ucast (b ! (t * 4 + 3))"

definition schedule :: "bytes \<Rightarrow> u32 list" where
  "schedule b =
     foldl (\<lambda>W t. W @ [SHA1CircularShift 1 (W ! (t - 3) XOR W ! (t - 8) XOR W ! (t - 14) XOR W ! (t - 16))])
       (map (block_word b) [0..<16]) [16..<80]"

type_synonym sha_regs = "u32 \<times> u32 \<times> u32 \<times> u32 \<times> u32"

definition sha_loop ::
  "(u32 \<Rightarrow> u32 \<Rightarrow> u32 \<Rightarrow> u32) \<Rightarrow> u32 \<Rightarrow> u32 list \<Rightarrow> nat list \<Rightarrow> sha_regs \<Rightarrow> sha_regs" where
  "sha_loop f K W ts r =
     foldl (\<lambda>(A, B, C, D, E) t.
       (SHA1CircularShift 5 A + f B C D + E + W ! t + K, A, SHA1CircularShift 30 B, C, D)) r ts"

definition process_regs :: "u32 list \<Rightarrow> sha_regs \<Rightarrow> sha_regs" where
  "process_regs W r =
     sha_loop (\<lambda>B C D. B XOR C XOR D) 0xCA62C1D6 W [60..<80]
     (sha_loop (\<lambda>B C D. (B AND C) OR (B AND D) OR (C AND D)) 0x8F1BBCDC W [40..<60]
     (sha_loop (\<lambda>B C D. B XOR C XOR D) 0x6ED9EBA1 W [20..<40]
     (sha_loop (\<lambda>B C D. (B AND C) OR (NOT B AND D)) 0x5A827999 W [0..<20] r)))"

definition SHA1ProcessMessageBlock :: "SHA1Context \<Rightarrow> SHA1Context" where
  "SHA1ProcessMessageBlock c =
     (let H = Intermediate_Hash c;
          (A, B, C, D, E) = process_regs (schedule (Message_Block c))
             (H ! 0, H ! 1, H ! 2, H ! 3, H ! 4)
      in c\<lparr>Intermediate_Hash := [H ! 0 + A, H ! 1 + B, H ! 2 + C, H ! 3 + D, H ! 4 + E],
           Message_Block_Index := 0\<rparr>)"

text \<open>The body of the loop of \<open>SHA1Input\<close> for one byte, and the loop.\<close>

definition input_byte :: "SHA1Context \<Rightarrow> u8 \<Rightarrow> SHA1Context" where
  "input_byte c b =
     (let c = c\<lparr>Message_Block := (Message_Block c)[Message_Block_Index c := b],
                Message_Block_Index := Message_Block_Index c + 1,
                Length_Low := Length_Low c + 8\<rparr>;
          c = (if Length_Low c = 0
               then (let c = c\<lparr>Length_High := Length_High c + 1\<rparr>
                     in if Length_High c = 0 then c\<lparr>Corrupted := 1\<rparr> else c)
               else c)
      in if Message_Block_Index c = 64 then SHA1ProcessMessageBlock c else c)"

fun input_bytes :: "SHA1Context \<Rightarrow> bytes \<Rightarrow> SHA1Context" where
  "input_bytes c [] = c"
| "input_bytes c (b # bs) = (if Corrupted c = 0 then input_bytes (input_byte c b) bs else c)"

definition SHA1Input :: "SHA1Context \<Rightarrow> bytes \<Rightarrow> u32 \<times> SHA1Context" where
  "SHA1Input c msg =
     (if msg = [] then (shaSuccess, c)
      else if Computed c \<noteq> 0 then (shaStateError, c\<lparr>Corrupted := shaStateError\<rparr>)
      else if Corrupted c \<noteq> 0 then (Corrupted c, c)
      else (shaSuccess, input_bytes c msg))"

function fill_zeros :: "SHA1Context \<Rightarrow> nat \<Rightarrow> SHA1Context" where
  "fill_zeros c limit =
     (if Message_Block_Index c < limit
      then fill_zeros (c\<lparr>Message_Block := (Message_Block c)[Message_Block_Index c := 0],
                          Message_Block_Index := Message_Block_Index c + 1\<rparr>) limit
      else c)"
  by pat_completeness auto
termination by (relation "measure (\<lambda>(c, limit). limit - Message_Block_Index c)") auto

declare fill_zeros.simps [simp del]

definition put_pad :: "SHA1Context \<Rightarrow> SHA1Context" where
  "put_pad c = c\<lparr>Message_Block := (Message_Block c)[Message_Block_Index c := 0x80],
                 Message_Block_Index := Message_Block_Index c + 1\<rparr>"

definition store_length :: "SHA1Context \<Rightarrow> SHA1Context" where
  "store_length c = c\<lparr>Message_Block := (Message_Block c)
     [56 := ucast (drop_bit 24 (Length_High c)), 57 := ucast (drop_bit 16 (Length_High c)),
      58 := ucast (drop_bit 8 (Length_High c)), 59 := ucast (Length_High c),
      60 := ucast (drop_bit 24 (Length_Low c)), 61 := ucast (drop_bit 16 (Length_Low c)),
      62 := ucast (drop_bit 8 (Length_Low c)), 63 := ucast (Length_Low c)]\<rparr>"

definition SHA1PadMessage :: "SHA1Context \<Rightarrow> SHA1Context" where
  "SHA1PadMessage c =
     (let c = (if Message_Block_Index c > 55
               then fill_zeros (SHA1ProcessMessageBlock (fill_zeros (put_pad c) 64)) 56
               else fill_zeros (put_pad c) 56)
      in SHA1ProcessMessageBlock (store_length c))"

definition digest_bytes :: "u32 list \<Rightarrow> bytes" where
  "digest_bytes H = map (\<lambda>i. ucast (drop_bit (8 * (3 - i mod 4)) (H ! (i div 4)))) [0..<20]"

definition SHA1Result :: "SHA1Context \<Rightarrow> u32 \<times> SHA1Context \<times> bytes option" where
  "SHA1Result c =
     (if Corrupted c \<noteq> 0 then (Corrupted c, c, None)
      else
        (let c = (if Computed c = 0
                  then (SHA1PadMessage c)\<lparr>Message_Block := replicate 64 0, Length_Low := 0,
                          Length_High := 0, Computed := 1\<rparr>
                  else c)
         in (shaSuccess, c, Some (digest_bytes (Intermediate_Hash c)))))"

section \<open>The standard\<close>

text \<open>
  FIPS PUB 180-1: the functions \<open>f\<^sub>t\<close> and constants \<open>K\<^sub>t\<close>, the message schedule as a recurrence,
  the 80 steps on one block of 16 words, and padding of the whole message before it is cut
  into blocks. \<open>fips_from\<close> starts from a given chaining value and a number of bits already
  hashed; the standard starts from the initial value and 0.
\<close>

definition fips_f :: "nat \<Rightarrow> u32 \<Rightarrow> u32 \<Rightarrow> u32 \<Rightarrow> u32" where
  "fips_f t B C D =
     (if t < 20 then (B AND C) OR (NOT B AND D)
      else if t < 40 then B XOR C XOR D
      else if t < 60 then (B AND C) OR (B AND D) OR (C AND D)
      else B XOR C XOR D)"

definition fips_K :: "nat \<Rightarrow> u32" where
  "fips_K t = (if t < 20 then 0x5A827999 else if t < 40 then 0x6ED9EBA1
               else if t < 60 then 0x8F1BBCDC else 0xCA62C1D6)"

fun fips_W :: "bytes \<Rightarrow> nat \<Rightarrow> u32" where
  "fips_W b t =
     (if t < 16 then le32 (b ! (4 * t + 3)) (b ! (4 * t + 2)) (b ! (4 * t + 1)) (b ! (4 * t))
      else word_rotl 1 (fips_W b (t - 3) XOR fips_W b (t - 8) XOR fips_W b (t - 14) XOR fips_W b (t - 16)))"

declare fips_W.simps [simp del]

fun fips_steps :: "bytes \<Rightarrow> nat \<Rightarrow> sha_regs \<Rightarrow> sha_regs" where
  "fips_steps b 0 r = r"
| "fips_steps b (Suc t) r =
     (case fips_steps b t r of (A, B, C, D, E) \<Rightarrow>
        (word_rotl 5 A + fips_f t B C D + E + fips_W b t + fips_K t, A, word_rotl 30 B, C, D))"

definition fips_compress :: "u32 list \<Rightarrow> bytes \<Rightarrow> u32 list" where
  "fips_compress H b =
     (case fips_steps b 80 (H ! 0, H ! 1, H ! 2, H ! 3, H ! 4) of (A, B, C, D, E) \<Rightarrow>
        [H ! 0 + A, H ! 1 + B, H ! 2 + C, H ! 3 + D, H ! 4 + E])"

function fips_blocks :: "u32 list \<Rightarrow> bytes \<Rightarrow> u32 list" where
  "fips_blocks H bs =
     (if length bs < 64 then H else fips_blocks (fips_compress H (take 64 bs)) (drop 64 bs))"
  by pat_completeness auto
termination by (relation "measure (\<lambda>(H, bs). length bs)") auto

declare fips_blocks.simps [simp del]

definition be64 :: "nat \<Rightarrow> bytes" where
  "be64 n = map (\<lambda>i. of_nat (n div 256 ^ (7 - i))) [0..<8]"

definition fips_padding :: "nat \<Rightarrow> nat \<Rightarrow> bytes" where
  "fips_padding len bits = 0x80 # replicate ((119 - len mod 64) mod 64) 0 @ be64 bits"

definition fips_from :: "u32 list \<Rightarrow> nat \<Rightarrow> bytes \<Rightarrow> bytes" where
  "fips_from H bits msg =
     concat (map (\<lambda>w. rev (le32_bytes w))
       (fips_blocks H (msg @ fips_padding (length msg) (bits + 8 * length msg))))"

definition fips_H0 :: "u32 list" where
  "fips_H0 = [0x67452301, 0xEFCDAB89, 0x98BADCFE, 0x10325476, 0xC3D2E1F0]"

definition fips_sha1 :: "bytes \<Rightarrow> bytes" where
  "fips_sha1 msg = fips_from fips_H0 0 msg"

section \<open>One block\<close>

lemma SHA1CircularShift_rotl: "0 < n \<Longrightarrow> n < 32 \<Longrightarrow> SHA1CircularShift n w = word_rotl n w"
proof (rule bit_word_eqI)
  fix k assume n: "0 < n" "n < 32" and k: "k < LENGTH(32)"
  show "bit (SHA1CircularShift n w) k = bit (word_rotl n w) k"
  proof (cases "n \<le> k")
    case True
    then have "(k + 32 - n) mod 32 = ((k - n) + 32) mod 32" by (simp only: add_diff_assoc2)
    then have "(k + 32 - n) mod 32 = k - n" using k by simp
    moreover have "\<not> bit w (32 - n + k)"
      using n k True bit_imp_le_length [of w "32 - n + k"] by auto
    ultimately show ?thesis
      using n k True by (simp add: SHA1CircularShift_def bit_simps)
  next
    case False
    then have "(k + 32 - n) mod 32 = k + 32 - n" using n k by simp
    moreover have "32 - n + k = k + 32 - n" using n by simp
    ultimately show ?thesis
      using n k False by (simp add: SHA1CircularShift_def bit_simps)
  qed
qed

lemma block_word_fips: "t < 16 \<Longrightarrow> block_word b t = fips_W b t"
  by (simp add: block_word_def fips_W.simps [of b t] le32_def mult.commute or.assoc
      or.left_commute or.commute)

lemma schedule_prefix:
  assumes "16 \<le> m" and "m \<le> 80"
  shows "foldl (\<lambda>W t. W @ [SHA1CircularShift 1 (W ! (t - 3) XOR W ! (t - 8) XOR W ! (t - 14) XOR W ! (t - 16))])
      (map (block_word b) [0..<16]) [16..<m] = map (fips_W b) [0..<m]"
  using assms
proof (induction m rule: nat_induct_at_least)
  case base
  show ?case by (auto simp: block_word_fips simp del: upt_rec_numeral)
next
  case (Suc m)
  then have "fips_W b m = SHA1CircularShift 1
      (fips_W b (m - 3) XOR fips_W b (m - 8) XOR fips_W b (m - 14) XOR fips_W b (m - 16))"
    by (subst fips_W.simps) (simp add: SHA1CircularShift_rotl)
  with Suc show ?case by (simp del: upt_rec_numeral)
qed

lemma schedule_fips: "schedule b = map (fips_W b) [0..<80]"
  unfolding schedule_def by (rule schedule_prefix) auto

lemma sha_loop_steps:
  assumes "\<And>t. a \<le> t \<Longrightarrow> t < a + n \<Longrightarrow> f = fips_f t \<and> K = fips_K t \<and> W ! t = fips_W b t"
  shows "sha_loop f K W [a..<a + n] (fips_steps b a r) = fips_steps b (a + n) r"
  using assms
proof (induction n)
  case 0
  then show ?case by (simp add: sha_loop_def)
next
  case (Suc n)
  then have "sha_loop f K W [a..<a + n] (fips_steps b a r) = fips_steps b (a + n) r" by simp
  moreover have "f = fips_f (a + n)" "K = fips_K (a + n)" "W ! (a + n) = fips_W b (a + n)"
    using Suc.prems [of "a + n"] by auto
  ultimately show ?case
    by (simp add: sha_loop_def SHA1CircularShift_rotl split: prod.splits)
qed

lemma process_regs_fips: "process_regs (map (fips_W b) [0..<80]) r = fips_steps b 80 r"
proof -
  let ?W = "map (fips_W b) [0..<80]"
  have W: "?W ! t = fips_W b t" if "t < 80" for t using that by (simp del: upt_rec_numeral)
  have 1: "sha_loop (\<lambda>B C D. (B AND C) OR (NOT B AND D)) 0x5A827999 ?W [0..<0 + 20]
      (fips_steps b 0 r) = fips_steps b (0 + 20) r"
    by (rule sha_loop_steps) (auto simp: W fips_f_def fips_K_def fun_eq_iff)
  have 2: "sha_loop (\<lambda>B C D. B XOR C XOR D) 0x6ED9EBA1 ?W [20..<20 + 20]
      (fips_steps b 20 r) = fips_steps b (20 + 20) r"
    by (rule sha_loop_steps) (auto simp: W fips_f_def fips_K_def fun_eq_iff)
  have 3: "sha_loop (\<lambda>B C D. (B AND C) OR (B AND D) OR (C AND D)) 0x8F1BBCDC ?W [40..<40 + 20]
      (fips_steps b 40 r) = fips_steps b (40 + 20) r"
    by (rule sha_loop_steps) (auto simp: W fips_f_def fips_K_def fun_eq_iff)
  have 4: "sha_loop (\<lambda>B C D. B XOR C XOR D) 0xCA62C1D6 ?W [60..<60 + 20]
      (fips_steps b 60 r) = fips_steps b (60 + 20) r"
    by (rule sha_loop_steps) (auto simp: W fips_f_def fips_K_def fun_eq_iff)
  show ?thesis
    using 1 2 3 4 by (simp add: process_regs_def del: upt_rec_numeral)
qed

lemma ProcessMessageBlock_fips:
  "SHA1ProcessMessageBlock c = c\<lparr>Intermediate_Hash :=
     fips_compress (Intermediate_Hash c) (Message_Block c), Message_Block_Index := 0\<rparr>"
  unfolding SHA1ProcessMessageBlock_def fips_compress_def schedule_fips process_regs_fips
  by (simp add: Let_def split: prod.splits)

section \<open>Whole messages\<close>

lemma fips_blocks_append:
  assumes "64 dvd length xs"
  shows "fips_blocks H (xs @ ys) = fips_blocks (fips_blocks H xs) ys"
  using assms
proof (induction H xs rule: fips_blocks.induct)
  case (1 H bs)
  show ?case
  proof (cases "bs = []")
    case True
    then show ?thesis by (simp add: fips_blocks.simps [of H "[]"])
  next
    case False
    with 1(2) have "64 \<le> length bs" by (simp add: dvd_imp_le)
    moreover from 1(2) have "64 dvd length (drop 64 bs)" by (simp add: dvd_diff_nat)
    ultimately show ?thesis
      using 1(1) by (simp add: fips_blocks.simps [of H "bs @ ys"] fips_blocks.simps [of H bs])
  qed
qed

lemma fips_blocks_one: "length b = 64 \<Longrightarrow> fips_blocks H b = fips_compress H b"
  by (simp add: fips_blocks.simps [of H b] fips_blocks.simps [of _ "[]"])

text \<open>
  The context after \<open>msg\<close>, starting from chaining value \<open>H\<close> with \<open>bits\<close> bits already counted:
  whole blocks are in the hash, the rest is at the start of the message block.
\<close>

definition whole :: "bytes \<Rightarrow> bytes" where "whole msg = take (length msg div 64 * 64) msg"
definition rest :: "bytes \<Rightarrow> bytes" where "rest msg = drop (length msg div 64 * 64) msg"

definition represents :: "u32 list \<Rightarrow> nat \<Rightarrow> SHA1Context \<Rightarrow> bytes \<Rightarrow> bool" where
  "represents H bits c msg \<longleftrightarrow>
     Intermediate_Hash c = fips_blocks H (whole msg)
     \<and> Message_Block_Index c = length (rest msg)
     \<and> length (Message_Block c) = 64
     \<and> take (length (rest msg)) (Message_Block c) = rest msg
     \<and> unat (Length_High c) * 2 ^ 32 + unat (Length_Low c) = bits + 8 * length msg
     \<and> bits + 8 * length msg < 2 ^ 64
     \<and> Computed c = 0 \<and> Corrupted c = 0"

lemma length_rest: "length (rest msg) = length msg mod 64"
  by (simp add: rest_def minus_div_mult_eq_mod)

lemma whole_rest: "whole msg @ rest msg = msg"
  by (simp add: whole_def rest_def)

lemma dvd_whole: "64 dvd length (whole msg)"
proof -
  have "length (whole msg) = length msg div 64 * 64" by (simp add: whole_def min.absorb2)
  then show ?thesis by simp
qed

lemma whole_rest_snoc:
  "length msg mod 64 \<noteq> 63 \<Longrightarrow> whole (msg @ [b]) = whole msg \<and> rest (msg @ [b]) = rest msg @ [b]"
  "length msg mod 64 = 63 \<Longrightarrow> whole (msg @ [b]) = msg @ [b] \<and> rest (msg @ [b]) = []"
proof -
  assume "length msg mod 64 \<noteq> 63"
  then have "Suc (length msg) div 64 = length msg div 64" by (simp add: div_Suc mod_Suc)
  then show "whole (msg @ [b]) = whole msg \<and> rest (msg @ [b]) = rest msg @ [b]"
    by (simp add: whole_def rest_def)
next
  assume "length msg mod 64 = 63"
  then have "64 dvd Suc (length msg)" by (simp add: dvd_eq_mod_eq_0 mod_Suc)
  then have "Suc (length msg) div 64 * 64 = Suc (length msg)" by (rule dvd_div_mult_self)
  then show "whole (msg @ [b]) = msg @ [b] \<and> rest (msg @ [b]) = []"
    by (simp add: whole_def rest_def)
qed

text \<open>The 64-bit length counter of the code, on two words.\<close>

lemma length_counter:
  fixes hi lo :: u32
  assumes "unat hi * 2 ^ 32 + unat lo = n" and "8 dvd n" and "n + 8 < 2 ^ 64"
  shows "lo + 8 \<noteq> 0 \<Longrightarrow> unat hi * 2 ^ 32 + unat (lo + 8) = n + 8"
    and "lo + 8 = 0 \<Longrightarrow> hi + 1 \<noteq> 0 \<and> unat (hi + 1) * 2 ^ 32 + unat (lo + 8) = n + 8"
proof -
  have "8 dvd unat hi * 2 ^ 32" by (rule dvd_mult) (simp add: dvd_eq_mod_eq_0)
  then have dvd: "8 dvd unat lo" using assms(1,2) by (metis dvd_add_right_iff)
  have lo: "unat lo < 2 ^ 32" by (rule unat_lt_u32)
  show "unat hi * 2 ^ 32 + unat (lo + 8) = n + 8" if "lo + 8 \<noteq> 0"
  proof -
    have "unat lo \<noteq> 2 ^ 32 - 8"
    proof
      assume "unat lo = 2 ^ 32 - 8"
      then have "(of_nat (unat lo) :: u32) = of_nat (2 ^ 32 - 8)" by (simp only:)
      with that show False by simp
    qed
    moreover obtain k where "unat lo = 8 * k" using dvd by (elim dvdE)
    ultimately have "unat lo + 8 < 2 ^ 32" using lo by simp
    then have "unat (lo + 8) = unat lo + 8" by (subst unat_add_lem [THEN iffD1]) auto
    with assms(1) show ?thesis by simp
  qed
  show "hi + 1 \<noteq> 0 \<and> unat (hi + 1) * 2 ^ 32 + unat (lo + 8) = n + 8" if z: "lo + 8 = 0"
  proof -
    from z have "lo = - 8" by (simp add: eq_neg_iff_add_eq_0)
    then have l: "unat lo = 2 ^ 32 - 8" by simp
    with assms(1,3) have "unat hi + 1 < 2 ^ 32" by simp
    then have "unat (hi + 1) = unat hi + 1" by (subst unat_add_lem [THEN iffD1]) auto
    with z l assms(1) show ?thesis by auto
  qed
qed

lemma list_update_take_snoc:
  "i < length xs \<Longrightarrow> take i xs = ys \<Longrightarrow> take (Suc i) (xs[i := b]) = ys @ [b]"
  by (simp add: take_Suc_conv_app_nth)

lemma input_byte_represents:
  assumes "represents H bits c msg" and "bits + 8 * (length msg + 1) < 2 ^ 64" and "8 dvd bits"
  shows "represents H bits (input_byte c b) (msg @ [b])"
proof -
  let ?n = "length (rest msg)"
  have r: "Intermediate_Hash c = fips_blocks H (whole msg)" "Message_Block_Index c = ?n"
    "length (Message_Block c) = 64" "take ?n (Message_Block c) = rest msg"
    "unat (Length_High c) * 2 ^ 32 + unat (Length_Low c) = bits + 8 * length msg"
    "Computed c = 0" "Corrupted c = 0"
    using assms(1) by (auto simp: represents_def)
  have n: "?n < 64" by (simp add: length_rest)
  define hi where "hi = (if Length_Low c + 8 = 0 then Length_High c + 1 else Length_High c)"
  have cnt: "unat hi * 2 ^ 32 + unat (Length_Low c + 8) = bits + 8 * length (msg @ [b])"
    and hi0: "Length_Low c + 8 = 0 \<Longrightarrow> hi \<noteq> 0"
    using length_counter [OF r(5)] assms(2,3) by (auto simp: hi_def)
  define c1 where "c1 = c\<lparr>Message_Block := (Message_Block c)[?n := b],
      Message_Block_Index := ?n + 1, Length_Low := Length_Low c + 8, Length_High := hi\<rparr>"
  have step: "input_byte c b = (if ?n + 1 = 64 then SHA1ProcessMessageBlock c1 else c1)"
    using hi0 by (auto simp: input_byte_def Let_def c1_def hi_def r(2))
  have blk: "take (?n + 1) ((Message_Block c)[?n := b]) = rest msg @ [b]"
    using list_update_take_snoc [OF _ r(4), of b] n r(3) by simp
  show ?thesis
  proof (cases "?n = 63")
    case False
    then have "length msg mod 64 \<noteq> 63" by (simp add: length_rest)
    note w = whole_rest_snoc(1) [OF this, of b]
    show ?thesis
      using r w False blk cnt assms(2) by (simp add: step represents_def c1_def)
  next
    case True
    then have "length msg mod 64 = 63" by (simp add: length_rest)
    note w = whole_rest_snoc(2) [OF this, of b]
    have all: "(Message_Block c)[?n := b] = rest msg @ [b]" using blk True r(3) by simp
    have "fips_blocks H (whole msg @ rest msg @ [b]) =
        fips_compress (fips_blocks H (whole msg)) (rest msg @ [b])"
      using True by (simp add: fips_blocks_append [OF dvd_whole] fips_blocks_one)
    moreover have "whole msg @ rest msg @ [b] = msg @ [b]" by (metis append_assoc whole_rest)
    ultimately show ?thesis
      using r w True all cnt assms(2)
      by (simp add: step represents_def c1_def ProcessMessageBlock_fips)
  qed
qed

lemma input_bytes_represents:
  assumes "represents H bits c msg" and "bits + 8 * length (msg @ bs) < 2 ^ 64" and "8 dvd bits"
  shows "represents H bits (input_bytes c bs) (msg @ bs)"
  using assms
proof (induction bs arbitrary: c msg)
  case Nil
  then show ?case by simp
next
  case (Cons b bs)
  have "represents H bits (input_byte c b) (msg @ [b])"
    using Cons.prems by (intro input_byte_represents) auto
  with Cons.IH [of "input_byte c b" "msg @ [b]"] Cons.prems show ?case
    by (simp add: represents_def)
qed

lemma SHA1Input_represents:
  assumes "represents H bits c msg" and "bits + 8 * length (msg @ bs) < 2 ^ 64" and "8 dvd bits"
  shows "fst (SHA1Input c bs) = shaSuccess"
    and "represents H bits (snd (SHA1Input c bs)) (msg @ bs)"
proof -
  have "Computed c = 0" "Corrupted c = 0" using assms(1) by (auto simp: represents_def)
  with input_bytes_represents [OF assms] assms(1)
  show "fst (SHA1Input c bs) = shaSuccess" "represents H bits (snd (SHA1Input c bs)) (msg @ bs)"
    by (auto simp: SHA1Input_def)
qed


lemma SHA1Reset_represents:
  assumes "length (Message_Block c) = 64"
  shows "represents fips_H0 0 (snd (SHA1Reset c)) []"
  using assms
  by (simp add: represents_def SHA1Reset_def rest_def whole_def fips_H0_def
      fips_blocks.simps [of _ "[]"])

section \<open>Padding\<close>

lemma fill_zeros_eq:
  assumes "i \<le> limit" and "limit \<le> length b"
  shows "fill_zeros (c\<lparr>Message_Block := b, Message_Block_Index := i\<rparr>) limit =
    c\<lparr>Message_Block := take i b @ replicate (limit - i) 0 @ drop limit b,
       Message_Block_Index := limit\<rparr>"
  using assms
proof (induction "limit - i" arbitrary: i b)
  case 0
  then show ?case by (simp add: fill_zeros.simps)
next
  case (Suc n)
  then have i: "i < limit" "n = limit - Suc i" by auto
  have "fill_zeros (c\<lparr>Message_Block := b, Message_Block_Index := i\<rparr>) limit =
      fill_zeros (c\<lparr>Message_Block := b[i := 0], Message_Block_Index := Suc i\<rparr>) limit"
    using i by (subst fill_zeros.simps) simp
  also have "\<dots> = c\<lparr>Message_Block := take (Suc i) (b[i := 0]) @ replicate (limit - Suc i) 0
      @ drop limit (b[i := 0]), Message_Block_Index := limit\<rparr>"
    using i Suc.prems by (intro Suc.hyps) auto
  also have "take (Suc i) (b[i := 0]) = take i b @ [0]"
    using i Suc.prems by (intro list_update_take_snoc) auto
  also have "limit - i = Suc (limit - Suc i)" using i by simp
  ultimately show ?case using i by simp
qed

lemma fill_zeros_from:
  assumes "Message_Block_Index c \<le> limit" and "limit \<le> length (Message_Block c)"
  shows "fill_zeros c limit = c\<lparr>Message_Block := take (Message_Block_Index c) (Message_Block c)
      @ replicate (limit - Message_Block_Index c) 0 @ drop limit (Message_Block c),
    Message_Block_Index := limit\<rparr>"
  using fill_zeros_eq [of "Message_Block_Index c" limit "Message_Block c" c] assms by simp

lemma be64_words:
  fixes hi lo :: u32
  assumes "unat hi * 2 ^ 32 + unat lo = n"
  shows "be64 n = [ucast (drop_bit 24 hi), ucast (drop_bit 16 hi), ucast (drop_bit 8 hi), ucast hi,
    ucast (drop_bit 24 lo), ucast (drop_bit 16 lo), ucast (drop_bit 8 lo), ucast lo]"
proof -
  have lo: "unat lo < 2 ^ 32" by (rule unat_lt_u32)
  have uc: "(ucast (drop_bit k w) :: u8) = of_nat (unat w div 2 ^ k)" for k and w :: u32
  proof -
    have "(ucast (drop_bit k w) :: u8) = of_nat (unat (drop_bit k w))" by simp
    also have "unat (drop_bit k w) = unat w div 2 ^ k"
      by (simp only: unat_drop_bit_eq) (simp only: drop_bit_eq_div)
    finally show ?thesis .
  qed
  have high: "n div (2 ^ 32 * m) = unat hi div m" for m
    using assms lo by (auto simp: div_mult2_eq)
  have h: "n div 256 ^ 7 = unat hi div 2 ^ 24" "n div 256 ^ 6 = unat hi div 2 ^ 16"
    "n div 256 ^ 5 = unat hi div 2 ^ 8" "n div 256 ^ 4 = unat hi div 2 ^ 0"
    using high [of "2 ^ 24"] high [of "2 ^ 16"] high [of "2 ^ 8"] high [of "2 ^ 0"] by simp_all
  have low: "(of_nat (n div 2 ^ k) :: u8) = of_nat (unat lo div 2 ^ k)" if "k \<le> 24" for k
  proof -
    have "(2::nat) ^ 32 = 2 ^ k * (2 ^ (24 - k) * 2 ^ 8)"
      using that by (simp flip: power_add)
    then have "n = unat hi * (2 ^ k * (2 ^ (24 - k) * 2 ^ 8)) + unat lo"
      using assms by (simp only:)
    then have "n = unat lo + 2 ^ k * (unat hi * 2 ^ (24 - k) * 2 ^ 8)"
      by (simp only: ac_simps)
    then have "n div 2 ^ k = unat hi * 2 ^ (24 - k) * 2 ^ 8 + unat lo div 2 ^ k"
      by simp
    moreover have "(of_nat (x * 2 ^ 8) :: u8) = 0" for x
    proof -
      have "(of_nat (2 ^ 8) :: u8) = 0" by simp
      then show ?thesis by (simp only: of_nat_mult mult_zero_right)
    qed
    ultimately show ?thesis by (simp only: of_nat_add add_0_left)
  qed
  have l: "(of_nat (n div 256 ^ 3) :: u8) = ucast (drop_bit 24 lo)"
    "(of_nat (n div 256 ^ 2) :: u8) = ucast (drop_bit 16 lo)"
    "(of_nat (n div 256 ^ 1) :: u8) = ucast (drop_bit 8 lo)"
    "(of_nat (n div 256 ^ 0) :: u8) = ucast (drop_bit 0 lo)"
    unfolding uc using low [of 24] low [of 16] low [of 8] low [of 0] by simp_all
  have hh: "ucast (drop_bit 24 hi) = (of_nat (n div 256 ^ 7) :: u8)"
    "ucast (drop_bit 16 hi) = (of_nat (n div 256 ^ 6) :: u8)"
    "ucast (drop_bit 8 hi) = (of_nat (n div 256 ^ 5) :: u8)"
    "ucast (drop_bit 0 hi) = (of_nat (n div 256 ^ 4) :: u8)"
    by (simp_all only: uc h)
  have "[0..<8] = [0, 1, 2, 3, 4, 5, 6, 7::nat]" by (simp add: upt_rec)
  then have "be64 n = [of_nat (n div 256 ^ 7), of_nat (n div 256 ^ 6), of_nat (n div 256 ^ 5),
      of_nat (n div 256 ^ 4), of_nat (n div 256 ^ 3), of_nat (n div 256 ^ 2),
      of_nat (n div 256 ^ 1), of_nat (n div 256 ^ 0)]"
    by (simp add: be64_def del: of_nat_mult of_nat_numeral)
  with l hh show ?thesis by (simp only: drop_bit_0 id_apply)
qed

lemma store_length_block:
  assumes "Message_Block c = p @ q" and "length p = 56" and "length q = 8"
    and "unat (Length_High c) * 2 ^ 32 + unat (Length_Low c) = n"
  shows "store_length c = c\<lparr>Message_Block := p @ be64 n\<rparr>"
proof -
  obtain q0 q1 q2 q3 q4 q5 q6 q7 where "q = [q0, q1, q2, q3, q4, q5, q6, q7]"
    using assms(3) by (auto simp: numeral_eq_Suc length_Suc_conv)
  then show ?thesis
    using assms(1,2) by (simp add: store_length_def be64_words [OF assms(4)] list_update_append)
qed

lemma put_pad_fill:
  assumes "length (Message_Block c) = 64" and "Message_Block_Index c < limit" and "limit \<le> 64"
  shows "fill_zeros (put_pad c) limit =
    c\<lparr>Message_Block := take (Message_Block_Index c) (Message_Block c)
         @ 0x80 # replicate (limit - Suc (Message_Block_Index c)) 0 @ drop limit (Message_Block c),
       Message_Block_Index := limit\<rparr>"
proof -
  let ?i = "Message_Block_Index c"
  have "put_pad c = c\<lparr>Message_Block := (Message_Block c)[?i := 0x80], Message_Block_Index := Suc ?i\<rparr>"
    by (simp add: put_pad_def)
  moreover have "take (Suc ?i) ((Message_Block c)[?i := 0x80]) = take ?i (Message_Block c) @ [0x80]"
    using assms by (intro list_update_take_snoc) auto
  ultimately show ?thesis using assms by (simp add: fill_zeros_eq)
qed

lemma padding_length:
  "i < 56 \<Longrightarrow> (119 - i) mod 64 = 55 - (i::nat)"
  "56 \<le> i \<Longrightarrow> i < 64 \<Longrightarrow> (119 - i) mod 64 = (63 - i) + (56::nat)"
proof -
  assume "i < 56"
  then have "119 - i = (55 - i) + 64" by simp
  then have "(119 - i) mod 64 = (55 - i) mod 64" by (simp only: mod_add_self2)
  then show "(119 - i) mod 64 = 55 - i" by simp
qed simp

lemma SHA1PadMessage_blocks:
  assumes "represents H bits c msg"
  shows "Intermediate_Hash (SHA1PadMessage c) =
    fips_blocks H (msg @ fips_padding (length msg) (bits + 8 * length msg))"
proof -
  let ?i = "length (rest msg)" and ?b = "Message_Block c" and ?n = "bits + 8 * length msg"
  have r: "Intermediate_Hash c = fips_blocks H (whole msg)" "Message_Block_Index c = ?i"
    "length ?b = 64" "take ?i ?b = rest msg"
    "unat (Length_High c) * 2 ^ 32 + unat (Length_Low c) = ?n"
    using assms by (auto simp: represents_def)
  have i: "?i < 64" "length msg mod 64 = ?i" by (simp_all add: length_rest)
  have blocks: "fips_blocks H (msg @ fips_padding (length msg) ?n) =
      fips_blocks (fips_blocks H (whole msg)) (rest msg @ fips_padding ?i ?n)"
    using i by (metis append.assoc dvd_whole fips_blocks_append whole_rest fips_padding_def mod_mod_trivial)
  have len: "length (be64 ?n) = 8" by (simp add: be64_def)
  show ?thesis
  proof (cases "?i \<le> 55")
    case True
    let ?p = "rest msg @ 0x80 # replicate (55 - ?i) 0"
    have "fill_zeros (put_pad c) 56 =
        c\<lparr>Message_Block := ?p @ drop 56 ?b, Message_Block_Index := 56\<rparr>"
      using True r by (simp add: put_pad_fill)
    moreover have "store_length (c\<lparr>Message_Block := ?p @ drop 56 ?b, Message_Block_Index := 56\<rparr>)
        = c\<lparr>Message_Block := ?p @ be64 ?n, Message_Block_Index := 56\<rparr>"
      using True r by (subst store_length_block [of _ ?p "drop 56 ?b" ?n]) auto
    ultimately have "Intermediate_Hash (SHA1PadMessage c) =
        fips_compress (fips_blocks H (whole msg)) (?p @ be64 ?n)"
      using True r by (simp add: SHA1PadMessage_def ProcessMessageBlock_fips)
    moreover have "?p @ be64 ?n = rest msg @ fips_padding ?i ?n"
      using True i by (simp add: fips_padding_def padding_length(1))
    moreover have "length (?p @ be64 ?n) = 64" using True len by simp
    ultimately show ?thesis by (simp only: blocks fips_blocks_one)
  next
    case False
    let ?q = "rest msg @ 0x80 # replicate (63 - ?i) 0"
    let ?H = "fips_compress (fips_blocks H (whole msg)) ?q"
    let ?c = "c\<lparr>Message_Block := ?q, Message_Block_Index := 0, Intermediate_Hash := ?H\<rparr>"
    let ?z = "replicate 56 (0::u8)"
    have q: "length ?q = 64" using False i by simp
    have "fill_zeros (put_pad c) 64 = c\<lparr>Message_Block := ?q, Message_Block_Index := 64\<rparr>"
      using False r i by (simp add: put_pad_fill)
    then have "SHA1ProcessMessageBlock (fill_zeros (put_pad c) 64) = ?c"
      using r by (simp add: ProcessMessageBlock_fips)
    moreover have "fill_zeros ?c 56 = ?c\<lparr>Message_Block := ?z @ drop 56 ?q, Message_Block_Index := 56\<rparr>"
      using q by (subst fill_zeros_from) auto
    moreover have "store_length (?c\<lparr>Message_Block := ?z @ drop 56 ?q, Message_Block_Index := 56\<rparr>)
        = ?c\<lparr>Message_Block := ?z @ be64 ?n, Message_Block_Index := 56\<rparr>"
      using q r by (subst store_length_block [of _ ?z "drop 56 ?q" ?n]) auto
    ultimately have "Intermediate_Hash (SHA1PadMessage c) = fips_compress ?H (?z @ be64 ?n)"
      using False r by (simp add: SHA1PadMessage_def ProcessMessageBlock_fips)
    moreover have "rest msg @ fips_padding ?i ?n = ?q @ ?z @ be64 ?n"
    proof -
      have "(119 - ?i) mod 64 = (63 - ?i) + 56" using False i by (intro padding_length(2)) auto
      then show ?thesis
        by (simp only: fips_padding_def mod_less [OF i(1)] replicate_add) simp
    qed
    moreover have "fips_blocks (fips_blocks H (whole msg)) (?q @ ?z @ be64 ?n) =
        fips_compress ?H (?z @ be64 ?n)"
      using q len by (subst fips_blocks_append) (simp_all add: fips_blocks_one)
    ultimately show ?thesis by (simp only: blocks)
  qed
qed

section \<open>Digests\<close>

lemma length_fips_blocks [simp]: "length H = 5 \<Longrightarrow> length (fips_blocks H bs) = 5"
  by (induction H bs rule: fips_blocks.induct)
    (auto simp: fips_blocks.simps [of _ bs for bs] fips_compress_def split: prod.splits)

lemma digest_bytes_eq:
  assumes "length H = 5"
  shows "digest_bytes H = concat (map (\<lambda>w. rev (le32_bytes w)) H)"
proof -
  obtain a b c d e where "H = [a, b, c, d, e]"
    using assms by (auto simp: numeral_eq_Suc length_Suc_conv)
  moreover have "[0..<20] = [0, 1, 2, 3, 4, 5, 6, 7, 8, 9, 10, 11, 12, 13, 14, 15, 16, 17, 18, 19::nat]"
    by (simp add: upt_rec)
  ultimately show ?thesis
    by (simp only: digest_bytes_def le32_bytes_def list.map concat.simps rev.simps append.simps) simp
qed

lemma SHA1Result_represents:
  assumes "represents H bits c msg" and "length H = 5"
  shows "fst (SHA1Result c) = shaSuccess"
    and "snd (snd (SHA1Result c)) = Some (fips_from H bits msg)"
  using assms SHA1PadMessage_blocks [OF assms(1)]
  by (auto simp: SHA1Result_def represents_def fips_from_def digest_bytes_eq Let_def)

text \<open>
  A whole run: reset, any number of input calls, result. The codes are all \<open>shaSuccess\<close>.
\<close>

definition sha1_inputs :: "SHA1Context \<Rightarrow> bytes list \<Rightarrow> SHA1Context" where
  "sha1_inputs c chunks = foldl (\<lambda>c m. snd (SHA1Input c m)) c chunks"

lemma sha1_inputs_represents:
  assumes "represents H bits c msg" and "bits + 8 * length (msg @ concat chunks) < 2 ^ 64"
    and "8 dvd bits"
  shows "represents H bits (sha1_inputs c chunks) (msg @ concat chunks)"
  using assms
proof (induction chunks arbitrary: c msg)
  case Nil
  then show ?case by (simp add: sha1_inputs_def)
next
  case (Cons m chunks)
  have "represents H bits (snd (SHA1Input c m)) (msg @ m)"
    using Cons.prems by (intro SHA1Input_represents) auto
  with Cons.IH [of "snd (SHA1Input c m)" "msg @ m"] Cons.prems show ?case
    by (simp add: sha1_inputs_def)
qed

text \<open>C25. Reset, any sequence of input calls, and result: the digest is the one FIPS 180-1
  defines for the concatenation of the inputs, for every message shorter than \<open>2\<^sup>6\<^sup>4\<close> bits.\<close>

theorem sha1_correct:
  assumes "length (Message_Block c) = 64" and "8 * length (concat chunks) < 2 ^ 64"
  shows "SHA1Result (sha1_inputs (snd (SHA1Reset c)) chunks) =
    (shaSuccess, fst (snd (SHA1Result (sha1_inputs (snd (SHA1Reset c)) chunks))),
     Some (fips_sha1 (concat chunks)))"
proof -
  have "represents fips_H0 0 (sha1_inputs (snd (SHA1Reset c)) chunks) (concat chunks)"
    using sha1_inputs_represents [OF SHA1Reset_represents [OF assms(1)]] assms(2) by simp
  from SHA1Result_represents [OF this] show ?thesis
    by (simp add: fips_sha1_def fips_H0_def prod_eq_iff)
qed

definition blank_context :: SHA1Context where
  "blank_context = \<lparr>Intermediate_Hash = replicate 5 0, Length_Low = 0, Length_High = 0,
     Message_Block_Index = 0, Message_Block = replicate 64 0, Computed = 0, Corrupted = 0\<rparr>"

theorem sha1_correct_witness:
  "snd (snd (SHA1Result (sha1_inputs (snd (SHA1Reset blank_context)) [[0x61], [0x62, 0x63]]))) =
     Some (fips_sha1 [0x61, 0x62, 0x63])"
  using sha1_correct [of blank_context "[[0x61], [0x62, 0x63]]"]
  by (simp add: blank_context_def prod_eq_iff)

text \<open>A context that has produced its digest refuses further input and keeps the error:
  every later input and the next result fail with \<open>shaStateError\<close> and no digest is written.\<close>

lemma sha1_input_after_result:
  assumes "Computed c \<noteq> 0" and "msg \<noteq> []"
  shows "SHA1Input c msg = (shaStateError, c\<lparr>Corrupted := shaStateError\<rparr>)
    \<and> SHA1Result (snd (SHA1Input c msg)) = (shaStateError, c\<lparr>Corrupted := shaStateError\<rparr>, None)"
  using assms by (simp_all add: SHA1Input_def SHA1Result_def)

lemma sha1_input_after_result_example:
  "SHA1Input (blank_context\<lparr>Computed := 1\<rparr>) [7] =
     (shaStateError, blank_context\<lparr>Computed := 1, Corrupted := shaStateError\<rparr>)"
  using sha1_input_after_result [of "blank_context\<lparr>Computed := 1\<rparr>" "[7]"] by simp

section \<open>Hash of a buffer\<close>

text \<open>Reset, one input and the result, as the first stage and the image builder hash a buffer into \<open>result\<close>; the context is used again for every hash.\<close>

definition sha1_buffer :: "bytes \<Rightarrow> bytes \<Rightarrow> SHA1Context \<Rightarrow> bytes \<times> SHA1Context" where
  "sha1_buffer buf result c =
     (let (_, c) = SHA1Reset c; (_, c) = SHA1Input c buf; (_, c, r) = SHA1Result c
      in (case r of None \<Rightarrow> result | Some bs \<Rightarrow> bs, c))"

lemma sha1_buffer_eq:
  assumes "length (Message_Block c) = 64" and "length buf < 2 ^ 32"
  shows "fst (sha1_buffer buf r c) = fips_sha1 buf" and "length (Message_Block (snd (sha1_buffer buf r c))) = 64"
proof -
  let ?c = "snd (SHA1Input (snd (SHA1Reset c)) buf)"
  have r: "represents fips_H0 0 ?c buf"
    using SHA1Input_represents(2) [OF SHA1Reset_represents [OF assms(1)], of buf] assms(2) by simp
  have d: "snd (snd (SHA1Result ?c)) = Some (fips_sha1 buf)"
    using SHA1Result_represents(2) [OF r] by (simp add: fips_sha1_def fips_H0_def)
  then show "fst (sha1_buffer buf r c) = fips_sha1 buf"
    by (simp add: sha1_buffer_def Let_def split_beta)
  have "Computed ?c = 0" "Corrupted ?c = 0" using r by (auto simp: represents_def)
  then show "length (Message_Block (snd (sha1_buffer buf r c))) = 64"
    by (simp add: sha1_buffer_def Let_def split_beta SHA1Result_def)
qed

lemma length_fips_sha1 [simp]: "length (fips_sha1 msg) = 20"
  by (simp add: fips_sha1_def fips_from_def length_concat o_def sum_list_triv fips_H0_def)

end
