(* ===== verification/Rc4.thy ===== *)
theory Rc4
  imports Prelude
begin

text \<open>
  The RC4 cipher of \<open>lib/crypt/rc4.c\<close>, against the textbook description of the cipher on
  permutations of the numbers below 256.

  The key is the struct of \<open>rc4.h\<close>. Indices computed from bytes are bytes, as in the code; the
  result is \<open>None\<close> where the code has none: a key length of 0 (division by zero) or one beyond
  the key buffer.
\<close>

record rc4_key =
  key_state :: bytes
  key_x :: u8
  key_y :: u8

section \<open>Operations\<close>

definition swap_byte :: "bytes \<Rightarrow> nat \<Rightarrow> nat \<Rightarrow> bytes" where
  "swap_byte s a b = (let swapByte = s ! a in (s[a := s ! b])[b := swapByte])"

text \<open>One round of the key schedule on state, \<open>index1\<close> and \<open>index2\<close>.\<close>

definition prepare_step ::
  "bytes \<Rightarrow> nat \<Rightarrow> nat \<Rightarrow> bytes \<times> u8 \<times> u8 \<Rightarrow> (bytes \<times> u8 \<times> u8) option" where
  "prepare_step key len counter = (\<lambda>(s, index1, index2). do {
     k \<leftarrow> byte_at key (unat index1);
     let index2 = k + s ! counter + index2;
     let s = swap_byte s counter (unat index2);
     let index1 = of_nat ((unat index1 + 1) mod len);
     Some (s, index1, index2)
   })"

fun prepare_loop ::
  "bytes \<Rightarrow> nat \<Rightarrow> nat list \<Rightarrow> bytes \<times> u8 \<times> u8 \<Rightarrow> (bytes \<times> u8 \<times> u8) option" where
  "prepare_loop key len [] st = Some st"
| "prepare_loop key len (c # cs) st =
     (case prepare_step key len c st of None \<Rightarrow> None | Some st' \<Rightarrow> prepare_loop key len cs st')"

definition rc4_prepare_key :: "bytes \<Rightarrow> nat \<Rightarrow> rc4_key option" where
  "rc4_prepare_key key len =
     (if len = 0 then None
      else map_option (\<lambda>(s, _, _). \<lparr>key_state = s, key_x = 0, key_y = 0\<rparr>)
             (prepare_loop key len [0..<256] (map of_nat [0..<256], 0, 0)))"

text \<open>One round of the cipher: the next key and the byte that is combined with the buffer.\<close>

definition crypt_step :: "rc4_key \<Rightarrow> u8 \<times> rc4_key" where
  "crypt_step k =
     (let x = key_x k + 1;
          y = key_state k ! unat x + key_y k;
          s = swap_byte (key_state k) (unat x) (unat y);
          xorIndex = s ! unat x + s ! unat y
      in (s ! unat xorIndex, \<lparr>key_state = s, key_x = x, key_y = y\<rparr>))"

fun rc4_crypt :: "bytes \<Rightarrow> rc4_key \<Rightarrow> bytes \<times> rc4_key" where
  "rc4_crypt [] k = ([], k)"
| "rc4_crypt (b # bs) k =
     (let (z, k) = crypt_step k; (bs, k) = rc4_crypt bs k in ((b XOR z) # bs, k))"

section \<open>The cipher as the literature has it\<close>

text \<open>
  A permutation of \<open>{0..<256}\<close> as a function on the naturals, the key-scheduling rounds and the
  generator rounds, all arithmetic modulo 256.
\<close>

definition transpose :: "nat \<Rightarrow> nat \<Rightarrow> (nat \<Rightarrow> nat) \<Rightarrow> nat \<Rightarrow> nat" where
  "transpose a b S = S(a := S b, b := S a)"

fun ksa :: "(nat \<Rightarrow> nat) \<Rightarrow> nat \<Rightarrow> (nat \<Rightarrow> nat) \<times> nat" where
  "ksa key 0 = ((\<lambda>i. i), 0)"
| "ksa key (Suc i) =
     (let (S, j) = ksa key i; j = (j + S i + key i) mod 256 in (transpose i j S, j))"

definition prga :: "(nat \<Rightarrow> nat) \<times> nat \<times> nat \<Rightarrow> nat \<times> (nat \<Rightarrow> nat) \<times> nat \<times> nat" where
  "prga = (\<lambda>(S, i, j).
     let i = (i + 1) mod 256; j = (j + S i) mod 256; S = transpose i j S
     in (S ((S i + S j) mod 256), S, i, j))"

fun keystream :: "nat \<Rightarrow> (nat \<Rightarrow> nat) \<times> nat \<times> nat \<Rightarrow> nat list" where
  "keystream 0 st = []"
| "keystream (Suc n) st = (let (z, st) = prga st in z # keystream n st)"

section \<open>The state stays a permutation\<close>

definition is_perm :: "bytes \<Rightarrow> bool" where
  "is_perm s \<longleftrightarrow> length s = 256 \<and> distinct s"

lemma is_perm_swap [simp]: "is_perm s \<Longrightarrow> a < 256 \<Longrightarrow> b < 256 \<Longrightarrow> is_perm (swap_byte s a b)"
  by (simp add: is_perm_def swap_byte_def distinct_swap)

lemma is_perm_set: "is_perm s \<Longrightarrow> set s = UNIV"
proof -
  assume s: "is_perm s"
  then have "card (set s) = card (UNIV :: u8 set)"
    by (simp add: is_perm_def distinct_card card_word)
  then show ?thesis by (intro card_subset_eq) auto
qed

lemma unat_u8_lt: "unat (w :: u8) < 256"
  using unsigned_less [of w] by simp

lemma swap_byte_nth:
  "i < length s \<Longrightarrow> a < length s \<Longrightarrow> b < length s \<Longrightarrow>
   swap_byte s a b ! i = (if i = a then s ! b else if i = b then s ! a else s ! i)"
  by (auto simp: swap_byte_def nth_list_update)

lemma crypt_step_perm:
  "is_perm (key_state k) \<Longrightarrow> is_perm (key_state (snd (crypt_step k)))"
  by (simp add: crypt_step_def Let_def unat_u8_lt)

text \<open>The recursion through the projections; the pair patterns of the definition are opened.\<close>

lemma rc4_crypt_Cons [simp]:
  "rc4_crypt (b # bs) k =
     ((b XOR fst (crypt_step k)) # fst (rc4_crypt bs (snd (crypt_step k))),
      snd (rc4_crypt bs (snd (crypt_step k))))"
  by (simp add: Let_def split: prod.splits)

declare rc4_crypt.simps(2) [simp del]

lemma rc4_crypt_perm:
  "is_perm (key_state k) \<Longrightarrow> is_perm (key_state (snd (rc4_crypt bs k)))"
  by (induction bs arbitrary: k) (simp_all add: crypt_step_perm)

lemma rc4_crypt_length [simp]: "length (fst (rc4_crypt bs k)) = length bs"
  by (induction bs arbitrary: k) simp_all

lemma unat_of_nat_u8: "n < 256 \<Longrightarrow> unat (of_nat n :: u8) = n"
  by (simp add: unat_of_nat take_bit_nat_eq_self)

lemma initial_perm: "is_perm (map of_nat [0..<256])"
proof -
  have "inj_on (of_nat :: nat \<Rightarrow> u8) {0..<256}"
    by (rule inj_on_inverseI [where g = unat]) (simp add: unat_of_nat_u8)
  then show ?thesis by (simp add: is_perm_def distinct_map del: upt_rec_numeral)
qed

section \<open>Refinement of the textbook cipher\<close>

definition agrees :: "bytes \<Rightarrow> (nat \<Rightarrow> nat) \<Rightarrow> bool" where
  "agrees s S \<longleftrightarrow> length s = 256 \<and> (\<forall>i<256. unat (s ! i) = S i)"

lemma agrees_nth: "agrees s S \<Longrightarrow> i < 256 \<Longrightarrow> unat (s ! i) = S i"
  by (simp add: agrees_def)

lemma agrees_swap:
  "agrees s S \<Longrightarrow> a < 256 \<Longrightarrow> b < 256 \<Longrightarrow> agrees (swap_byte s a b) (transpose a b S)"
  by (auto simp: agrees_def swap_byte_nth transpose_def) (auto simp: swap_byte_def)

lemma unat_add_u8: "unat (a + b :: u8) = (unat a + unat b) mod 256"
  by (simp add: unat_word_ariths)

lemma agrees_initial: "agrees (map of_nat [0..<256]) (\<lambda>i. i)"
  by (simp add: agrees_def unat_of_nat_u8 del: upt_rec_numeral)

lemma prepare_step_refines:
  assumes "agrees s S" and "unat i2 = j" and "unat i1 = c mod len" and "c < 256"
    and "0 < len" and "len \<le> 256" and "len \<le> length key"
  shows "\<exists>s' i1' i2'. prepare_step key len c (s, i1, i2) = Some (s', i1', i2')
    \<and> unat i2' = (j + S c + unat (key ! (c mod len))) mod 256
    \<and> agrees s' (transpose c ((j + S c + unat (key ! (c mod len))) mod 256) S)
    \<and> unat i1' = Suc c mod len \<and> (is_perm s \<longrightarrow> is_perm s')"
proof -
  let ?k = "key ! (c mod len)"
  have m: "c mod len < len" using assms(5) by simp
  have j: "unat (?k + s ! c + i2) = (j + S c + unat ?k) mod 256"
    using agrees_nth [OF assms(1,4)] assms(2)
    by (simp add: unat_add_u8 mod_simps ac_simps)
  have i: "unat (of_nat ((unat i1 + 1) mod len) :: u8) = Suc c mod len"
  proof -
    have "(unat i1 + 1) mod len < 256" using assms(5,6) by (meson less_le_trans mod_less_divisor)
    then show ?thesis using assms(3) by (simp add: unat_of_nat_u8 mod_Suc_eq)
  qed
  have "prepare_step key len c (s, i1, i2) =
      Some (swap_byte s c (unat (?k + s ! c + i2)), of_nat ((unat i1 + 1) mod len), ?k + s ! c + i2)"
    using assms(3,7) m by (simp add: prepare_step_def byte_at_def Let_def)
  moreover have "agrees (swap_byte s c (unat (?k + s ! c + i2)))
      (transpose c ((j + S c + unat ?k) mod 256) S)"
    using agrees_swap [OF assms(1,4), of "unat (?k + s ! c + i2)"] j by (simp add: unat_u8_lt)
  ultimately show ?thesis using i j assms(4) by (auto simp: unat_u8_lt)
qed

lemma prepare_loop_snoc:
  "prepare_loop key len (cs @ [c]) st =
     (case prepare_loop key len cs st of None \<Rightarrow> None | Some st' \<Rightarrow> prepare_step key len c st')"
  by (induction cs arbitrary: st) (auto split: option.splits)

lemma prepare_loop_refines:
  assumes "n \<le> 256" and "0 < len" and "len \<le> 256" and "len \<le> length key"
  shows "\<exists>s i1 i2. prepare_loop key len [0..<n] (map of_nat [0..<256], 0, 0) = Some (s, i1, i2)
    \<and> agrees s (fst (ksa (\<lambda>i. unat (key ! (i mod len))) n))
    \<and> unat i2 = snd (ksa (\<lambda>i. unat (key ! (i mod len))) n)
    \<and> unat i1 = n mod len \<and> is_perm s"
  using assms(1)
proof (induction n)
  case 0
  then show ?case by (simp add: agrees_initial initial_perm del: upt_rec_numeral)
next
  case (Suc n)
  then obtain s i1 i2
    where IH: "prepare_loop key len [0..<n] (map of_nat [0..<256], 0, 0) = Some (s, i1, i2)"
      "agrees s (fst (ksa (\<lambda>i. unat (key ! (i mod len))) n))"
      "unat i2 = snd (ksa (\<lambda>i. unat (key ! (i mod len))) n)" "unat i1 = n mod len" "is_perm s"
    by auto
  have n: "n < 256" using Suc.prems by simp
  from prepare_step_refines [OF IH(2,3,4) n assms(2-4)] IH(1,5) show ?case
    by (auto simp: prepare_loop_snoc Let_def split: prod.splits simp del: upt_rec_numeral)
qed

lemma crypt_step_refines:
  assumes "agrees (key_state k) S"
  shows "\<exists>S' i' j'. prga (S, unat (key_x k), unat (key_y k)) = (unat (fst (crypt_step k)), S', i', j')
    \<and> agrees (key_state (snd (crypt_step k))) S'
    \<and> i' = unat (key_x (snd (crypt_step k))) \<and> j' = unat (key_y (snd (crypt_step k)))"
proof -
  define x where "x = key_x k + 1"
  define y where "y = key_state k ! unat x + key_y k"
  define s where "s = swap_byte (key_state k) (unat x) (unat y)"
  define S' where "S' = transpose (unat x) (unat y) S"
  have x: "unat x = (unat (key_x k) + 1) mod 256" by (simp add: x_def unat_add_u8)
  have y: "unat y = (unat (key_y k) + S (unat x)) mod 256"
    by (simp add: y_def unat_add_u8 agrees_nth [OF assms unat_u8_lt] add.commute)
  have s: "agrees s S'" unfolding s_def S'_def by (rule agrees_swap [OF assms unat_u8_lt unat_u8_lt])
  have z: "unat (s ! unat (s ! unat x + s ! unat y)) = S' ((S' (unat x) + S' (unat y)) mod 256)"
    by (simp add: agrees_nth [OF s] unat_u8_lt unat_add_u8)
  have "prga (S, unat (key_x k), unat (key_y k)) =
      (unat (s ! unat (s ! unat x + s ! unat y)), S', unat x, unat y)"
    by (simp add: prga_def Let_def z S'_def flip: x y del: One_nat_def)
  moreover have "crypt_step k =
      (s ! unat (s ! unat x + s ! unat y), \<lparr>key_state = s, key_x = x, key_y = y\<rparr>)"
    by (simp add: crypt_step_def Let_def x_def y_def s_def)
  ultimately show ?thesis using s by simp
qed


lemma rc4_crypt_refines:
  assumes "agrees (key_state k) S"
  shows "fst (rc4_crypt bs k) =
    map2 (XOR) bs (map of_nat (keystream (length bs) (S, unat (key_x k), unat (key_y k))))"
  using assms
proof (induction bs arbitrary: k S)
  case (Cons b bs)
  from crypt_step_refines [OF Cons.prems] obtain S' i' j'
    where p: "prga (S, unat (key_x k), unat (key_y k)) = (unat (fst (crypt_step k)), S', i', j')"
      and a: "agrees (key_state (snd (crypt_step k))) S'"
      and ij: "i' = unat (key_x (snd (crypt_step k)))" "j' = unat (key_y (snd (crypt_step k)))"
    by blast
  from Cons.IH [OF a] p ij show ?case by simp
qed simp

lemma rc4_prepare_key_total:
  assumes "0 < len" and "len \<le> 256" and "len \<le> length key"
  shows "\<exists>k. rc4_prepare_key key len = Some k"
  using prepare_loop_refines [OF _ assms, of 256] assms(1)
  by (auto simp: rc4_prepare_key_def simp del: upt_rec_numeral)

text \<open>C39. Key set-up with a key of 1 to 256 bytes and encryption of any buffer give the bytes
  of the buffer combined with the key stream of the textbook cipher for that key.\<close>

theorem rc4_is_textbook:
  assumes "0 < len" and "len \<le> 256" and "len \<le> length key"
  shows "\<exists>k. rc4_prepare_key key len = Some k \<and> is_perm (key_state k)
    \<and> fst (rc4_crypt bs k) = map2 (XOR) bs
        (map of_nat (keystream (length bs) (fst (ksa (\<lambda>i. unat (key ! (i mod len))) 256), 0, 0)))"
proof -
  from prepare_loop_refines [OF _ assms, of 256] obtain s i1 i2
    where s: "prepare_loop key len [0..<256] (map of_nat [0..<256], 0, 0) = Some (s, i1, i2)"
      "agrees s (fst (ksa (\<lambda>i. unat (key ! (i mod len))) 256))" "is_perm s"
    by (auto simp del: upt_rec_numeral)
  then have "rc4_prepare_key key len = Some \<lparr>key_state = s, key_x = 0, key_y = 0\<rparr>"
    using assms(1) by (simp add: rc4_prepare_key_def del: upt_rec_numeral)
  with rc4_crypt_refines [of "\<lparr>key_state = s, key_x = 0, key_y = 0\<rparr>"] s show ?thesis by simp
qed

theorem rc4_is_textbook_witness:
  "\<exists>k. rc4_prepare_key [1, 2, 3, 4, 5] 5 = Some k \<and> is_perm (key_state k)
    \<and> fst (rc4_crypt [0, 0] k) = map2 (XOR) [0, 0] (map of_nat (keystream (length [0 :: u8, 0])
        (fst (ksa (\<lambda>i. unat ([1 :: u8, 2, 3, 4, 5] ! (i mod 5))) 256), 0, 0)))"
  by (rule rc4_is_textbook [of 5 "[1, 2, 3, 4, 5]" "[0, 0]"]) simp_all

section \<open>Decryption and streaming\<close>

lemma xor_twice: "(b XOR z) XOR z = (b :: u8)"
  by (rule bit_word_eqI) (auto simp: bit_simps)

lemma rc4_crypt_twice:
  "rc4_crypt (fst (rc4_crypt bs k)) k = (bs, snd (rc4_crypt bs k))"
  by (induction bs arbitrary: k) (simp_all add: xor_twice)

lemma rc4_crypt_append:
  "rc4_crypt (as @ bs) k =
     (fst (rc4_crypt as k) @ fst (rc4_crypt bs (snd (rc4_crypt as k))),
      snd (rc4_crypt bs (snd (rc4_crypt as k))))"
  by (induction as arbitrary: k) simp_all

text \<open>The cipher is its own inverse: a buffer encrypted and then run through the cipher
  again with the same starting key is the original buffer, and both runs leave the same key.\<close>

lemma rc4_involution:
  "rc4_crypt (fst (rc4_crypt bs k)) k = (bs, snd (rc4_crypt bs k))"
  by (rule rc4_crypt_twice)

text \<open>Two calls on consecutive buffers with the key left by the first are one call on the
  concatenation, so the confounder and the data of the EEPROM may be decrypted in two calls.\<close>

lemma rc4_streaming:
  "rc4_crypt (as @ bs) k =
     (fst (rc4_crypt as k) @ fst (rc4_crypt bs (snd (rc4_crypt as k))),
      snd (rc4_crypt bs (snd (rc4_crypt as k))))"
  by (rule rc4_crypt_append)

end
