(* ===== verification/HddKey.thy ===== *)
theory HddKey
  imports Sha1 Rc4 CString
begin

text \<open>
  The hard-disk key of \<open>drivers/ide/BootHddKey.c\<close>: HMAC-SHA1, the keyed hash of the EEPROM
  with its precomputed inner and outer states, and the search for the console version whose
  hash confirms the decrypted EEPROM.

  A context on the stack starts with unknown contents: it is the parameter \<open>c0\<close>. A result of
  type \<open>bytes option\<close> is \<open>None\<close> when nothing was written to the result buffer.
\<close>

section \<open>Identity strings\<close>

text \<open>
  \<open>copy_swap_trim\<close> on two buffers that do not overlap, for the number of byte pairs the loop
  runs: the swapped bytes, then the terminator after the last non-blank.
\<close>

fun swap_pairs :: "bytes \<Rightarrow> nat \<Rightarrow> bytes option" where
  "swap_pairs src 0 = Some []"
| "swap_pairs (a # b # src) (Suc 0) = Some [b, a]"
| "swap_pairs (a # b # src) (Suc (Suc n)) = map_option (\<lambda>r. b # a # r) (swap_pairs src n)"
| "swap_pairs _ (Suc _) = None"

fun trim_scan :: "bytes \<Rightarrow> nat \<Rightarrow> nat" where
  "trim_scan dst 0 = 0"
| "trim_scan dst (Suc i) = (if dst ! i \<noteq> 0x20 then Suc i else trim_scan dst i)"

definition copy_swap_trim :: "bytes \<Rightarrow> bytes \<Rightarrow> nat \<Rightarrow> (nat \<times> bytes) option" where
  "copy_swap_trim dst src len = do {
     sw \<leftarrow> swap_pairs src len;
     dst \<leftarrow> put_bytes dst 0 sw;
     let i = trim_scan dst len;
     dst \<leftarrow> (if i = 0 then Some dst else put_bytes dst i [0]);
     Some (i, dst)
   }"

text \<open>What it promises: bytes swapped in pairs, trailing blanks dropped, a terminator behind.\<close>

fun swapped :: "bytes \<Rightarrow> bytes" where
  "swapped (a # b # r) = b # a # swapped r"
| "swapped r = r"

definition rtrim :: "bytes \<Rightarrow> bytes" where
  "rtrim bs = rev (dropWhile (\<lambda>c. c = 0x20) (rev bs))"

lemma length_swapped [simp]: "length (swapped s) = length s"
  by (induction s rule: swapped.induct) auto

lemma swap_pairs_even:
  "even (length src) \<Longrightarrow> swap_pairs (src @ r) (length src) = Some (swapped src)"
proof (induction src rule: swapped.induct)
  case (1 a b src)
  then show ?case by (cases src rule: swapped.cases) auto
qed auto

lemma rtrim_snoc: "rtrim (bs @ [c]) = (if c = 0x20 then rtrim bs else bs @ [c])"
  by (simp add: rtrim_def)

lemma trim_scan_rtrim:
  "n \<le> length dst \<Longrightarrow> trim_scan dst n = length (rtrim (take n dst))"
proof (induction n)
  case (Suc n)
  then have "take (Suc n) dst = take n dst @ [dst ! n]" by (simp add: take_Suc_conv_app_nth)
  with Suc show ?case by (simp add: rtrim_snoc)
qed (simp add: rtrim_def)

lemma rtrim_prefix: "rtrim bs = take (length (rtrim bs)) bs"
proof -
  have "bs = rtrim bs @ rev (takeWhile (\<lambda>c. c = 0x20) (rev bs))"
    unfolding rtrim_def rev_append [symmetric] takeWhile_dropWhile_id by simp
  then show ?thesis by (metis append_eq_conv_conj)
qed

lemma length_rtrim: "length (rtrim bs) \<le> length bs"
  by (metis rtrim_prefix length_take min.cobounded1)

text \<open>For an even length and a destination with one byte to spare, \<open>copy_swap_trim\<close> returns
  the length of the trimmed swapped string and leaves that string in the destination, ended by
  a zero byte unless it is empty: an all-blank field gets no terminator.\<close>

lemma copy_swap_trim_spec:
  assumes "even (length fld)" and "length fld < length dst"
  shows "\<exists>dst'. copy_swap_trim dst (fld @ r) (length fld) = Some (length (rtrim (swapped fld)), dst')
    \<and> length dst' = length dst
    \<and> take (length (rtrim (swapped fld))) dst' = rtrim (swapped fld)
    \<and> (rtrim (swapped fld) \<noteq> [] \<longrightarrow> dst' ! length (rtrim (swapped fld)) = 0)
    \<and> (rtrim (swapped fld) = [] \<longrightarrow> dst' = swapped fld @ drop (length fld) dst)"
proof -
  let ?s = "swapped fld" let ?d = "?s @ drop (length fld) dst" let ?n = "length (rtrim ?s)"
  have n: "?n \<le> length fld" using length_rtrim [of ?s] by simp
  have t: "take ?n ?d = rtrim ?s" using n rtrim_prefix [of ?s] by simp
  have scan: "trim_scan ?d (length fld) = ?n" by (simp add: trim_scan_rtrim)
  have put: "put_bytes dst 0 ?s = Some ?d" using assms(2) by (simp add: put_bytes_def)
  show ?thesis
  proof (cases "rtrim ?s = []")
    case True
    with scan put assms show ?thesis by (simp add: copy_swap_trim_def swap_pairs_even Let_def)
  next
    case False
    let ?d' = "take ?n ?d @ [0] @ drop (?n + 1) ?d"
    have "put_bytes ?d ?n [0] = Some ?d'" using n assms(2) by (simp add: put_bytes_def)
    then have "copy_swap_trim dst (fld @ r) (length fld) = Some (?n, ?d')"
      using False scan put assms by (simp add: copy_swap_trim_def swap_pairs_even Let_def)
    moreover have "?d' ! ?n = 0" "take ?n ?d' = rtrim ?s" "length ?d' = length dst"
      using t n assms(2) by (simp_all add: nth_append)
    ultimately show ?thesis using False by blast
  qed
qed

lemma copy_swap_trim_example:
  "\<exists>dst'. copy_swap_trim (replicate 8 9) [0x65, 0x57, 0x20, 0x64, 0x20, 0x20] 6 = Some (3, dst')
    \<and> take 3 dst' = [0x57, 0x65, 0x64] \<and> dst' ! 3 = 0"
proof -
  let ?f = "[0x65, 0x57, 0x20, 0x64, 0x20, 0x20] :: bytes"
  have eqs: "rtrim (swapped ?f) = [0x57, 0x65, 0x64]" "length ?f = 6"
    "length [0x57 :: u8, 0x65, 0x64] = 3"
    by (simp_all add: rtrim_def)
  show ?thesis
    using copy_swap_trim_spec [of ?f "replicate 8 9" "[]"] unfolding eqs by auto
qed

section \<open>HMAC\<close>

text \<open>A result call whose digest pointer is the context's own message block.\<close>

definition SHA1Result_own :: "SHA1Context \<Rightarrow> SHA1Context" where
  "SHA1Result_own c =
     (case SHA1Result c of
        (_, c', Some d) \<Rightarrow> c'\<lparr>Message_Block := d @ drop 20 (Message_Block c')\<rparr>
      | (_, c', None) \<Rightarrow> c')"

text \<open>An input call whose message is the context's own message block from position \<open>p\<close>: each
  byte is read from the block as the earlier bytes left it.\<close>

fun input_own :: "SHA1Context \<Rightarrow> nat \<Rightarrow> nat \<Rightarrow> SHA1Context" where
  "input_own c p 0 = c"
| "input_own c p (Suc n) =
     (if Corrupted c = 0 then input_own (input_byte c (Message_Block c ! p)) (Suc p) n else c)"

definition SHA1Input_own :: "SHA1Context \<Rightarrow> nat \<Rightarrow> u32 \<times> SHA1Context" where
  "SHA1Input_own c len =
     (if len = 0 then (shaSuccess, c)
      else if Computed c \<noteq> 0 then (shaStateError, c\<lparr>Corrupted := shaStateError\<rparr>)
      else if Corrupted c \<noteq> 0 then (Corrupted c, c)
      else (shaSuccess, input_own c 0 len))"

definition inner_state :: "u32 \<Rightarrow> u32 list \<Rightarrow> u32 list" where
  "inner_state version H =
     (if version = 9 then [0x85F9E51A, 0xE04613D2, 0x6D86A50C, 0x77C32E3C, 0x4BD717A4]
      else if version = 10 then [0x72127625, 0x336472B9, 0xBE609BEA, 0xF55E226B, 0x99958DAC]
      else if version = 11 then [0x39B06E79, 0xC9BD25E8, 0xDBC6B498, 0x40B4389D, 0x86BBD7ED]
      else if version = 12 then [0x8058763a, 0xf97d4e0e, 0x865a9762, 0x8a3d920d, 0x08995b2c]
      else H)"

definition HMAC1hddReset :: "u32 \<Rightarrow> SHA1Context \<Rightarrow> SHA1Context" where
  "HMAC1hddReset version c =
     (let c = snd (SHA1Reset c)
      in c\<lparr>Intermediate_Hash := inner_state version (Intermediate_Hash c), Length_Low := 512\<rparr>)"

definition outer_state :: "u32 \<Rightarrow> u32 list \<Rightarrow> u32 list" where
  "outer_state version H =
     (if version = 9 then [0x5D7A9C6B, 0xE1922BEB, 0xB82CCDBC, 0x3137AB34, 0x486B52B3]
      else if version = 10 then [0x76441D41, 0x4DE82659, 0x2E8EF85E, 0xB256FACA, 0xC4FE2DE8]
      else if version = 11 then [0x9B49BED3, 0x84B430FC, 0x6B8749CD, 0xEBFE5FE5, 0xD96E7393]
      else if version = 12 then [0x01075307, 0xa2f1e037, 0x1186eeea, 0x88da9992, 0x168a5609]
      else H)"

definition HMAC2hddReset :: "u32 \<Rightarrow> SHA1Context \<Rightarrow> SHA1Context" where
  "HMAC2hddReset version c =
     (let c = snd (SHA1Reset c)
      in c\<lparr>Intermediate_Hash := outer_state version (Intermediate_Hash c), Length_Low := 512\<rparr>)"

text \<open>\<open>state1\<close> and the first 64 bytes of \<open>state2\<close>: the key combined with the pad byte, filled up
  with the pad byte. A key longer than 64 bytes is read up to 64.\<close>

definition key_pad :: "u8 \<Rightarrow> bytes \<Rightarrow> bytes" where
  "key_pad pad key = map (\<lambda>i. if i < length key then key ! i XOR pad else pad) [0..<64]"

definition HMAC_SHA1 :: "SHA1Context \<Rightarrow> bytes \<Rightarrow> bytes \<Rightarrow> bytes \<Rightarrow> bytes option" where
  "HMAC_SHA1 c0 key text1 text2 = do {
     let c = snd (SHA1Reset c0);
     let c = snd (SHA1Input c (key_pad 0x36 key));
     let c = snd (SHA1Input c text1);
     let c = snd (SHA1Input c text2);
     let (_, c, d) = SHA1Result c;
     inner \<leftarrow> d;
     let c = snd (SHA1Reset c);
     let c = snd (SHA1Input c (key_pad 0x5C key @ inner));
     snd (snd (SHA1Result c))
   }"

definition HMAC_hdd_calculation :: "SHA1Context \<Rightarrow> u32 \<Rightarrow> bytes list \<Rightarrow> bytes option" where
  "HMAC_hdd_calculation c0 version args =
     (let c = HMAC1hddReset version c0;
          c = foldl (\<lambda>c b. snd (SHA1Input c b)) c args;
          c = SHA1Result_own c;
          c = HMAC2hddReset version c;
          c = snd (SHA1Input_own c 0x14)
      in snd (snd (SHA1Result c)))"

section \<open>The key of the hard disk\<close>

text \<open>One round of the loop over the versions on the local copy of the EEPROM: the new local
  copy and whether the confirmation hash is the stored one.\<close>

definition hdd_round :: "SHA1Context \<Rightarrow> bytes \<Rightarrow> u32 \<Rightarrow> (bytes \<times> bool) option" where
  "hdd_round c0 pbEeprom_data counter = do {
     copy \<leftarrow> memcpy (replicate 0x30 0) pbEeprom_data 0x30;
     baKeyHash \<leftarrow> HMAC_hdd_calculation c0 counter [slice 0 20 copy];
     key \<leftarrow> rc4_prepare_key baKeyHash 20;
     let (conf, key) = rc4_crypt (slice 20 8 copy) key;
     copy \<leftarrow> put_bytes copy 20 conf;
     let (data, key) = rc4_crypt (slice 28 20 copy) key;
     copy \<leftarrow> put_bytes copy 28 data;
     baDataHashConfirm \<leftarrow> HMAC_hdd_calculation c0 counter [slice 20 8 copy, slice 28 20 copy];
     r \<leftarrow> memcmp copy baDataHashConfirm 0x14;
     Some (copy, r = 0)
   }"

text \<open>The loop \<open>for (counter = 9; counter < 13; counter++)\<close> on the counters still to come: the
  version found (0 when none confirms) and the local copy of the last round.\<close>

fun hdd_search :: "SHA1Context \<Rightarrow> bytes \<Rightarrow> u32 list \<Rightarrow> bytes \<Rightarrow> (u32 \<times> bytes) option" where
  "hdd_search c0 d [] copy = Some (0, copy)"
| "hdd_search c0 d (v # vs) copy =
     (case hdd_round c0 d v of None \<Rightarrow> None
      | Some (copy', ok) \<Rightarrow> if ok then Some (v, copy') else hdd_search c0 d vs copy')"

definition BootHddKeyGenerateEepromKeyData :: "SHA1Context \<Rightarrow> bytes \<Rightarrow> (u32 \<times> bytes) option" where
  "BootHddKeyGenerateEepromKeyData c0 pbEeprom_data = do {
     (version, copy) \<leftarrow> hdd_search c0 pbEeprom_data [9, 10, 11, 12] [];
     Some (version, slice 28 16 copy)
   }"

section \<open>Correctness of the keyed hashes\<close>

lemma length_fips_from [simp]: "length H = 5 \<Longrightarrow> length (fips_from H bits msg) = 20"
proof -
  assume H: "length H = 5"
  have "map (length \<circ> (\<lambda>w. rev (le32_bytes w))) ws = replicate (length ws) 4" for ws
    by (induction ws) auto
  with H show ?thesis
    by (simp add: fips_from_def length_concat sum_list_replicate)
qed

lemma length_fips_H0 [simp]: "length fips_H0 = 5"
  by (simp add: fips_H0_def)

lemma length_states [simp]:
  "length H = 5 \<Longrightarrow> length (inner_state v H) = 5"
  "length H = 5 \<Longrightarrow> length (outer_state v H) = 5"
  by (simp_all add: inner_state_def outer_state_def)

text \<open>Hashing on from the state after one block is hashing the block and the rest.\<close>

lemma fips_from_block:
  assumes "length b = 64"
  shows "fips_from (fips_compress H b) (bits + 512) msg = fips_from H bits (b @ msg)"
proof -
  have "fips_padding (length msg) (bits + 512 + 8 * length msg) =
      fips_padding (length (b @ msg)) (bits + 8 * length (b @ msg))"
    using assms by (simp add: fips_padding_def algebra_simps)
  then show ?thesis
    using assms by (simp add: fips_from_def fips_blocks_append fips_blocks_one)
qed

definition hdd_hmac :: "u32 \<Rightarrow> bytes \<Rightarrow> bytes" where
  "hdd_hmac v msg =
     fips_from (outer_state v fips_H0) 512 (fips_from (inner_state v fips_H0) 512 msg)"

lemma length_hdd_hmac [simp]: "length (hdd_hmac v msg) = 20"
  by (simp add: hdd_hmac_def)

lemma HMAC_reset_represents:
  assumes "length (Message_Block c) = 64"
  shows "represents (inner_state v fips_H0) 512 (HMAC1hddReset v c) []"
    and "represents (outer_state v fips_H0) 512 (HMAC2hddReset v c) []"
  using assms
  by (simp_all add: represents_def HMAC1hddReset_def HMAC2hddReset_def SHA1Reset_def Let_def
      rest_def whole_def fips_H0_def fips_blocks.simps [of _ "[]"])

text \<open>Input from the context's own block rewrites the block with itself.\<close>

lemma input_own_bytes:
  assumes "Message_Block_Index c = p" and "length (Message_Block c) = 64" and "p + n < 64"
  shows "input_own c p n = input_bytes c (slice p n (Message_Block c))"
  using assms
proof (induction n arbitrary: c p)
  case (Suc n)
  let ?b = "Message_Block c ! p" and ?c = "input_byte c (Message_Block c ! p)"
  have b: "(Message_Block c)[p := ?b] = Message_Block c" by (rule list_update_id)
  have c: "Message_Block_Index ?c = Suc p" "Message_Block ?c = Message_Block c"
    using Suc.prems by (auto simp: input_byte_def Let_def b)
  have "slice p (Suc n) (Message_Block c) = ?b # slice (Suc p) n (Message_Block c)"
    using Suc.prems by (simp add: slice_def Cons_nth_drop_Suc [symmetric])
  with Suc.IH [of ?c "Suc p"] Suc.prems c show ?case by simp
qed (simp add: slice_def)

lemma SHA1Input_own_eq:
  assumes "Message_Block_Index c = 0" and "length (Message_Block c) = 64" and "n < 64" and "0 < n"
  shows "SHA1Input_own c n = SHA1Input c (take n (Message_Block c))"
  using assms input_own_bytes [of c 0 n]
  by (auto simp: SHA1Input_own_def SHA1Input_def slice_def)

lemma SHA1Result_own_block:
  assumes "represents H bits c msg" and "length H = 5"
  shows "Message_Block (SHA1Result_own c) = fips_from H bits msg @ replicate 44 0"
proof -
  from SHA1Result_represents [OF assms] obtain c' where
    r: "SHA1Result c = (shaSuccess, c', Some (fips_from H bits msg))"
    by (metis prod.exhaust_sel)
  moreover have "Message_Block c' = replicate 64 0"
    using r assms(1) by (auto simp: SHA1Result_def represents_def Let_def)
  ultimately show ?thesis by (simp add: SHA1Result_own_def)
qed

lemma HMAC_hdd_eq:
  assumes "length (Message_Block c0) = 64" and "512 + 8 * length (concat args) < 2 ^ 64"
  shows "HMAC_hdd_calculation c0 v args = Some (hdd_hmac v (concat args))"
proof -
  let ?inner = "fips_from (inner_state v fips_H0) 512 (concat args)"
  define c1 where "c1 = sha1_inputs (HMAC1hddReset v c0) args"
  have r1: "represents (inner_state v fips_H0) 512 c1 (concat args)"
    using sha1_inputs_represents [OF HMAC_reset_represents(1) [OF assms(1)]] assms(2)
    by (simp add: c1_def)
  define c2 where "c2 = HMAC2hddReset v (SHA1Result_own c1)"
  have blk: "Message_Block (SHA1Result_own c1) = ?inner @ replicate 44 0"
    using SHA1Result_own_block [OF r1] by simp
  then have c2: "Message_Block c2 = ?inner @ replicate 44 0" "Message_Block_Index c2 = 0"
    by (simp_all add: c2_def HMAC2hddReset_def SHA1Reset_def Let_def)
  have "represents (outer_state v fips_H0) 512 c2 []"
    unfolding c2_def using blk by (intro HMAC_reset_represents(2)) simp
  then have "represents (outer_state v fips_H0) 512 (snd (SHA1Input c2 ?inner)) ?inner"
    using SHA1Input_represents(2) [of _ 512 c2 "[]" ?inner] by simp
  moreover have "SHA1Input_own c2 20 = SHA1Input c2 ?inner"
    using c2 by (subst SHA1Input_own_eq) auto
  ultimately show ?thesis
    using SHA1Result_represents(2)
    by (simp add: HMAC_hdd_calculation_def Let_def hdd_hmac_def flip: c1_def c2_def sha1_inputs_def)
qed

text \<open>The keyed hash of the EEPROM writes a digest for every argument list shorter than
  \<open>2\<^sup>6\<^sup>4\<close> bits (the key block included): the SHA-1 digest from the outer state of the version
  over the SHA-1 digest from its inner state over the concatenated arguments, although the
  inner digest and the second input share the message block of the context.\<close>

lemma HMAC_hdd_correct:
  assumes "length (Message_Block c0) = 64" and "512 + 8 * length (concat args) < 2 ^ 64"
  shows "HMAC_hdd_calculation c0 v args = Some (hdd_hmac v (concat args))"
  using assms by (rule HMAC_hdd_eq)

lemma HMAC_hdd_correct_witness:
  "HMAC_hdd_calculation blank_context 10 [[1, 2], [3]] = Some (hdd_hmac 10 [1, 2, 3])"
  using HMAC_hdd_correct [of blank_context "[[1, 2], [3]]" 10] by (simp add: blank_context_def)

text \<open>HMAC as RFC 2104 defines it for keys of at most one block.\<close>

definition rfc_key_block :: "bytes \<Rightarrow> bytes" where
  "rfc_key_block key = key @ replicate (64 - length key) 0"

definition rfc_hmac_sha1 :: "bytes \<Rightarrow> bytes \<Rightarrow> bytes" where
  "rfc_hmac_sha1 key text =
     fips_sha1 (map (\<lambda>k. k XOR 0x5C) (rfc_key_block key)
       @ fips_sha1 (map (\<lambda>k. k XOR 0x36) (rfc_key_block key) @ text))"

lemma key_pad_rfc: "length key \<le> 64 \<Longrightarrow> key_pad pad key = map (\<lambda>k. k XOR pad) (rfc_key_block key)"
  by (rule nth_equalityI) (auto simp: key_pad_def rfc_key_block_def nth_append simp del: upt_rec_numeral)

lemma length_key_pad [simp]: "length (key_pad pad key) = 64"
  by (simp add: key_pad_def del: upt_rec_numeral)

text \<open>The drive-password hash \<open>HMAC_SHA1\<close> is HMAC-SHA1 of RFC 2104 over the two texts, for
  every key of at most 64 bytes.\<close>

lemma HMAC_SHA1_rfc2104:
  assumes "length (Message_Block c0) = 64" and "length key \<le> 64"
    and "8 * (64 + length (text1 @ text2)) < 2 ^ 64"
  shows "HMAC_SHA1 c0 key text1 text2 = Some (rfc_hmac_sha1 key (text1 @ text2))"
proof -
  define c1 where "c1 = sha1_inputs (snd (SHA1Reset c0)) [key_pad 0x36 key, text1, text2]"
  have r1: "represents fips_H0 0 c1 (key_pad 0x36 key @ text1 @ text2)"
    using sha1_inputs_represents
        [OF SHA1Reset_represents [OF assms(1)], of "[key_pad 0x36 key, text1, text2]"] assms(3)
    by (simp add: c1_def)
  obtain c2 where res: "SHA1Result c1 =
      (shaSuccess, c2, Some (fips_sha1 (key_pad 0x36 key @ text1 @ text2)))"
    using SHA1Result_represents [OF r1 length_fips_H0] by (metis fips_sha1_def prod.exhaust_sel)
  then have blk: "length (Message_Block c2) = 64"
    using r1 by (auto simp: SHA1Result_def represents_def Let_def)
  let ?m = "key_pad 0x5C key @ fips_sha1 (key_pad 0x36 key @ text1 @ text2)"
  have "represents fips_H0 0 (snd (SHA1Input (snd (SHA1Reset c2)) ?m)) ?m"
    using SHA1Input_represents(2) [OF SHA1Reset_represents [OF blk], of ?m]
    by (simp add: fips_sha1_def)
  note SHA1Result_represents(2) [OF this length_fips_H0]
  then show ?thesis
    using res assms(2)
    by (simp add: HMAC_SHA1_def rfc_hmac_sha1_def c1_def sha1_inputs_def fips_sha1_def
        flip: key_pad_rfc)
qed

lemma HMAC_SHA1_rfc2104_witness:
  "HMAC_SHA1 blank_context [1, 2, 3] [4] [5, 6] = Some (rfc_hmac_sha1 [1, 2, 3] [4, 5, 6])"
  using HMAC_SHA1_rfc2104 [of blank_context "[1, 2, 3]" "[4]" "[5, 6]"]
  by (simp add: blank_context_def)

section \<open>Correctness of the key search\<close>

definition hdd_rc4_key :: "u32 \<Rightarrow> bytes \<Rightarrow> rc4_key" where
  "hdd_rc4_key v h = the (rc4_prepare_key (hdd_hmac v h) 20)"

definition hdd_plain :: "bytes \<Rightarrow> u32 \<Rightarrow> bytes" where
  "hdd_plain d v = fst (rc4_crypt (slice 20 28 d) (hdd_rc4_key v (take 20 d)))"

definition hdd_confirms :: "bytes \<Rightarrow> u32 \<Rightarrow> bool" where
  "hdd_confirms d v \<longleftrightarrow> take 20 d = hdd_hmac v (hdd_plain d v)"

lemma length_hdd_plain [simp]: "48 \<le> length d \<Longrightarrow> length (hdd_plain d v) = 28"
  by (simp add: hdd_plain_def)

lemma hdd_rc4_key: "rc4_prepare_key (hdd_hmac v h) 20 = Some (hdd_rc4_key v h)"
proof -
  have "\<exists>k. rc4_prepare_key (hdd_hmac v h) 20 = Some k"
    using rc4_prepare_key_total [of 20 "hdd_hmac v h"] by simp
  then show ?thesis by (auto simp: hdd_rc4_key_def)
qed

lemma memcmp_zero_iff:
  "n \<le> length as \<Longrightarrow> n \<le> length bs \<Longrightarrow> \<exists>r. memcmp as bs n = Some r \<and> (r = 0 \<longleftrightarrow> take n as = take n bs)"
proof (induction as bs n rule: memcmp.induct)
  case (2 a as b bs n)
  have "uint a = uint b \<Longrightarrow> a = b" by (rule word_uint_eqI)
  with 2 show ?case by auto
qed auto

lemma hdd_round_eq:
  assumes "length (Message_Block c0) = 64" and "48 \<le> length d"
  shows "hdd_round c0 d v = Some (take 20 d @ hdd_plain d v, hdd_confirms d v)"
proof -
  let ?d = "take 48 d" and ?k = "hdd_rc4_key v (take 20 d)"
  let ?conf = "rc4_crypt (slice 20 8 d) ?k"
  let ?data = "rc4_crypt (slice 28 20 d) (snd ?conf)"
  have len: "length (fst ?conf) = 8" "length (fst ?data) = 20" using assms(2) by simp_all
  have sl: "slice 0 20 ?d = take 20 d" "slice 20 8 ?d = slice 20 8 d"
    by (simp_all add: slice_def drop_take min_def)
  have plain: "hdd_plain d v = fst ?conf @ fst ?data"
    using rc4_crypt_append [of "slice 20 8 d" "slice 28 20 d" ?k] slice_append_slice [of 20 8 d 20]
    by (simp add: hdd_plain_def)
  let ?c1 = "take 20 d @ fst ?conf @ slice 28 20 d"
  let ?c2 = "take 20 d @ fst ?conf @ fst ?data"
  have copy: "memcpy (replicate 0x30 0) d 0x30 = Some ?d"
    using assms(2) by (simp add: memcpy_def put_bytes_def)
  have put1: "put_bytes ?d 20 (fst ?conf) = Some ?c1"
    using assms(2) len by (simp add: put_bytes_def slice_def drop_take min_def)
  have put2: "put_bytes ?c1 28 (fst ?data) = Some ?c2" and sl2: "slice 28 20 ?c1 = slice 28 20 d"
    using assms(2) len by (simp_all add: put_bytes_def slice_def)
  have parts: "slice 20 8 ?c2 = fst ?conf" "slice 28 20 ?c2 = fst ?data"
    using assms(2) len by (simp_all add: slice_def)
  have "\<exists>r. memcmp ?c2 (hdd_hmac v (hdd_plain d v)) 20 = Some r \<and> (r = 0) = hdd_confirms d v"
    using memcmp_zero_iff [of 20 ?c2 "hdd_hmac v (hdd_plain d v)"] assms(2) len
    by (simp add: hdd_confirms_def)
  then show ?thesis
    using copy put1 put2 sl sl2 parts assms(2) len hdd_rc4_key [of v "take 20 d"]
    by (auto simp: hdd_round_def HMAC_hdd_eq [OF assms(1)] plain split_beta Let_def)
qed

lemma hdd_search_eq:
  assumes "length (Message_Block c0) = 64" and "48 \<le> length d"
  shows "hdd_search c0 d vs copy = Some (case find (hdd_confirms d) vs of
      Some v \<Rightarrow> (v, take 20 d @ hdd_plain d v)
    | None \<Rightarrow> (0, if vs = [] then copy else take 20 d @ hdd_plain d (last vs)))"
  using hdd_round_eq [OF assms]
  by (induction vs arbitrary: copy) (auto split: option.splits)

text \<open>C29. The key search always returns: the first version from 9 to 12 whose keyed hash
  confirms the decrypted EEPROM together with the key decrypted under it, or version 0 with
  the bytes the last version left.\<close>

theorem hdd_key_search:
  assumes "length (Message_Block c0) = 64" and "48 \<le> length d"
  shows "BootHddKeyGenerateEepromKeyData c0 d = Some (case find (hdd_confirms d) [9, 10, 11, 12] of
      Some v \<Rightarrow> (v, slice 8 16 (hdd_plain d v))
    | None \<Rightarrow> (0, slice 8 16 (hdd_plain d 12)))"
proof -
  have "slice 28 16 (take 20 d @ p) = slice 8 16 p" for p
    using assms(2) by (simp add: slice_def)
  then show ?thesis
    by (simp add: BootHddKeyGenerateEepromKeyData_def hdd_search_eq [OF assms]
        del: hdd_search.simps split: option.splits)
qed

definition blank_eeprom :: bytes where
  "blank_eeprom = replicate 48 0"

theorem hdd_key_search_witness:
  "BootHddKeyGenerateEepromKeyData blank_context blank_eeprom =
    Some (case find (hdd_confirms blank_eeprom) [9, 10, 11, 12] of
      Some v \<Rightarrow> (v, slice 8 16 (hdd_plain blank_eeprom v))
    | None \<Rightarrow> (0, slice 8 16 (hdd_plain blank_eeprom 12)))"
  by (rule hdd_key_search) (simp_all add: blank_context_def blank_eeprom_def)

text \<open>The image the manufacturer writes for a version: the keyed hash of the plain bytes, then
  the plain bytes (confounder, key, region) encrypted under the key that hash gives.\<close>

definition hdd_encode :: "u32 \<Rightarrow> bytes \<Rightarrow> bytes" where
  "hdd_encode v body =
     hdd_hmac v body @ fst (rc4_crypt body (hdd_rc4_key v (hdd_hmac v body)))"

lemma hdd_encode_plain:
  assumes "length body = 28"
  shows "hdd_plain (hdd_encode v body @ r) v = body" and "hdd_confirms (hdd_encode v body @ r) v"
proof -
  show p: "hdd_plain (hdd_encode v body @ r) v = body"
    using assms by (simp add: hdd_plain_def hdd_encode_def slice_def rc4_crypt_twice)
  show "hdd_confirms (hdd_encode v body @ r) v"
    unfolding hdd_confirms_def p by (simp add: hdd_encode_def)
qed



end
