(* ===== verification/PortIO.thy ===== *)
theory PortIO
  imports Prelude
begin

text \<open>
  The port-mapped hardware the loader talks to, as a parameter of the model: one function per
  access of \<open>include/boot.h\<close> (\<open>IoInputByte\<close>, \<open>IoOutputWord\<close>, ...) on a hardware state \<open>'d\<close>, and
  the busy-waits of \<open>drivers/pci/BootInterrupts.c\<close>, which only let time pass for it.

  A loop that polls the hardware takes the greatest number of polls as its fuel and is \<open>None\<close>
  when the condition did not come within it: the C loop then spins on.
\<close>

record 'd ports =
  IoInputByte :: "u16 \<Rightarrow> 'd \<Rightarrow> u8 \<times> 'd"
  IoInputWord :: "u16 \<Rightarrow> 'd \<Rightarrow> u16 \<times> 'd"
  IoInputDword :: "u16 \<Rightarrow> 'd \<Rightarrow> u32 \<times> 'd"
  IoOutputByte :: "u16 \<Rightarrow> u8 \<Rightarrow> 'd \<Rightarrow> 'd"
  IoOutputWord :: "u16 \<Rightarrow> u16 \<Rightarrow> 'd \<Rightarrow> 'd"
  IoOutputDword :: "u16 \<Rightarrow> u32 \<Rightarrow> 'd \<Rightarrow> 'd"
  delay_us :: "nat \<Rightarrow> 'd \<Rightarrow> 'd"

text \<open>Poll a byte port or a word port until the value read satisfies a condition.\<close>

fun poll_byte :: "'d ports \<Rightarrow> u16 \<Rightarrow> (u8 \<Rightarrow> bool) \<Rightarrow> nat \<Rightarrow> 'd \<Rightarrow> (u8 \<times> 'd) option" where
  "poll_byte io p ok 0 d = None"
| "poll_byte io p ok (Suc n) d =
     (let (b, d) = IoInputByte io p d in if ok b then Some (b, d) else poll_byte io p ok n d)"

fun poll_word :: "'d ports \<Rightarrow> u16 \<Rightarrow> (u16 \<Rightarrow> bool) \<Rightarrow> nat \<Rightarrow> 'd \<Rightarrow> (u16 \<times> 'd) option" where
  "poll_word io p ok 0 d = None"
| "poll_word io p ok (Suc n) d =
     (let (w, d) = IoInputWord io p d in if ok w then Some (w, d) else poll_word io p ok n d)"

text \<open>A list of byte outputs, in order.\<close>

fun outb_all :: "'d ports \<Rightarrow> (u16 \<times> u8) list \<Rightarrow> 'd \<Rightarrow> 'd" where
  "outb_all io [] d = d"
| "outb_all io ((p, b) # r) d = outb_all io r (IoOutputByte io p b d)"

named_theorems poll_simps \<open>polls that end at once\<close>

lemma poll_byte_now [poll_simps]:
  "IoInputByte io p d = (b, d') \<Longrightarrow> ok b \<Longrightarrow> 0 < n \<Longrightarrow> poll_byte io p ok n d = Some (b, d')"
  by (cases n) simp_all

lemma poll_word_now [poll_simps]:
  "IoInputWord io p d = (w, d') \<Longrightarrow> ok w \<Longrightarrow> 0 < n \<Longrightarrow> poll_word io p ok n d = Some (w, d')"
  by (cases n) simp_all

lemma poll_byte_ok: "poll_byte io p ok n d = Some (b, d') \<Longrightarrow> ok b"
  by (induction n arbitrary: d) (auto split: prod.splits if_splits)

lemma poll_word_ok: "poll_word io p ok n d = Some (w, d') \<Longrightarrow> ok w"
  by (induction n arbitrary: d) (auto split: prod.splits if_splits)

text \<open>More fuel never changes the outcome of a poll that ended.\<close>

lemma poll_byte_mono:
  "poll_byte io p ok n d = Some r \<Longrightarrow> n \<le> m \<Longrightarrow> poll_byte io p ok m d = Some r"
proof (induction n arbitrary: m d)
  case (Suc n)
  then obtain k where "m = Suc k" "n \<le> k" by (cases m) auto
  with Suc show ?case by (auto split: prod.splits if_splits)
qed simp

lemma poll_word_mono:
  "poll_word io p ok n d = Some r \<Longrightarrow> n \<le> m \<Longrightarrow> poll_word io p ok m d = Some r"
proof (induction n arbitrary: m d)
  case (Suc n)
  then obtain k where "m = Suc k" "n \<le> k" by (cases m) auto
  with Suc show ?case by (auto split: prod.splits if_splits)
qed simp

end
