(* ===== verification/I2c.thy ===== *)
theory I2c
  imports PortIO
begin

text \<open>
  The SMBus master of \<open>drivers/pci/i2cio.c\<close>: single transactions with their busy wait and
  their 50 attempts, the byte and word helpers on top of them, the reboot requests to the PIC,
  and the front-panel LED of \<open>lib/misc/LED.c\<close> and \<open>lib/misc/Gentoox.c\<close>.

  The fuel \<open>n\<close> of an operation bounds each of its polls. The value written through the pointer
  argument of \<open>ReadfromSMBus\<close> is an option: \<open>None\<close> when nothing is written.
\<close>

abbreviation (input) I2C_IO_BASE :: u16 where "I2C_IO_BASE \<equiv> 0xc000"
abbreviation (input) ERR_SUCCESS :: u32 where "ERR_SUCCESS \<equiv> 0"
abbreviation (input) ERR_I2C_ERROR_BUS :: u32 where "ERR_I2C_ERROR_BUS \<equiv> 0x80000002"

section \<open>Transactions\<close>

definition put_data :: "'d ports \<Rightarrow> u8 \<Rightarrow> u32 \<Rightarrow> 'd \<Rightarrow> 'd" where
  "put_data io sz v d =
     (if sz = 4 then
        IoOutputWord io (I2C_IO_BASE + 6) 4
          (outb_all io [(I2C_IO_BASE + 9, ucast (v AND 0xff)),
             (I2C_IO_BASE + 9, ucast (drop_bit 8 v AND 0xff)),
             (I2C_IO_BASE + 9, ucast (drop_bit 16 v AND 0xff)),
             (I2C_IO_BASE + 9, ucast (drop_bit 24 v AND 0xff))] d)
      else if sz = 2 then IoOutputWord io (I2C_IO_BASE + 6) (ucast (v AND 0xffff)) d
      else IoOutputWord io (I2C_IO_BASE + 6) (ucast (v AND 0xff)) d)"

text \<open>Read the status word and write it back, which clears it.\<close>

definition clear_errors :: "'d ports \<Rightarrow> 'd \<Rightarrow> 'd" where
  "clear_errors io d =
     (let (temp, d) = IoInputWord io (I2C_IO_BASE + 0) d in IoOutputWord io (I2C_IO_BASE + 0) temp d)"

text \<open>The address byte: the 7-bit address, and the direction in bit 0.\<close>

definition write_address :: "u8 \<Rightarrow> u8" where "write_address a = push_bit 1 a OR 0"
definition read_address :: "u8 \<Rightarrow> u8" where "read_address a = push_bit 1 a OR 1"

text \<open>The attempts that are left; each issues the transaction once and polls for its end.\<close>

fun write_attempts ::
  "'d ports \<Rightarrow> nat \<Rightarrow> u8 \<Rightarrow> u8 \<Rightarrow> u8 \<Rightarrow> u32 \<Rightarrow> nat \<Rightarrow> 'd \<Rightarrow> (u32 \<times> 'd) option" where
  "write_attempts io n Address bRegister sz v 0 d = Some (ERR_I2C_ERROR_BUS, d)"
| "write_attempts io n Address bRegister sz v (Suc k) d =
     (let d = IoOutputByte io (I2C_IO_BASE + 4) (write_address Address) d;
          d = IoOutputByte io (I2C_IO_BASE + 8) bRegister d;
          d = put_data io sz v d;
          d = clear_errors io d;
          d = IoOutputByte io (I2C_IO_BASE + 2)
                (if sz = 4 then 0x1d else if sz = 2 then 0x1b else 0x1a) d
      in case poll_byte io (I2C_IO_BASE + 0) (\<lambda>b. b AND 0x36 \<noteq> 0) n d of
           None \<Rightarrow> None
         | Some (b, d) \<Rightarrow>
             if b AND 0x10 \<noteq> 0 then Some (ERR_SUCCESS, d)
             else write_attempts io n Address bRegister sz v k (delay_us io 1 d))"

definition WriteToSMBus ::
  "'d ports \<Rightarrow> nat \<Rightarrow> u8 \<Rightarrow> u8 \<Rightarrow> u8 \<Rightarrow> u32 \<Rightarrow> 'd \<Rightarrow> (u32 \<times> 'd) option" where
  "WriteToSMBus io n Address bRegister sz v d = do {
     (_, d) \<leftarrow> poll_word io (I2C_IO_BASE + 0) (\<lambda>w. w AND 0x0800 = 0) n d;
     write_attempts io n Address bRegister sz v 50 d
   }"

text \<open>The data of a completed read. The four bytes of a 32-bit read are fetched and dropped.\<close>

definition get_data :: "'d ports \<Rightarrow> u8 \<Rightarrow> 'd \<Rightarrow> u32 option \<times> 'd" where
  "get_data io sz d =
     (if sz = 4 then
        (let (_, d) = IoInputByte io (I2C_IO_BASE + 6) d;
             (_, d) = IoInputByte io (I2C_IO_BASE + 9) d;
             (_, d) = IoInputByte io (I2C_IO_BASE + 9) d;
             (_, d) = IoInputByte io (I2C_IO_BASE + 9) d;
             (_, d) = IoInputByte io (I2C_IO_BASE + 9) d
         in (None, d))
      else if sz = 2 then
        (let (w, d) = IoInputWord io (I2C_IO_BASE + 6) d in (Some (ucast w), d))
      else (let (b, d) = IoInputByte io (I2C_IO_BASE + 6) d in (Some (ucast b), d)))"

fun read_attempts ::
  "'d ports \<Rightarrow> nat \<Rightarrow> u8 \<Rightarrow> u8 \<Rightarrow> u8 \<Rightarrow> nat \<Rightarrow> 'd \<Rightarrow> (u32 \<times> u32 option \<times> 'd) option" where
  "read_attempts io n Address bRegister sz 0 d = Some (ERR_I2C_ERROR_BUS, None, d)"
| "read_attempts io n Address bRegister sz (Suc k) d =
     (let d = IoOutputByte io (I2C_IO_BASE + 4) (read_address Address) d;
          d = IoOutputByte io (I2C_IO_BASE + 8) bRegister d;
          d = clear_errors io d;
          d = IoOutputByte io (I2C_IO_BASE + 2)
                (if sz = 4 then 0x0d else if sz = 2 then 0x0b else 0x0a) d
      in case poll_byte io (I2C_IO_BASE + 0) (\<lambda>b. b AND 0x36 \<noteq> 0) n d of
           None \<Rightarrow> None
         | Some (b, d) \<Rightarrow>
             if b AND 0x10 = 0 then read_attempts io n Address bRegister sz k d
             else (let (v, d) = get_data io sz d in Some (ERR_SUCCESS, v, d)))"

definition ReadfromSMBus ::
  "'d ports \<Rightarrow> nat \<Rightarrow> u8 \<Rightarrow> u8 \<Rightarrow> u8 \<Rightarrow> 'd \<Rightarrow> (u32 \<times> u32 option \<times> 'd) option" where
  "ReadfromSMBus io n Address bRegister sz d = do {
     (_, d) \<leftarrow> poll_word io (I2C_IO_BASE + 0) (\<lambda>w. w AND 0x0800 = 0) n d;
     read_attempts io n Address bRegister sz 50 d
   }"

section \<open>Helpers\<close>

definition I2CWriteWordtoRegister :: "'d ports \<Rightarrow> nat \<Rightarrow> u8 \<Rightarrow> u8 \<Rightarrow> u16 \<Rightarrow> 'd \<Rightarrow> (u32 \<times> 'd) option" where
  "I2CWriteWordtoRegister io n a r w d = WriteToSMBus io n a r 2 (ucast w) d"

definition I2CTransmitByteGetReturn :: "'d ports \<Rightarrow> nat \<Rightarrow> u8 \<Rightarrow> u8 \<Rightarrow> 'd \<Rightarrow> (u32 \<times> 'd) option" where
  "I2CTransmitByteGetReturn io n a r d =
     (case ReadfromSMBus io n a r 1 d of
        None \<Rightarrow> None
      | Some (e, temp, d) \<Rightarrow>
          if e \<noteq> ERR_SUCCESS then Some (ERR_I2C_ERROR_BUS, d)
          else map_option (\<lambda>t. (t, d)) temp)"

definition I2CTransmitWord :: "'d ports \<Rightarrow> nat \<Rightarrow> u8 \<Rightarrow> u16 \<Rightarrow> 'd \<Rightarrow> (u32 \<times> 'd) option" where
  "I2CTransmitWord io n a w d =
     WriteToSMBus io n a (ucast (drop_bit 8 w AND 0xff)) 1 (ucast (w AND 0xff)) d"

definition I2CWriteBytetoRegister :: "'d ports \<Rightarrow> nat \<Rightarrow> u8 \<Rightarrow> u8 \<Rightarrow> u8 \<Rightarrow> 'd \<Rightarrow> (u32 \<times> 'd) option" where
  "I2CWriteBytetoRegister io n a r b d = WriteToSMBus io n a r 1 (ucast (b AND 0xff)) d"

text \<open>The address argument \<open>bAds\<close> is not used: the device is always 0x45.\<close>

definition I2CModifyBits :: "'d ports \<Rightarrow> nat \<Rightarrow> u8 \<Rightarrow> u8 \<Rightarrow> u8 \<Rightarrow> u8 \<Rightarrow> 'd \<Rightarrow> 'd option" where
  "I2CModifyBits io n bAds bReg bData bMask d = do {
     (t, d) \<leftarrow> I2CTransmitByteGetReturn io n 0x45 bReg d;
     let b = ucast t AND NOT bMask;
     (_, d) \<leftarrow> I2CTransmitWord io n 0x45 (push_bit 8 (ucast bReg) OR ucast (bData AND bMask) OR ucast b) d;
     Some d
   }"

definition I2cSetFrontpanelLed :: "'d ports \<Rightarrow> nat \<Rightarrow> u8 \<Rightarrow> 'd \<Rightarrow> (u32 \<times> 'd) option" where
  "I2cSetFrontpanelLed io n b d = do {
     (_, d) \<leftarrow> I2CTransmitWord io n 0x10 (0x800 OR ucast b) d;
     (_, d) \<leftarrow> I2CTransmitWord io n 0x10 0x701 d;
     Some (ERR_SUCCESS, d)
   }"

definition I2CGetTemperature :: "'d ports \<Rightarrow> nat \<Rightarrow> 'd \<Rightarrow> (bool \<times> u32 \<times> u32 \<times> 'd) option" where
  "I2CGetTemperature io n d = do {
     (l, d) \<leftarrow> I2CTransmitByteGetReturn io n 0x4c 0x01 d;
     (e, d) \<leftarrow> I2CTransmitByteGetReturn io n 0x4c 0x00 d;
     Some (\<not> (l = ERR_I2C_ERROR_BUS \<or> e = ERR_I2C_ERROR_BUS), l, e, d)
   }"

text \<open>Requests to the PIC after which the code spins for ever: the hardware state when it does.\<close>

definition I2CRebootQuick :: "'d ports \<Rightarrow> nat \<Rightarrow> 'd \<Rightarrow> 'd option" where
  "I2CRebootQuick io n d = map_option snd (WriteToSMBus io n 0x10 0x02 1 0x01 d)"

definition I2CRebootSlow :: "'d ports \<Rightarrow> nat \<Rightarrow> 'd \<Rightarrow> 'd option" where
  "I2CRebootSlow io n d = map_option snd (WriteToSMBus io n 0x10 0x02 1 0x40 d)"

definition I2CPowerOff :: "'d ports \<Rightarrow> nat \<Rightarrow> 'd \<Rightarrow> 'd option" where
  "I2CPowerOff io n d = map_option snd (WriteToSMBus io n 0x10 0x02 1 0x80 d)"

section \<open>The front-panel LED\<close>

text \<open>The pattern loop of \<open>setLED\<close> on the characters of the pattern.\<close>

fun led_loop :: "bytes \<Rightarrow> u32 \<Rightarrow> u32 \<Rightarrow> u32 \<times> u32" where
  "led_loop [] r g = (r, g)"
| "led_loop (c # cs) r g =
     (let r = r * 2; g = g * 2;
          (r, g) = (if c = 0x72 then (r + 1, g)
                    else if c = 0x67 then (r, g + 1)
                    else if c = 0x6f then (r + 1, g + 1)
                    else (r, g))
      in led_loop cs r g)"

definition led_byte :: "bytes \<Rightarrow> u8" where
  "led_byte pattern =
     (case led_loop pattern 0 0 of (r, g) \<Rightarrow> ucast ((push_bit 4 r AND 0xF0) + (g AND 0xF)))"

definition setLED :: "'d ports \<Rightarrow> nat \<Rightarrow> bytes \<Rightarrow> 'd \<Rightarrow> 'd option" where
  "setLED io n pattern d =
     (if length pattern = 4
      then map_option snd (I2cSetFrontpanelLed io n (led_byte pattern) d) else Some d)"

text \<open>The named patterns.\<close>

definition errorLED :: bytes where "errorLED = [0x72, 0x78, 0x78, 0x78]"
definition busyLED :: bytes where "busyLED = [0x72, 0x67, 0x6f, 0x67]"
definition inputLED :: bytes where "inputLED = [0x6f, 0x78, 0x6f, 0x78]"
definition goodLED :: bytes where "goodLED = [0x67, 0x78, 0x67, 0x78]"
definition importantLED :: bytes where "importantLED = [0x72, 0x6f, 0x72, 0x6f]"
definition downloadingLED :: bytes where "downloadingLED = [0x6f, 0x67, 0x72, 0x72]"
definition uberLED :: bytes where "uberLED = [0x72, 0x78, 0x72, 0x78]"
definition highLED :: bytes where "highLED = [0x72, 0x72, 0x72, 0x72]"
definition midLED :: bytes where "midLED = [0x6f, 0x6f, 0x6f, 0x78]"
definition lowLED :: bytes where "lowLED = [0x67, 0x67, 0x67, 0x67]"

declare write_attempts.simps(2) [simp del] read_attempts.simps(2) [simp del]

section \<open>The bus as a store of bytes\<close>

text \<open>
  What the drivers rely on: single-byte transactions to 7-bit addresses read and write the
  registers of the addressed chip. \<open>chip d\<close> gives the contents of all registers, and \<open>ready\<close>
  says that the controller is in a state where transactions succeed.
\<close>

locale smbus =
  fixes io :: "'d ports" and n :: nat
    and chip :: "'d \<Rightarrow> u8 \<Rightarrow> u8 \<Rightarrow> u8" and ready :: "'d \<Rightarrow> bool"
  assumes read_byte: "ready d \<Longrightarrow> a < 0x80 \<Longrightarrow>
      \<exists>d'. ReadfromSMBus io n a r 1 d = Some (ERR_SUCCESS, Some (ucast (chip d a r)), d')
        \<and> ready d' \<and> chip d' = chip d"
    and write_byte: "ready d \<Longrightarrow> a < 0x80 \<Longrightarrow>
      \<exists>d'. WriteToSMBus io n a r 1 v d = Some (ERR_SUCCESS, d')
        \<and> ready d' \<and> chip d' = (chip d)(a := (chip d a)(r := ucast v))"
begin

lemma write_byte_0:
  "WriteToSMBus io n a r 0 v d = WriteToSMBus io n a r 1 v d"
proof -
  have "write_attempts io n a r 0 v k d = write_attempts io n a r 1 v k d" for k d
    by (induction k arbitrary: d)
      (auto simp: write_attempts.simps put_data_def Let_def split: option.splits)
  then show ?thesis by (simp add: WriteToSMBus_def)
qed

lemma get_return:
  assumes "ready d" and "a < 0x80"
  obtains d' where "I2CTransmitByteGetReturn io n a r d = Some (ucast (chip d a r), d')"
    and "ready d'" and "chip d' = chip d"
  using read_byte [OF assms, of r] by (auto simp: I2CTransmitByteGetReturn_def)

lemma transmit_word:
  assumes "ready d" and "a < 0x80"
  obtains d' where "I2CTransmitWord io n a w d = Some (ERR_SUCCESS, d')"
    and "ready d'"
    and "chip d' = (chip d)(a := (chip d a)(ucast (drop_bit 8 w AND 0xff) := ucast (w AND 0xff)))"
proof -
  have e: "(ucast (ucast (w AND 0xff) :: u32) :: u8) = ucast (w AND 0xff)"
    by (rule bit_word_eqI) (simp add: bit_simps)
  show thesis
    using write_byte [OF assms, of "ucast (drop_bit 8 w AND 0xff)" "ucast (w AND 0xff)"] that e
    by (auto simp: I2CTransmitWord_def)
qed

lemma modify_bits:
  assumes "ready d"
  obtains d' where "I2CModifyBits io n bAds r v m d = Some d'" and "ready d'"
    and "chip d' = (chip d)(0x45 := (chip d 0x45)(r := (v AND m) OR (chip d 0x45 r AND NOT m)))"
proof -
  have a: "(0x45 :: u8) < 0x80" by simp
  obtain d1 where g: "I2CTransmitByteGetReturn io n 0x45 r d = Some (ucast (chip d 0x45 r), d1)"
    and d1: "ready d1" "chip d1 = chip d"
    by (rule get_return [OF assms a])
  let ?b = "ucast (ucast (chip d 0x45 r) :: u32) AND NOT m :: u8"
  let ?w = "push_bit 8 (ucast r) OR ucast (v AND m) OR ucast ?b :: u16"
  obtain d2 where t: "I2CTransmitWord io n 0x45 ?w d1 = Some (ERR_SUCCESS, d2)"
    and d2: "ready d2" "chip d2 = (chip d1)(0x45 := (chip d1 0x45)
        (ucast (drop_bit 8 ?w AND 0xff) := ucast (?w AND 0xff)))"
    by (rule transmit_word [OF d1(1) a])
  have ff: "(0xff :: u16) = mask 8" by (simp add: mask_eq_exp_minus_1)
  have hi: "(ucast (drop_bit 8 ?w AND 0xff) :: u8) = r"
    unfolding ff by (rule bit_word_eqI) (auto simp: bit_simps dest: bit_imp_le_length)
  have lo: "(ucast (?w AND 0xff) :: u8) = (v AND m) OR (chip d 0x45 r AND NOT m)"
    unfolding ff by (rule bit_word_eqI) (auto simp: bit_simps)
  show thesis
    using that [of d2] g t d1 d2 unfolding hi lo by (simp add: I2CModifyBits_def Let_def)
qed

lemma front_panel:
  assumes "ready d"
  obtains d' where "I2cSetFrontpanelLed io n b d = Some (ERR_SUCCESS, d')" and "ready d'"
    and "chip d' = (chip d)(0x10 := (chip d 0x10)(8 := b, 7 := 1))"
proof -
  have a: "(0x10 :: u8) < 0x80" by simp
  obtain d1 where 1: "I2CTransmitWord io n 0x10 (0x800 OR ucast b) d = Some (ERR_SUCCESS, d1)"
    "ready d1" "chip d1 = (chip d)(0x10 := (chip d 0x10)
      (ucast (drop_bit 8 (0x800 OR ucast b :: u16) AND 0xff) := ucast ((0x800 OR ucast b :: u16) AND 0xff)))"
    by (rule transmit_word [OF assms a])
  obtain d2 where 2: "I2CTransmitWord io n 0x10 0x701 d1 = Some (ERR_SUCCESS, d2)"
    "ready d2" "chip d2 = (chip d1)(0x10 := (chip d1 0x10)
      (ucast (drop_bit 8 (0x701 :: u16) AND 0xff) := ucast ((0x701 :: u16) AND 0xff)))"
    by (rule transmit_word [OF 1(2) a])
  have hi: "(ucast (drop_bit 8 (0x800 OR ucast b :: u16) AND 0xff) :: u8) = 8"
  proof -
    have "drop_bit 8 (0x800 OR ucast b :: u16) AND 0xff = 8"
    proof (rule bit_word_eqI)
      fix k assume "k < LENGTH(16)"
      then show "bit (drop_bit 8 (0x800 OR ucast b :: u16) AND 0xff) k = bit (8 :: u16) k"
        using bit_imp_le_length [of b "k + 8"] by (auto simp: bit_simps less_Suc_eq numeral_eq_Suc)
    qed
    then show ?thesis by simp
  qed
  have lo: "(ucast ((0x800 OR ucast b :: u16) AND 0xff) :: u8) = b"
    by (rule bit_word_eqI) (auto simp: bit_simps less_Suc_eq numeral_eq_Suc)
  show thesis
    using that [of d2] 1 2 unfolding hi lo by (simp add: I2cSetFrontpanelLed_def)
qed

end

section \<open>A controller\<close>

text \<open>
  An SMBus controller with the register file of the AMD-756 family: address, command and data
  latches, a status register that is cleared by writing ones, and a control register whose bit
  3 starts a transaction. \<open>s_rejects\<close> transactions end with a collision before the first is
  carried out, and each end shows in the status only after \<open>s_lag\<close> polls.
\<close>

record smb_dev =
  s_addr :: u8
  s_reg :: u8
  s_data :: u16
  s_status :: u16
  s_wait :: nat
  s_lag :: nat
  s_rejects :: nat
  s_chip :: "u8 \<Rightarrow> u8 \<Rightarrow> u8"

definition target :: "u8 \<Rightarrow> u8" where "target b = drop_bit 1 b"
definition is_read :: "u8 \<Rightarrow> bool" where "is_read b \<longleftrightarrow> bit b 0"

definition smb_status :: "smb_dev \<Rightarrow> u16 \<times> smb_dev" where
  "smb_status d =
     (if s_wait d = 0 then (s_status d, d) else (0, d\<lparr>s_wait := s_wait d - 1\<rparr>))"

definition smb_start :: "smb_dev \<Rightarrow> smb_dev" where
  "smb_start d =
     (let d = d\<lparr>s_wait := s_lag d\<rparr>; a = target (s_addr d)
      in if s_rejects d > 0 then d\<lparr>s_rejects := s_rejects d - 1, s_status := 0x04\<rparr>
         else if is_read (s_addr d) then d\<lparr>s_data := ucast (s_chip d a (s_reg d)), s_status := 0x10\<rparr>
         else d\<lparr>s_chip := (s_chip d)(a := (s_chip d a)(s_reg d := ucast (s_data d))),
                s_status := 0x10\<rparr>)"

definition smb_ports :: "smb_dev ports" where
  "smb_ports = \<lparr>
     IoInputByte = (\<lambda>p d. if p = I2C_IO_BASE then (let (w, d) = smb_status d in (ucast w, d))
                     else if p = I2C_IO_BASE + 6 then (ucast (s_data d), d) else (0, d)),
     IoInputWord = (\<lambda>p d. if p = I2C_IO_BASE then smb_status d
                     else if p = I2C_IO_BASE + 6 then (s_data d, d) else (0, d)),
     IoInputDword = (\<lambda>p d. (0, d)),
     IoOutputByte = (\<lambda>p b d. if p = I2C_IO_BASE + 4 then d\<lparr>s_addr := b\<rparr>
                      else if p = I2C_IO_BASE + 8 then d\<lparr>s_reg := b\<rparr>
                      else if p = I2C_IO_BASE + 6 then d\<lparr>s_data := ucast b\<rparr>
                      else if p = I2C_IO_BASE + 2 \<and> b AND 0x08 \<noteq> 0 then smb_start d else d),
     IoOutputWord = (\<lambda>p w d. if p = I2C_IO_BASE then d\<lparr>s_status := s_status d AND NOT w\<rparr>
                      else if p = I2C_IO_BASE + 6 then d\<lparr>s_data := w\<rparr> else d),
     IoOutputDword = (\<lambda>p w d. d),
     delay_us = (\<lambda>t d. d)\<rparr>"

definition smb_ready :: "nat \<Rightarrow> smb_dev \<Rightarrow> bool" where
  "smb_ready n d \<longleftrightarrow> s_wait d = 0 \<and> s_status d AND 0x0800 = 0 \<and> s_rejects d < 50 \<and> s_lag d < n"

lemma smb_poll:
  assumes "s_wait d < n" and "ucast (s_status d) AND (0x36 :: u8) \<noteq> 0"
  shows "poll_byte smb_ports I2C_IO_BASE (\<lambda>b. b AND 0x36 \<noteq> 0) n d =
    Some (ucast (s_status d), d\<lparr>s_wait := 0\<rparr>)"
  using assms
proof (induction n arbitrary: d)
  case (Suc n)
  show ?case
  proof (cases "s_wait d")
    case 0
    with Suc.prems show ?thesis by (simp add: smb_ports_def smb_status_def)
  next
    case (Suc k)
    with Suc.prems Suc.IH [of "d\<lparr>s_wait := k\<rparr>"] show ?thesis
      by (simp add: smb_ports_def smb_status_def)
  qed
qed simp

lemma smb_ports_simps:
  "IoOutputByte smb_ports 0xc004 b d = d\<lparr>s_addr := b\<rparr>"
  "IoOutputByte smb_ports 0xc008 b d = d\<lparr>s_reg := b\<rparr>"
  "IoOutputByte smb_ports 0xc002 0x1a d = smb_start d"
  "IoOutputByte smb_ports 0xc002 0x0a d = smb_start d"
  "IoOutputWord smb_ports 0xc006 w d = d\<lparr>s_data := w\<rparr>"
  "IoOutputByte smb_ports 0xc006 b d = d\<lparr>s_data := ucast b\<rparr>"
  "s_wait d = 0 \<Longrightarrow> clear_errors smb_ports d = d\<lparr>s_status := 0\<rparr>"
  "IoInputByte smb_ports 0xc006 d = (ucast (s_data d), d)"
  "delay_us smb_ports t d = d"
proof -
  have "w AND NOT w = 0" for w :: u16 by (rule bit_word_eqI) (simp add: bit_simps)
  then show "s_wait d = 0 \<Longrightarrow> clear_errors smb_ports d = d\<lparr>s_status := 0\<rparr>"
    by (simp add: clear_errors_def smb_ports_def smb_status_def)
qed (simp_all add: smb_ports_def)


lemma shift_address:
  assumes "a < 0x80"
  shows "target (write_address a) = a" "target (read_address a) = a"
    "\<not> is_read (write_address a)" "is_read (read_address a)"
proof -
  have a: "\<not> bit a 7"
  proof
    assume "bit a 7"
    then have "a AND 0x80 = 0x80"
      by (intro bit_word_eqI) (auto simp: bit_simps less_Suc_eq numeral_eq_Suc)
    moreover have "a AND 0x80 \<le> a" by (rule word_and_le2)
    ultimately show False using assms by simp
  qed
  have lt: "bit a k \<Longrightarrow> k < 7" for k
    using a bit_imp_le_length [of a k] by (cases "k = 7") auto
  show "target (write_address a) = a" "target (read_address a) = a"
    unfolding target_def write_address_def read_address_def
    by (rule bit_word_eqI,
        auto simp: bit_simps dest: lt simp del: push_bit_Suc drop_bit_Suc One_nat_def)+
  show "\<not> is_read (write_address a)" "is_read (read_address a)"
    unfolding is_read_def write_address_def read_address_def
    by (simp_all add: bit_simps del: push_bit_Suc One_nat_def)
qed

definition smb_try :: "u8 \<Rightarrow> u8 \<Rightarrow> smb_dev \<Rightarrow> smb_dev" where
  "smb_try a r d = (smb_start (d\<lparr>s_addr := a, s_reg := r, s_status := 0\<rparr>))\<lparr>s_wait := 0\<rparr>"

lemma smb_try_write:
  assumes "a < 0x80"
  shows "smb_try (write_address a) r d =
    (if s_rejects d > 0
     then d\<lparr>s_addr := write_address a, s_reg := r, s_wait := 0, s_rejects := s_rejects d - 1, s_status := 4\<rparr>
     else d\<lparr>s_addr := write_address a, s_reg := r, s_wait := 0, s_status := 0x10,
            s_chip := (s_chip d)(a := (s_chip d a)(r := ucast (s_data d)))\<rparr>)"
  using shift_address [OF assms] by (simp add: smb_try_def smb_start_def Let_def)

lemma smb_try_read:
  assumes "a < 0x80"
  shows "smb_try (read_address a) r d =
    (if s_rejects d > 0
     then d\<lparr>s_addr := read_address a, s_reg := r, s_wait := 0, s_rejects := s_rejects d - 1, s_status := 4\<rparr>
     else d\<lparr>s_addr := read_address a, s_reg := r, s_wait := 0, s_status := 0x10,
            s_data := ucast (s_chip d a r)\<rparr>)"
  using shift_address [OF assms] by (simp add: smb_try_def smb_start_def Let_def)

lemma smb_start_status:
  "s_wait (smb_start d) = s_lag d"
  "s_status (smb_start d) = (if s_rejects d > 0 then 4 else 0x10)"
  by (simp_all add: smb_start_def Let_def)

lemma smb_start_poll:
  assumes "s_lag d < n"
  shows "poll_byte smb_ports I2C_IO_BASE (\<lambda>b. b AND 0x36 \<noteq> 0) n (smb_start d) =
    Some (if s_rejects d > 0 then 4 else 0x10, (smb_start d)\<lparr>s_wait := 0\<rparr>)"
  using assms by (subst smb_poll) (simp_all add: smb_start_status)

lemma write_attempt_smb:
  assumes "s_wait d = 0" and "s_lag d < n"
  shows "write_attempts smb_ports n a r 1 v (Suc k) d =
    (let d' = smb_try (write_address a) r (d\<lparr>s_data := ucast (v AND 0xff)\<rparr>)
     in if s_rejects d > 0 then write_attempts smb_ports n a r 1 v k d' else Some (ERR_SUCCESS, d'))"
proof -
  let ?d = "d\<lparr>s_addr := write_address a, s_reg := r, s_data := ucast (v AND 0xff), s_status := 0\<rparr>"
  have "poll_byte smb_ports I2C_IO_BASE (\<lambda>b. b AND 0x36 \<noteq> 0) n (smb_start ?d) =
      Some (if s_rejects d > 0 then 4 else 0x10, (smb_start ?d)\<lparr>s_wait := 0\<rparr>)"
    using smb_start_poll [of ?d n] assms(2) by simp
  moreover have "d\<lparr>s_data := x, s_addr := y, s_reg := r, s_status := 0\<rparr> =
      d\<lparr>s_addr := y, s_reg := r, s_data := x, s_status := 0\<rparr>" for x y by simp
  then have "smb_try (write_address a) r (d\<lparr>s_data := ucast (v AND 0xff)\<rparr>) =
      (smb_start ?d)\<lparr>s_wait := 0\<rparr>"
    by (simp only: smb_try_def)
  ultimately show ?thesis
    using assms(1) by (simp add: put_data_def smb_ports_simps write_attempts.simps Let_def)
qed

lemma read_attempt_smb:
  assumes "s_wait d = 0" and "s_lag d < n"
  shows "read_attempts smb_ports n a r 1 (Suc k) d =
    (let d' = smb_try (read_address a) r d
     in if s_rejects d > 0 then read_attempts smb_ports n a r 1 k d'
        else Some (ERR_SUCCESS, Some (ucast (ucast (s_data d') :: u8)), d'))"
proof -
  let ?d = "d\<lparr>s_addr := read_address a, s_reg := r, s_status := 0\<rparr>"
  have "poll_byte smb_ports I2C_IO_BASE (\<lambda>b. b AND 0x36 \<noteq> 0) n (smb_start ?d) =
      Some (if s_rejects d > 0 then 4 else 0x10, (smb_start ?d)\<lparr>s_wait := 0\<rparr>)"
    using smb_start_poll [of ?d n] assms(2) by simp
  moreover have "smb_try (read_address a) r d = (smb_start ?d)\<lparr>s_wait := 0\<rparr>"
    by (simp add: smb_try_def)
  ultimately show ?thesis
    using assms(1) by (simp add: get_data_def smb_ports_simps read_attempts.simps Let_def)
qed

lemma write_attempts_smb:
  assumes "s_wait d = 0" and "s_lag d < n" and "a < 0x80"
  shows "\<exists>d'. write_attempts smb_ports n a r 1 v k d =
      Some (if s_rejects d < k then ERR_SUCCESS else ERR_I2C_ERROR_BUS, d')
    \<and> s_chip d' = (if s_rejects d < k then (s_chip d)(a := (s_chip d a)(r := ucast v)) else s_chip d)
    \<and> s_wait d' = 0 \<and> s_lag d' = s_lag d \<and> s_rejects d' = s_rejects d - k
    \<and> (0 < k \<longrightarrow> s_status d' AND 0x0800 = 0)"
  using assms(1,2)
proof (induction k arbitrary: d)
  case (Suc k)
  let ?d = "smb_try (write_address a) r (d\<lparr>s_data := ucast (v AND 0xff)\<rparr>)"
  have v: "(ucast (ucast (v AND 0xff) :: u16) :: u8) = ucast v"
    by (rule bit_word_eqI) (auto simp: bit_simps less_Suc_eq numeral_eq_Suc)
  show ?case
  proof (cases "s_rejects d")
    case 0
    then show ?thesis
      using Suc.prems v by (simp add: write_attempt_smb Let_def smb_try_write [OF assms(3)] fun_upd_def)
  next
    case (Suc j)
    then have d: "?d = d\<lparr>s_data := ucast (v AND 0xff), s_addr := write_address a, s_reg := r, s_wait := 0,
        s_rejects := j, s_status := 4\<rparr>"
      by (simp add: smb_try_write [OF assms(3)])
    have "s_wait ?d = 0" "s_lag ?d < n" using Suc.prems by (simp_all add: d)
    from Suc.IH [OF this] show ?thesis
      using Suc Suc.prems by (cases k) (auto simp: write_attempt_smb d)
  qed
qed simp

lemma read_attempts_smb:
  assumes "s_wait d = 0" and "s_lag d < n" and "a < 0x80"
  shows "\<exists>d'. read_attempts smb_ports n a r 1 k d =
      Some (if s_rejects d < k then (ERR_SUCCESS, Some (ucast (s_chip d a r)), d')
            else (ERR_I2C_ERROR_BUS, None, d'))
    \<and> s_chip d' = s_chip d
    \<and> s_wait d' = 0 \<and> s_lag d' = s_lag d \<and> s_rejects d' = s_rejects d - k
    \<and> (0 < k \<longrightarrow> s_status d' AND 0x0800 = 0)"
  using assms(1,2)
proof (induction k arbitrary: d)
  case (Suc k)
  let ?d = "smb_try (read_address a) r d"
  have v: "(ucast (ucast (w :: u8) :: u16) :: u8) = w" for w
    by (rule bit_word_eqI) (auto simp: bit_simps)
  show ?case
  proof (cases "s_rejects d")
    case 0
    then show ?thesis
      using Suc.prems v by (simp add: read_attempt_smb Let_def smb_try_read [OF assms(3)])
  next
    case (Suc j)
    then have d: "?d = d\<lparr>s_addr := read_address a, s_reg := r, s_wait := 0,
        s_rejects := j, s_status := 4\<rparr>"
      by (simp add: smb_try_read [OF assms(3)])
    have "s_wait ?d = 0" "s_lag ?d < n" using Suc.prems by (simp_all add: d)
    from Suc.IH [OF this] show ?thesis
      using Suc Suc.prems by (cases k) (auto simp: read_attempt_smb d)
  qed
qed simp

lemma smb_not_busy:
  "s_wait d = 0 \<Longrightarrow> s_status d AND 0x0800 = 0 \<Longrightarrow> 0 < n \<Longrightarrow>
   poll_word smb_ports I2C_IO_BASE (\<lambda>w. w AND 0x0800 = 0) n d = Some (s_status d, d)"
  by (rule poll_word_now) (simp_all add: smb_ports_def smb_status_def)

interpretation smb: smbus smb_ports n s_chip "smb_ready n" for n
proof
  fix d a r assume d: "smb_ready n d" and a: "(a :: u8) < 0x80"
  then have p: "poll_word smb_ports I2C_IO_BASE (\<lambda>w. w AND 0x0800 = 0) n d = Some (s_status d, d)"
    by (intro smb_not_busy) (auto simp: smb_ready_def)
  show "\<exists>d'. ReadfromSMBus smb_ports n a r 1 d = Some (ERR_SUCCESS, Some (ucast (s_chip d a r)), d')
      \<and> smb_ready n d' \<and> s_chip d' = s_chip d"
    using read_attempts_smb [of d n a r 50] d a p
    by (auto simp: ReadfromSMBus_def smb_ready_def)
  show "\<exists>d'. WriteToSMBus smb_ports n a r 1 v d = Some (ERR_SUCCESS, d')
      \<and> smb_ready n d' \<and> s_chip d' = (s_chip d)(a := (s_chip d a)(r := ucast v))" for v
    using write_attempts_smb [of d n a r v 50] d a p
    by (auto simp: WriteToSMBus_def smb_ready_def)
qed

section \<open>Properties\<close>

text \<open>C38. The 50 attempts: on a controller that rejects \<open>k\<close> transactions before it carries one
  out, a byte write returns success and has stored the byte exactly when \<open>k < 50\<close>; otherwise it
  returns the bus error after 50 rejections and no register has changed. It always returns when
  the controller ends transactions within the fuel.\<close>

theorem WriteToSMBus_attempts:
  assumes "s_wait d = 0" and "s_status d AND 0x0800 = 0" and "s_lag d < n" and "a < 0x80"
  shows "\<exists>d'. WriteToSMBus smb_ports n a r 1 v d =
      Some (if s_rejects d < 50 then ERR_SUCCESS else ERR_I2C_ERROR_BUS, d')
    \<and> s_chip d' = (if s_rejects d < 50 then (s_chip d)(a := (s_chip d a)(r := ucast v)) else s_chip d)
    \<and> s_rejects d' = s_rejects d - 50"
  using write_attempts_smb [OF assms(1,3,4), of r v 50] smb_not_busy [OF assms(1,2), of n] assms(3)
  by (auto simp: WriteToSMBus_def)

definition blank_smb :: "nat \<Rightarrow> smb_dev" where
  "blank_smb k = \<lparr>s_addr = 0, s_reg = 0, s_data = 0, s_status = 0, s_wait = 0, s_lag = 3,
     s_rejects = k, s_chip = (\<lambda>a r. 0)\<rparr>"

theorem WriteToSMBus_attempts_witness:
  "(\<exists>d. WriteToSMBus smb_ports 4 0x10 8 1 0xF0 (blank_smb 49) = Some (ERR_SUCCESS, d)
      \<and> s_chip d 0x10 8 = 0xF0)
   \<and> (\<exists>d. WriteToSMBus smb_ports 4 0x10 8 1 0xF0 (blank_smb 50) = Some (ERR_I2C_ERROR_BUS, d)
      \<and> s_chip d 0x10 8 = 0)"
  using WriteToSMBus_attempts [of "blank_smb 49" 4 "0x10" 8 "0xF0"]
    WriteToSMBus_attempts [of "blank_smb 50" 4 "0x10" 8 "0xF0"]
  by (auto simp: blank_smb_def)

text \<open>A 32-bit read never delivers its data: whatever the hardware does, a read of size 4
  that returns leaves the caller's variable unwritten, even when it reports success.\<close>

lemma ReadfromSMBus_4_no_data:
  assumes "ReadfromSMBus io n a r 4 d = Some (e, v, d')"
  shows "v = None"
proof -
  have "read_attempts io n a r 4 k d = Some (e, v, d') \<Longrightarrow> v = None" for k d
    by (induction k arbitrary: d)
      (auto simp: read_attempts.simps get_data_def Let_def split: option.splits prod.splits if_splits)
  with assms show ?thesis
    by (auto simp: ReadfromSMBus_def bind_eq_Some_conv)
qed

lemma read4_blank:
  "\<exists>v d. ReadfromSMBus smb_ports 1 1 2 4 ((blank_smb 0)\<lparr>s_lag := 0\<rparr>) = Some (ERR_SUCCESS, v, d)"
proof -
  have "(50 :: nat) = Suc 49" "(1 :: nat) = Suc 0" by simp_all
  then show ?thesis
    by (simp only: ReadfromSMBus_def read_attempts.simps poll_byte.simps poll_word.simps)
      (simp add: blank_smb_def smb_ports_def smb_status_def clear_errors_def get_data_def
        smb_start_def read_address_def target_def is_read_def Let_def)
qed

lemma ReadfromSMBus_4_no_data_witness:
  "\<exists>v d. ReadfromSMBus smb_ports 1 1 2 4 ((blank_smb 0)\<lparr>s_lag := 0\<rparr>) = Some (ERR_SUCCESS, v, d)
    \<and> v = None"
proof -
  obtain v d where r: "ReadfromSMBus smb_ports 1 1 2 4 ((blank_smb 0)\<lparr>s_lag := 0\<rparr>) = Some (ERR_SUCCESS, v, d)"
    using read4_blank by blast
  with ReadfromSMBus_4_no_data [OF r] show ?thesis by blast
qed

text \<open>On any bus that stores bytes, \<open>I2CModifyBits\<close> replaces exactly the masked bits of the
  register, of the chip at 0x45 whatever address it is given.\<close>

lemma I2CModifyBits_masks:
  assumes "smbus io n chip ready" and "ready d"
  shows "\<exists>d'. I2CModifyBits io n bAds r v m d = Some d' \<and> ready d'
    \<and> chip d' = (chip d)(0x45 := (chip d 0x45)(r := (v AND m) OR (chip d 0x45 r AND NOT m)))"
  using smbus.modify_bits [OF assms] by metis

lemma I2CModifyBits_masks_witness:
  "\<exists>d. I2CModifyBits smb_ports 4 0x20 3 0xFF 0x0F (blank_smb 2) = Some d \<and> s_chip d 0x45 3 = 0x0F
    \<and> s_chip d 0x20 3 = 0"
  using I2CModifyBits_masks [OF smb.smbus_axioms, of 4 "blank_smb 2" "0x20" 3 "0xFF" "0x0F"]
  by (auto simp: blank_smb_def smb_ready_def)

text \<open>The colours of a pattern character.\<close>

definition red :: "u8 \<Rightarrow> bool" where "red c \<longleftrightarrow> c = 0x72 \<or> c = 0x6f"
definition green :: "u8 \<Rightarrow> bool" where "green c \<longleftrightarrow> c = 0x67 \<or> c = 0x6f"

lemma led_loop_Cons:
  "led_loop (c # cs) r g = led_loop cs (r * 2 + of_bool (red c)) (g * 2 + of_bool (green c))"
  by (simp add: red_def green_def Let_def)

lemma led_byte_eq:
  "led_byte [a, b, c, e] = 128 * of_bool (red a) + 64 * of_bool (red b) + 32 * of_bool (red c)
     + 16 * of_bool (red e) + 8 * of_bool (green a) + 4 * of_bool (green b) + 2 * of_bool (green c)
     + of_bool (green e)"
  unfolding led_byte_def led_loop_Cons led_loop.simps(1)
  by (cases "red a"; cases "red b"; cases "red c"; cases "red e";
      cases "green a"; cases "green b"; cases "green c"; cases "green e"; simp)

text \<open>On any bus that stores bytes, a pattern of four characters sets register 8 of the PIC to
  the byte whose high nibble has the red phases and whose low nibble has the green phases,
  first phase in the highest bit, and turns software control on through register 7.\<close>

lemma setLED_pattern:
  assumes "smbus io n chip ready" and "ready d"
  shows "\<exists>d'. setLED io n [a, b, c, e] d = Some d' \<and> ready d'
    \<and> chip d' = (chip d)(0x10 := (chip d 0x10)
        (8 := 128 * of_bool (red a) + 64 * of_bool (red b) + 32 * of_bool (red c)
           + 16 * of_bool (red e) + 8 * of_bool (green a) + 4 * of_bool (green b)
           + 2 * of_bool (green c) + of_bool (green e), 7 := 1))"
proof -
  obtain d' where "I2cSetFrontpanelLed io n (led_byte [a, b, c, e]) d = Some (ERR_SUCCESS, d')"
    "ready d'" "chip d' = (chip d)(0x10 := (chip d 0x10)(8 := led_byte [a, b, c, e], 7 := 1))"
    by (rule smbus.front_panel [OF assms])
  moreover from this(1) have "setLED io n [a, b, c, e] d = Some d'" by (simp add: setLED_def)
  ultimately show ?thesis unfolding led_byte_eq by blast
qed

lemma setLED_pattern_witness:
  "\<exists>d. setLED smb_ports 4 [0x72, 0x67, 0x6f, 0x67] (blank_smb 0) = Some d
    \<and> s_chip d 0x10 8 = 0xA7 \<and> s_chip d 0x10 7 = 1"
  using setLED_pattern [OF smb.smbus_axioms, of 4 "blank_smb 0" "0x72" "0x67" "0x6f" "0x67"]
  by (auto simp: blank_smb_def smb_ready_def red_def green_def)

end
