(* ===== verification/Eeprom.thy ===== *)
theory Eeprom
  imports I2c
begin

text \<open>
  The configuration EEPROM, \<open>lib/eeprom/BootEEPROM.c\<close>: reading the image over the SMBus, its
  checksums, and the two settings the menus change.

  The global \<open>eeprom\<close> is the 256-byte image \<open>img\<close>; the fields of \<open>EEPROMDATA\<close> are the offsets
  of \<open>BootEEPROM.h\<close>. The heap buffer of \<open>EepromCRC\<close> is a buffer of its own.
\<close>

abbreviation (input) "off_Checksum2 \<equiv> 0x30 :: nat"
abbreviation (input) "off_SerialNumber \<equiv> 0x34 :: nat"
abbreviation (input) "off_VideoStandard \<equiv> 0x58 :: nat"
abbreviation (input) "off_Checksum3 \<equiv> 0x60 :: nat"
abbreviation (input) "off_TimeZoneBias \<equiv> 0x64 :: nat"
abbreviation (input) "off_VideoFlags \<equiv> 0x94 :: nat"

section \<open>Operations\<close>

fun read_eeprom_from :: "'d ports \<Rightarrow> nat \<Rightarrow> nat list \<Rightarrow> 'd \<Rightarrow> (bytes \<times> 'd) option" where
  "read_eeprom_from io n [] d = Some ([], d)"
| "read_eeprom_from io n (i # is) d = do {
     (t, d) \<leftarrow> I2CTransmitByteGetReturn io n 0x54 (of_nat i) d;
     (r, d) \<leftarrow> read_eeprom_from io n is d;
     Some (ucast t # r, d)
   }"

definition BootEepromReadEntireEEPROM :: "'d ports \<Rightarrow> nat \<Rightarrow> 'd \<Rightarrow> (bytes \<times> 'd) option" where
  "BootEepromReadEntireEEPROM io n d = read_eeprom_from io n [0..<256] d"

text \<open>The buffer the checksum runs over: the data rotated right by one byte, and four zeros. A
  length of 0 asks \<open>memcpy\<close> for \<open>0xffffffff\<close> bytes.\<close>

definition crc_buffer :: "bytes \<Rightarrow> nat \<Rightarrow> bytes option" where
  "crc_buffer data dataLen =
     (if dataLen = 0 \<or> length data < dataLen then None
      else do {
        b \<leftarrow> put_bytes (replicate (dataLen + 4) 0) 1 (take (dataLen - 1) data);
        put_bytes b 0 [data ! (dataLen - 1)]
      })"

function crc_sum :: "bytes \<Rightarrow> nat \<Rightarrow> nat \<Rightarrow> u16 \<Rightarrow> u16" where
  "crc_sum CRC_Data l dataLen CRCPosVal =
     (if l < dataLen
      then crc_sum CRC_Data (l + 4) dataLen (CRCPosVal - le16 (CRC_Data ! l) (CRC_Data ! (l + 1)))
      else CRCPosVal)"
  by pat_completeness auto
termination by (relation "measure (\<lambda>(b, l, n, v). n - l)") auto

declare crc_sum.simps [simp del]

definition crc_byte :: "bytes \<Rightarrow> nat \<Rightarrow> nat \<Rightarrow> u8" where
  "crc_byte CRC_Data dataLen pos =
     ucast (drop_bit 8 (crc_sum CRC_Data pos dataLen 0xFFFF AND 0xFF00))"

definition EepromCRC :: "bytes \<Rightarrow> nat \<Rightarrow> bytes option" where
  "EepromCRC data dataLen = do {
     b \<leftarrow> crc_buffer data dataLen;
     Some (map (crc_byte b dataLen) [0, 1, 2, 3])
   }"

text \<open>Writes of single bytes to the EEPROM chip, with the size argument each call passes.\<close>

fun write_eeprom :: "'d ports \<Rightarrow> nat \<Rightarrow> u8 \<Rightarrow> (u8 \<times> u8) list \<Rightarrow> 'd \<Rightarrow> 'd option" where
  "write_eeprom io n sz [] d = Some d"
| "write_eeprom io n sz ((r, v) # ws) d = do {
     (_, d) \<leftarrow> WriteToSMBus io n 0x54 r sz (ucast v) d;
     write_eeprom io n sz ws d
   }"

declare write_eeprom.simps(2) [simp del]

definition EepromSetWidescreen :: "'d ports \<Rightarrow> nat \<Rightarrow> u32 \<Rightarrow> bytes \<Rightarrow> 'd \<Rightarrow> (bytes \<times> 'd) option" where
  "EepromSetWidescreen io n enable img d = do {
     let flag = (if enable \<noteq> 0 then 1 else 0);
     d \<leftarrow> write_eeprom io n 0 [(0x96, flag)] d;
     img \<leftarrow> put_bytes img (off_VideoFlags + 2) [flag];
     sum \<leftarrow> EepromCRC (drop off_TimeZoneBias img) 0x5b;
     d \<leftarrow> write_eeprom io n 1 [(0x60, sum ! 0), (0x61, sum ! 1), (0x62, sum ! 2), (0x63, sum ! 3)] d;
     Some (img, d)
   }"

definition EepromSetVideoStandard :: "'d ports \<Rightarrow> nat \<Rightarrow> u32 \<Rightarrow> bytes \<Rightarrow> 'd \<Rightarrow> (bytes \<times> 'd) option" where
  "EepromSetVideoStandard io n standard img d = do {
     d \<leftarrow> write_eeprom io n 1 (map (\<lambda>i. (0x58 + of_nat i, ucast (drop_bit (8 * i) standard))) [0, 1, 2, 3]) d;
     img \<leftarrow> put_bytes img off_VideoStandard (le32_bytes standard);
     sum \<leftarrow> EepromCRC (drop off_SerialNumber img) 0x28;
     d \<leftarrow> write_eeprom io n 0 [(0x30, sum ! 0), (0x31, sum ! 1), (0x32, sum ! 2), (0x33, sum ! 3)] d;
     Some (img, d)
   }"

section \<open>The checksum\<close>

lemma crc_buffer_eq:
  assumes "data \<noteq> []"
  shows "crc_buffer (data @ r) (length data) = Some (last data # butlast data @ replicate 4 0)"
proof -
  let ?n = "length data"
  have n: "0 < ?n" using assms by simp
  have t: "take (?n - 1) (data @ r) = butlast data" by (simp add: butlast_conv_take)
  have l: "(data @ r) ! (?n - 1) = last data" using assms by (simp add: nth_append last_conv_nth)
  have len: "length (butlast data) = ?n - 1" by simp
  have z: "take 1 (replicate (?n + 4) (0 :: u8)) = [0]"
    "drop (1 + (?n - 1)) (replicate (?n + 4) (0 :: u8)) = replicate 4 0"
    using n by (simp_all add: drop_replicate)
  have "put_bytes (replicate (?n + 4) 0) 1 (butlast data) = Some (0 # butlast data @ replicate 4 0)"
    using n z by (simp add: put_bytes_def)
  then show ?thesis
    using n t l by (simp add: crc_buffer_def put_bytes_def)
qed

lemma EepromCRC_eq:
  assumes "data \<noteq> []"
  shows "EepromCRC (data @ r) (length data) =
    Some (map (crc_byte (last data # butlast data @ replicate 4 0) (length data)) [0, 1, 2, 3])"
  by (simp add: EepromCRC_def crc_buffer_eq [OF assms])

lemma EepromCRC_length: "EepromCRC data n = Some s \<Longrightarrow> length s = 4"
  by (auto simp: EepromCRC_def bind_eq_Some_conv)

lemma crc_sum_step:
  "l < n \<Longrightarrow> crc_sum b l n v = crc_sum b (l + 4) n (v - le16 (b ! l) (b ! (l + 1)))"
  by (subst crc_sum.simps) simp

lemma crc_sum_shift: "crc_sum b l n (v - x) = crc_sum b l n v - x"
proof (induction b l n v rule: crc_sum.induct)
  case (1 b l n v)
  show ?case
  proof (cases "l < n")
    case True
    let ?w = "le16 (b ! l) (b ! (l + 1))"
    have "v - x - ?w = v - ?w - x" by simp
    then have "crc_sum b l n (v - x) = crc_sum b (l + 4) n (v - ?w - x)"
      by (simp only: crc_sum_step [OF True])
    also have "\<dots> = crc_sum b (l + 4) n (v - ?w) - x" by (rule 1 [OF True])
    finally show ?thesis by (simp only: crc_sum_step [OF True])
  qed (simp add: crc_sum.simps)
qed

lemma crc_sum_unchanged:
  "j + 1 < l \<Longrightarrow> crc_sum (b[j + 1 := c]) l n v = crc_sum b l n v"
proof (induction b l n v rule: crc_sum.induct)
  case (1 b l n v)
  then show ?case
    by (simp add: crc_sum.simps [of b l n v] crc_sum.simps [of "b[Suc j := c]" l n v])
qed

lemma le16_sum: "le16 a b = ucast a + 256 * ucast b"
proof -
  have "le16 a b = ucast a + push_bit 8 (ucast b)"
    unfolding le16_def
    by (rule disjunctive_add [symmetric]) (auto simp: bit_simps dest: bit_imp_le_length)
  then show ?thesis by (simp add: push_bit_eq_mult mult.commute)
qed

lemma crc_sum_change:
  assumes "j + 1 < length b" and "l \<le> j" and "j < n" and "l mod 4 = j mod 4"
  shows "crc_sum (b[j + 1 := c]) l n v = crc_sum b l n v - 256 * (ucast c - ucast (b ! (j + 1)))"
  using assms
proof (induction b l n v rule: crc_sum.induct)
  case (1 b l n v)
  let ?b = "b[j + 1 := c]" and ?x = "256 * (ucast c - ucast (b ! (j + 1))) :: u16"
  have l: "l < n" using 1(3,4) by simp
  show ?case
  proof (cases "l = j")
    case True
    let ?w = "le16 (b ! l) (b ! (l + 1))"
    have "le16 (?b ! l) (?b ! (l + 1)) = ?w + ?x"
      using True 1(2) by (simp add: le16_sum right_diff_distrib)
    then have "v - le16 (?b ! l) (?b ! (l + 1)) = v - ?w - ?x" by simp
    then have "crc_sum ?b l n v = crc_sum ?b (l + 4) n (v - ?w - ?x)"
      by (simp only: crc_sum_step [OF l])
    also have "\<dots> = crc_sum b (l + 4) n (v - ?w - ?x)"
      using True by (intro crc_sum_unchanged) simp
    finally show ?thesis by (simp only: crc_sum_shift crc_sum_step [OF l, of b v])
  next
    case False
    with 1(3) have "0 < j - l" by simp
    moreover have "4 dvd j - l" using 1(3,5) by (metis mod_eq_dvd_iff_nat)
    ultimately have "4 \<le> j - l" by (rule dvd_imp_le [rotated])
    then have le: "l + 4 \<le> j" by simp
    then have "?b ! l = b ! l" "?b ! (l + 1) = b ! (l + 1)" by simp_all
    moreover have "(l + 4) mod 4 = j mod 4" using 1(5) by simp
    ultimately show ?thesis
      using 1(1) [OF l 1(2) le 1(4)] by (simp only: crc_sum_step [OF l])
  qed
qed

text \<open>The high byte of a sum changes when a nonzero multiple of 256 is subtracted.\<close>

lemma high_byte_change:
  assumes "(ucast (drop_bit 8 ((v - 256 * x) AND 0xFF00)) :: u8) = ucast (drop_bit 8 (v AND 0xFF00))"
  shows "256 * x = (0 :: u16)"
proof -
  let ?v = "v - 256 * x"
  have hi: "(ucast (drop_bit 8 (w AND 0xFF00)) :: u8) = ucast (drop_bit 8 w)" for w :: u16
    by (rule bit_word_eqI) (auto simp: bit_simps less_Suc_eq numeral_eq_Suc)
  have "drop_bit 8 ?v = drop_bit 8 v"
  proof (rule bit_word_eqI)
    fix k assume "k < LENGTH(16)"
    show "bit (drop_bit 8 ?v) k = bit (drop_bit 8 v) k"
    proof (cases "k < 8")
      case True
      have "bit (ucast (drop_bit 8 ?v) :: u8) k = bit (ucast (drop_bit 8 v) :: u8) k"
        using assms by (simp only: hi)
      with True show ?thesis by (simp add: bit_simps)
    qed (auto simp: bit_simps dest: bit_imp_le_length)
  qed
  moreover have "take_bit 8 ?v = take_bit 8 v"
  proof -
    have low: "ucast (of_int a :: u16) = (of_int a :: u8)" for a
      by (rule bit_word_eqI) (simp add: bit_simps)
    have "?v = of_int (uint v - 256 * uint x)" by simp
    then have "(ucast ?v :: u8) = of_int (uint v - 256 * uint x)" by (simp only: low)
    also have "\<dots> = of_int (uint v)"
    proof -
      have "(256 :: u8) = 0" by simp
      then show ?thesis by (simp only: of_int_diff of_int_mult of_int_numeral) simp
    qed
    finally have eq: "(ucast ?v :: u8) = ucast v" by simp
    show ?thesis
    proof (rule bit_word_eqI)
      fix k assume "k < LENGTH(16)"
      from eq have "bit (ucast ?v :: u8) k = bit (ucast v :: u8) k" by (simp only:)
      then show "bit (take_bit 8 ?v) k = bit (take_bit 8 v) k" by (auto simp: bit_simps)
    qed
  qed
  ultimately have "?v = v" by (metis bits_ident)
  then show ?thesis by simp
qed


text \<open>The checksum detects every change of a single byte other than the last: two records of
  the same length that differ in exactly one byte before the last have different checksums.\<close>

lemma EepromCRC_detects:
  assumes "j + 1 < length data" and "c \<noteq> data ! j"
  shows "EepromCRC (data[j := c]) (length data) \<noteq> EepromCRC data (length data)"
proof -
  let ?n = "length data" and ?b = "last data # butlast data @ replicate 4 0"
  have ne: "data \<noteq> []" "data[j := c] \<noteq> []" using assms(1) by auto
  have last: "last (data[j := c]) = last data"
    using assms(1) ne by (auto simp: last_list_update)
  have butlast: "butlast (data[j := c]) = (butlast data)[j := c]"
    using assms(1) by (auto simp: butlast_list_update)
  have b: "last (data[j := c]) # butlast (data[j := c]) @ replicate 4 0 = ?b[j + 1 := c]"
  proof -
    have "j < length (butlast data)" using assms(1) by simp
    then show ?thesis by (simp add: last butlast list_update_append1)
  qed
  have "j < length (butlast data)" using assms(1) by simp
  then have bj: "?b ! (j + 1) = data ! j" by (simp add: nth_append nth_butlast)
  let ?x = "ucast c - ucast (data ! j) :: u16"
  have change: "crc_sum (?b[j + 1 := c]) (j mod 4) ?n v = crc_sum ?b (j mod 4) ?n v - 256 * ?x" for v
    using crc_sum_change [of j ?b "j mod 4" ?n c v] assms(1) bj by simp
  have "crc_byte (?b[j + 1 := c]) ?n (j mod 4) \<noteq> crc_byte ?b ?n (j mod 4)"
  proof
    assume "crc_byte (?b[j + 1 := c]) ?n (j mod 4) = crc_byte ?b ?n (j mod 4)"
    then have x: "256 * ?x = 0"
      unfolding crc_byte_def change by (rule high_byte_change)
    then have "256 * ucast c = (256 * ucast (data ! j) :: u16)"
      by (simp only: right_diff_distrib right_minus_eq)
    then have "push_bit 8 (ucast c :: u16) = push_bit 8 (ucast (data ! j))"
      by (simp add: push_bit_eq_mult mult.commute)
    then have shift: "bit (push_bit 8 (ucast c :: u16)) (k + 8) =
        bit (push_bit 8 (ucast (data ! j) :: u16)) (k + 8)" for k by (simp only:)
    have "c = data ! j"
    proof (rule bit_word_eqI)
      fix k assume "k < LENGTH(8)"
      with shift [of k] show "bit c k = bit (data ! j) k" by (simp add: bit_simps)
    qed
    with assms(2) show False by simp
  qed
  moreover have "j mod 4 = 0 \<or> j mod 4 = 1 \<or> j mod 4 = 2 \<or> j mod 4 = 3" by linarith
  ultimately show ?thesis
    using EepromCRC_eq [OF ne(1), of "[]"] EepromCRC_eq [OF ne(2), of "[]"] by (auto simp: b)
qed

lemma EepromCRC_detects_witness:
  "EepromCRC ([5, 0, 0, 0, 0, 0, 0, 0][2 := 1]) 8 \<noteq> EepromCRC [5, 0, 0, 0, 0, 0, 0, 0] 8"
proof -
  let ?d = "[5, 0, 0, 0, 0, 0, 0, 0] :: bytes"
  have "EepromCRC (?d[2 := 1]) (length ?d) \<noteq> EepromCRC ?d (length ?d)"
    by (rule EepromCRC_detects) simp_all
  moreover have l: "length ?d = 8" by simp
  ultimately show ?thesis unfolding l by blast
qed

text \<open>A change of the last byte can go unnoticed: the last byte only enters the low half of one
  sum, so the checksum of a zeroed record is the same whatever its last byte is.\<close>

lemma EepromCRC_misses_last_byte:
  "EepromCRC [0, 0, 0, 0, 0, 0, 0, x] 8 = EepromCRC [0, 0, 0, 0, 0, 0, 0, 0] 8"
proof -
  have "EepromCRC ([0, 0, 0, 0, 0, 0, 0, y] @ []) (length [0, 0, 0, 0, 0, 0, 0, y]) =
      Some [0xFF, 0xFF, 0xFF, 0xFF]" for y :: u8
  proof (subst EepromCRC_eq)
    let ?b = "[y, 0, 0, 0, 0, 0, 0, 0, 0, 0, 0, 0] :: bytes"
    have "le16 y 0 = ucast y" by (simp add: le16_def)
    moreover have "drop_bit 8 ((0xFFFF - ucast y :: u16) AND 0xFF00) = 0xFF"
    proof -
      have "(0xFFFF :: u16) = - 1" by simp
      then have "(0xFFFF :: u16) - ucast y = NOT (ucast y)" by (simp add: not_eq_complement)
      then show ?thesis
        by (intro bit_word_eqI)
          (auto simp: bit_simps less_Suc_eq numeral_eq_Suc dest: bit_imp_le_length)
    qed
    ultimately have "crc_byte ?b 8 0 = 0xFF" "crc_byte ?b 8 1 = 0xFF" "crc_byte ?b 8 2 = 0xFF"
      "crc_byte ?b 8 3 = 0xFF"
      by (simp_all add: crc_byte_def crc_sum.simps le16_def)
    then show "Some (map (crc_byte (last [0, 0, 0, 0, 0, 0, 0, y] # butlast [0, 0, 0, 0, 0, 0, 0, y]
        @ replicate 4 0) (length [0, 0, 0, 0, 0, 0, 0, y])) [0, 1, 2, 3]) =
      Some [0xFF, 0xFF, 0xFF, 0xFF]"
      by (simp add: numeral_eq_Suc)
  qed simp
  moreover have l: "length [0, 0, 0, 0, 0, 0, 0, y] = 8" for y :: u8 by simp
  ultimately have "EepromCRC [0, 0, 0, 0, 0, 0, 0, y] 8 = Some [0xFF, 0xFF, 0xFF, 0xFF]" for y :: u8
    unfolding l append_Nil2 by blast
  then show ?thesis by (simp only:)
qed


section \<open>The image and the chip\<close>

text \<open>The part of the image that starts at \<open>off\<close>, in the image and in the chip.\<close>

definition chip_bytes :: "(u8 \<Rightarrow> u8 \<Rightarrow> u8) \<Rightarrow> nat \<Rightarrow> nat \<Rightarrow> bytes" where
  "chip_bytes ch off len = map (\<lambda>i. ch 0x54 (of_nat i)) [off..<off + len]"

context smbus
begin

lemma read_eeprom:
  assumes "ready d"
  shows "\<exists>d'. read_eeprom_from io n is d = Some (map (\<lambda>i. chip d 0x54 (of_nat i)) is, d')
    \<and> ready d' \<and> chip d' = chip d"
  using assms
proof (induction "is" arbitrary: d)
  case (Cons i "is")
  obtain d1 where 1: "I2CTransmitByteGetReturn io n 0x54 (of_nat i) d = Some (ucast (chip d 0x54 (of_nat i)), d1)"
    "ready d1" "chip d1 = chip d"
    by (rule get_return [OF Cons.prems, of "0x54"]) simp
  have "(ucast (ucast (w :: u8) :: u32) :: u8) = w" for w by (rule bit_word_eqI) (simp add: bit_simps)
  with Cons.IH [OF 1(2)] 1 show ?case by auto
qed simp

lemma write_eeprom_ok:
  assumes "ready d" and "sz = 0 \<or> sz = 1"
  shows "\<exists>d'. write_eeprom io n sz ws d = Some d' \<and> ready d'
    \<and> chip d' = (chip d)(0x54 := foldl (\<lambda>m (r, v). m(r := v)) (chip d 0x54) ws)"
  using assms(1)
proof (induction ws arbitrary: d)
  case (Cons w ws)
  obtain r v where w: "w = (r, v)" by force
  have "\<exists>d1. WriteToSMBus io n 0x54 r sz (ucast v) d = Some (ERR_SUCCESS, d1) \<and> ready d1
      \<and> chip d1 = (chip d)(0x54 := (chip d 0x54)(r := ucast (ucast v :: u32)))"
    using write_byte [OF Cons.prems, of "0x54" r "ucast v"] assms(2) by (auto simp: write_byte_0)
  then obtain d1 where 1: "WriteToSMBus io n 0x54 r sz (ucast v) d = Some (ERR_SUCCESS, d1)"
    "ready d1" "chip d1 = (chip d)(0x54 := (chip d 0x54)(r := ucast (ucast v :: u32)))"
    by blast
  have "(ucast (ucast v :: u32) :: u8) = v" by (rule bit_word_eqI) (simp add: bit_simps)
  moreover obtain d' where 2: "write_eeprom io n sz ws d1 = Some d'" "ready d'"
    "chip d' = (chip d1)(0x54 := foldl (\<lambda>m (r, v). m(r := v)) (chip d1 0x54) ws)"
    using Cons.IH [OF 1(2)] by blast
  ultimately have "chip d' = (chip d)(0x54 := foldl (\<lambda>m (r, v). m(r := v)) (chip d 0x54) (w # ws))"
    unfolding 2(3) 1(3) by (simp add: w)
  moreover have "write_eeprom io n sz (w # ws) d = Some d'" using 1 2 by (simp add: w write_eeprom.simps)
  ultimately show ?case using 2(2) by blast
qed simp

end

text \<open>On any bus that stores bytes, reading the EEPROM returns the 256 registers of the chip at
  0x54 and changes none.\<close>

lemma BootEepromReadEntireEEPROM_image:
  assumes "smbus io n chip ready" and "ready d"
  shows "\<exists>d'. BootEepromReadEntireEEPROM io n d = Some (chip_bytes (chip d) 0 256, d')
    \<and> ready d' \<and> chip d' = chip d"
  using smbus.read_eeprom [OF assms, of "[0..<256]"]
  by (simp add: BootEepromReadEntireEEPROM_def chip_bytes_def del: upt_rec_numeral)

lemma BootEepromReadEntireEEPROM_image_witness:
  "\<exists>d. BootEepromReadEntireEEPROM smb_ports 4 (blank_smb 0) =
      Some (chip_bytes (s_chip (blank_smb 0)) 0 256, d)"
  using BootEepromReadEntireEEPROM_image [OF smb.smbus_axioms, of 4 "blank_smb 0"]
  by (auto simp: smb_ready_def blank_smb_def)


lemma EepromCRC_take:
  assumes "0 < n" and "n \<le> length data"
  shows "EepromCRC data n = EepromCRC (take n data) n" and "\<exists>s. EepromCRC data n = Some s"
proof -
  let ?a = "take n data"
  have a: "length ?a = n" "?a \<noteq> []" using assms by auto
  have "EepromCRC (?a @ drop n data) n = EepromCRC (?a @ []) n"
    using EepromCRC_eq [OF a(2), of "drop n data"] EepromCRC_eq [OF a(2), of "[]"]
    unfolding a(1) by simp
  then show "EepromCRC data n = EepromCRC ?a n" by simp
  show "\<exists>s. EepromCRC data n = Some s"
    using EepromCRC_eq [OF a(2), of "drop n data"] unfolding a(1) by simp
qed

lemma of_nat_u8_eq: "i < 256 \<Longrightarrow> j < 256 \<Longrightarrow> (of_nat i :: u8) = of_nat j \<longleftrightarrow> i = j"
proof -
  have "unat (of_nat k :: u8) = k" if "k < 256" for k
    using that by (simp add: unat_of_nat take_bit_nat_eq_self)
  then show "i < 256 \<Longrightarrow> j < 256 \<Longrightarrow> ?thesis" by metis
qed

lemma put_bytes_one: "i < length b \<Longrightarrow> put_bytes b i [v] = Some (b[i := v])"
  by (simp add: put_bytes_def upd_conv_take_nth_drop)

lemma length_4_cases: "length s = 4 \<Longrightarrow> s = [s ! 0, s ! 1, s ! 2, s ! 3]"
  by (auto simp: numeral_eq_Suc length_Suc_conv)

lemma chip_area:
  assumes "\<And>i. off \<le> i \<Longrightarrow> i < off + len \<Longrightarrow> ch 0x54 (of_nat i) = img ! i" and "off + len \<le> length img"
  shows "take len (drop off img) = chip_bytes ch off len"
proof (rule nth_equalityI)
  fix i assume "i < length (take len (drop off img))"
  then show "take len (drop off img) ! i = chip_bytes ch off len ! i"
    using assms(1) [of "off + i"] assms(2) by (simp add: chip_bytes_def)
qed (use assms(2) in \<open>simp add: chip_bytes_def\<close>)

lemma chip_bytes_4: "chip_bytes ch off 4 =
  [ch 0x54 (of_nat off), ch 0x54 (of_nat off + 1), ch 0x54 (of_nat off + 2), ch 0x54 (of_nat off + 3)]"
proof -
  have "[off..<off + 4] = [off, off + 1, off + 2, off + 3]"
    by (simp add: upt_rec numeral_eq_Suc)
  then show ?thesis by (simp add: chip_bytes_def add.commute)
qed

text \<open>On any bus that stores bytes, \<open>EepromSetWidescreen\<close> sets the widescreen flag in the
  image and in the chip and stores in the chip's \<open>Checksum3\<close> the checksum of the image; when
  image and chip agreed on the settings area, the chip's checksum is then valid for the chip's
  own data.\<close>

lemma EepromSetWidescreen_effect:
  assumes "smbus io n chip ready" and "ready d" and "length img = 256"
    and "\<forall>i \<in> {0x64..<0xBF}. img ! i = chip d 0x54 (of_nat i)"
  shows "\<exists>img' d'. EepromSetWidescreen io n enable img d = Some (img', d')
    \<and> img' = img[0x96 := (if enable \<noteq> 0 then 1 else 0)]
    \<and> chip d' 0x54 0x96 = (if enable \<noteq> 0 then 1 else 0)
    \<and> EepromCRC (chip_bytes (chip d') 0x64 0x5b) 0x5b = Some (chip_bytes (chip d') 0x60 4)"
proof -
  define flag where "flag = (if enable \<noteq> 0 then 1 else 0 :: u8)"
  define img' where "img' = img[0x96 := flag]"
  have len: "length img' = 256" using assms(3) by (simp add: img'_def)
  obtain s where s: "EepromCRC (drop 0x64 img') 0x5b = Some s"
    using EepromCRC_take(2) [of "0x5b" "drop 0x64 img'"] len by auto
  from smbus.write_eeprom_ok [OF assms(1,2), of 0 "[(0x96, flag)]"] obtain d1 where
    1: "write_eeprom io n 0 [(0x96, flag)] d = Some d1" "ready d1"
      "chip d1 = (chip d)(0x54 := (chip d 0x54)(0x96 := flag))" by auto
  let ?ws = "[(0x60, s ! 0), (0x61, s ! 1), (0x62, s ! 2), (0x63, s ! 3)] :: (u8 \<times> u8) list"
  from smbus.write_eeprom_ok [OF assms(1) 1(2), of 1 ?ws] obtain d2 where
    2: "write_eeprom io n 1 ?ws d1 = Some d2" "ready d2"
      "chip d2 = (chip d1)(0x54 := (chip d1 0x54)(0x60 := s ! 0, 0x61 := s ! 1, 0x62 := s ! 2, 0x63 := s ! 3))"
    by auto
  have reg: "chip d2 0x54 (of_nat i) = img' ! i" if "i \<in> {0x64..<0xBF}" for i
    using that assms(3,4) of_nat_u8_eq [of i "0x60"] of_nat_u8_eq [of i "0x61"] of_nat_u8_eq [of i "0x62"]
      of_nat_u8_eq [of i "0x63"] of_nat_u8_eq [of i "0x96"]
    by (auto simp: 1(3) 2(3) img'_def nth_list_update)
  have area: "take 0x5b (drop 0x64 img') = chip_bytes (chip d2) 0x64 0x5b"
    by (rule chip_area) (use reg len in auto)
  have "chip_bytes (chip d2) 0x60 4 = [s ! 0, s ! 1, s ! 2, s ! 3]"
    by (simp add: chip_bytes_4 2(3))
  then have "chip_bytes (chip d2) 0x60 4 = s"
    using length_4_cases [OF EepromCRC_length [OF s]] by simp
  moreover have "EepromCRC (chip_bytes (chip d2) 0x64 0x5b) 0x5b = Some s"
    using EepromCRC_take(1) [of "0x5b" "drop 0x64 img'"] len s by (simp add: area)
  moreover have "EepromSetWidescreen io n enable img d = Some (img', d2)"
    using 1(1) 2(1) s assms(3)
    by (simp add: EepromSetWidescreen_def Let_def put_bytes_one flip: flag_def img'_def)
  moreover have "chip d2 0x54 0x96 = flag" by (simp add: 1(3) 2(3))
  ultimately show ?thesis by (auto simp: img'_def flag_def)
qed

lemma EepromSetWidescreen_effect_witness:
  "\<exists>img' d'. EepromSetWidescreen smb_ports 4 1 (replicate 256 0) (blank_smb 0) = Some (img', d')
    \<and> EepromCRC (chip_bytes (s_chip d') 0x64 0x5b) 0x5b = Some (chip_bytes (s_chip d') 0x60 4)"
  using EepromSetWidescreen_effect [OF smb.smbus_axioms, of 4 "blank_smb 0" "replicate 256 0" 1]
  by (auto simp: smb_ready_def blank_smb_def)

text \<open>On any bus that stores bytes, \<open>EepromSetVideoStandard\<close> stores the four bytes of the
  standard, lowest first, in the image and in the chip, and leaves in the chip's \<open>Checksum2\<close> the
  checksum that is valid for the chip's factory area, when image and chip agreed there before.\<close>

lemma EepromSetVideoStandard_effect:
  assumes "smbus io n chip ready" and "ready d" and "length img = 256"
    and "\<forall>i \<in> {0x34..<0x5C}. img ! i = chip d 0x54 (of_nat i)"
  shows "\<exists>img' d'. EepromSetVideoStandard io n std img d = Some (img', d')
    \<and> slice 0x58 4 img' = le32_bytes std \<and> chip_bytes (chip d') 0x58 4 = le32_bytes std
    \<and> EepromCRC (chip_bytes (chip d') 0x34 0x28) 0x28 = Some (chip_bytes (chip d') 0x30 4)"
proof -
  define img' where "img' = take 0x58 img @ le32_bytes std @ drop 0x5c img"
  have len: "length img' = 256" using assms(3) by (simp add: img'_def)
  have put: "put_bytes img 0x58 (le32_bytes std) = Some img'"
    using assms(3) by (simp add: put_bytes_def img'_def)
  obtain s where s: "EepromCRC (drop 0x34 img') 0x28 = Some s"
    using EepromCRC_take(2) [of "0x28" "drop 0x34 img'"] len by auto
  let ?b = "\<lambda>k. ucast (drop_bit k std) :: u8"
  let ?vs = "[(0x58, ucast std), (0x59, ?b 8), (0x5a, ?b 16), (0x5b, ?b 24)] :: (u8 \<times> u8) list"
  from smbus.write_eeprom_ok [OF assms(1,2), of 1 ?vs] obtain d1 where
    1: "write_eeprom io n 1 ?vs d = Some d1" "ready d1"
      "chip d1 = (chip d)(0x54 := (chip d 0x54)(0x58 := ucast std, 0x59 := ?b 8, 0x5a := ?b 16, 0x5b := ?b 24))"
    by auto
  let ?ws = "[(0x30, s ! 0), (0x31, s ! 1), (0x32, s ! 2), (0x33, s ! 3)] :: (u8 \<times> u8) list"
  from smbus.write_eeprom_ok [OF assms(1) 1(2), of 0 ?ws] obtain d2 where
    2: "write_eeprom io n 0 ?ws d1 = Some d2" "ready d2"
      "chip d2 = (chip d1)(0x54 := (chip d1 0x54)(0x30 := s ! 0, 0x31 := s ! 1, 0x32 := s ! 2, 0x33 := s ! 3))"
    by auto
  have reg: "chip d2 0x54 (of_nat i) = img' ! i" if "0x34 \<le> i" "i < 0x5C" for i
  proof (cases "i < 0x58")
    case True
    then show ?thesis
      using that assms(3,4) of_nat_u8_eq [of i "0x30"] of_nat_u8_eq [of i "0x31"]
        of_nat_u8_eq [of i "0x32"] of_nat_u8_eq [of i "0x33"] of_nat_u8_eq [of i "0x58"]
        of_nat_u8_eq [of i "0x59"] of_nat_u8_eq [of i "0x5a"] of_nat_u8_eq [of i "0x5b"]
      by (auto simp: 1(3) 2(3) img'_def nth_append)
  next
    case False
    with that(2) consider "i = 0x58" | "i = 0x59" | "i = 0x5a" | "i = 0x5b" by linarith
    then show ?thesis
      by cases (use assms(3) in \<open>simp_all add: 1(3) 2(3) img'_def nth_append le32_bytes_def\<close>)
  qed
  have area: "take 0x28 (drop 0x34 img') = chip_bytes (chip d2) 0x34 0x28"
    by (rule chip_area) (use reg len in auto)
  have "chip_bytes (chip d2) 0x30 4 = [s ! 0, s ! 1, s ! 2, s ! 3]"
    by (simp add: chip_bytes_4 2(3))
  then have "chip_bytes (chip d2) 0x30 4 = s"
    using length_4_cases [OF EepromCRC_length [OF s]] by simp
  moreover have "EepromCRC (chip_bytes (chip d2) 0x34 0x28) 0x28 = Some s"
    using EepromCRC_take(1) [of "0x28" "drop 0x34 img'"] len s by (simp add: area)
  moreover have "chip_bytes (chip d2) 0x58 4 = le32_bytes std"
    by (simp add: chip_bytes_4 1(3) 2(3) le32_bytes_def)
  moreover have "EepromSetVideoStandard io n std img d = Some (img', d2)"
    using 1(1) 2(1) s put by (simp add: EepromSetVideoStandard_def)
  moreover have "slice 0x58 4 img' = le32_bytes std"
    using assms(3) by (simp add: slice_def img'_def)
  ultimately show ?thesis by auto
qed

lemma EepromSetVideoStandard_effect_witness:
  "\<exists>img' d'. EepromSetVideoStandard smb_ports 4 0x00800300 (replicate 256 0) (blank_smb 7) = Some (img', d')
    \<and> chip_bytes (s_chip d') 0x58 4 = [0x00, 0x03, 0x80, 0x00]
    \<and> EepromCRC (chip_bytes (s_chip d') 0x34 0x28) 0x28 = Some (chip_bytes (s_chip d') 0x30 4)"
  using EepromSetVideoStandard_effect [OF smb.smbus_axioms, of 4 "blank_smb 7" "replicate 256 0" "0x00800300"]
  by (auto simp: smb_ready_def blank_smb_def le32_bytes_def)

end
