(* ===== verification/Fatx.thy ===== *)
theory Fatx
  imports CString
begin

text \<open>
  The FATX file system of the Xbox disk, \<open>fs/fatx/BootFATX.c\<close>: raw reads, the cluster chain map,
  directory search along a path, directory listing, and loading of files.

  The sector reader \<open>BootIdeReadSector\<close> is the argument \<open>rd\<close>: it is given the drive, the block,
  the byte offset and the present contents of the destination, and returns the error code and
  the new contents. The contents of a local array before it is written is the argument \<open>stk\<close>.
  A walk along a cluster chain visits at most \<open>n\<close> clusters; \<open>None\<close> says that it has no defined
  end (a cyclic chain) or leaves an object (a cluster number outside the chain map).

  Messages on the screen are left out. The heap objects of this component are buffers of their
  own.
\<close>

type_synonym 'd reader = "u32 \<Rightarrow> u32 \<Rightarrow> nat \<Rightarrow> bytes \<Rightarrow> 'd \<Rightarrow> (u32 \<times> bytes \<times> 'd) option"

record FATXPartition =
  nDriveIndex :: u32
  partitionStart :: u64
  partitionSize :: u64
  clusterSize :: nat
  clusterCount :: u32
  chainMapEntrySize :: u32
  clusterChainMap :: bytes
  cluster1Address :: u64

text \<open>The file name field is the 42 characters and the two bytes of padding behind them.\<close>

record FATXFILEINFO =
  fi_filename :: bytes
  fi_clusterId :: u32
  fi_fileSize :: u32
  fi_fileRead :: u32
  fi_buffer :: bytes

abbreviation (input) "FATX_PARTITION_HEADERSIZE \<equiv> 0x1000 :: nat"
abbreviation (input) "FATX_PARTITION_MAGIC \<equiv> 0x58544146 :: u32"
abbreviation (input) "FATX_CHAINTABLE_BLOCKSIZE \<equiv> 4096 :: u32"
abbreviation (input) "FATX_ROOT_FAT_CLUSTER \<equiv> 1 :: u32"
abbreviation (input) "FATX_DIRECTORYENTRY_SIZE \<equiv> 0x40 :: nat"
abbreviation (input) "FATX_FILEATTR_DIRECTORY \<equiv> 0x10 :: u8"
abbreviation (input) "FATX_FILENAME_MAX \<equiv> 42 :: nat"

section \<open>Raw reads\<close>

text \<open>The loop of \<open>FATXRawRead\<close> once the offset is a multiple of the sector size: \<open>len\<close> bytes are
  left and \<open>done\<close> bytes have been read.\<close>

function raw_loop ::
  "'d reader \<Rightarrow> u32 \<Rightarrow> u32 \<Rightarrow> nat \<Rightarrow> nat \<Rightarrow> bytes \<Rightarrow> 'd \<Rightarrow> (nat \<times> bytes \<times> 'd) option" where
  "raw_loop rd drive sector len pos buf d =
     (if len = 0 then Some (pos, buf, d)
      else if length buf < pos + min 512 len then None
      else (case rd drive sector 0 (slice pos (min 512 len) buf) d of
              None \<Rightarrow> None
            | Some (e, new, d) \<Rightarrow>
                let buf = take pos buf @ new @ drop (pos + min 512 len) buf
                in if e \<noteq> 0 then Some (0, buf, d)
                   else raw_loop rd drive (sector + 1) (len - min 512 len) (pos + min 512 len) buf d))"
  by pat_completeness auto
termination by (relation "measure (\<lambda>(rd, drive, sector, len, pos, buf, d). len)") auto

declare raw_loop.simps [simp del]

text \<open>With an offset inside a sector, the bytes handed out come from a local array that nothing
  has written: no defined result, unless the read fails.\<close>

definition FATXRawRead ::
  "'d reader \<Rightarrow> u32 \<Rightarrow> u32 \<Rightarrow> u64 \<Rightarrow> nat \<Rightarrow> bytes \<Rightarrow> 'd \<Rightarrow> (nat \<times> bytes \<times> 'd) option" where
  "FATXRawRead rd drive sector byte_offset byte_len buf d =
     (let sector = sector + ucast (byte_offset div 512);
          byte_offset = byte_offset mod 512
      in if byte_len \<noteq> 0 \<and> byte_offset \<noteq> 0
         then (case rd drive sector 0 (slice 0 512 buf) d of
                 None \<Rightarrow> None
               | Some (e, new, d) \<Rightarrow>
                   if e \<noteq> 0 \<and> 512 \<le> length buf then Some (0, new @ drop 512 buf, d) else None)
         else raw_loop rd drive sector byte_len 0 buf d)"

section \<open>Clusters and chains\<close>

definition LoadFATXCluster ::
  "'d reader \<Rightarrow> FATXPartition \<Rightarrow> u32 \<Rightarrow> bytes \<Rightarrow> 'd \<Rightarrow> (bytes \<times> 'd) option" where
  "LoadFATXCluster rd p clusterId clusterData d =
     (let clusterAddress = cluster1Address p + scast (clusterId - 1) * of_nat (clusterSize p)
      in case FATXRawRead rd (nDriveIndex p) (ucast (partitionStart p)) clusterAddress
                (clusterSize p) clusterData d of
           None \<Rightarrow> None
         | Some (readSize, clusterData, d) \<Rightarrow> Some (clusterData, d))"

text \<open>An index below 0 is outside the map; \<open>-1\<close> ends the chain.\<close>

definition getNextClusterInChain :: "FATXPartition \<Rightarrow> u32 \<Rightarrow> u32 option" where
  "getNextClusterInChain p clusterId =
     (if chainMapEntrySize p = 2 then
        (if clusterId <s 0 then None
         else case le16_at (clusterChainMap p) (2 * unat clusterId) of
                None \<Rightarrow> None
              | Some w \<Rightarrow> let next = ucast w in Some (if next = 0xffff \<or> next = 0xfff8 then - 1 else next))
      else if chainMapEntrySize p = 4 then
        (if clusterId <s 0 then None
         else case le32_at (clusterChainMap p) (4 * unat clusterId) of
                None \<Rightarrow> None
              | Some next \<Rightarrow> Some (if next = 0xffffffff \<or> next = 0xfffffff8 then - 1 else next))
      else Some (- 1))"

section \<open>Directory entries\<close>

definition checkForLastDirectoryEntry :: "bytes \<Rightarrow> bool" where
  "checkForLastDirectoryEntry e \<longleftrightarrow> e ! 0 = 0xff \<or> e ! 0 = 0"

definition entries :: "nat \<Rightarrow> bytes \<Rightarrow> bytes list" where
  "entries sz clusterData =
     map (\<lambda>i. slice (i * FATX_DIRECTORYENTRY_SIZE) FATX_DIRECTORYENTRY_SIZE clusterData)
       [0..<sz div FATX_DIRECTORYENTRY_SIZE]"

definition name_size :: "bytes \<Rightarrow> nat" where "name_size e = unat (e ! 0)"
definition is_deleted :: "bytes \<Rightarrow> bool" where "is_deleted e \<longleftrightarrow> e ! 0 = 0xE5"
definition valid_size :: "bytes \<Rightarrow> bool" where
  "valid_size e \<longleftrightarrow> 1 \<le> name_size e \<and> name_size e \<le> FATX_FILENAME_MAX"

definition entry_flags :: "bytes \<Rightarrow> u8" where "entry_flags e = e ! 1"
definition entry_cluster :: "bytes \<Rightarrow> u32" where
  "entry_cluster e = le32 (e ! 0x2c) (e ! 0x2d) (e ! 0x2e) (e ! 0x2f)"
definition entry_fileSize :: "bytes \<Rightarrow> u32" where
  "entry_fileSize e = le32 (e ! 0x30) (e ! 0x31) (e ! 0x32) (e ! 0x33)"

text \<open>\<open>foundFilename\<close>: 50 zero bytes with the name copied over them.\<close>

definition foundFilename :: "bytes \<Rightarrow> bytes option" where
  "foundFilename e = do {
     b \<leftarrow> memcpy (replicate 50 0) (drop 2 e) (name_size e);
     put_bytes b (name_size e) [0]
   }"

definition same_name :: "bytes \<Rightarrow> bytes \<Rightarrow> bool option" where
  "same_name found seek = do {
     l1 \<leftarrow> strlen seek;
     l2 \<leftarrow> strlen found;
     if l1 \<noteq> l2 then Some False
     else do { c \<leftarrow> u_strncasecmp found seek (of_nat l1); Some (c = 0) }
   }"

section \<open>Searching a directory\<close>

text \<open>What the scan of one cluster decides: a result, the end of the directory, or go on with the
  next cluster of the chain.\<close>

datatype 'r scan = Found 'r | End_of_directory | Next_cluster

datatype hit = Fail | Dir u32 | File u32 u32

fun find_scan :: "bytes \<Rightarrow> bool \<Rightarrow> bytes list \<Rightarrow> hit scan option" where
  "find_scan seek lookForDirectory [] = Some Next_cluster"
| "find_scan seek lookForDirectory (e # es) =
     (if checkForLastDirectoryEntry e then Some End_of_directory
      else if is_deleted e then find_scan seek lookForDirectory es
      else if \<not> valid_size e then Some (Found Fail)
      else do {
        found \<leftarrow> foundFilename e;
        same \<leftarrow> same_name found seek;
        if same then
          Some (Found
            (if lookForDirectory
             then (if entry_flags e AND FATX_FILEATTR_DIRECTORY \<noteq> 0 then Dir (entry_cluster e) else Fail)
             else (if entry_flags e AND FATX_FILEATTR_DIRECTORY = 0
                   then File (entry_cluster e) (entry_fileSize e) else Fail)))
        else find_scan seek lookForDirectory es
      })"

fun find_chain ::
  "'d reader \<Rightarrow> FATXPartition \<Rightarrow> nat \<Rightarrow> bytes \<Rightarrow> bool \<Rightarrow> u32 \<Rightarrow> bytes \<Rightarrow> 'd \<Rightarrow> (hit \<times> 'd) option" where
  "find_chain rd p 0 seek dir clusterId clusterData d = None"
| "find_chain rd p (Suc n) seek dir clusterId clusterData d =
     (if clusterId = - 1 then Some (Fail, d)
      else do {
        (clusterData, d) \<leftarrow> LoadFATXCluster rd p clusterId clusterData d;
        r \<leftarrow> find_scan seek dir (entries (clusterSize p) clusterData);
        (case r of
           Found h \<Rightarrow> Some (h, d)
         | End_of_directory \<Rightarrow> Some (Fail, d)
         | Next_cluster \<Rightarrow> do {
             next \<leftarrow> getNextClusterInChain p clusterId;
             find_chain rd p n seek dir next clusterData d }) })"

text \<open>\<open>_FATXFindFile\<close>. The recursion is on the path, which gets shorter with every directory; the
  first argument bounds it and the length of the path is enough.\<close>

fun u_FATXFindFile ::
  "nat \<Rightarrow> 'd reader \<Rightarrow> FATXPartition \<Rightarrow> nat \<Rightarrow> bytes \<Rightarrow> bytes \<Rightarrow> u32 \<Rightarrow> FATXFILEINFO \<Rightarrow> 'd
     \<Rightarrow> (bool \<times> FATXFILEINFO \<times> 'd) option" where
  "u_FATXFindFile 0 rd p n stk filename clusterId fileinfo d = None"
| "u_FATXFindFile (Suc depth) rd p n stk filename clusterId fileinfo d = do {
     slashPos \<leftarrow> strrchr0 filename 0x2f;
     (case slashPos of
        None \<Rightarrow> do {
          l \<leftarrow> strlen filename;
          if l > FATX_FILENAME_MAX then Some (False, fileinfo, d)
          else do {
            seek \<leftarrow> strcpy (replicate 50 0) filename;
            (h, d) \<leftarrow> find_chain rd p n seek False clusterId stk d;
            (case h of
               File c s \<Rightarrow> do {
                 nm \<leftarrow> strcpy (replicate 42 0 @ drop 42 (fi_filename fileinfo)) filename;
                 Some (True, fileinfo\<lparr>fi_clusterId := c, fi_fileSize := s, fi_filename := nm\<rparr>, d) }
             | _ \<Rightarrow> Some (False, fileinfo, d)) } }
      | Some q \<Rightarrow>
          if q > FATX_FILENAME_MAX then Some (False, fileinfo, d)
          else do {
            b \<leftarrow> memcpy (replicate 50 0) filename q;
            seek \<leftarrow> put_bytes b q [0];
            (h, d) \<leftarrow> find_chain rd p n seek True clusterId stk d;
            (case h of
               Dir c \<Rightarrow> u_FATXFindFile depth rd p n stk (drop (q + 1) filename) c fileinfo d
             | _ \<Rightarrow> Some (False, fileinfo, d)) })
   }"

text \<open>\<open>FATXFindFile\<close> converts the caller's string in place: the new contents is part of the result.\<close>

fun convert_slashes :: "bytes \<Rightarrow> bytes option" where
  "convert_slashes [] = None"
| "convert_slashes (c # s) =
     (if c = 0 then Some (c # s)
      else map_option ((#) (if c = 0x5c then 0x2f else c)) (convert_slashes s))"

definition skip_slashes :: "bytes \<Rightarrow> bytes" where
  "skip_slashes = dropWhile (\<lambda>c. c = 0x2f)"

definition FATXFindFile ::
  "'d reader \<Rightarrow> FATXPartition \<Rightarrow> nat \<Rightarrow> bytes \<Rightarrow> bytes \<Rightarrow> u32 \<Rightarrow> FATXFILEINFO \<Rightarrow> 'd
     \<Rightarrow> (bool \<times> bytes \<times> FATXFILEINFO \<times> 'd) option" where
  "FATXFindFile rd p n stk filename clusterId fileinfo d = do {
     filename \<leftarrow> convert_slashes filename;
     let path = skip_slashes filename;
     (ok, fileinfo, d) \<leftarrow> u_FATXFindFile (length path + 1) rd p n stk path clusterId fileinfo d;
     Some (ok, filename, fileinfo, d)
   }"

section \<open>Loading\<close>

text \<open>The loop of \<open>FATXLoadFromDisk\<close>: \<open>fileSize\<close> bytes are missing, \<open>written\<close> ones are in the buffer.\<close>

fun load_chain ::
  "'d reader \<Rightarrow> FATXPartition \<Rightarrow> nat \<Rightarrow> u32 \<Rightarrow> u32 \<Rightarrow> u32 \<Rightarrow> bytes \<Rightarrow> bytes \<Rightarrow> 'd
     \<Rightarrow> (u32 \<times> u32 \<times> bytes \<times> 'd) option" where
  "load_chain rd p 0 clusterId fileSize fileRead ptr clusterData d = None"
| "load_chain rd p (Suc n) clusterId fileSize fileRead ptr clusterData d =
     (if clusterId = - 1 then Some (fileSize, fileRead, ptr, d)
      else do {
        (clusterData, d) \<leftarrow> LoadFATXCluster rd p clusterId clusterData d;
        let written = (if unat fileSize \<le> clusterSize p then fileSize else of_nat (clusterSize p));
        ptr \<leftarrow> put_bytes ptr (unat fileRead) (take (unat written) clusterData);
        next \<leftarrow> getNextClusterInChain p clusterId;
        load_chain rd p n next (fileSize - written) (fileRead + written) ptr clusterData d
      })"

definition FATXLoadFromDisk ::
  "'d reader \<Rightarrow> FATXPartition \<Rightarrow> nat \<Rightarrow> bytes \<Rightarrow> FATXFILEINFO \<Rightarrow> 'd \<Rightarrow> (bool \<times> FATXFILEINFO \<times> 'd) option" where
  "FATXLoadFromDisk rd p n stk fileinfo d = do {
     (left, got, buf, d) \<leftarrow> load_chain rd p n (fi_clusterId fileinfo) (fi_fileSize fileinfo) 0 (fi_buffer fileinfo) stk d;
     Some (left = 0, fileinfo\<lparr>fi_fileRead := got, fi_buffer := buf\<rparr>, d)
   }"

text \<open>The buffer of \<open>LoadFATXFile\<close> comes from \<open>malloc\<close> and is cleared; that of \<open>LoadFATXFilefixed\<close>
  is the memory at a fixed address, filled with ones.\<close>

definition LoadFATXFile ::
  "'d reader \<Rightarrow> FATXPartition option \<Rightarrow> nat \<Rightarrow> bytes \<Rightarrow> bytes \<Rightarrow> FATXFILEINFO \<Rightarrow> 'd
     \<Rightarrow> (bool \<times> FATXFILEINFO \<times> 'd) option" where
  "LoadFATXFile rd part n stk filename fileinfo d =
     (case part of
        None \<Rightarrow> Some (False, fileinfo, d)
      | Some p \<Rightarrow> do {
          (ok, filename, fileinfo, d) \<leftarrow> FATXFindFile rd p n stk filename FATX_ROOT_FAT_CLUSTER fileinfo d;
          if ok
          then FATXLoadFromDisk rd p n stk
                 (fileinfo\<lparr>fi_buffer := replicate (unat (fi_fileSize fileinfo)) 0\<rparr>) d
          else Some (False, fileinfo, d) })"

definition LoadFATXFilefixed ::
  "'d reader \<Rightarrow> FATXPartition option \<Rightarrow> nat \<Rightarrow> bytes \<Rightarrow> bytes \<Rightarrow> FATXFILEINFO \<Rightarrow> bytes \<Rightarrow> 'd
     \<Rightarrow> (bool \<times> FATXFILEINFO \<times> 'd) option" where
  "LoadFATXFilefixed rd part n stk filename fileinfo Position d =
     (case part of
        None \<Rightarrow> Some (False, fileinfo, d)
      | Some p \<Rightarrow> do {
          (ok, filename, fileinfo, d) \<leftarrow> FATXFindFile rd p n stk filename FATX_ROOT_FAT_CLUSTER fileinfo d;
          if ok
          then do {
            buf \<leftarrow> memset Position 0xff (unat (fi_fileSize fileinfo));
            FATXLoadFromDisk rd p n stk (fileinfo\<lparr>fi_buffer := buf\<rparr>) d }
          else Some (False, fileinfo, d) })"

section \<open>Listing directories\<close>

text \<open>\<open>res\<close> holds the strings handed out so far; each is allocated in its exact size. Storing at
  index \<open>reslen\<close> is outside the caller's array.\<close>

fun list_scan :: "nat \<Rightarrow> bytes \<Rightarrow> bytes list \<Rightarrow> bytes list \<Rightarrow> (bytes list \<times> bool) option" where
  "list_scan reslen prefix [] res = Some (res, False)"
| "list_scan reslen prefix (e # es) res =
     (if checkForLastDirectoryEntry e then Some (res, True)
      else if is_deleted e then list_scan reslen prefix es res
      else if \<not> valid_size e then list_scan reslen prefix es res
      else if reslen \<le> length res then None
      else do {
        l \<leftarrow> strlen prefix;
        let res = res @ [take l prefix @ take (name_size e) (drop 2 e) @ [0]];
        if length res \<ge> reslen then Some (res, True) else list_scan reslen prefix es res
      })"

fun FATXListDir ::
  "'d reader \<Rightarrow> FATXPartition \<Rightarrow> nat \<Rightarrow> bytes \<Rightarrow> u32 \<Rightarrow> nat \<Rightarrow> bytes \<Rightarrow> bytes list \<Rightarrow> 'd
     \<Rightarrow> (bytes list \<times> 'd) option" where
  "FATXListDir rd p 0 clusterData clusterId reslen prefix res d = None"
| "FATXListDir rd p (Suc n) clusterData clusterId reslen prefix res d =
     (if clusterId = - 1 then Some (res, d)
      else do {
        (clusterData, d) \<leftarrow> LoadFATXCluster rd p clusterId clusterData d;
        (res, stop) \<leftarrow> list_scan reslen prefix (entries (clusterSize p) clusterData) res;
        if stop then Some (res, d)
        else do {
          next \<leftarrow> getNextClusterInChain p clusterId;
          FATXListDir rd p n clusterData next reslen prefix res d }
      })"

text \<open>\<open>FATXFindDir\<close> leaves without a value (\<open>None\<close> inside) at the end of the directory: the
  \<open>return\<close> has no operand there and the end of the body has no \<open>return\<close>.\<close>

fun dir_scan :: "bytes \<Rightarrow> bytes list \<Rightarrow> u32 option scan option" where
  "dir_scan dir [] = Some Next_cluster"
| "dir_scan dir (e # es) =
     (if checkForLastDirectoryEntry e then Some End_of_directory
      else if is_deleted e then dir_scan dir es
      else if \<not> valid_size e then dir_scan dir es
      else do {
        found \<leftarrow> foundFilename e;
        same \<leftarrow> same_name found dir;
        if same then
          Some (Found (Some (if entry_flags e AND FATX_FILEATTR_DIRECTORY \<noteq> 0 then entry_cluster e else - 1)))
        else dir_scan dir es
      })"

fun FATXFindDir ::
  "'d reader \<Rightarrow> FATXPartition \<Rightarrow> nat \<Rightarrow> bytes \<Rightarrow> u32 \<Rightarrow> bytes \<Rightarrow> 'd \<Rightarrow> (u32 option \<times> 'd) option" where
  "FATXFindDir rd p 0 clusterData clusterId dir d = None"
| "FATXFindDir rd p (Suc n) clusterData clusterId dir d =
     (if clusterId = - 1 then Some (None, d)
      else do {
        (clusterData, d) \<leftarrow> LoadFATXCluster rd p clusterId clusterData d;
        r \<leftarrow> dir_scan dir (entries (clusterSize p) clusterData);
        (case r of
           Found v \<Rightarrow> Some (v, d)
         | End_of_directory \<Rightarrow> Some (None, d)
         | Next_cluster \<Rightarrow> do {
             next \<leftarrow> getNextClusterInChain p clusterId;
             FATXFindDir rd p n clusterData next dir d })
      })"

text \<open>One line of \<open>_DumpFATXTree\<close>: the name buffer, the flag string, the size and the cluster. An
  entry with a bad size is reported but not skipped.\<close>

definition flagsStr :: "u8 \<Rightarrow> bytes" where
  "flagsStr flags =
     [if flags AND 0x01 \<noteq> 0 then 0x52 else 0x20, if flags AND 0x02 \<noteq> 0 then 0x48 else 0x20,
      if flags AND 0x04 \<noteq> 0 then 0x53 else 0x20, if flags AND 0x20 \<noteq> 0 then 0x41 else 0x20]"

fun dump_scan :: "bytes list \<Rightarrow> ((bytes \<times> bytes \<times> u32 \<times> u32) list \<times> bool) option" where
  "dump_scan [] = Some ([], False)"
| "dump_scan (e # es) =
     (if checkForLastDirectoryEntry e then Some ([], True)
      else if is_deleted e then dump_scan es
      else do {
        filename \<leftarrow> foundFilename e;
        let fileSize = (if entry_flags e AND FATX_FILEATTR_DIRECTORY \<noteq> 0 then 0 else entry_fileSize e);
        (ls, stop) \<leftarrow> dump_scan es;
        Some ((filename, flagsStr (entry_flags e), fileSize, entry_cluster e) # ls, stop)
      })"

fun u_DumpFATXTree ::
  "'d reader \<Rightarrow> FATXPartition \<Rightarrow> nat \<Rightarrow> bytes \<Rightarrow> u32 \<Rightarrow> 'd \<Rightarrow> ((bytes \<times> bytes \<times> u32 \<times> u32) list \<times> 'd) option" where
  "u_DumpFATXTree rd p 0 clusterData clusterId d = None"
| "u_DumpFATXTree rd p (Suc n) clusterData clusterId d =
     (if clusterId = - 1 then Some ([], d)
      else do {
        (clusterData, d) \<leftarrow> LoadFATXCluster rd p clusterId clusterData d;
        (ls, stop) \<leftarrow> dump_scan (entries (clusterSize p) clusterData);
        if stop then Some (ls, d)
        else do {
          next \<leftarrow> getNextClusterInChain p clusterId;
          (ls', d) \<leftarrow> u_DumpFATXTree rd p n clusterData next d;
          Some (ls @ ls', d) }
      })"

definition DumpFATXTree ::
  "'d reader \<Rightarrow> FATXPartition \<Rightarrow> nat \<Rightarrow> bytes \<Rightarrow> 'd \<Rightarrow> ((bytes \<times> bytes \<times> u32 \<times> u32) list \<times> 'd) option" where
  "DumpFATXTree rd p n stk d = u_DumpFATXTree rd p n stk FATX_ROOT_FAT_CLUSTER d"

section \<open>Partitions\<close>

text \<open>\<open>FATXSignature\<close> reads from drive 0 whatever drive it is asked about.\<close>

definition FATXSignature :: "'d reader \<Rightarrow> u32 \<Rightarrow> u32 \<Rightarrow> bytes \<Rightarrow> 'd \<Rightarrow> (bool \<times> bytes \<times> 'd) option" where
  "FATXSignature rd drive block ba d =
     (case rd 0 block 0 (slice 0 512 ba) d of
        None \<Rightarrow> None
      | Some (e, new, d) \<Rightarrow>
          let ba = new @ drop 512 ba
          in Some (e = 0 \<and> take 4 ba = [0x46, 0x41, 0x54, 0x58], ba, d))"

definition chain_entry_size :: "u32 \<Rightarrow> u32" where
  "chain_entry_size count = (if count \<ge> 0xfff4 then 4 else 2)"

definition chain_table_size :: "u32 \<Rightarrow> u32" where
  "chain_table_size count =
     (let sz = count * chain_entry_size count
      in if sz mod FATX_CHAINTABLE_BLOCKSIZE \<noteq> 0
         then (sz div FATX_CHAINTABLE_BLOCKSIZE + 1) * FATX_CHAINTABLE_BLOCKSIZE else sz)"

text \<open>\<open>uninit k\<close> is what a fresh object of \<open>k\<close> bytes holds. A short read of the chain table is
  reported on the screen only.\<close>

definition OpenFATXPartition ::
  "'d reader \<Rightarrow> (nat \<Rightarrow> bytes) \<Rightarrow> u32 \<Rightarrow> u32 \<Rightarrow> u64 \<Rightarrow> 'd \<Rightarrow> (FATXPartition option \<times> 'd) option" where
  "OpenFATXPartition rd uninit drive offset sz d = do {
     (readSize, info, d) \<leftarrow> FATXRawRead rd drive offset 0 FATX_PARTITION_HEADERSIZE (uninit FATX_PARTITION_HEADERSIZE) d;
     if readSize \<noteq> FATX_PARTITION_HEADERSIZE then Some (None, d)
     else do {
       magic \<leftarrow> le32_at info 0;
       if magic \<noteq> FATX_PARTITION_MAGIC then Some (None, d)
       else do {
         let count = ucast (sz div 0x4000);
         let tableSize = chain_table_size count;
         (readSize, table, d) \<leftarrow> FATXRawRead rd drive offset (of_nat FATX_PARTITION_HEADERSIZE) (unat tableSize) (uninit (unat tableSize)) d;
         Some (Some \<lparr>nDriveIndex = drive, partitionStart = ucast offset, partitionSize = sz,
                     clusterSize = 0x4000, clusterCount = count,
                     chainMapEntrySize = chain_entry_size count, clusterChainMap = table,
                     cluster1Address = ucast (of_nat FATX_PARTITION_HEADERSIZE + tableSize)\<rparr>, d) } }
   }"

end
