(* ===== verification/FatxCorrect.thy ===== *)
theory FatxCorrect
  imports Fatx
begin

text \<open>
  Correctness of the FATX reader of \<open>Fatx\<close> on a sector source that delivers what a disk image
  holds: raw reads, cluster contents, the content of a loaded file as the concatenation of the
  clusters of its chain, directory search as a search in the list of entries, and path lookup
  as a walk over the components of the path.
\<close>

section \<open>The sector source\<close>

text \<open>
  The interface to the disk driver: on drive \<open>drv\<close> every read of up to 512 bytes from the start
  of a block succeeds and delivers the bytes of the image, which reading does not change.
\<close>

locale sector_source =
  fixes rd :: "'d reader" and drv :: u32 and img :: "'d \<Rightarrow> u32 \<Rightarrow> bytes" and ready :: "'d \<Rightarrow> bool"
  assumes sector_length: "ready d \<Longrightarrow> length (img d s) = 512"
    and sector_read: "ready d \<Longrightarrow> length old \<le> 512 \<Longrightarrow>
      \<exists>d'. rd drv s 0 old d = Some (0, take (length old) (img d s), d') \<and> ready d' \<and> img d' = img d"

text \<open>The bytes of consecutive sectors.\<close>

function sectors :: "(u32 \<Rightarrow> bytes) \<Rightarrow> u32 \<Rightarrow> nat \<Rightarrow> bytes" where
  "sectors f s len =
     (if len = 0 then [] else take (min 512 len) (f s) @ sectors f (s + 1) (len - min 512 len))"
  by pat_completeness auto
termination by (relation "measure (\<lambda>(f, s, len). len)") auto

declare sectors.simps [simp del]

lemma sectors_0 [simp]: "sectors f s 0 = []"
  by (simp add: sectors.simps)

lemma length_sectors: "(\<And>s. length (f s) = 512) \<Longrightarrow> length (sectors f s len) = len"
  by (induction f s len rule: sectors.induct)
    (auto simp: sectors.simps [of f s len for f s len])

definition cluster_bytes :: "FATXPartition \<Rightarrow> (u32 \<Rightarrow> bytes) \<Rightarrow> u32 \<Rightarrow> bytes" where
  "cluster_bytes p f c =
     sectors f (ucast (partitionStart p)
       + ucast ((cluster1Address p + scast (c - 1) * of_nat (clusterSize p)) div 512)) (clusterSize p)"

text \<open>A partition as \<open>OpenFATXPartition\<close> sets it up: whole sectors, two or four bytes per entry.\<close>

definition wf_partition :: "FATXPartition \<Rightarrow> bool" where
  "wf_partition p \<longleftrightarrow> clusterSize p = 0x4000 \<and> cluster1Address p mod 512 = 0
     \<and> (chainMapEntrySize p = 2 \<or> chainMapEntrySize p = 4)"

lemma mod_512_u64: "(w :: u64) mod 512 = take_bit 9 w"
  by (simp add: take_bit_eq_mod)

lemma cluster_aligned:
  assumes "wf_partition p"
  shows "(cluster1Address p + scast (c - 1 :: u32) * of_nat (clusterSize p)) mod 512 = 0"
proof -
  let ?x = "scast (c - 1) :: u64"
  have "?x * 0x4000 = push_bit 9 (?x * 0x20)" by (simp add: push_bit_eq_mult)
  moreover have "cluster1Address p = push_bit 9 (drop_bit 9 (cluster1Address p))"
  proof -
    have "take_bit 9 (cluster1Address p) = 0"
      using assms by (simp add: wf_partition_def mod_512_u64)
    then show ?thesis using bits_ident [of 9 "cluster1Address p"] by simp
  qed
  ultimately have "cluster1Address p + ?x * 0x4000 =
      push_bit 9 (drop_bit 9 (cluster1Address p) + ?x * 0x20)"
    by (metis push_bit_add)
  then have "take_bit 9 (cluster1Address p + ?x * 0x4000) = 0"
    by (simp only: take_bit_push_bit) simp
  with assms show ?thesis by (simp add: wf_partition_def mod_512_u64)
qed

context sector_source
begin

lemma raw_loop_reads:
  assumes "ready d" and "pos + len \<le> length buf"
  shows "\<exists>d'. raw_loop rd drv s len pos buf d =
      Some (pos + len, take pos buf @ sectors (img d) s len @ drop (pos + len) buf, d')
    \<and> ready d' \<and> img d' = img d"
  using assms
proof (induction len arbitrary: s pos buf d rule: less_induct)
  case (less len)
  show ?case
  proof (cases "len = 0")
    case True
    with less.prems show ?thesis by (auto simp: raw_loop.simps)
  next
    case False
    let ?n = "min 512 len"
    have n: "0 < ?n" "?n \<le> len" "pos + ?n \<le> length buf" using False less.prems by auto
    have sl: "length (slice pos ?n buf) = ?n" using n(3) by simp
    obtain d1 where r: "rd drv s 0 (slice pos ?n buf) d = Some (0, take ?n (img d s), d1)"
      and d1: "ready d1" "img d1 = img d"
      using sector_read [OF less.prems(1), of "slice pos ?n buf" s] sl by auto
    let ?buf = "take pos buf @ take ?n (img d s) @ drop (pos + ?n) buf"
    have len: "length (take ?n (img d s)) = ?n"
      by (simp add: sector_length [OF less.prems(1)])
    have "len - ?n < len" using n by linarith
    moreover have "pos + ?n + (len - ?n) \<le> length ?buf" using less.prems(2) n len by auto
    ultimately obtain d2 where
      "raw_loop rd drv (s + 1) (len - ?n) (pos + ?n) ?buf d1 =
        Some (pos + ?n + (len - ?n), take (pos + ?n) ?buf @ sectors (img d1) (s + 1) (len - ?n)
          @ drop (pos + ?n + (len - ?n)) ?buf, d2)"
      "ready d2" "img d2 = img d1"
      using less.IH [OF _ d1(1)] by blast
    moreover have "take (pos + ?n) ?buf = take pos buf @ take ?n (img d s)"
      using n(3) len by (simp add: take_add)
    moreover have "drop (pos + ?n + (len - ?n)) ?buf = drop (pos + len) buf"
      using n less.prems(2) len by (simp add: add.commute)
    moreover have "sectors (img d) s len = take ?n (img d s) @ sectors (img d) (s + 1) (len - ?n)"
      using False by (subst sectors.simps) simp
    ultimately show ?thesis
      using r d1 False n by (simp add: raw_loop.simps [of rd drv s len] Let_def)
  qed
qed

lemma FATXRawRead_reads:
  assumes "ready d" and "len \<le> length buf" and "off mod 512 = 0"
  shows "\<exists>d'. FATXRawRead rd drv s off len buf d =
      Some (len, sectors (img d) (s + ucast (off div 512)) len @ drop len buf, d')
    \<and> ready d' \<and> img d' = img d"
  using raw_loop_reads [OF assms(1), of 0 len buf "s + ucast (off div 512)"] assms(2,3)
  by (simp add: FATXRawRead_def Let_def)

lemma LoadFATXCluster_reads:
  assumes "ready d" and "wf_partition p" and "nDriveIndex p = drv" and "length buf = clusterSize p"
  shows "\<exists>d'. LoadFATXCluster rd p c buf d = Some (cluster_bytes p (img d) c, d')
    \<and> ready d' \<and> img d' = img d"
  using FATXRawRead_reads [OF assms(1) _ cluster_aligned [OF assms(2)], of "clusterSize p" buf
      "ucast (partitionStart p)" c] assms(3,4)
  by (auto simp: LoadFATXCluster_def Let_def cluster_bytes_def)

lemma length_cluster_bytes [simp]: "ready d \<Longrightarrow> length (cluster_bytes p (img d) c) = clusterSize p"
  by (simp add: cluster_bytes_def length_sectors sector_length)

end

section \<open>File contents\<close>

text \<open>The clusters of a chain, \<open>None\<close> if it does not end within \<open>n\<close> clusters or leaves the map.\<close>

fun chain :: "FATXPartition \<Rightarrow> nat \<Rightarrow> u32 \<Rightarrow> u32 list option" where
  "chain p 0 c = None"
| "chain p (Suc n) c =
     (if c = - 1 then Some []
      else do { next \<leftarrow> getNextClusterInChain p c; cs \<leftarrow> chain p n next; Some (c # cs) })"

definition chain_bytes :: "FATXPartition \<Rightarrow> (u32 \<Rightarrow> bytes) \<Rightarrow> u32 list \<Rightarrow> bytes" where
  "chain_bytes p f cs = concat (map (cluster_bytes p f) cs)"

lemma chain_bytes_simps [simp]:
  "chain_bytes p f [] = []"
  "chain_bytes p f (c # cs) = cluster_bytes p f c @ chain_bytes p f cs"
  by (simp_all add: chain_bytes_def)

lemma chain_SucE:
  assumes "chain p (Suc n) c = Some cs" and "c \<noteq> - 1"
  obtains nx cs' where "getNextClusterInChain p c = Some nx" and "chain p n nx = Some cs'"
    and "cs = c # cs'"
  using assms by (auto simp: bind_eq_Some_conv)

text \<open>Splitting what is written into the first cluster and the rest.\<close>

lemma take_cluster_split:
  assumes "length cl = m"
  shows "take (min S (m + length r)) (cl @ r) =
    take (min S m) cl @ take (min (S - min S m) (length r)) r"
proof (cases "S \<le> m")
  case False
  then have "min S (m + length r) - m = min (S - m) (length r)" by linarith
  with False assms show ?thesis by simp
qed (use assms in simp)

context sector_source
begin

lemma load_chain_reads:
  assumes "ready d" and "wf_partition p" and "nDriveIndex p = drv" and "length buf = clusterSize p"
    and "chain p n c = Some cs"
    and "unat fileRead + unat fileSize \<le> length ptr" and "unat fileRead + unat fileSize < 2 ^ 32"
  defines "w \<equiv> min (unat fileSize) (length (chain_bytes p (img d) cs))"
  shows "\<exists>left got d'. load_chain rd p n c fileSize fileRead ptr buf d = Some (left, got,
      take (unat fileRead) ptr @ take w (chain_bytes p (img d) cs) @ drop (unat fileRead + w) ptr, d')
    \<and> unat left = unat fileSize - w \<and> unat got = unat fileRead + w
    \<and> ready d' \<and> img d' = img d"
  using assms(1,4,5,6,7) unfolding w_def
proof (induction n arbitrary: c cs fileSize fileRead ptr buf d)
  case (Suc n)
  have cs4: "clusterSize p = 0x4000" using assms(2) by (simp add: wf_partition_def)
  show ?case
  proof (cases "c = - 1")
    case True
    with Suc.prems show ?thesis by auto
  next
    case False
    from Suc.prems(3) False obtain nx cs' where
      nx: "getNextClusterInChain p c = Some nx" "chain p n nx = Some cs'" "cs = c # cs'"
      by (rule chain_SucE)
    obtain d1 where ld: "LoadFATXCluster rd p c buf d = Some (cluster_bytes p (img d) c, d1)"
      and d1: "ready d1" "img d1 = img d"
      using LoadFATXCluster_reads [OF Suc.prems(1) assms(2,3) Suc.prems(2)] by blast
    let ?cl = "cluster_bytes p (img d) c" and ?r = "chain_bytes p (img d) cs'"
    let ?S = "unat fileSize" and ?R = "unat fileRead"
    let ?wr = "if unat fileSize \<le> clusterSize p then fileSize else of_nat (clusterSize p)"
    define m where "m = min ?S 0x4000"
    have wr: "unat ?wr = m" by (simp add: m_def cs4)
    have cl: "length ?cl = 0x4000" using Suc.prems(1) by (simp add: cs4)
    have left1: "unat (fileSize - ?wr) = ?S - m"
    proof -
      have "?wr \<le> fileSize" using wr by (simp add: word_le_nat_alt m_def)
      then show ?thesis using wr by (simp add: unat_sub)
    qed
    have got1: "unat (fileRead + ?wr) = ?R + m"
      using wr Suc.prems(5) by (subst unat_add_lem [THEN iffD1]) (auto simp: m_def)
    let ?ptr = "take ?R ptr @ take m ?cl @ drop (?R + m) ptr"
    have put: "put_bytes ptr ?R (take (unat ?wr) ?cl) = Some ?ptr"
      using Suc.prems(4) cl by (simp add: put_bytes_def wr) (simp add: m_def)
    have lp: "length ?ptr = length ptr" using Suc.prems(4) cl by (auto simp: m_def)
    have pr: "length ?cl = clusterSize p" using cl cs4 by simp
    have "unat (fileRead + ?wr) + unat (fileSize - ?wr) \<le> length ?ptr"
      "unat (fileRead + ?wr) + unat (fileSize - ?wr) < 2 ^ 32"
      using Suc.prems(4,5) lp unfolding left1 got1 by (auto simp: m_def)
    note IH = Suc.IH [OF d1(1) pr nx(2) this]
    let ?w = "min (?S - m) (length ?r)"
    obtain left got d2 where ld2: "load_chain rd p n nx (fileSize - ?wr) (fileRead + ?wr) ?ptr ?cl d1 =
        Some (left, got, take (?R + m) ?ptr @ take ?w ?r @ drop (?R + m + ?w) ?ptr, d2)"
      and u: "unat left = ?S - m - ?w" "unat got = ?R + m + ?w" "ready d2" "img d2 = img d"
      using IH unfolding left1 got1 d1(2) by blast
    let ?W = "min ?S (length (chain_bytes p (img d) cs))"
    have W: "?W = m + ?w" by (simp add: nx(3) cl m_def)
    have "take (?R + m) ?ptr = take ?R ptr @ take m ?cl"
      using Suc.prems(4) cl by (simp add: m_def)
    moreover have "drop (?R + m + ?w) ?ptr = drop (?R + ?W) ptr"
      using Suc.prems(4) cl unfolding W by (simp add: m_def add.assoc add.commute add.left_commute)
    moreover have "take ?W (chain_bytes p (img d) cs) = take m ?cl @ take ?w ?r"
      using take_cluster_split [OF cl, of ?S ?r] unfolding nx(3) by (simp add: cl m_def)
    ultimately have "load_chain rd p (Suc n) c fileSize fileRead ptr buf d = Some (left, got,
        take ?R ptr @ take ?W (chain_bytes p (img d) cs) @ drop (?R + ?W) ptr, d2)"
      using False ld put nx(1) ld2 by (simp add: Let_def)
    with u W show ?thesis by auto
  qed
qed simp

lemma FATXLoadFromDisk_reads:
  assumes "ready d" and "wf_partition p" and "nDriveIndex p = drv" and "length buf = clusterSize p"
    and "chain p n (fi_clusterId fi) = Some cs" and "unat (fi_fileSize fi) = length (fi_buffer fi)"
  shows "\<exists>got d'. FATXLoadFromDisk rd p n buf fi d =
      Some (length (fi_buffer fi) \<le> length (chain_bytes p (img d) cs),
        fi\<lparr>fi_fileRead := got, fi_buffer := take (length (fi_buffer fi)) (chain_bytes p (img d) cs)
            @ drop (length (chain_bytes p (img d) cs)) (fi_buffer fi)\<rparr>, d')
    \<and> ready d' \<and> img d' = img d"
proof -
  let ?w = "min (unat (fi_fileSize fi)) (length (chain_bytes p (img d) cs))"
  have "unat (0 :: u32) + unat (fi_fileSize fi) < 2 ^ 32" using unat_lt_u32 [of "fi_fileSize fi"] by simp
  from load_chain_reads [OF assms(1-5), of 0 "fi_fileSize fi" "fi_buffer fi", OF _ this] assms(6)
  obtain left got d' where "load_chain rd p n (fi_clusterId fi) (fi_fileSize fi) 0 (fi_buffer fi) buf d =
      Some (left, got, take ?w (chain_bytes p (img d) cs) @ drop ?w (fi_buffer fi), d')"
    and left: "unat left = unat (fi_fileSize fi) - ?w" and d': "ready d'" "img d' = img d"
    by auto
  moreover have "left = 0 \<longleftrightarrow> unat left = 0" by (simp add: unat_eq_zero)
  then have "left = 0 \<longleftrightarrow> length (fi_buffer fi) \<le> length (chain_bytes p (img d) cs)"
    using left assms(6) by auto
  ultimately show ?thesis
    using assms(6) d' by (auto simp: FATXLoadFromDisk_def min_def)
qed

end

section \<open>Directory search\<close>

text \<open>The name in an entry as a string: up to the first zero byte, if there is one.\<close>

definition entry_name :: "bytes \<Rightarrow> bytes" where
  "entry_name e = takeWhile (\<lambda>c. c \<noteq> 0) (take (name_size e) (drop 2 e))"

definition name_matches :: "bytes \<Rightarrow> bytes \<Rightarrow> bool" where
  "name_matches nm e \<longleftrightarrow> map lower8 (entry_name e) = map lower8 nm"

text \<open>The entries in force: those before the end mark, without the deleted ones.\<close>

definition live :: "bytes list \<Rightarrow> bytes list" where
  "live es = filter (\<lambda>e. \<not> is_deleted e) (takeWhile (\<lambda>e. \<not> checkForLastDirectoryEntry e) es)"

text \<open>Lookup of a directory or a file: the first entry in force that has a bad size or the name.\<close>

definition hit_of :: "bool \<Rightarrow> bytes \<Rightarrow> hit" where
  "hit_of dir e =
     (if \<not> valid_size e then Fail
      else if dir then
        (if entry_flags e AND FATX_FILEATTR_DIRECTORY \<noteq> 0 then Dir (entry_cluster e) else Fail)
      else if entry_flags e AND FATX_FILEATTR_DIRECTORY = 0
      then File (entry_cluster e) (entry_fileSize e) else Fail)"

definition lookup_hit :: "bytes \<Rightarrow> bool \<Rightarrow> bytes list \<Rightarrow> hit" where
  "lookup_hit nm dir es =
     (case find (\<lambda>e. \<not> valid_size e \<or> name_matches nm e) (live es) of
        None \<Rightarrow> Fail | Some e \<Rightarrow> hit_of dir e)"

lemma live_Cons:
  "live (e # es) = (if checkForLastDirectoryEntry e then [] else if is_deleted e then live es else e # live es)"
  by (simp add: live_def)

lemma live_append:
  "live (xs @ ys) = (if \<exists>e \<in> set xs. checkForLastDirectoryEntry e then live xs else live xs @ live ys)"
  by (auto simp: live_def takeWhile_append takeWhile_eq_all_conv [THEN iffD2])

subsection \<open>Names\<close>

lemma takeWhile_nonzero: "0 \<notin> set (takeWhile (\<lambda>c. c \<noteq> (0 :: u8)) xs)"
  by (auto dest: set_takeWhileD)

lemma string_split:
  "\<exists>r. xs @ 0 # ys = takeWhile (\<lambda>c. c \<noteq> (0 :: u8)) xs @ 0 # r"
proof (cases "0 \<in> set xs")
  case True
  then have "dropWhile (\<lambda>c. c \<noteq> 0) xs = 0 # tl (dropWhile (\<lambda>c. c \<noteq> 0) xs)"
    by (induction xs) auto
  then have "xs = takeWhile (\<lambda>c. c \<noteq> 0) xs @ 0 # tl (dropWhile (\<lambda>c. c \<noteq> 0) xs)"
    by (metis takeWhile_dropWhile_id)
  then show ?thesis by (metis append.assoc append_Cons)
next
  case False
  then have "takeWhile (\<lambda>c. c \<noteq> 0) xs = xs" by (induction xs) auto
  then show ?thesis by (intro exI [of _ ys]) (simp only:)
qed

lemma u_strncasecmp_total: "\<exists>c. u_strncasecmp (s @ 0 # r) (t @ 0 # r') n = Some c"
proof (induction s arbitrary: t n)
  case Nil
  then show ?case by simp
next
  case (Cons a s)
  show ?case
  proof (cases t)
    case Nil
    then show ?thesis by simp
  next
    case (Cons b t')
    then show ?thesis using Cons.IH [of t' "n - 1"] by auto
  qed
qed

lemma same_name_strings:
  assumes "0 \<notin> set f" and "0 \<notin> set nm" and "length nm < 2 ^ 32"
  shows "same_name (f @ 0 # r) (nm @ 0 # r') = Some (map lower8 f = map lower8 nm)"
proof (cases "length nm = length f")
  case True
  obtain c where c: "u_strncasecmp (f @ 0 # r) (nm @ 0 # r') (of_nat (length nm)) = Some c"
    using u_strncasecmp_total by blast
  have "c = 0 \<longleftrightarrow> map lower8 f = map lower8 nm"
    using u_strncasecmp_zero_iff [of f nm r r'] assms c True by simp
  with c True assms show ?thesis by (simp add: same_name_def)
next
  case False
  then have "map lower8 f \<noteq> map lower8 nm" by (metis length_map)
  with False assms show ?thesis by (simp add: same_name_def)
qed

lemma foundFilename_string:
  assumes "length e = 64" and "name_size e \<le> 42"
  shows "\<exists>r. foundFilename e = Some (entry_name e @ 0 # r)"
proof -
  let ?n = "name_size e" and ?nm = "take (name_size e) (drop 2 e)"
  let ?b = "?nm @ replicate (50 - ?n) 0"
  have "memcpy (replicate 50 0) (drop 2 e) ?n = Some ?b"
    using assms by (simp add: memcpy_def put_bytes_def min_def)
  moreover have "put_bytes ?b ?n [0] = Some (?nm @ 0 # replicate (49 - ?n) 0)"
    using assms by (simp add: put_bytes_def min_def)
  ultimately have "foundFilename e = Some (?nm @ 0 # replicate (49 - ?n) 0)"
    by (simp add: foundFilename_def)
  with string_split [of ?nm "replicate (49 - ?n) 0"] show ?thesis
    by (auto simp: entry_name_def)
qed

subsection \<open>Scanning one cluster\<close>

lemma find_scan_lookup:
  assumes "\<forall>e \<in> set es. length e = 64" and "0 \<notin> set nm" and "length nm < 2 ^ 32"
  shows "find_scan (nm @ 0 # r) dir es = Some
    (case find (\<lambda>e. \<not> valid_size e \<or> name_matches nm e) (live es) of
       Some e \<Rightarrow> Found (hit_of dir e)
     | None \<Rightarrow> if \<exists>e \<in> set es. checkForLastDirectoryEntry e then End_of_directory else Next_cluster)"
  using assms(1)
proof (induction es)
  case (Cons e es)
  show ?case
  proof (cases "checkForLastDirectoryEntry e \<or> is_deleted e \<or> \<not> valid_size e")
    case True
    with Cons show ?thesis by (auto simp: live_Cons hit_of_def)
  next
    case False
    then have "name_size e \<le> 42" by (simp add: valid_size_def)
    then obtain r' where f: "foundFilename e = Some (entry_name e @ 0 # r')"
      using foundFilename_string Cons.prems by auto
    have "0 \<notin> set (entry_name e)" by (simp add: entry_name_def takeWhile_nonzero)
    then have "same_name (entry_name e @ 0 # r') (nm @ 0 # r) = Some (name_matches nm e)"
      using assms(2,3) by (simp add: same_name_strings name_matches_def)
    with f False Cons show ?thesis by (auto simp: live_Cons hit_of_def)
  qed
qed (simp add: live_def)

subsection \<open>Searching a chain\<close>

definition dir_entries :: "FATXPartition \<Rightarrow> (u32 \<Rightarrow> bytes) \<Rightarrow> u32 list \<Rightarrow> bytes list" where
  "dir_entries p f cs = concat (map (\<lambda>c. entries (clusterSize p) (cluster_bytes p f c)) cs)"

lemma dir_entries_simps [simp]:
  "dir_entries p f [] = []"
  "dir_entries p f (c # cs) = entries (clusterSize p) (cluster_bytes p f c) @ dir_entries p f cs"
  by (simp_all add: dir_entries_def)

lemma length_entry: "e \<in> set (entries sz data) \<Longrightarrow> sz \<le> length data \<Longrightarrow> length e = 64"
proof -
  assume "e \<in> set (entries sz data)" and sz: "sz \<le> length data"
  then obtain i where i: "i < sz div 64" "e = slice (i * 64) 64 data"
    by (auto simp: entries_def)
  then have "i * 64 + 64 \<le> sz div 64 * 64" by simp
  also have "\<dots> \<le> sz" by (rule div_times_less_eq_dividend)
  finally show "length e = 64" using i(2) sz by simp
qed

lemma lookup_hit_append:
  "lookup_hit nm dir (xs @ ys) =
     (case find (\<lambda>e. \<not> valid_size e \<or> name_matches nm e) (live xs) of
        Some e \<Rightarrow> hit_of dir e
      | None \<Rightarrow> if \<exists>e \<in> set xs. checkForLastDirectoryEntry e then Fail else lookup_hit nm dir ys)"
proof -
  have "find P (as @ bs) = (case find P as of None \<Rightarrow> find P bs | Some e \<Rightarrow> Some e)" for P and as bs :: "bytes list"
    by (induction as) auto
  then show ?thesis
    by (auto simp: lookup_hit_def live_append split: option.splits)
qed

context sector_source
begin

lemma find_chain_lookup:
  assumes "ready d" and "wf_partition p" and "nDriveIndex p = drv" and "length buf = clusterSize p"
    and "chain p n c = Some cs" and "0 \<notin> set nm" and "length nm < 2 ^ 32"
  shows "\<exists>d'. find_chain rd p n (nm @ 0 # r) dir c buf d =
      Some (lookup_hit nm dir (dir_entries p (img d) cs), d') \<and> ready d' \<and> img d' = img d"
  using assms(1,4,5)
proof (induction n arbitrary: c cs buf d)
  case (Suc n)
  show ?case
  proof (cases "c = - 1")
    case True
    with Suc.prems show ?thesis by (auto simp: lookup_hit_def live_def)
  next
    case False
    from Suc.prems(3) False obtain nx cs' where
      nx: "getNextClusterInChain p c = Some nx" "chain p n nx = Some cs'" "cs = c # cs'"
      by (rule chain_SucE)
    obtain d1 where ld: "LoadFATXCluster rd p c buf d = Some (cluster_bytes p (img d) c, d1)"
      and d1: "ready d1" "img d1 = img d"
      using LoadFATXCluster_reads [OF Suc.prems(1) assms(2,3) Suc.prems(2)] by blast
    let ?cl = "cluster_bytes p (img d) c" and ?es = "entries (clusterSize p) (cluster_bytes p (img d) c)"
    have "\<forall>e \<in> set ?es. length e = 64"
      using length_entry [of _ "clusterSize p" ?cl] Suc.prems(1) by simp
    note scan = find_scan_lookup [OF this assms(6,7), of r dir]
    obtain d2 where IH: "find_chain rd p n (nm @ 0 # r) dir nx ?cl d1 =
        Some (lookup_hit nm dir (dir_entries p (img d) cs'), d2)" "ready d2" "img d2 = img d"
      using Suc.IH [OF d1(1) _ nx(2), of ?cl] Suc.prems(1) d1(2) by auto
    show ?thesis
    proof (cases "find (\<lambda>e. \<not> valid_size e \<or> name_matches nm e) (live ?es)")
      case (Some e)
      with scan False ld d1 show ?thesis by (simp add: nx(3) lookup_hit_append)
    next
      case None
      with scan False ld d1 nx(1) IH show ?thesis
        by (cases "\<exists>e \<in> set ?es. checkForLastDirectoryEntry e")
          (simp_all add: nx(3) lookup_hit_append)
    qed
  qed
qed simp

end

section \<open>Path lookup\<close>

fun join_path :: "bytes list \<Rightarrow> bytes" where
  "join_path [] = []"
| "join_path [a] = a"
| "join_path (a # b # r) = a @ 0x2f # join_path (b # r)"

fun split_slash :: "bytes \<Rightarrow> bytes list" where
  "split_slash [] = [[]]"
| "split_slash (c # s) =
     (if c = 0x2f then [] # split_slash s else (c # hd (split_slash s)) # tl (split_slash s))"

lemma split_slash_ne [simp]: "split_slash s \<noteq> []"
  by (cases s) auto

lemma join_split: "join_path (split_slash s) = s"
proof (induction s)
  case (Cons c s)
  obtain x xs where "split_slash s = x # xs" by (cases "split_slash s") auto
  with Cons show ?case by (cases xs) auto
qed simp

lemma split_slash_parts: "a \<in> set (split_slash s) \<Longrightarrow> set a \<subseteq> set s - {0x2f}"
proof (induction s arbitrary: a)
  case (Cons c s)
  obtain x xs where x: "split_slash s = x # xs" by (cases "split_slash s") auto
  show ?case
  proof (cases "c = 0x2f")
    case True
    with Cons show ?thesis by auto
  next
    case False
    then have "a = c # x \<or> a \<in> set xs" using Cons.prems x by auto
    with Cons.IH [of x] Cons.IH [of a] x False show ?thesis by auto
  qed
qed simp

text \<open>The walk over the components: every component but the last names a directory, the last
  one a file; a component that is too long ends the search. The outer \<open>None\<close> is a directory
  whose cluster chain does not end.\<close>

fun resolve :: "FATXPartition \<Rightarrow> nat \<Rightarrow> (u32 \<Rightarrow> bytes) \<Rightarrow> bytes list \<Rightarrow> u32 \<Rightarrow> (u32 \<times> u32) option option" where
  "resolve p n f [] c = Some None"
| "resolve p n f (nm # ns) c =
     (if length nm > 42 then Some None
      else case chain p n c of
        None \<Rightarrow> None
      | Some cs \<Rightarrow>
          (case lookup_hit nm (ns \<noteq> []) (dir_entries p f cs) of
             File c' s \<Rightarrow> if ns = [] then Some (Some (c', s)) else Some None
           | Dir c' \<Rightarrow> if ns = [] then Some None else resolve p n f ns c'
           | Fail \<Rightarrow> Some None))"

lemma hit_kinds: "lookup_hit nm dir es = File c s \<Longrightarrow> \<not> dir" "lookup_hit nm dir es = Dir c \<Longrightarrow> dir"
  by (auto simp: lookup_hit_def hit_of_def split: option.splits if_splits)

definition found_file :: "FATXFILEINFO \<Rightarrow> (u32 \<times> u32) option \<Rightarrow> bytes \<Rightarrow> FATXFILEINFO \<Rightarrow> bool" where
  "found_file fi r leaf fi' \<longleftrightarrow>
     (case r of None \<Rightarrow> fi' = fi
      | Some (c, s) \<Rightarrow> fi_clusterId fi' = c \<and> fi_fileSize fi' = s \<and> length (fi_filename fi') = 44
          \<and> take (length leaf + 1) (fi_filename fi') = leaf @ [0])"


lemma strrchr0_slash:
  "0 \<notin> set nm \<Longrightarrow> 0x2f \<notin> set nm \<Longrightarrow> strrchr0 (nm @ 0x2f # x) 0x2f = Some (Some (length nm))"
  by (induction nm) auto

lemma strrchr0_leaf: "0 \<notin> set nm \<Longrightarrow> 0x2f \<notin> set nm \<Longrightarrow> strrchr0 (nm @ 0 # x) 0x2f = Some None"
  by (induction nm) auto

text \<open>The local copy of a component.\<close>

lemma seek_copy:
  assumes "length nm \<le> 42"
  shows "memcpy (replicate 50 0) (nm @ x) (length nm) = Some (nm @ replicate (50 - length nm) 0)"
    and "put_bytes (nm @ replicate (50 - length nm) 0) (length nm) [0] = Some (nm @ 0 # replicate (49 - length nm) 0)"
    and "0 \<notin> set nm \<Longrightarrow> strcpy (replicate 50 0) (nm @ 0 # x) = Some (nm @ 0 # replicate (49 - length nm) 0)"
  using assms by (simp_all add: memcpy_def put_bytes_def strcpy_def)

context sector_source
begin

lemma u_FATXFindFile_resolves:
  assumes "ready d" and "wf_partition p" and "nDriveIndex p = drv" and "length stk = clusterSize p"
    and "comps \<noteq> []" and "\<forall>a \<in> set comps. 0 \<notin> set a \<and> 0x2f \<notin> set a"
    and "length (fi_filename fi) = 44"
    and "resolve p n (img d) comps c = Some res" and "length comps \<le> k"
  shows "\<exists>fi' d'. u_FATXFindFile k rd p n stk (join_path comps @ 0 # r) c fi d = Some (res \<noteq> None, fi', d')
    \<and> found_file fi res (last comps) fi' \<and> ready d' \<and> img d' = img d"
  using assms(1,5,6,8,9)
proof (induction k arbitrary: comps c d)
  case 0
  then show ?case by simp
next
  case (Suc k)
  from Suc.prems(2) obtain nm ns where comps: "comps = nm # ns" by (cases comps) auto
  have nm: "0 \<notin> set nm" "0x2f \<notin> set nm" using Suc.prems(3) by (auto simp: comps)
  show ?case
  proof (cases "length nm > 42")
    case True
    have "res = None" using Suc.prems(4) True by (simp add: comps)
    then show ?thesis
      using True nm Suc.prems(1) strrchr0_slash [OF nm] strrchr0_leaf [OF nm]
      by (cases ns) (auto simp: comps found_file_def)
  next
    case False
    then have short: "length nm \<le> 42" by simp
    obtain cs where ch: "chain p n c = Some cs"
      using Suc.prems(4) False by (auto simp: comps split: option.splits)
    let ?h = "lookup_hit nm (ns \<noteq> []) (dir_entries p (img d) cs)"
    have "length nm < 2 ^ 32" using short by simp
    from find_chain_lookup [OF Suc.prems(1) assms(2-4) ch nm(1) this, of _ "ns \<noteq> []"]
    have fc: "\<exists>d'. find_chain rd p n (nm @ 0 # x) (ns \<noteq> []) c stk d = Some (?h, d') \<and> ready d' \<and> img d' = img d"
      for x .
    then obtain d1 where d1: "find_chain rd p n (nm @ 0 # replicate (49 - length nm) 0) (ns \<noteq> []) c stk d = Some (?h, d1)"
      "ready d1" "img d1 = img d" by blast
    note res = Suc.prems(4) [unfolded comps resolve.simps ch]
    show ?thesis
    proof (cases ns)
      case Nil
      show ?thesis
      proof (cases ?h)
        case (File c' s)
        have "res = Some (c', s)" using res short File Nil by simp
        moreover have "strcpy (replicate 42 0 @ drop 42 (fi_filename fi)) (nm @ 0 # r) =
            Some (nm @ 0 # drop (length nm + 1) (replicate 42 0 @ drop 42 (fi_filename fi)))"
          using nm short assms(7) by (simp add: strcpy_def put_bytes_def)
        ultimately show ?thesis
          using d1 File Nil nm short assms(7) seek_copy(3) [OF short nm(1)]
          by (simp add: comps strrchr0_leaf found_file_def)
      qed (use d1 res Nil nm short seek_copy(3) [OF short nm(1)] in
        \<open>auto simp: comps strrchr0_leaf found_file_def\<close>)
    next
      case (Cons b bs)
      have jp: "join_path comps @ 0 # r = nm @ 0x2f # (join_path ns @ 0 # r)"
        by (simp add: comps Cons)
      show ?thesis
      proof (cases ?h)
        case (Dir c')
        have r': "resolve p n (img d1) ns c' = Some res" using res short Dir Cons d1(3) by simp
        obtain fi' d2 where "u_FATXFindFile k rd p n stk (join_path ns @ 0 # r) c' fi d1 = Some (res \<noteq> None, fi', d2)"
          "found_file fi res (last ns) fi'" "ready d2" "img d2 = img d"
          using Suc.IH [OF d1(2) _ _ r'] Suc.prems(3,5) Cons d1(3) by (auto simp: comps)
        then show ?thesis
          using d1 Dir Cons nm short
          by (simp add: jp strrchr0_slash seek_copy) (simp add: comps)
      qed (use d1 res Cons nm short in \<open>auto simp: jp strrchr0_slash seek_copy found_file_def\<close>)
    qed
  qed
qed

end

subsection \<open>Whole paths\<close>

declare u_FATXFindFile.simps(2) [simp del]

definition slash :: "u8 \<Rightarrow> u8" where "slash c = (if c = 0x5c then 0x2f else c)"

definition path_components :: "bytes \<Rightarrow> bytes list" where
  "path_components s = split_slash (dropWhile (\<lambda>c. c = 0x2f) (map slash s))"

lemma convert_slashes_string: "0 \<notin> set s \<Longrightarrow> convert_slashes (s @ 0 # r) = Some (map slash s @ 0 # r)"
  by (induction s) (auto simp: slash_def)

lemma skip_slashes_string: "skip_slashes (s @ 0 # r) = dropWhile (\<lambda>c. c = 0x2f) s @ 0 # r"
  by (induction s) (auto simp: skip_slashes_def)

lemma length_split_slash: "length (split_slash s) \<le> length s + 1"
proof (induction s)
  case (Cons c s)
  then show ?case by (cases "split_slash s") auto
qed simp

lemma path_components_parts:
  assumes "0 \<notin> set s" and "a \<in> set (path_components s)"
  shows "0 \<notin> set a \<and> 0x2f \<notin> set a"
proof -
  have "0 \<notin> set (map slash s)" using assms(1) by (auto simp: slash_def split: if_splits)
  then have "0 \<notin> set (dropWhile (\<lambda>c. c = 0x2f) (map slash s))" by (meson set_dropWhileD)
  then show ?thesis
    using split_slash_parts [OF assms(2) [unfolded path_components_def]] by auto
qed

context sector_source
begin

lemma FATXFindFile_resolves:
  assumes "ready d" and "wf_partition p" and "nDriveIndex p = drv" and "length stk = clusterSize p"
    and "0 \<notin> set s" and "length (fi_filename fi) = 44"
    and "resolve p n (img d) (path_components s) c = Some res"
  shows "\<exists>fi' d'. FATXFindFile rd p n stk (s @ 0 # r) c fi d =
      Some (res \<noteq> None, map slash s @ 0 # r, fi', d')
    \<and> found_file fi res (last (path_components s)) fi' \<and> ready d' \<and> img d' = img d"
proof -
  let ?path = "dropWhile (\<lambda>c. c = 0x2f) (map slash s)"
  have "length (path_components s) \<le> length (?path @ 0 # r) + 1"
    using length_split_slash [of ?path] by (simp add: path_components_def)
  moreover have "join_path (path_components s) = ?path"
    by (simp add: path_components_def join_split)
  moreover have "path_components s \<noteq> []" by (simp add: path_components_def)
  ultimately obtain fi' d' where
    "u_FATXFindFile (length (?path @ 0 # r) + 1) rd p n stk (?path @ 0 # r) c fi d = Some (res \<noteq> None, fi', d')"
    "found_file fi res (last (path_components s)) fi'" "ready d'" "img d' = img d"
    using u_FATXFindFile_resolves [OF assms(1-4) _ _ assms(6,7), of "length (?path @ 0 # r) + 1" r]
      path_components_parts [OF assms(5)] by fastforce
  then show ?thesis
    by (simp add: FATXFindFile_def convert_slashes_string [OF assms(5)] skip_slashes_string Let_def
        del: map_eq_Cons_conv)
qed

lemma LoadFATXFile_loads:
  assumes "ready d" and "wf_partition p" and "nDriveIndex p = drv" and "length stk = clusterSize p"
    and "0 \<notin> set s" and "length (fi_filename fi) = 44"
    and "resolve p n (img d) (path_components s) FATX_ROOT_FAT_CLUSTER = Some (Some (c, sz))"
    and "chain p n c = Some cs" and "unat sz \<le> length (chain_bytes p (img d) cs)"
  shows "\<exists>fi' d'. LoadFATXFile rd (Some p) n stk (s @ 0 # r) fi d = Some (True, fi', d')
    \<and> fi_buffer fi' = take (unat sz) (chain_bytes p (img d) cs) \<and> fi_fileSize fi' = sz
    \<and> ready d' \<and> img d' = img d"
proof -
  obtain fi1 d1 where f: "FATXFindFile rd p n stk (s @ 0 # r) FATX_ROOT_FAT_CLUSTER fi d =
      Some (True, map slash s @ 0 # r, fi1, d1)"
    and fi1: "fi_clusterId fi1 = c" "fi_fileSize fi1 = sz" and d1: "ready d1" "img d1 = img d"
    using FATXFindFile_resolves [OF assms(1-7), of r] by (auto simp: found_file_def)
  let ?fi = "fi1\<lparr>fi_buffer := replicate (unat sz) 0\<rparr>"
  obtain got d2 where "FATXLoadFromDisk rd p n stk ?fi d1 =
      Some (unat sz \<le> length (chain_bytes p (img d1) cs),
        ?fi\<lparr>fi_fileRead := got, fi_buffer := take (unat sz) (chain_bytes p (img d1) cs)
          @ drop (length (chain_bytes p (img d1) cs)) (replicate (unat sz) 0)\<rparr>, d2)"
    "ready d2" "img d2 = img d1"
    using FATXLoadFromDisk_reads [OF d1(1) assms(2-4), of n ?fi cs] fi1 assms(8) by auto
  then show ?thesis
    using f fi1 d1 assms(9) by (auto simp: LoadFATXFile_def)
qed

end

section \<open>Listing\<close>

definition listed_names :: "bytes \<Rightarrow> bytes list \<Rightarrow> bytes list" where
  "listed_names prefix es =
     map (\<lambda>e. prefix @ take (name_size e) (drop 2 e) @ [0]) (filter valid_size (live es))"

lemma listed_names_append:
  "listed_names prefix (xs @ ys) =
     (if \<exists>e \<in> set xs. checkForLastDirectoryEntry e then listed_names prefix xs
      else listed_names prefix xs @ listed_names prefix ys)"
  by (auto simp: listed_names_def live_append)

lemma list_scan_names:
  assumes "0 \<notin> set prefix" and "length res < reslen"
  shows "\<exists>stop. list_scan reslen (prefix @ 0 # r) es res = Some (take reslen (res @ listed_names prefix es), stop)
    \<and> (stop \<longrightarrow> (\<exists>e \<in> set es. checkForLastDirectoryEntry e) \<or> reslen \<le> length (res @ listed_names prefix es))
    \<and> (\<not> stop \<longrightarrow> (\<forall>e \<in> set es. \<not> checkForLastDirectoryEntry e) \<and> length (res @ listed_names prefix es) < reslen)"
  using assms(2)
proof (induction es arbitrary: res)
  case Nil
  then show ?case by (auto simp: listed_names_def live_def)
next
  case (Cons e es)
  show ?case
  proof (cases "checkForLastDirectoryEntry e \<or> is_deleted e \<or> \<not> valid_size e")
    case True
    with Cons show ?thesis by (auto simp: listed_names_def live_Cons)
  next
    case False
    let ?nm = "prefix @ take (name_size e) (drop 2 e) @ [0]"
    have names: "listed_names prefix (e # es) = ?nm # listed_names prefix es"
      using False by (simp add: listed_names_def live_Cons)
    show ?thesis
    proof (cases "length res + 1 < reslen")
      case True
      with Cons.IH [of "res @ [?nm]"] False Cons.prems assms(1) show ?thesis
        by (simp add: names Let_def)
    next
      case full: False
      then have "length res + 1 = reslen" using Cons.prems by simp
      then have "take reslen (res @ ?nm # listed_names prefix es) = res @ [?nm]" by auto
      with full False Cons.prems assms(1) show ?thesis by (auto simp: names Let_def)
    qed
  qed
qed


context sector_source
begin

lemma FATXListDir_lists:
  assumes "ready d" and "wf_partition p" and "nDriveIndex p = drv" and "length buf = clusterSize p"
    and "chain p n c = Some cs" and "0 \<notin> set prefix" and "length res < reslen"
  shows "\<exists>d'. FATXListDir rd p n buf c reslen (prefix @ 0 # r) res d =
      Some (take reslen (res @ listed_names prefix (dir_entries p (img d) cs)), d')
    \<and> ready d' \<and> img d' = img d"
  using assms(1,4,5,7)
proof (induction n arbitrary: c cs buf res d)
  case (Suc n)
  show ?case
  proof (cases "c = - 1")
    case True
    with Suc.prems show ?thesis by (auto simp: listed_names_def live_def)
  next
    case False
    from Suc.prems(3) False obtain nx cs' where
      nx: "getNextClusterInChain p c = Some nx" "chain p n nx = Some cs'" "cs = c # cs'"
      by (rule chain_SucE)
    obtain d1 where ld: "LoadFATXCluster rd p c buf d = Some (cluster_bytes p (img d) c, d1)"
      and d1: "ready d1" "img d1 = img d"
      using LoadFATXCluster_reads [OF Suc.prems(1) assms(2,3) Suc.prems(2)] by blast
    let ?cl = "cluster_bytes p (img d) c"
    define es where "es = entries (clusterSize p) ?cl"
    let ?res = "res @ listed_names prefix es"
    obtain stop where scan: "list_scan reslen (prefix @ 0 # r) es res = Some (take reslen ?res, stop)"
      "stop \<Longrightarrow> (\<exists>e \<in> set es. checkForLastDirectoryEntry e) \<or> reslen \<le> length ?res"
      "\<not> stop \<Longrightarrow> (\<forall>e \<in> set es. \<not> checkForLastDirectoryEntry e) \<and> length ?res < reslen"
      using list_scan_names [OF assms(6) Suc.prems(4)] by blast
    have all: "dir_entries p (img d) cs = es @ dir_entries p (img d) cs'"
      by (simp add: nx(3) es_def)
    show ?thesis
    proof (cases stop)
      case True
      then have "take reslen ?res =
          take reslen (res @ listed_names prefix (dir_entries p (img d) cs))"
        using scan(2) unfolding all listed_names_append by auto
      with True scan(1) False ld d1 show ?thesis by (auto simp: es_def)
    next
      case no: False
      then have e: "res @ listed_names prefix (dir_entries p (img d) cs) =
          ?res @ listed_names prefix (dir_entries p (img d) cs')"
        using scan(3) unfolding all listed_names_append by auto
      have cl: "length ?cl = clusterSize p" using Suc.prems(1) by simp
      have "length ?res < reslen" using scan(3) no by blast
      from Suc.IH [OF d1(1) cl nx(2) this] no scan(1,3) False ld d1 nx(1)
      show ?thesis unfolding e by (auto simp: es_def)
    qed
  qed
qed simp

lemma dir_scan_lookup:
  assumes "\<forall>e \<in> set es. length e = 64" and "0 \<notin> set nm" and "length nm < 2 ^ 32"
  shows "dir_scan (nm @ 0 # r) es = Some
    (case find (\<lambda>e. valid_size e \<and> name_matches nm e) (live es) of
       Some e \<Rightarrow> Found (Some (if entry_flags e AND FATX_FILEATTR_DIRECTORY \<noteq> 0 then entry_cluster e else - 1))
     | None \<Rightarrow> if \<exists>e \<in> set es. checkForLastDirectoryEntry e then End_of_directory else Next_cluster)"
  using assms(1)
proof (induction es)
  case (Cons e es)
  show ?case
  proof (cases "checkForLastDirectoryEntry e \<or> is_deleted e \<or> \<not> valid_size e")
    case True
    with Cons show ?thesis by (auto simp: live_Cons)
  next
    case False
    then have "name_size e \<le> 42" by (simp add: valid_size_def)
    then obtain r' where f: "foundFilename e = Some (entry_name e @ 0 # r')"
      using foundFilename_string Cons.prems by auto
    have "0 \<notin> set (entry_name e)" by (simp add: entry_name_def takeWhile_nonzero)
    then have "same_name (entry_name e @ 0 # r') (nm @ 0 # r) = Some (name_matches nm e)"
      using assms(2,3) by (simp add: same_name_strings name_matches_def)
    with f False Cons show ?thesis by (auto simp: live_Cons)
  qed
qed (simp add: live_def)

lemma FATXFindDir_lookup:
  assumes "ready d" and "wf_partition p" and "nDriveIndex p = drv" and "length buf = clusterSize p"
    and "chain p n c = Some cs" and "0 \<notin> set nm" and "length nm < 2 ^ 32"
  shows "\<exists>d'. FATXFindDir rd p n buf c (nm @ 0 # r) d =
      Some (map_option (\<lambda>e. if entry_flags e AND FATX_FILEATTR_DIRECTORY \<noteq> 0 then entry_cluster e else - 1)
        (find (\<lambda>e. valid_size e \<and> name_matches nm e) (live (dir_entries p (img d) cs))), d')
    \<and> ready d' \<and> img d' = img d"
  using assms(1,4,5)
proof (induction n arbitrary: c cs buf d)
  case (Suc n)
  show ?case
  proof (cases "c = - 1")
    case True
    with Suc.prems show ?thesis by (auto simp: live_def)
  next
    case False
    from Suc.prems(3) False obtain nx cs' where
      nx: "getNextClusterInChain p c = Some nx" "chain p n nx = Some cs'" "cs = c # cs'"
      by (rule chain_SucE)
    obtain d1 where ld: "LoadFATXCluster rd p c buf d = Some (cluster_bytes p (img d) c, d1)"
      and d1: "ready d1" "img d1 = img d"
      using LoadFATXCluster_reads [OF Suc.prems(1) assms(2,3) Suc.prems(2)] by blast
    let ?cl = "cluster_bytes p (img d) c"
    define es where "es = entries (clusterSize p) ?cl"
    have "\<forall>e \<in> set es. length e = 64"
      using length_entry [of _ "clusterSize p" ?cl] Suc.prems(1) by (simp add: es_def)
    note scan = dir_scan_lookup [OF this assms(6,7), of r]
    have cl: "length ?cl = clusterSize p" using Suc.prems(1) by simp
    have all: "dir_entries p (img d) cs = es @ dir_entries p (img d) cs'"
      by (simp add: nx(3) es_def)
    have find: "find P (as @ bs) = (case find P as of None \<Rightarrow> find P bs | Some e \<Rightarrow> Some e)"
      for P and as bs :: "bytes list" by (induction as) auto
    from Suc.IH [OF d1(1) cl nx(2)] scan False ld d1 nx(1) show ?thesis
      unfolding all live_append
      by (cases "\<exists>e \<in> set es. checkForLastDirectoryEntry e")
        (auto simp: find es_def [symmetric] split: option.splits)
  qed
qed simp

end

section \<open>Opening a partition\<close>

lemma le32_at_magic: "le32_at (0x46 # 0x41 # 0x54 # 0x58 # r) 0 = Some FATX_PARTITION_MAGIC"
  by (simp add: le32_at_def le32_def nth_Cons')

lemma mod_4096_u32: "(w :: u32) mod 4096 = take_bit 12 w"
  by (simp add: take_bit_eq_mod)

lemma take_bit_0_shift: "take_bit n w = 0 \<Longrightarrow> w = push_bit n (drop_bit n w)" for w :: "'a::len word"
  using bits_ident [of n w] by simp

lemma chain_table_whole: "take_bit 12 (chain_table_size count) = 0"
proof -
  have "(w + 1) * 4096 = push_bit 12 (w + 1)" for w :: u32 by (simp add: push_bit_eq_mult)
  then have "take_bit 12 ((w + 1) * 4096) = 0" for w :: u32
    by (simp only: take_bit_push_bit) simp
  then show ?thesis by (auto simp: chain_table_size_def Let_def mod_4096_u32)
qed

lemma cluster1_aligned:
  "(ucast (of_nat FATX_PARTITION_HEADERSIZE + chain_table_size count) :: u64) mod 512 = 0"
proof -
  let ?w = "of_nat FATX_PARTITION_HEADERSIZE + chain_table_size count"
  have "?w = push_bit 12 (1 + drop_bit 12 (chain_table_size count))"
    using take_bit_0_shift [OF chain_table_whole, of count]
    by (simp add: push_bit_add)
  then have "\<not> bit ?w k" if "k < 12" for k using that by (simp add: bit_simps)
  then have "take_bit 9 (ucast ?w :: u64) = 0"
    by (intro bit_word_eqI) (auto simp: bit_simps)
  then show ?thesis by (simp only: mod_512_u64)
qed

text \<open>Every cluster number below the count has its entry inside the table.\<close>

lemma chain_table_covers:
  assumes "unat count < 2 ^ 28"
  shows "unat count * unat (chain_entry_size count) \<le> unat (chain_table_size count)"
proof -
  let ?k = "unat (chain_entry_size count)" and ?s = "count * chain_entry_size count"
  have k: "?k = 4 \<or> ?k = 2" by (simp add: chain_entry_size_def)
  then have lt: "unat count * ?k < 2 ^ 30" using assms by auto
  then have s: "unat ?s = unat count * ?k"
    by (subst unat_mult_lem [THEN iffD1]) auto
  show ?thesis
  proof (cases "?s mod 4096 = 0")
    case True
    then show ?thesis by (simp add: chain_table_size_def Let_def s)
  next
    case False
    have q: "unat (?s div 4096) = unat ?s div 4096" by (simp add: unat_div)
    have q30: "unat ?s div 4096 < 2 ^ 18" using lt s by auto
    have "unat (?s div 4096 + 1) = unat ?s div 4096 + 1"
      using q q30 by (subst unat_add_lem [THEN iffD1]) auto
    then have "unat ((?s div 4096 + 1) * 4096) = (unat ?s div 4096 + 1) * 4096"
      using q30 by (subst unat_mult_lem [THEN iffD1]) auto
    moreover have "unat ?s \<le> (unat ?s div 4096 + 1) * 4096" by simp
    ultimately show ?thesis using False s by (simp add: chain_table_size_def Let_def)
  qed
qed

context sector_source
begin

lemma OpenFATXPartition_opens:
  assumes "ready d" and "\<And>k. length (uninit k) = k" and "take 4 (img d offset) = [0x46, 0x41, 0x54, 0x58]"
  shows "\<exists>p d'. OpenFATXPartition rd uninit drv offset sz d = Some (Some p, d')
    \<and> wf_partition p \<and> nDriveIndex p = drv \<and> clusterCount p = ucast (sz div 0x4000)
    \<and> clusterChainMap p = sectors (img d) (offset + 8) (unat (chain_table_size (clusterCount p)))
    \<and> chainMapEntrySize p = chain_entry_size (clusterCount p)
    \<and> ready d' \<and> img d' = img d"
proof -
  let ?count = "ucast (sz div 0x4000) :: u32" and ?ts = "chain_table_size (ucast (sz div 0x4000))"
  obtain d1 where r1: "FATXRawRead rd drv offset 0 FATX_PARTITION_HEADERSIZE (uninit FATX_PARTITION_HEADERSIZE) d =
      Some (FATX_PARTITION_HEADERSIZE, sectors (img d) offset FATX_PARTITION_HEADERSIZE, d1)"
    and d1: "ready d1" "img d1 = img d"
    using FATXRawRead_reads [OF assms(1), of FATX_PARTITION_HEADERSIZE "uninit FATX_PARTITION_HEADERSIZE" 0 offset]
      assms(2) by auto
  have "sectors (img d) offset FATX_PARTITION_HEADERSIZE =
      img d offset @ sectors (img d) (offset + 1) (FATX_PARTITION_HEADERSIZE - 512)"
    using sector_length [OF assms(1)] by (subst sectors.simps) simp
  moreover have "img d offset = [0x46, 0x41, 0x54, 0x58] @ drop 4 (img d offset)"
    using assms(3) append_take_drop_id [of 4 "img d offset"] by simp
  ultimately have "le32_at (sectors (img d) offset FATX_PARTITION_HEADERSIZE) 0 = Some FATX_PARTITION_MAGIC"
    by (metis append.assoc append_Cons le32_at_magic append_Nil)
  moreover have "of_nat FATX_PARTITION_HEADERSIZE mod 512 = (0 :: u64)" by simp
  then obtain d2 where "FATXRawRead rd drv offset (of_nat FATX_PARTITION_HEADERSIZE) (unat ?ts) (uninit (unat ?ts)) d1 =
      Some (unat ?ts, sectors (img d) (offset + 8) (unat ?ts), d2)" "ready d2" "img d2 = img d"
    using FATXRawRead_reads [OF d1(1), of "unat ?ts" "uninit (unat ?ts)" "of_nat FATX_PARTITION_HEADERSIZE" offset]
      assms(2) d1(2) by auto
  ultimately show ?thesis
    using r1 cluster1_aligned [of ?count]
    by (auto simp: OpenFATXPartition_def wf_partition_def Let_def chain_entry_size_def)
qed

end

section \<open>A small image\<close>

text \<open>
  A reader over an image in memory, and an image whose partition has its header in sector 0, a
  two-byte chain table in sectors 8 to 15 and cluster 1, the root directory, in sector 16. The
  root holds the file \<open>a.b\<close> of 0x4001 bytes in clusters 2 and 3.
\<close>

definition image_reader :: "(u32 \<Rightarrow> bytes) reader" where
  "image_reader drive s off old d = Some (0, take (length old) (drop off (d s)), d)"

definition demo_entry :: bytes where
  "demo_entry = [3, 0, 0x61, 0x2e, 0x62] @ replicate 39 0xff @ [2, 0, 0, 0, 1, 0x40, 0, 0] @ replicate 12 0"

definition demo_image :: "u32 \<Rightarrow> bytes" where
  "demo_image s =
     (if s = 0 then [0x46, 0x41, 0x54, 0x58] @ replicate 508 0
      else if s = 8 then [0xf8, 0xff, 0xff, 0xff, 3, 0, 0xff, 0xff] @ replicate 504 0
      else if s = 16 then demo_entry @ replicate 448 0xff
      else replicate 512 (ucast s))"

definition demo_partition :: FATXPartition where
  "demo_partition = \<lparr>nDriveIndex = 0, partitionStart = 0, partitionSize = 0x10000,
     clusterSize = 0x4000, clusterCount = 4, chainMapEntrySize = 2,
     clusterChainMap = [0xf8, 0xff, 0xff, 0xff, 3, 0, 0xff, 0xff],
     cluster1Address = 0x2000\<rparr>"

definition good_image :: "(u32 \<Rightarrow> bytes) \<Rightarrow> bool" where
  "good_image d \<longleftrightarrow> (\<forall>s. length (d s) = 512)"

interpretation demo: sector_source image_reader drv "\<lambda>d. d" good_image for drv
  by unfold_locales (auto simp: image_reader_def good_image_def)

lemma demo_good: "good_image demo_image"
  by (simp add: good_image_def demo_image_def demo_entry_def)

lemma demo_wf: "wf_partition demo_partition" "nDriveIndex demo_partition = 0"
  by (simp_all add: wf_partition_def demo_partition_def)

lemma demo_next:
  "getNextClusterInChain demo_partition 1 = Some (- 1)"
  "getNextClusterInChain demo_partition 2 = Some 3"
  "getNextClusterInChain demo_partition 3 = Some (- 1)"
  by (simp_all add: getNextClusterInChain_def demo_partition_def le16_at_def le16_def nth_Cons'
      word_sless_alt)

lemma demo_chain:
  "chain demo_partition 4 1 = Some [1]" "chain demo_partition 4 2 = Some [2, 3]"
proof -
  have "(4 :: nat) = Suc (Suc (Suc (Suc 0)))" by simp
  then show "chain demo_partition 4 1 = Some [1]" "chain demo_partition 4 2 = Some [2, 3]"
    by (simp_all only: chain.simps demo_next bind.bind_lunit) simp_all
qed

lemma entries_Cons:
  assumes "64 \<le> sz"
  shows "\<exists>r. entries sz data = take 64 data # r"
proof -
  have "0 < sz div 64" using assms by (simp add: div_greater_zero_iff)
  then have "[0..<sz div 64] = 0 # [1..<sz div 64]" by (simp add: upt_conv_Cons)
  then show ?thesis by (simp add: entries_def slice_def)
qed

lemma demo_root: "\<exists>r. dir_entries demo_partition demo_image [1] = demo_entry # r"
proof -
  let ?cl = "cluster_bytes demo_partition demo_image 1"
  have "?cl = demo_image 16 @ sectors demo_image 17 (0x4000 - 512)"
    using demo_good by (simp add: cluster_bytes_def demo_partition_def sectors.simps [of demo_image 16]
        good_image_def)
  then have "take 64 ?cl = demo_entry"
    by (simp add: demo_image_def demo_entry_def)
  with entries_Cons [of "0x4000" ?cl] show ?thesis by (auto simp: demo_partition_def)
qed

lemma demo_lookup: "lookup_hit [0x41, 0x2e, 0x42] False (dir_entries demo_partition demo_image [1]) = File 2 0x4001"
proof -
  obtain r where r: "dir_entries demo_partition demo_image [1] = demo_entry # r" using demo_root by blast
  have nth: "demo_entry ! 0 = 3" "demo_entry ! Suc 0 = 0" "demo_entry ! 0x2c = 2" "demo_entry ! 0x2d = 0"
    "demo_entry ! 0x2e = 0" "demo_entry ! 0x2f = 0" "demo_entry ! 0x30 = 1" "demo_entry ! 0x31 = 0x40"
    "demo_entry ! 0x32 = 0" "demo_entry ! 0x33 = 0"
    by (simp_all add: demo_entry_def nth_append nth_Cons')
  have "\<not> checkForLastDirectoryEntry demo_entry" "\<not> is_deleted demo_entry" "name_size demo_entry = 3"
    by (simp_all add: checkForLastDirectoryEntry_def is_deleted_def name_size_def nth)
  moreover from this have "entry_name demo_entry = [0x61, 0x2e, 0x62]"
    by (simp add: entry_name_def) (simp add: demo_entry_def numeral_3_eq_3)
  moreover have "entry_flags demo_entry = 0" "entry_cluster demo_entry = 2" "entry_fileSize demo_entry = 0x4001"
    by (simp_all add: entry_flags_def entry_cluster_def entry_fileSize_def nth le32_def)
  ultimately show ?thesis
    unfolding r by (simp add: lookup_hit_def live_Cons valid_size_def name_matches_def hit_of_def lower8_def)
qed

lemma demo_resolve:
  "resolve demo_partition 4 demo_image (path_components [0x5c, 0x41, 0x2e, 0x42]) 1 = Some (Some (2, 0x4001))"
  by (simp add: path_components_def slash_def demo_chain demo_lookup del: dir_entries_simps)

lemma not_negative: "c < 0x80000000 \<Longrightarrow> \<not> (c :: u32) <s 0"
proof -
  assume "c < 0x80000000"
  then have "uint c < 2 ^ 31" by (simp add: word_less_def)
  moreover have "- (2 ^ 31) \<le> uint c" by (rule order_trans [of _ 0]) simp_all
  ultimately have "signed_take_bit 31 (uint c) = uint c"
    by (intro signed_take_bit_int_eq_self)
  then have "sint c = uint c" by (simp add: sint_uint)
  then show ?thesis by (simp add: word_sless_alt)
qed

section \<open>Properties\<close>

text \<open>C13. Path lookup: on every sector source, \<open>FATXFindFile\<close> agrees with the walk over the
  components of the path (slashes and backslashes separate, leading ones are skipped) in the
  directories of the image. It returns true exactly when the walk finds a file, fills in its
  cluster, size and name, and otherwise leaves the file info as it was.\<close>

theorem FATXFindFile_refines:
  assumes "sector_source rd drv img ready" and "ready d"
    and "wf_partition p" and "nDriveIndex p = drv" and "length stk = clusterSize p"
    and "0 \<notin> set s" and "length (fi_filename fi) = 44"
    and "resolve p n (img d) (path_components s) c = Some res"
  shows "\<exists>fi' d'. FATXFindFile rd p n stk (s @ 0 # r) c fi d =
      Some (res \<noteq> None, map slash s @ 0 # r, fi', d')
    \<and> found_file fi res (last (path_components s)) fi' \<and> ready d' \<and> img d' = img d"
  using sector_source.FATXFindFile_resolves [OF assms] .

definition blank_fileinfo :: FATXFILEINFO where
  "blank_fileinfo = \<lparr>fi_filename = replicate 44 0, fi_clusterId = 0, fi_fileSize = 0,
     fi_fileRead = 0, fi_buffer = []\<rparr>"

theorem FATXFindFile_refines_witness:
  "\<exists>fi d. FATXFindFile image_reader demo_partition 4 (replicate 0x4000 0) ([0x5c, 0x41, 0x2e, 0x42] @ 0 # [])
      1 blank_fileinfo demo_image = Some (True, [0x2f, 0x41, 0x2e, 0x42, 0], fi, d)
    \<and> fi_clusterId fi = 2 \<and> fi_fileSize fi = 0x4001"
  using FATXFindFile_refines [where img = "\<lambda>d. d", OF demo.sector_source_axioms demo_good demo_wf _ _ _ demo_resolve,
      of "replicate 0x4000 0" blank_fileinfo "[]"]
  by (auto simp: found_file_def blank_fileinfo_def slash_def demo_partition_def)

text \<open>C14. Loading a file: when the walk finds a file whose cluster chain ends and holds its size,
  \<open>LoadFATXFile\<close> returns true with exactly the first \<open>fileSize\<close> bytes of the chain's clusters in
  the buffer.\<close>

theorem LoadFATXFile_content:
  assumes "sector_source rd drv img ready" and "ready d"
    and "wf_partition p" and "nDriveIndex p = drv" and "length stk = clusterSize p"
    and "0 \<notin> set s" and "length (fi_filename fi) = 44"
    and "resolve p n (img d) (path_components s) FATX_ROOT_FAT_CLUSTER = Some (Some (c, sz))"
    and "chain p n c = Some cs" and "unat sz \<le> length (chain_bytes p (img d) cs)"
  shows "\<exists>fi' d'. LoadFATXFile rd (Some p) n stk (s @ 0 # r) fi d = Some (True, fi', d')
    \<and> fi_buffer fi' = take (unat sz) (chain_bytes p (img d) cs) \<and> fi_fileSize fi' = sz
    \<and> ready d' \<and> img d' = img d"
  using sector_source.LoadFATXFile_loads [OF assms] .

lemma demo_length: "length (chain_bytes demo_partition demo_image [2, 3]) = 0x8000"
  using demo.length_cluster_bytes [OF demo_good, of demo_partition]
  by (simp add: demo_partition_def)

theorem LoadFATXFile_content_witness:
  "\<exists>fi d. LoadFATXFile image_reader (Some demo_partition) 4 (replicate 0x4000 0)
      ([0x5c, 0x41, 0x2e, 0x42] @ 0 # []) blank_fileinfo demo_image = Some (True, fi, d)
    \<and> fi_buffer fi = take (unat (0x4001 :: u32)) (chain_bytes demo_partition demo_image [2, 3])"
  using LoadFATXFile_content [where img = "\<lambda>d. d", OF demo.sector_source_axioms demo_good demo_wf _ _ _ demo_resolve
      demo_chain(2), of "replicate 0x4000 0" blank_fileinfo "[]"] demo_length
  by (auto simp: blank_fileinfo_def demo_partition_def)

text \<open>Listing: \<open>FATXListDir\<close> hands out, in directory order and up to the size of the caller's
  array, the prefixed names of the entries in force that have a valid size.\<close>

lemma FATXListDir_names:
  assumes "sector_source rd drv img ready" and "ready d"
    and "wf_partition p" and "nDriveIndex p = drv" and "length stk = clusterSize p"
    and "chain p n c = Some cs" and "0 \<notin> set prefix" and "length res < reslen"
  shows "\<exists>d'. FATXListDir rd p n stk c reslen (prefix @ 0 # r) res d =
      Some (take reslen (res @ listed_names prefix (dir_entries p (img d) cs)), d')
    \<and> ready d' \<and> img d' = img d"
  using sector_source.FATXListDir_lists [OF assms] .

lemma FATXListDir_names_witness:
  "\<exists>d. FATXListDir image_reader demo_partition 4 (replicate 0x4000 0) 1 8 ([0x2f] @ 0 # []) [] demo_image =
      Some (take 8 (listed_names [0x2f] (dir_entries demo_partition demo_image [1])), d)"
  using FATXListDir_names [where img = "\<lambda>d. d", OF demo.sector_source_axioms demo_good demo_wf _ demo_chain(1),
      of "replicate 0x4000 0" "[0x2f]" "[]" 8 "[]"]
  by (auto simp: demo_partition_def)

text \<open>\<open>FATXFindDir\<close> returns the cluster of the first entry with the name when it is a directory
  and \<open>-1\<close> when it is a file; when no entry has the name, it returns without a value, so its
  caller compares an indeterminate value with \<open>-1\<close>.\<close>

lemma FATXFindDir_value:
  assumes "sector_source rd drv img ready" and "ready d"
    and "wf_partition p" and "nDriveIndex p = drv" and "length stk = clusterSize p"
    and "chain p n c = Some cs" and "0 \<notin> set nm" and "length nm < 2 ^ 32"
  shows "\<exists>d'. FATXFindDir rd p n stk c (nm @ 0 # r) d =
      Some (case find (\<lambda>e. valid_size e \<and> name_matches nm e) (live (dir_entries p (img d) cs)) of
          None \<Rightarrow> None
        | Some e \<Rightarrow> Some (if entry_flags e AND FATX_FILEATTR_DIRECTORY \<noteq> 0 then entry_cluster e else - 1), d')
    \<and> ready d' \<and> img d' = img d"
  using sector_source.FATXFindDir_lookup [OF assms] unfolding map_option_case .

lemma FATXFindDir_value_witness:
  "\<exists>d. FATXFindDir image_reader demo_partition 4 (replicate 0x4000 0) (- 1) ([0x42] @ 0 # []) demo_image =
      Some (None, d)"
proof -
  have "chain demo_partition 4 (- 1) = Some []"
    by (simp only: chain.simps numeral_eq_Suc pred_numeral_simps) simp
  then show ?thesis
    using FATXFindDir_value [where img = "\<lambda>d. d", OF demo.sector_source_axioms demo_good demo_wf _,
        of "replicate 0x4000 0" 4 "- 1" "[]" "[0x42]" "[]"]
    by (auto simp: demo_partition_def live_def)
qed

text \<open>C37. Opening: when the first sector at the offset starts with the letters FATX, a partition is
  opened; its clusters lie on whole sectors, its chain map is what the disk holds from sector 8
  of the partition on, and for partitions below \<open>2 ^ 42\<close> bytes every cluster number below the count
  has its entry inside the chain map.\<close>

theorem OpenFATXPartition_wf:
  assumes "sector_source rd drv img ready" and "ready d"
    and "\<And>k. length (uninit k) = k" and "take 4 (img d offset) = [0x46, 0x41, 0x54, 0x58]"
    and "unat sz < 2 ^ 42"
  shows "\<exists>p d'. OpenFATXPartition rd uninit drv offset sz d = Some (Some p, d')
    \<and> wf_partition p \<and> nDriveIndex p = drv
    \<and> clusterChainMap p = sectors (img d) (offset + 8) (unat (chain_table_size (clusterCount p)))
    \<and> (\<forall>c. c < clusterCount p \<and> c < 0x80000000 \<longrightarrow> getNextClusterInChain p c \<noteq> None)
    \<and> ready d' \<and> img d' = img d"
proof -
  obtain p d' where p: "OpenFATXPartition rd uninit drv offset sz d = Some (Some p, d')"
    "wf_partition p" "nDriveIndex p = drv" "clusterCount p = ucast (sz div 0x4000)"
    "clusterChainMap p = sectors (img d) (offset + 8) (unat (chain_table_size (clusterCount p)))"
    "chainMapEntrySize p = chain_entry_size (clusterCount p)" "ready d'" "img d' = img d"
    using sector_source.OpenFATXPartition_opens [OF assms(1-4)] by blast
  have "unat (sz div 0x4000) < 2 ^ 28" using assms(5) by (simp add: unat_div)
  moreover have "unat (ucast (sz div 0x4000) :: u32) \<le> unat (sz div 0x4000)"
    by (simp add: unsigned_ucast_eq take_bit_nat_less_eq_self)
  ultimately have "unat (clusterCount p) < 2 ^ 28" unfolding p(4) by linarith
  then have cover: "unat (clusterCount p) * unat (chain_entry_size (clusterCount p)) \<le> length (clusterChainMap p)"
    using chain_table_covers sector_source.sector_length [OF assms(1,2)]
    by (simp add: p(5) length_sectors)
  have "getNextClusterInChain p c \<noteq> None" if c: "c < clusterCount p" "c < 0x80000000" for c
  proof -
    have s: "\<not> c <s 0" using c(2) by (rule not_negative)
    have "unat c < unat (clusterCount p)" using c(1) by (simp add: word_less_nat_alt)
    then have "(unat c + 1) * unat (chainMapEntrySize p) \<le> length (clusterChainMap p)"
      using cover p(6) by (metis Suc_eq_plus1 Suc_leI le_trans mult_le_mono1)
    note entry = this
    from p(2) consider "chainMapEntrySize p = 2" | "chainMapEntrySize p = 4"
      by (auto simp: wf_partition_def)
    then show ?thesis
    proof cases
      case 1
      then have "2 * unat c + 1 < length (clusterChainMap p)" using entry by simp
      with 1 s show ?thesis by (simp add: getNextClusterInChain_def le16_at_def Let_def)
    next
      case 2
      then have "4 * unat c + 3 < length (clusterChainMap p)" using entry by simp
      with 2 s show ?thesis by (simp add: getNextClusterInChain_def le32_at_def)
    qed
  qed
  with p show ?thesis by blast
qed

theorem OpenFATXPartition_wf_witness:
  "\<exists>p d. OpenFATXPartition image_reader (\<lambda>k. replicate k 0) 0 0 0x10000 demo_image = Some (Some p, d)
    \<and> wf_partition p"
proof -
  have "take 4 (demo_image 0) = [0x46, 0x41, 0x54, 0x58]" by (simp add: demo_image_def)
  from OpenFATXPartition_wf [where img = "\<lambda>d. d", OF demo.sector_source_axioms demo_good _ this,
      of "\<lambda>k. replicate k 0" "0x10000" 0]
  show ?thesis by auto
qed

text \<open>The directory dump has no size check behind its warning: an entry in force whose size
  byte is 50 or more (and is not the mark of a deleted entry) makes it write outside its local
  name buffer, where listing and search skip or refuse the entry.\<close>

lemma DumpFATXTree_overflows:
  assumes "50 \<le> name_size e" and "\<not> checkForLastDirectoryEntry e" and "\<not> is_deleted e"
  shows "dump_scan (e # es) = None \<and> list_scan n prefix (e # es) res = list_scan n prefix es res"
  using assms
  by (auto simp: foundFilename_def memcpy_def put_bytes_def valid_size_def)

lemma DumpFATXTree_overflows_witness:
  "dump_scan [replicate 64 60] = None"
  using DumpFATXTree_overflows [of "replicate 64 60" "[]"]
  by (simp add: name_size_def checkForLastDirectoryEntry_def is_deleted_def)

end
