(* ===== verification/Iso9660.thy ===== *)
theory Iso9660
  imports Fatx
begin

text \<open>
  The ISO 9660 reader of \<open>fs/cdrom/iso9660.c\<close>: file names, directory search, reading a file.

  The sector reader is that of \<open>Fatx\<close>, here asked for whole blocks of 2048 bytes; its error code
  is looked at for the volume descriptor only. Directory records are the bytes of the block.
  \<open>uninit k\<close> is what a fresh heap object of \<open>k\<close> bytes holds.
\<close>

abbreviation (input) "ISO_BLOCKSIZE \<equiv> 2048 :: nat"

section \<open>Names\<close>

definition isupper :: "u32 \<Rightarrow> bool" where
  "isupper ch \<longleftrightarrow> ch - 65 < 26"

text \<open>\<open>strip_blank\<close>: blanks are cleared from index \<open>len\<close> down to index 1.\<close>

fun strip_blank :: "bytes \<Rightarrow> nat \<Rightarrow> bytes option" where
  "strip_blank buffer 0 = Some buffer"
| "strip_blank buffer (Suc i) =
     (if length buffer \<le> Suc i then None
      else if buffer ! Suc i \<noteq> 0x20 then Some buffer
      else strip_blank (buffer[Suc i := 0]) i)"

text \<open>One character of \<open>iso9660_name_translate\<close>: \<open>None\<close> inside says that the loop ends here.\<close>

definition translate_char :: "bytes \<Rightarrow> nat \<Rightarrow> nat \<Rightarrow> u8 option option" where
  "translate_char old len i = do {
     c \<leftarrow> byte_at old i;
     if c = 0 then Some None
     else do {
       let c = (if isupper (ucast c) then ucast (tolower (ucast c)) else c);
       dot \<leftarrow> (if c = 0x2e \<and> 3 \<le> len \<and> i = len - 3
               then do { a \<leftarrow> byte_at old (i + 1);
                         if a = 0x3b then do { b \<leftarrow> byte_at old (i + 2); Some (b = 0x31) } else Some False }
               else Some False);
       if dot then Some None
       else do {
         semi \<leftarrow> (if c = 0x3b \<and> 2 \<le> len \<and> i = len - 2
                  then do { a \<leftarrow> byte_at old (i + 1); Some (a = 0x31) } else Some False);
         if semi then Some None else Some (Some (if c = 0x3b then 0x2e else c)) } } }"

fun translate_from :: "bytes \<Rightarrow> nat \<Rightarrow> nat list \<Rightarrow> bytes option" where
  "translate_from old len [] = Some []"
| "translate_from old len (i # is) =
     (case translate_char old len i of
        None \<Rightarrow> None
      | Some None \<Rightarrow> Some []
      | Some (Some c) \<Rightarrow> map_option ((#) c) (translate_from old len is))"

text \<open>The translated characters; the code writes them and a terminator and returns their number.\<close>

definition iso9660_name_translate :: "bytes \<Rightarrow> nat \<Rightarrow> bytes option" where
  "iso9660_name_translate old len = translate_from old len [0..<len]"

section \<open>Directories\<close>

definition rec_at :: "bytes \<Rightarrow> nat \<Rightarrow> bytes option" where
  "rec_at buffer off = (if off + 33 \<le> length buffer then Some (drop off buffer) else None)"

definition rec_extent :: "bytes \<Rightarrow> u32" where "rec_extent r = le32 (r ! 2) (r ! 3) (r ! 4) (r ! 5)"
definition rec_size :: "bytes \<Rightarrow> u32" where "rec_size r = le32 (r ! 10) (r ! 11) (r ! 12) (r ! 13)"
definition rec_is_dir :: "bytes \<Rightarrow> bool" where "rec_is_dir r \<longleftrightarrow> r ! 25 AND 2 \<noteq> 0"
definition rec_name_len :: "bytes \<Rightarrow> nat" where "rec_name_len r = unat (r ! 32)"

text \<open>Blocks of an extent, read one after the other into a buffer; errors are not looked at.\<close>

fun read_blocks :: "'d reader \<Rightarrow> u32 \<Rightarrow> u32 \<Rightarrow> nat \<Rightarrow> nat \<Rightarrow> bytes \<Rightarrow> 'd \<Rightarrow> (bytes \<times> 'd) option" where
  "read_blocks rd drive off i 0 buffer d = Some (buffer, d)"
| "read_blocks rd drive off i (Suc k) buffer d =
     (case rd drive off 0 (slice (i * ISO_BLOCKSIZE) ISO_BLOCKSIZE buffer) d of
        None \<Rightarrow> None
      | Some (e, new, d) \<Rightarrow>
          (case put_bytes buffer (i * ISO_BLOCKSIZE) new of
             None \<Rightarrow> None
           | Some buffer \<Rightarrow> read_blocks rd drive (off + 1) (Suc i) k buffer d))"

datatype iso_scan = Not_found | Hit bytes | Descend bytes bytes

text \<open>The loop over the records: \<open>newfilename\<close> is the string of the last record that set it. The
  string buffer has 1024 bytes, which were cleared.\<close>

function scan_records ::
  "bytes \<Rightarrow> nat \<Rightarrow> nat \<Rightarrow> bytes \<Rightarrow> bytes \<Rightarrow> bytes \<Rightarrow> iso_scan option" where
  "scan_records buffer read_size off search filename newfilename =
     (if read_size \<le> off then Some Not_found
      else case byte_at buffer off of
        None \<Rightarrow> None
      | Some len \<Rightarrow>
          if len = 0
          then scan_records buffer read_size ((off + ISO_BLOCKSIZE) div ISO_BLOCKSIZE * ISO_BLOCKSIZE)
                 search filename newfilename
          else (case rec_at buffer off of
            None \<Rightarrow> None
          | Some r \<Rightarrow>
            (case (case byte_at r 33 of
                     None \<Rightarrow> None
                   | Some c \<Rightarrow>
                       if c \<noteq> 0 \<and> c \<noteq> 1
                       then map_option (\<lambda>t. filename @ 0x2f # t) (iso9660_name_translate (drop 33 r) (rec_name_len r))
                       else Some newfilename) of
               None \<Rightarrow> None
             | Some newfilename \<Rightarrow>
                 if 1024 \<le> length newfilename then None
                 else if newfilename = search then Some (Hit (take 33 r))
                 else if rec_is_dir r \<and> 1 < rec_name_len r \<and> length newfilename < length search
                   \<and> take (length newfilename) search = newfilename
                   \<and> search ! length newfilename = 0x2f
                 then Some (Descend (take 33 r) newfilename)
                 else scan_records buffer read_size (off + unat len) search filename newfilename)))"
  by pat_completeness auto
termination
proof (relation "measure (\<lambda>(buffer, read_size, off, s, f, n). read_size - off)", goal_cases)
  case (2 buffer read_size off)
  have "off < (off + 2048) div 2048 * 2048" by (simp add: div_add_self2)
  with 2 show ?case by simp
next
  case (3 buffer read_size off)
  then show ?case by (auto simp: unat_gt_0 intro!: diff_less_mono2)
qed simp

declare scan_records.simps [simp del]

text \<open>\<open>read_dir\<close>: the recursion follows \<open>Descend\<close> and may not end on a damaged image. The result is
  the sector (0 when not found) and the record found.\<close>

partial_function (option) read_dir ::
  "'d reader \<Rightarrow> (nat \<Rightarrow> bytes) \<Rightarrow> u32 \<Rightarrow> u32 \<Rightarrow> u32 \<Rightarrow> bytes \<Rightarrow> bytes \<Rightarrow> 'd
     \<Rightarrow> (u32 \<times> bytes option \<times> 'd) option" where
  "read_dir rd uninit drive extent sz search filename d =
     (case read_blocks rd drive extent 0 (unat sz div ISO_BLOCKSIZE) (uninit (unat sz)) d of
        None \<Rightarrow> None
      | Some (buffer, d) \<Rightarrow>
          (case scan_records buffer (unat sz) 0 search filename [] of
             None \<Rightarrow> None
           | Some scan \<Rightarrow>
               (case scan of
                  Not_found \<Rightarrow> Some (0, None, d)
                | Hit r \<Rightarrow> Some (rec_extent r, Some r, d)
                | Descend r newfilename \<Rightarrow>
                    read_dir rd uninit drive (rec_extent r) (rec_size r) search newfilename d)))"

section \<open>Files\<close>

text \<open>The limit is used as a pointer when it is not greater than the size: no defined result.\<close>

definition read_amount :: "u32 \<Rightarrow> u32 \<Rightarrow> u32 option" where
  "read_amount max_bytes sz = (if max_bytes > sz then Some sz else None)"

definition round_up :: "u32 \<Rightarrow> u32" where
  "round_up n = (if n \<le> 2048 then 2048 else n + (2048 - n mod 2048))"

text \<open>One block through the cleared temporary buffer.\<close>

fun copy_blocks :: "'d reader \<Rightarrow> u32 \<Rightarrow> u32 \<Rightarrow> nat \<Rightarrow> nat \<Rightarrow> bytes \<Rightarrow> 'd \<Rightarrow> (bytes \<times> 'd) option" where
  "copy_blocks rd drive off i 0 buffer d = Some (buffer, d)"
| "copy_blocks rd drive off i (Suc k) buffer d =
     (case rd drive off 0 (replicate ISO_BLOCKSIZE 0) d of
        None \<Rightarrow> None
      | Some (e, tmp, d) \<Rightarrow>
          (case put_bytes buffer (i * ISO_BLOCKSIZE) tmp of
             None \<Rightarrow> None
           | Some buffer \<Rightarrow> copy_blocks rd drive (off + 1) (Suc i) k buffer d))"

definition read_file :: "'d reader \<Rightarrow> u32 \<Rightarrow> bytes \<Rightarrow> bytes \<Rightarrow> u32 \<Rightarrow> 'd \<Rightarrow> (u32 \<times> bytes \<times> 'd) option" where
  "read_file rd drive rec buffer max_bytes d =
     (case read_amount max_bytes (rec_size rec) of
        None \<Rightarrow> None
      | Some n \<Rightarrow>
          (case copy_blocks rd drive (rec_extent rec) 0 (unat (round_up n) div ISO_BLOCKSIZE) buffer d of
             None \<Rightarrow> None
           | Some (buffer, d) \<Rightarrow> Some (n, buffer, d)))"

definition BootIso9660GetFile ::
  "'d reader \<Rightarrow> (nat \<Rightarrow> bytes) \<Rightarrow> u32 \<Rightarrow> bytes \<Rightarrow> bytes \<Rightarrow> u32 \<Rightarrow> 'd \<Rightarrow> (u32 \<times> bytes \<times> 'd) option" where
  "BootIso9660GetFile rd uninit drive path pbaFile max_bytes d =
     (case rd drive 16 0 (replicate ISO_BLOCKSIZE 0) d of
        None \<Rightarrow> None
      | Some (e, pvd, d) \<Rightarrow>
          if e \<noteq> 0 then Some (- 1, pbaFile, d)
          else
            (let root = drop 156 pvd in
             case read_dir rd uninit drive (rec_extent root) (rec_size root) path [] d of
               None \<Rightarrow> None
             | Some (off, rec, d) \<Rightarrow>
                 (case rec of
                    Some r \<Rightarrow> if off > 0 then read_file rd drive r pbaFile max_bytes d
                              else Some (- 1, pbaFile, d)
                  | None \<Rightarrow> Some (- 1, pbaFile, d))))"

end
