(* ===== verification/IsoCorrect.thy ===== *)
theory IsoCorrect
  imports Iso9660
begin

text \<open>
  What the ISO 9660 reader computes, on every drive that hands out the blocks of a disc.

  \<open>block_source\<close> is the contract of the block reader. The specification frames a directory into
  its records (\<open>dir_records\<close>), picks the record of a path component (\<open>iso_child\<close>) and walks the
  components (\<open>iso_walk\<close>); the code compares path prefixes instead, and the lemmas show that this
  is the same for names without a slash.
\<close>

section \<open>The contract of the drive\<close>

locale block_source =
  fixes rd :: "'d reader" and drv :: u32 and blk :: "'d \<Rightarrow> u32 \<Rightarrow> bytes" and ready :: "'d \<Rightarrow> bool"
  assumes block_length: "ready d \<Longrightarrow> length (blk d s) = 2048"
    and block_read: "ready d \<Longrightarrow> length old = 2048 \<Longrightarrow>
      \<exists>d'. rd drv s 0 old d = Some (0, blk d s, d') \<and> ready d' \<and> blk d' = blk d"

primrec blocks :: "(u32 \<Rightarrow> bytes) \<Rightarrow> u32 \<Rightarrow> nat \<Rightarrow> bytes" where
  "blocks f s 0 = []"
| "blocks f s (Suc k) = f s @ blocks f (s + 1) k"

lemma length_blocks: "(\<And>s. length (f s) = 2048) \<Longrightarrow> length (blocks f s k) = k * 2048"
  by (induction k arbitrary: s) auto

context block_source
begin

lemma read_blocks_reads:
  assumes "ready d" and "(i + k) * 2048 \<le> length buf"
  shows "\<exists>d'. read_blocks rd drv off i k buf d =
      Some (take (i * 2048) buf @ blocks (blk d) off k @ drop ((i + k) * 2048) buf, d')
    \<and> ready d' \<and> blk d' = blk d"
  using assms
proof (induction k arbitrary: off i buf d)
  case 0
  then show ?case by simp
next
  case (Suc k)
  have len: "length (blk d off) = 2048" by (rule block_length [OF Suc.prems(1)])
  obtain d1 where r: "rd drv off 0 (slice (i * 2048) 2048 buf) d = Some (0, blk d off, d1)"
    and d1: "ready d1" "blk d1 = blk d"
    using block_read [OF Suc.prems(1), of "slice (i * 2048) 2048 buf" off] Suc.prems(2) by auto
  let ?b = "take (i * 2048) buf @ blk d off @ drop (i * 2048 + 2048) buf"
  have put: "put_bytes buf (i * 2048) (blk d off) = Some ?b"
    using Suc.prems(2) by (simp add: put_bytes_Some len)
  have "(Suc i + k) * 2048 \<le> length ?b" using Suc.prems(2) len by simp
  from Suc.IH [OF d1(1) this, of "off + 1"] obtain d2 where
    "read_blocks rd drv (off + 1) (Suc i) k ?b d1 =
       Some (take (Suc i * 2048) ?b @ blocks (blk d) (off + 1) k @ drop ((Suc i + k) * 2048) ?b, d2)"
    and d2: "ready d2" "blk d2 = blk d"
    by (auto simp: d1(2))
  moreover have "take (Suc i * 2048) ?b = take (i * 2048) buf @ blk d off"
    using Suc.prems(2) len by simp
  moreover have "drop ((Suc i + k) * 2048) ?b = drop ((i + Suc k) * 2048) buf"
    using Suc.prems(2) len by (simp add: algebra_simps)
  ultimately show ?case using r put d2 by simp
qed

lemma copy_blocks_reads:
  assumes "ready d" and "(i + k) * 2048 \<le> length buf"
  shows "\<exists>d'. copy_blocks rd drv off i k buf d =
      Some (take (i * 2048) buf @ blocks (blk d) off k @ drop ((i + k) * 2048) buf, d')
    \<and> ready d' \<and> blk d' = blk d"
  using assms
proof (induction k arbitrary: off i buf d)
  case 0
  then show ?case by simp
next
  case (Suc k)
  have len: "length (blk d off) = 2048" by (rule block_length [OF Suc.prems(1)])
  obtain d1 where r: "rd drv off 0 (replicate 2048 0) d = Some (0, blk d off, d1)"
    and d1: "ready d1" "blk d1 = blk d"
    using block_read [OF Suc.prems(1), of "replicate 2048 0" off] by auto
  let ?b = "take (i * 2048) buf @ blk d off @ drop (i * 2048 + 2048) buf"
  have put: "put_bytes buf (i * 2048) (blk d off) = Some ?b"
    using Suc.prems(2) by (simp add: put_bytes_Some len)
  have "(Suc i + k) * 2048 \<le> length ?b" using Suc.prems(2) len by simp
  from Suc.IH [OF d1(1) this, of "off + 1"] obtain d2 where
    "copy_blocks rd drv (off + 1) (Suc i) k ?b d1 =
       Some (take (Suc i * 2048) ?b @ blocks (blk d) (off + 1) k @ drop ((Suc i + k) * 2048) ?b, d2)"
    and d2: "ready d2" "blk d2 = blk d"
    by (auto simp: d1(2))
  moreover have "take (Suc i * 2048) ?b = take (i * 2048) buf @ blk d off"
    using Suc.prems(2) len by simp
  moreover have "drop ((Suc i + k) * 2048) ?b = drop ((i + Suc k) * 2048) buf"
    using Suc.prems(2) len by (simp add: algebra_simps)
  ultimately show ?case using r put d2 by simp
qed

end

section \<open>Rounding\<close>

lemma round_up_spec:
  assumes "unat n < 2 ^ 32 - 2048"
  shows "2048 dvd unat (round_up n)" and "unat n \<le> unat (round_up n)"
    and "unat (round_up n) \<le> unat n + 2048"
proof -
  have "2048 dvd unat (round_up n) \<and> unat n \<le> unat (round_up n) \<and> unat (round_up n) \<le> unat n + 2048"
  proof (cases "n \<le> 2048")
    case True
    then show ?thesis by (simp add: round_up_def word_le_nat_alt)
  next
    case False
    have m: "unat (n mod 2048) = unat n mod 2048" by (simp add: unat_mod)
    have lt: "unat n mod 2048 < 2048" by simp
    have le: "n mod 2048 \<le> 2048" using m lt by (simp add: word_le_nat_alt)
    have s: "unat (2048 - n mod 2048) = 2048 - unat n mod 2048"
      using unat_sub [OF le] m by simp
    have "unat (n + (2048 - n mod 2048)) = unat n + (2048 - unat n mod 2048)"
      using assms lt by (subst unat_add_lem [THEN iffD1]) (simp_all add: s)
    moreover have "2048 dvd unat n + (2048 - unat n mod 2048)"
    proof -
      define q m where "q = unat n div 2048" and "m = unat n mod 2048"
      have n: "unat n = 2048 * q + m" by (simp add: q_def m_def)
      have "m < 2048" by (simp add: m_def)
      then have "2048 * q + m + (2048 - m) = 2048 * (q + 1)" by simp
      then show ?thesis by (simp only: m_def [symmetric]) (simp add: n)
    qed
    ultimately show ?thesis using False lt by (simp add: round_up_def)
  qed
  then show "2048 dvd unat (round_up n)" and "unat n \<le> unat (round_up n)"
    and "unat (round_up n) \<le> unat n + 2048" by auto
qed

section \<open>Specification of the directory tree\<close>

text \<open>The records of a directory: a zero length byte skips to the next block.\<close>

function dir_records :: "bytes \<Rightarrow> nat \<Rightarrow> nat \<Rightarrow> bytes list option" where
  "dir_records buffer sz off =
     (if sz \<le> off then Some []
      else case byte_at buffer off of
        None \<Rightarrow> None
      | Some len \<Rightarrow>
          if len = 0 then dir_records buffer sz ((off + 2048) div 2048 * 2048)
          else if off + 33 \<le> length buffer
          then map_option ((#) (drop off buffer)) (dir_records buffer sz (off + unat len))
          else None)"
  by pat_completeness auto
termination
proof (relation "measure (\<lambda>(buffer, sz, off). sz - off)", goal_cases)
  case (2 buffer sz off)
  have "off < (off + 2048) div 2048 * 2048" by (simp add: div_add_self2)
  with 2 show ?case by simp
next
  case (3 buffer sz off)
  then show ?case by (auto simp: unat_gt_0 intro!: diff_less_mono2)
qed simp

declare dir_records.simps [simp del]

definition named :: "bytes \<Rightarrow> bool" where
  "named r \<longleftrightarrow> r ! 33 \<noteq> 0 \<and> r ! 33 \<noteq> 1"

definition rec_name :: "bytes \<Rightarrow> bytes" where
  "rec_name r = the (iso9660_name_translate (drop 33 r) (rec_name_len r))"

definition wf_rec :: "bytes \<Rightarrow> bool" where
  "wf_rec r \<longleftrightarrow> 33 < length r
     \<and> (if named r then (case iso9660_name_translate (drop 33 r) (rec_name_len r) of
            None \<Rightarrow> False | Some t \<Rightarrow> 0x2f \<notin> set t)
        else rec_name_len r \<le> 1)"

definition iso_child :: "bytes \<Rightarrow> bool \<Rightarrow> bytes list \<Rightarrow> bytes option" where
  "iso_child c final recs =
     find (\<lambda>r. named r \<and> rec_name r = c \<and> (final \<or> rec_is_dir r \<and> 1 < rec_name_len r)) recs"

definition iso_dir :: "(u32 \<Rightarrow> bytes) \<Rightarrow> u32 \<Rightarrow> u32 \<Rightarrow> bytes list option" where
  "iso_dir f extent sz =
     (if 2048 dvd unat sz
      then (case dir_records (blocks f extent (unat sz div 2048)) (unat sz) 0 of
              None \<Rightarrow> None
            | Some recs \<Rightarrow> if list_all wf_rec recs then Some recs else None)
      else None)"

text \<open>The walk: \<open>None\<close> when a directory on the way is malformed, \<open>Some None\<close> when not found.\<close>

fun iso_walk :: "(u32 \<Rightarrow> bytes) \<Rightarrow> u32 \<Rightarrow> u32 \<Rightarrow> bytes list \<Rightarrow> bytes option option" where
  "iso_walk f extent sz [] = None"
| "iso_walk f extent sz (c # cs) =
     (case iso_dir f extent sz of
        None \<Rightarrow> None
      | Some recs \<Rightarrow>
          (case iso_child c (cs = []) recs of
             None \<Rightarrow> Some None
           | Some r \<Rightarrow> if cs = [] then Some (Some (take 33 r))
                       else iso_walk f (rec_extent r) (rec_size r) cs))"

definition iso_path :: "bytes list \<Rightarrow> bytes" where
  "iso_path cs = concat (map ((#) 0x2f) cs)"

lemma iso_path_simps [simp]: "iso_path [] = []" "iso_path (c # cs) = 0x2f # c @ iso_path cs"
  by (simp_all add: iso_path_def)

section \<open>Names\<close>

lemma length_translate_from: "translate_from old len is = Some t \<Longrightarrow> length t \<le> length is"
  by (induction "is" arbitrary: t) (auto split: option.splits)

lemma length_rec_name:
  assumes "iso9660_name_translate old (rec_name_len r) = Some t" shows "length t \<le> 255"
proof -
  have "length t \<le> rec_name_len r"
    using length_translate_from [OF assms [unfolded iso9660_name_translate_def]] by simp
  moreover have "rec_name_len r < 2 ^ 8"
    using unsigned_less [of "r ! 32"] by (simp add: rec_name_len_def)
  ultimately show ?thesis by simp
qed

text \<open>Comparing path prefixes is comparing components, for names without a slash.\<close>

lemma prefix_is_component:
  assumes "0x2f \<notin> set t" and "0x2f \<notin> set c"
  shows "t = c @ iso_path cs \<longleftrightarrow> t = c \<and> cs = []"
    and "(length t < length (c @ iso_path cs) \<and> take (length t) (c @ iso_path cs) = t
          \<and> (c @ iso_path cs) ! length t = 0x2f) \<longleftrightarrow> t = c \<and> cs \<noteq> []"
proof -
  show "t = c @ iso_path cs \<longleftrightarrow> t = c \<and> cs = []"
    using assms by (cases cs) auto
  show "(length t < length (c @ iso_path cs) \<and> take (length t) (c @ iso_path cs) = t
          \<and> (c @ iso_path cs) ! length t = 0x2f) \<longleftrightarrow> t = c \<and> cs \<noteq> []" (is "?L \<longleftrightarrow> ?R")
  proof
    assume L: ?L
    have "\<not> length t < length c"
    proof
      assume *: "length t < length c"
      with L have "c ! length t = 0x2f" by (simp add: nth_append)
      with * assms(2) show False by (metis nth_mem)
    qed
    moreover have "\<not> length c < length t"
    proof
      assume *: "length c < length t"
      with L obtain c' cs' where cs: "cs = c' # cs'" by (cases cs) auto
      have tk: "take (length t) (c @ iso_path cs) = t" using L by blast
      have "t ! length c = take (length t) (c @ iso_path cs) ! length c" by (simp only: tk)
      also have "\<dots> = 0x2f" using * by (simp add: cs nth_append)
      finally show False using * assms(1) by (metis nth_mem)
    qed
    ultimately have "length t = length c" by simp
    with L show ?R by (cases cs) auto
  qed (cases cs, auto)
qed

section \<open>The scan of a directory\<close>

lemma take33_fields:
  assumes "33 \<le> length r"
  shows "rec_extent (take 33 r) = rec_extent r" and "rec_size (take 33 r) = rec_size r"
  by (simp_all add: rec_extent_def rec_size_def)

definition scan_result :: "bytes list \<Rightarrow> bytes \<Rightarrow> bytes \<Rightarrow> bytes list \<Rightarrow> iso_scan" where
  "scan_result recs filename c cs =
     (case iso_child c (cs = []) recs of
        None \<Rightarrow> Not_found
      | Some r \<Rightarrow> if cs = [] then Hit (take 33 r) else Descend (take 33 r) (filename @ 0x2f # c))"

text \<open>The string left from an earlier record is no match.\<close>

definition stale :: "bytes \<Rightarrow> bytes \<Rightarrow> bool" where
  "stale search new \<longleftrightarrow> new \<noteq> search \<and> length new < 1024"

lemma scan_records_finds:
  assumes "dir_records buffer sz off = Some recs" and "list_all wf_rec recs"
    and "search = filename @ iso_path (c # cs)" and "0x2f \<notin> set c"
    and "length search \<le> 768" and "stale search new"
  shows "scan_records buffer sz off search filename new = Some (scan_result recs filename c cs)"
  using assms(1,2,6)
proof (induction buffer sz off arbitrary: recs new rule: dir_records.induct)
  case (1 buffer sz off)
  show ?case
  proof (cases "sz \<le> off")
    case True
    with 1 show ?thesis
      by (auto simp: scan_records.simps dir_records.simps scan_result_def iso_child_def)
  next
    case False
    with 1(3) obtain len where len: "byte_at buffer off = Some len"
      by (auto simp: dir_records.simps [of buffer sz off] split: option.splits)
    show ?thesis
    proof (cases "len = 0")
      case True
      with False len 1 show ?thesis
        by (simp add: scan_records.simps [of buffer sz off] dir_records.simps [of buffer sz off])
    next
      case nz: False
      let ?r = "drop off buffer"
      obtain rs where rs: "dir_records buffer sz (off + unat len) = Some rs"
        and recs: "recs = ?r # rs" and off: "off + 33 \<le> length buffer"
        using 1(3) False len nz
        by (auto simp: dir_records.simps [of buffer sz off] split: if_splits)
      have wf: "wf_rec ?r" and wfs: "list_all wf_rec rs" using 1(4) recs by auto
      have b33: "byte_at ?r 33 = Some (?r ! 33)" using wf by (simp add: wf_rec_def byte_at_def)
      have IH: "stale search n \<Longrightarrow> scan_records buffer sz (off + unat len) search filename n
          = Some (scan_result rs filename c cs)" for n
        by (rule "1.IH"(2) [OF False len nz off rs wfs])
      show ?thesis
      proof (cases "named ?r")
        case True
        then obtain t where t: "iso9660_name_translate (drop 33 ?r) (rec_name_len ?r) = Some t"
          and slash: "0x2f \<notin> set t"
          using wf by (auto simp: wf_rec_def split: option.splits)
        have name: "rec_name ?r = t" by (simp only: rec_name_def t option.sel)
        have short: "length (filename @ 0x2f # t) < 1024"
          using length_rec_name [OF t] assms(3,5) by simp
        note p = prefix_is_component [OF slash assms(4), of cs]
        have hit: "filename @ 0x2f # t = search \<longleftrightarrow> t = c \<and> cs = []"
          using p(1) by (simp add: assms(3))
        have desc: "(length (filename @ 0x2f # t) < length search
            \<and> take (length (filename @ 0x2f # t)) search = filename @ 0x2f # t
            \<and> search ! length (filename @ 0x2f # t) = 0x2f) \<longleftrightarrow> t = c \<and> cs \<noteq> []"
          using p(2) by (simp add: assms(3) nth_append)
        have step: "scan_records buffer sz off search filename new =
            (if filename @ 0x2f # t = search then Some (Hit (take 33 ?r))
             else if rec_is_dir ?r \<and> 1 < rec_name_len ?r
               \<and> (length (filename @ 0x2f # t) < length search
                  \<and> take (length (filename @ 0x2f # t)) search = filename @ 0x2f # t
                  \<and> search ! length (filename @ 0x2f # t) = 0x2f)
             then Some (Descend (take 33 ?r) (filename @ 0x2f # t))
             else scan_records buffer sz (off + unat len) search filename (filename @ 0x2f # t))"
          using False len nz off b33 True t short
          by (simp add: scan_records.simps [of buffer sz off] rec_at_def named_def)
        show ?thesis
        proof (cases "t = c \<and> (cs = [] \<or> rec_is_dir ?r \<and> 1 < rec_name_len ?r)")
          case hit_case: True
          then have "scan_result recs filename c cs =
              (if cs = [] then Hit (take 33 ?r) else Descend (take 33 ?r) (filename @ 0x2f # c))"
            using True name by (auto simp: scan_result_def iso_child_def recs)
          with hit_case show ?thesis unfolding step hit desc by auto
        next
          case miss: False
          have "scan_result recs filename c cs = scan_result rs filename c cs"
            using miss name by (auto simp: scan_result_def iso_child_def recs)
          moreover have "\<not> filename @ 0x2f # t = search" using miss hit by auto
          moreover from this short have "stale search (filename @ 0x2f # t)" by (simp add: stale_def)
          ultimately show ?thesis unfolding step desc using miss IH by auto
        qed
      next
        case unnamed: False
        then have nl: "\<not> 1 < rec_name_len ?r" using wf by (simp add: wf_rec_def)
        have "scan_records buffer sz off search filename new =
            scan_records buffer sz (off + unat len) search filename new"
          using False len nz off b33 unnamed nl 1(5)
          by (auto simp: scan_records.simps [of buffer sz off] rec_at_def named_def stale_def)
        moreover have "scan_result recs filename c cs = scan_result rs filename c cs"
          using unnamed by (simp add: scan_result_def iso_child_def recs)
        ultimately show ?thesis using IH 1(5) by simp
      qed
    qed
  qed
qed

section \<open>The walk\<close>

definition found :: "bytes option \<Rightarrow> u32 \<times> bytes option" where
  "found res = (case res of None \<Rightarrow> (0, None) | Some r \<Rightarrow> (rec_extent r, Some r))"

text \<open>\<open>BootIso9660GetFile\<close>: the file of the walk, or the error.\<close>

definition get_result :: "(u32 \<Rightarrow> bytes) \<Rightarrow> bytes option \<Rightarrow> bytes \<Rightarrow> u32 \<times> bytes" where
  "get_result f res buf =
     (case res of
        None \<Rightarrow> (- 1, buf)
      | Some r \<Rightarrow> if rec_extent r = 0 then (- 1, buf)
                  else (rec_size r, blocks f (rec_extent r) (unat (round_up (rec_size r)) div 2048)
                          @ drop (unat (round_up (rec_size r))) buf))"

context block_source
begin

lemma read_dir_walks:
  assumes "ready d" and "\<And>k. length (uninit k) = k" and "\<And>c. c \<in> set cs \<Longrightarrow> 0x2f \<notin> set c"
    and "search = filename @ iso_path cs" and "length search \<le> 768"
    and "iso_walk (blk d) extent sz cs = Some res"
  shows "\<exists>d'. read_dir rd uninit drv extent sz search filename d
      = Some (fst (found res), snd (found res), d') \<and> ready d' \<and> blk d' = blk d"
  using assms(1,3-)
proof (induction cs arbitrary: extent sz filename d)
  case Nil
  then show ?case by simp
next
  case (Cons c cs)
  obtain recs where dir: "iso_dir (blk d) extent sz = Some recs"
    using Cons.prems(5) by (auto split: option.splits)
  then have dvd: "2048 dvd unat sz"
    and recs: "dir_records (blocks (blk d) extent (unat sz div 2048)) (unat sz) 0 = Some recs"
    and wf: "list_all wf_rec recs"
    by (auto simp: iso_dir_def split: if_splits option.splits)
  from dvd obtain d1 where
    read: "read_blocks rd drv extent 0 (unat sz div 2048) (uninit (unat sz)) d
      = Some (blocks (blk d) extent (unat sz div 2048), d1)" and d1: "ready d1" "blk d1 = blk d"
    using read_blocks_reads [OF Cons.prems(1), of 0 "unat sz div 2048" "uninit (unat sz)" extent]
      assms(2) by (auto simp: dvd_div_mult_self)
  have "0x2f \<notin> set c" using Cons.prems(2) by simp
  moreover have "stale search []" using Cons.prems(3) by (simp add: stale_def)
  ultimately have scan: "scan_records (blocks (blk d) extent (unat sz div 2048)) (unat sz) 0 search filename []
      = Some (scan_result recs filename c cs)"
    using scan_records_finds [OF recs wf Cons.prems(3) _ Cons.prems(4)] by blast
  show ?case
  proof (cases "iso_child c (cs = []) recs")
    case None
    with Cons.prems(5) dir have "res = None" by simp
    with None read scan d1 show ?thesis
      by (simp add: read_dir.simps [of rd uninit drv extent] scan_result_def found_def)
  next
    case (Some r)
    have "r \<in> set recs" using Some by (auto simp: iso_child_def find_Some_iff)
    with wf have len: "33 \<le> length r" by (auto simp: wf_rec_def list_all_iff)
    show ?thesis
    proof (cases "cs = []")
      case True
      with Some Cons.prems(5) dir have "res = Some (take 33 r)" by simp
      with True Some read scan d1 show ?thesis
        by (simp add: read_dir.simps [of rd uninit drv extent] scan_result_def found_def)
    next
      case False
      with Some Cons.prems(5) dir have walk: "iso_walk (blk d1) (rec_extent r) (rec_size r) cs = Some res"
        by (simp add: d1(2))
      have path: "search = (filename @ 0x2f # c) @ iso_path cs" using Cons.prems(3) by simp
      have "\<And>c. c \<in> set cs \<Longrightarrow> 0x2f \<notin> set c" using Cons.prems(2) by simp
      from Cons.IH [OF d1(1) this path Cons.prems(4) walk] obtain d2 where
        "read_dir rd uninit drv (rec_extent r) (rec_size r) search (filename @ 0x2f # c) d1
          = Some (fst (found res), snd (found res), d2)" and "ready d2" "blk d2 = blk d"
        by (auto simp: d1(2))
      with False Some read scan show ?thesis
        by (simp add: read_dir.simps [of rd uninit drv extent] scan_result_def take33_fields [OF len])
    qed
  qed
qed

text \<open>The bytes of a file, and reading them.\<close>

lemma read_file_reads:
  assumes "ready d" and "rec_size r < max_bytes" and "unat (rec_size r) < 2 ^ 32 - 2048"
    and "unat (round_up (rec_size r)) \<le> length buf"
  shows "\<exists>d'. read_file rd drv r buf max_bytes d = Some (rec_size r,
      blocks (blk d) (rec_extent r) (unat (round_up (rec_size r)) div 2048)
        @ drop (unat (round_up (rec_size r))) buf, d') \<and> ready d' \<and> blk d' = blk d"
proof -
  let ?n = "unat (round_up (rec_size r))"
  have n: "?n div 2048 * 2048 = ?n" using round_up_spec(1) [OF assms(3)] by simp
  from copy_blocks_reads [OF assms(1), of 0 "?n div 2048" buf "rec_extent r"] assms(4)
  show ?thesis using assms(2) by (auto simp: n read_file_def read_amount_def)
qed

lemma BootIso9660GetFile_gets:
  assumes "ready d" and "\<And>k. length (uninit k) = k" and "\<And>c. c \<in> set cs \<Longrightarrow> 0x2f \<notin> set c"
    and "length (iso_path cs) \<le> 768" and "root = drop 156 (blk d 16)"
    and "iso_walk (blk d) (rec_extent root) (rec_size root) cs = Some res"
    and "\<And>r. res = Some r \<Longrightarrow> rec_size r < max_bytes \<and> unat (rec_size r) < 2 ^ 32 - 2048
          \<and> unat (round_up (rec_size r)) \<le> length buf"
  shows "\<exists>d'. BootIso9660GetFile rd uninit drv (iso_path cs) buf max_bytes d =
      Some (fst (get_result (blk d) res buf), snd (get_result (blk d) res buf), d')
    \<and> ready d' \<and> blk d' = blk d"
proof -
  obtain d1 where pvd: "rd drv 16 0 (replicate 2048 0) d = Some (0, blk d 16, d1)"
    and d1: "ready d1" "blk d1 = blk d"
    using block_read [OF assms(1), of "replicate 2048 0" 16] by auto
  have "iso_walk (blk d1) (rec_extent root) (rec_size root) cs = Some res"
    using assms(6) d1(2) by simp
  from read_dir_walks [OF d1(1) assms(2,3) _ assms(4) this, of "[]"] obtain d2 where
    dir: "read_dir rd uninit drv (rec_extent root) (rec_size root) (iso_path cs) [] d1
      = Some (fst (found res), snd (found res), d2)" and d2: "ready d2" "blk d2 = blk d"
    using d1(2) by auto
  show ?thesis
  proof (cases res)
    case None
    with pvd dir d2 assms(5) show ?thesis
      by (simp add: BootIso9660GetFile_def get_result_def found_def)
  next
    case (Some r)
    show ?thesis
    proof (cases "rec_extent r = 0")
      case True
      with Some pvd dir d2 assms(5) show ?thesis
        by (simp add: BootIso9660GetFile_def get_result_def found_def)
    next
      case False
      with read_file_reads [OF d2(1), of r max_bytes buf] assms(7) [OF Some] Some pvd dir d2 assms(5)
      show ?thesis
        by (auto simp: BootIso9660GetFile_def get_result_def found_def word_gt_0)
    qed
  qed
qed

end

section \<open>Name translation\<close>

text \<open>The name without its version suffix, in lower case, with other semicolons as dots.\<close>

definition strip_version :: "bytes \<Rightarrow> bytes" where
  "strip_version n =
     (if 3 \<le> length n \<and> drop (length n - 3) n = [0x2e, 0x3b, 0x31] then take (length n - 3) n
      else if 2 \<le> length n \<and> drop (length n - 2) n = [0x3b, 0x31] then take (length n - 2) n
      else n)"

definition iso_conv :: "u8 \<Rightarrow> u8" where
  "iso_conv c = (if c = 0x3b then 0x2e else lower8 c)"

lemma lower_char: "(if isupper (ucast c) then ucast (tolower (ucast c)) else c) = lower8 (c::u8)"
  by (rule all_u8) code_simp

lemma lower8_punct: "(lower8 c = 0x2e \<longleftrightarrow> c = 0x2e) \<and> (lower8 c = 0x3b \<longleftrightarrow> c = 0x3b)"
  by (rule all_u8) code_simp

lemma drop_last2:
  assumes "2 \<le> length n"
  shows "drop (length n - 2) n = [n ! (length n - 2), n ! (length n - 1)]"
proof -
  have "Suc (length n - 2) = length n - 1" using assms by simp
  with Cons_nth_drop_Suc [of "length n - 2" n] Cons_nth_drop_Suc [of "length n - 1" n] assms
  show ?thesis by simp
qed

lemma drop_last3:
  assumes "3 \<le> length n"
  shows "drop (length n - 3) n = [n ! (length n - 3), n ! (length n - 2), n ! (length n - 1)]"
proof -
  have "Suc (length n - 3) = length n - 2" using assms by simp
  with Cons_nth_drop_Suc [of "length n - 3" n] drop_last2 [of n] assms show ?thesis by simp
qed

text \<open>One character, by position.\<close>

definition dot_version :: "bytes \<Rightarrow> nat \<Rightarrow> bool" where
  "dot_version n i \<longleftrightarrow> 3 \<le> length n \<and> i = length n - 3
     \<and> n ! i = 0x2e \<and> n ! (i + 1) = 0x3b \<and> n ! (i + 2) = 0x31"

definition semi_version :: "bytes \<Rightarrow> nat \<Rightarrow> bool" where
  "semi_version n i \<longleftrightarrow> 2 \<le> length n \<and> i = length n - 2 \<and> n ! i = 0x3b \<and> n ! (i + 1) = 0x31"

lemma strip_version_cases:
  "strip_version n =
     (if dot_version n (length n - 3) then take (length n - 3) n
      else if semi_version n (length n - 2) then take (length n - 2) n else n)"
proof -
  have "length n - 3 + 1 = length n - 2" "length n - 3 + 2 = length n - 1" if "3 \<le> length n" using that by auto
  moreover have "length n - 2 + 1 = length n - 1" if "2 \<le> length n" using that by auto
  ultimately show ?thesis
    by (auto simp: strip_version_def dot_version_def semi_version_def drop_last2 drop_last3
          simp del: diff_Suc_Suc)
qed

lemma translate_char_at:
  assumes i: "i < length n"
  shows "translate_char (n @ rest) (length n) i =
    (if n ! i = 0 \<or> dot_version n i \<or> semi_version n i then Some None else Some (Some (iso_conv (n ! i))))"
proof -
  have at: "byte_at (n @ rest) j = Some (n ! j)" if "j < length n" for j
    using that by (simp add: byte_at_def nth_append)
  let ?c = "lower8 (n ! i)"
  have dot: "(if ?c = 0x2e \<and> 3 \<le> length n \<and> i = length n - 3
       then do { a \<leftarrow> byte_at (n @ rest) (i + 1);
                 if a = 0x3b then do { b \<leftarrow> byte_at (n @ rest) (i + 2); Some (b = 0x31) } else Some False }
       else Some False) = Some (dot_version n i)"
  proof (cases "3 \<le> length n \<and> i = length n - 3")
    case True
    then have "i + 1 < length n" "i + 2 < length n" by auto
    with True show ?thesis using lower8_punct [of "n ! i"] by (simp only: dot_version_def at) simp
  qed (auto simp: dot_version_def)
  have semi: "(if ?c = 0x3b \<and> 2 \<le> length n \<and> i = length n - 2
       then do { a \<leftarrow> byte_at (n @ rest) (i + 1); Some (a = 0x31) } else Some False)
     = Some (semi_version n i)"
  proof (cases "2 \<le> length n \<and> i = length n - 2")
    case True
    then have "i + 1 < length n" by auto
    with True show ?thesis using lower8_punct [of "n ! i"] by (simp only: semi_version_def at) simp
  qed (auto simp: semi_version_def)
  show ?thesis
    unfolding translate_char_def at [OF i] bind.bind_lunit Let_def lower_char dot semi
    using lower8_punct [of "n ! i"] by (simp add: iso_conv_def)
qed

lemma translate_from_spec:
  assumes "i + k = length (strip_version n)"
  shows "translate_from (n @ rest) (length n) [i..<length n]
     = Some (map iso_conv (takeWhile (\<lambda>c. c \<noteq> 0) (drop i (strip_version n))))"
  using assms
proof (induction k arbitrary: i)
  case 0
  show ?case
  proof (cases "i < length n")
    case True
    with 0 have "dot_version n i \<or> semi_version n i"
      by (auto simp: strip_version_cases split: if_splits)
    moreover have "[i..<length n] = i # [Suc i..<length n]" using True by (rule upt_conv_Cons)
    ultimately show ?thesis using True 0 by (simp add: translate_char_at)
  qed (use 0 in simp)
next
  case (Suc k)
  then have i: "i < length (strip_version n)" and le: "i < length n"
    by (auto simp: strip_version_cases split: if_splits)
  have nv: "\<not> dot_version n i" "\<not> semi_version n i"
    using i by (auto simp: strip_version_cases dot_version_def semi_version_def split: if_splits)
  have "drop i (strip_version n) = n ! i # drop (Suc i) (strip_version n)"
    using i by (subst Cons_nth_drop_Suc [symmetric]) (auto simp: strip_version_cases split: if_splits)
  with nv le Suc show ?case by (simp add: upt_rec [of i] translate_char_at)
qed

section \<open>A small disc\<close>

definition demo_record :: "u8 \<Rightarrow> u8 \<Rightarrow> u8 \<Rightarrow> bytes \<Rightarrow> bytes" where
  "demo_record extent sz flags name =
     [33 + of_nat (length name), 0, extent, 0, 0, 0, 0, 0, 0, 0, sz, 0, 0, 0, 0, 0, 0, 0,
      0, 0, 0, 0, 0, 0, 0, flags, 0, 0, 0, 0, 0, 0, of_nat (length name)] @ name"

text \<open>Block 18 is the root directory with one file, \<open>CF;1\<close>, whose three bytes are in block 19.\<close>

definition demo_dir :: bytes where
  "demo_dir = demo_record 18 0 2 [0] @ demo_record 19 3 0 [0x43, 0x46, 0x3b, 0x31]"

definition demo_disc :: "u32 \<Rightarrow> bytes" where
  "demo_disc s =
     (if s = 16 then replicate 156 0 @ [34, 0, 18, 0, 0, 0, 0, 0, 0, 0, 0, 8] @ replicate 1880 0
      else if s = 18 then demo_dir @ replicate 1977 0
      else if s = 19 then [7, 8, 9] @ replicate 2045 0
      else replicate 2048 0)"

definition disc_reader :: "(u32 \<Rightarrow> bytes) reader" where
  "disc_reader drv s b old d = Some (0, take (length old) (d s), d)"

interpretation disc: block_source disc_reader drv "\<lambda>d. d" "\<lambda>d. \<forall>s. length (d s) = 2048" for drv
  by unfold_locales (auto simp: disc_reader_def)

lemma demo_disc_length: "\<forall>s. length (demo_disc s) = 2048"
  by (simp add: demo_disc_def demo_dir_def demo_record_def)

lemma disc_root:
  "rec_extent (drop 156 (demo_disc 16)) = 18" "rec_size (drop 156 (demo_disc 16)) = 2048"
  by (simp_all add: demo_disc_def rec_extent_def rec_size_def le32_def nth_append)

lemma disc_root_dir: "iso_dir demo_disc 18 2048 = Some [demo_dir @ replicate 1977 0, drop 34 (demo_dir @ replicate 1977 0)]"
proof -
  let ?b = "demo_dir @ replicate 1977 0"
  have dir: "demo_disc 18 = ?b" and len: "length ?b = 2048"
    by (simp_all add: demo_disc_def demo_dir_def demo_record_def)
  have at: "byte_at ?b 0 = Some 34" "byte_at ?b 34 = Some 37" "byte_at ?b 71 = Some 0"
    by (simp_all add: byte_at_def demo_dir_def demo_record_def nth_append)
  have recs: "dir_records ?b 2048 0 = Some [?b, drop 34 ?b]"
    by (simp only: dir_records.simps [of ?b 2048 0] dir_records.simps [of ?b 2048 34]
        dir_records.simps [of ?b 2048 71] dir_records.simps [of ?b 2048 2048] at)
      (simp add: at len dir_records.simps [of ?b 2048 34] dir_records.simps [of ?b 2048 71]
        dir_records.simps [of ?b 2048 2048])
  have "wf_rec ?b" "wf_rec (drop 34 ?b)"
    by (simp_all add: wf_rec_def named_def rec_name_len_def demo_dir_def demo_record_def nth_append
        iso9660_name_translate_def translate_char_def byte_at_def isupper_def tolower_def upt_rec)
  with recs dir show ?thesis by (simp add: iso_dir_def)
qed

definition demo_file :: bytes where "demo_file = take 33 (demo_record 19 3 0 [0x43, 0x46, 0x3b, 0x31])"

lemma disc_walk: "iso_walk demo_disc 18 2048 [[0x63, 0x66]] = Some (Some demo_file)"
proof -
  let ?b = "demo_dir @ replicate 1977 0"
  have n1: "\<not> named ?b" by (simp add: named_def demo_dir_def demo_record_def)
  have n2: "named (drop 34 ?b)" "rec_name (drop 34 ?b) = [0x63, 0x66]"
    by (simp_all add: named_def rec_name_def rec_name_len_def demo_dir_def demo_record_def nth_append
        iso9660_name_translate_def translate_char_def byte_at_def isupper_def tolower_def upt_rec)
  have "take 33 (drop 34 ?b) = demo_file" by (simp add: demo_file_def demo_dir_def demo_record_def)
  with n1 n2 disc_root_dir show ?thesis by (simp add: iso_child_def)
qed

lemma demo_file_fields: "rec_extent demo_file = 19" "rec_size demo_file = 3"
  by (simp_all add: demo_file_def demo_record_def rec_extent_def rec_size_def le32_def)

section \<open>Properties\<close>

text \<open>\<open>iso9660_name_translate\<close> drops one trailing version suffix (with its period, if there is
  one), stops at a zero byte, lowers letters and writes every other semicolon as a period.\<close>

lemma iso9660_name_translate_spec:
  "iso9660_name_translate (n @ rest) (length n)
     = Some (map iso_conv (takeWhile (\<lambda>c. c \<noteq> 0) (strip_version n)))"
proof -
  have "0 + length (strip_version n) = length (strip_version n)" by simp
  from translate_from_spec [OF this, of rest] show ?thesis
    by (simp add: iso9660_name_translate_def)
qed

text \<open>C30. \<open>BootIso9660GetFile\<close> on every drive that hands out the blocks of a disc: where the walk
  along the components of the path meets well-formed directories only, the code returns what the
  walk finds: the size of the file with its blocks at the start of the buffer, or the error code.\<close>

theorem BootIso9660GetFile_refines:
  assumes "block_source rd drv blk ready" and "ready d" and "\<And>k. length (uninit k) = k"
    and "\<And>c. c \<in> set cs \<Longrightarrow> 0x2f \<notin> set c" and "length (iso_path cs) \<le> 768"
    and "root = drop 156 (blk d 16)"
    and "iso_walk (blk d) (rec_extent root) (rec_size root) cs = Some res"
    and "\<And>r. res = Some r \<Longrightarrow> rec_size r < max_bytes \<and> unat (rec_size r) < 2 ^ 32 - 2048
          \<and> unat (round_up (rec_size r)) \<le> length buf"
  shows "\<exists>d'. BootIso9660GetFile rd uninit drv (iso_path cs) buf max_bytes d =
      Some (fst (get_result (blk d) res buf), snd (get_result (blk d) res buf), d')
    \<and> ready d' \<and> blk d' = blk d"
  using block_source.BootIso9660GetFile_gets [OF assms] .

theorem BootIso9660GetFile_refines_witness:
  "\<exists>d. BootIso9660GetFile disc_reader (\<lambda>k. replicate k 0) 1 (iso_path [[0x63, 0x66]]) (replicate 4096 0) 4096
      demo_disc = Some (3, demo_disc 19 @ replicate 2048 0, d)"
  using BootIso9660GetFile_refines [where blk = "\<lambda>d. d" and cs = "[[0x63, 0x66]]" and d = demo_disc
      and uninit = "\<lambda>k. replicate k 0" and buf = "replicate 4096 0" and max_bytes = 4096 and drv = 1
      and res = "Some demo_file",
      OF disc.block_source_axioms demo_disc_length _ _ _ refl]
  by (auto simp: disc_root disc_walk demo_file_fields get_result_def round_up_def simp del: iso_walk.simps)

end
