(* ===== verification/Ide.thy ===== *)
theory Ide
  imports PortIO HddKey
begin

text \<open>
  The IDE driver \<open>drivers/ide/BootIde.c\<close>: command issue, data transfer, ATAPI packets, drive
  detection and unlocking, sector reads and writes, boot sectors.

  The controller is the parameter \<open>io\<close> of \<open>PortIO\<close>. \<open>n\<close> bounds the polls of a loop that waits
  for the drive and the repeated reads after an error: \<open>None\<close> says that the wait did not end
  within it, or that an access left its object. The array \<open>tsaHarddiskInfo\<close> is the list \<open>info\<close>.
  Messages on the screen are left out.
\<close>

section \<open>Data\<close>

text \<open>The strings are the fields with the two bytes of space that follow each of them.\<close>

record tsHarddiskInfo =
  m_fwPortBase :: u16
  m_wCountHeads :: u16
  m_wCountCylinders :: u16
  m_wCountSectorsPerTrack :: u16
  m_dwCountSectorsTotal :: u32
  m_bLbaMode :: u8
  m_szIdentityModelNumber :: bytes
  m_szSerial :: bytes
  m_szFirmware :: bytes
  m_fDriveExists :: bool
  m_fAtapi :: bool
  m_enumDriveType :: u32
  m_bCableConductors :: u8
  m_wAtaRevisionSupported :: u16
  s_length :: u8
  m_length :: u8
  m_fHasMbr :: bool
  m_securitySettings :: u16

record tsIdeCommandParams =
  m_bPrecomp :: u8
  m_bCountSector :: u8
  m_bSector :: u8
  m_wCylinder :: u16
  m_bDrivehead :: u8
  m_bCountSectorExt :: u8
  m_bSectorExt :: u8
  m_wCylinderExt :: u16

abbreviation (input) "IDE_DH_DEFAULT \<equiv> 0xA0 :: u8"
abbreviation (input) "IDE_DH_LBA \<equiv> 0x40 :: u8"
abbreviation (input) "IDE_DH_CHS \<equiv> 0x00 :: u8"

definition IDE_DH_HEAD :: "u32 \<Rightarrow> u8" where "IDE_DH_HEAD x = ucast (x AND 0x0F)"
definition IDE_DH_DRIVE :: "u32 \<Rightarrow> u8" where "IDE_DH_DRIVE x = (if x AND 1 \<noteq> 0 then 0x10 else 0x00)"

definition IDE_DEFAULT_COMMAND :: tsIdeCommandParams where
  "IDE_DEFAULT_COMMAND = \<lparr>m_bPrecomp = 0xFF, m_bCountSector = 1, m_bSector = 0, m_wCylinder = 0,
     m_bDrivehead = IDE_DH_DEFAULT OR 0x10, m_bCountSectorExt = 0, m_bSectorExt = 0, m_wCylinderExt = 0\<rparr>"

text \<open>The select byte that most routines write before anything else.\<close>

definition drive_select :: "u32 \<Rightarrow> u8" where
  "drive_select drv = IDE_DH_DEFAULT OR IDE_DH_HEAD 0 OR IDE_DH_CHS OR IDE_DH_DRIVE drv"

abbreviation (input) IDE_REG_DATA :: "u16 \<Rightarrow> u16" where "IDE_REG_DATA base \<equiv> base"
abbreviation (input) IDE_REG_ERROR :: "u16 \<Rightarrow> u16" where "IDE_REG_ERROR base \<equiv> base + 1"
abbreviation (input) IDE_REG_FEATURE :: "u16 \<Rightarrow> u16" where "IDE_REG_FEATURE base \<equiv> base + 1"
abbreviation (input) IDE_REG_SECTOR_COUNT :: "u16 \<Rightarrow> u16" where "IDE_REG_SECTOR_COUNT base \<equiv> base + 2"
abbreviation (input) IDE_REG_SECTOR_NUMBER :: "u16 \<Rightarrow> u16" where "IDE_REG_SECTOR_NUMBER base \<equiv> base + 3"
abbreviation (input) IDE_REG_CYLINDER_LSB :: "u16 \<Rightarrow> u16" where "IDE_REG_CYLINDER_LSB base \<equiv> base + 4"
abbreviation (input) IDE_REG_CYLINDER_MSB :: "u16 \<Rightarrow> u16" where "IDE_REG_CYLINDER_MSB base \<equiv> base + 5"
abbreviation (input) IDE_REG_DRIVEHEAD :: "u16 \<Rightarrow> u16" where "IDE_REG_DRIVEHEAD base \<equiv> base + 6"
abbreviation (input) IDE_REG_STATUS :: "u16 \<Rightarrow> u16" where "IDE_REG_STATUS base \<equiv> base + 7"
abbreviation (input) IDE_REG_COMMAND :: "u16 \<Rightarrow> u16" where "IDE_REG_COMMAND base \<equiv> base + 7"
abbreviation (input) IDE_REG_ALTSTATUS :: "u16 \<Rightarrow> u16" where "IDE_REG_ALTSTATUS base \<equiv> base + 0x206"
abbreviation (input) IDE_REG_CONTROL :: "u16 \<Rightarrow> u16" where "IDE_REG_CONTROL base \<equiv> base + 0x206"

abbreviation (input) "IDE_CMD_READ_MULTI_RETRY \<equiv> 0x20 :: u8"
abbreviation (input) "IDE_CMD_READ_EXT \<equiv> 0x24 :: u8"
abbreviation (input) "IDE_CMD_WRITE_MULTI_RETRY \<equiv> 0x30 :: u8"
abbreviation (input) "IDE_CMD_IDENTIFY \<equiv> 0xEC :: u8"
abbreviation (input) "IDE_CMD_PACKET_IDENTIFY \<equiv> 0xA1 :: u8"
abbreviation (input) "ATAPI_SOFT_RESET \<equiv> 0x08 :: u8"
abbreviation (input) "IDE_CMD_SET_FEATURES \<equiv> 0xEF :: u8"
abbreviation (input) "IDE_CMD_ATAPI_PACKET \<equiv> 0xA0 :: u8"
abbreviation (input) "IDE_CMD_SECURITY_SET_PASSWORD \<equiv> 0xF1 :: u8"
abbreviation (input) "IDE_CMD_SECURITY_UNLOCK \<equiv> 0xF2 :: u8"
abbreviation (input) "IDE_SECTOR_SIZE \<equiv> 512 :: nat"
abbreviation (input) "IDE_BASE1 \<equiv> 0x1F0 :: u16"

text \<open>An entry of the array; the index may be negative or too large, then there is none.\<close>

definition drive_info :: "tsHarddiskInfo list \<Rightarrow> u32 \<Rightarrow> tsHarddiskInfo option" where
  "drive_info info drv = (if unat drv < length info then Some (info ! unat drv) else None)"

section \<open>Waiting and commands\<close>

text \<open>\<open>wait_smalldelay\<close> is \<open>wait_us(80)\<close>. The waits return the error bit of the status.\<close>

definition wait_smalldelay :: "'d ports \<Rightarrow> 'd \<Rightarrow> 'd" where
  "wait_smalldelay io d = delay_us io 80 d"

definition BootIdeWaitNotBusy :: "'d ports \<Rightarrow> nat \<Rightarrow> u16 \<Rightarrow> 'd \<Rightarrow> (bool \<times> 'd) option" where
  "BootIdeWaitNotBusy io n base d = do {
     (b, d) \<leftarrow> poll_byte io (IDE_REG_ALTSTATUS base) (\<lambda>b. b AND 0x80 = 0) n d;
     Some (b AND 1 \<noteq> 0, d)
   }"

fun drq_loop :: "'d ports \<Rightarrow> u16 \<Rightarrow> nat \<Rightarrow> 'd \<Rightarrow> u32 \<times> 'd" where
  "drq_loop io base 0 d =
     (let (b, d) = IoInputByte io (IDE_REG_ALTSTATUS base) d in (if b AND 0x01 \<noteq> 0 then 2 else 1, d))"
| "drq_loop io base (Suc i) d =
     (let (b, d) = IoInputByte io (IDE_REG_ALTSTATUS base) d
      in if b AND 0x88 = 0x08
         then (let (b, d) = IoInputByte io (IDE_REG_ALTSTATUS base) d
               in (if b AND 0x01 \<noteq> 0 then 2 else 0, d))
         else drq_loop io base i d)"

definition BootIdeWaitDataReady :: "'d ports \<Rightarrow> u16 \<Rightarrow> 'd \<Rightarrow> u32 \<times> 'd" where
  "BootIdeWaitDataReady io base d = drq_loop io base 0x800000 (wait_smalldelay io d)"

definition command_registers :: "u16 \<Rightarrow> tsIdeCommandParams \<Rightarrow> (u16 \<times> u8) list" where
  "command_registers base p =
     [(IDE_REG_SECTOR_COUNT base, m_bCountSectorExt p),
      (IDE_REG_SECTOR_NUMBER base, m_bSectorExt p),
      (IDE_REG_CYLINDER_LSB base, ucast (m_wCylinderExt p AND 0xFF)),
      (IDE_REG_CYLINDER_MSB base, ucast (drop_bit 8 (m_wCylinderExt p))),
      (IDE_REG_SECTOR_COUNT base, m_bCountSector p),
      (IDE_REG_SECTOR_NUMBER base, m_bSector p),
      (IDE_REG_CYLINDER_LSB base, ucast (m_wCylinder p AND 0xFF)),
      (IDE_REG_CYLINDER_MSB base, ucast (drop_bit 8 (m_wCylinder p))),
      (IDE_REG_DRIVEHEAD base, m_bDrivehead p)]"

definition BootIdeIssueAtaCommand ::
  "'d ports \<Rightarrow> nat \<Rightarrow> u16 \<Rightarrow> u8 \<Rightarrow> tsIdeCommandParams \<Rightarrow> 'd \<Rightarrow> (u32 \<times> 'd) option" where
  "BootIdeIssueAtaCommand io n base command p d = do {
     let (_, d) = IoInputByte io (IDE_REG_STATUS base) d;
     (_, d) \<leftarrow> BootIdeWaitNotBusy io n base d;
     let d = outb_all io (command_registers base p) d;
     let d = wait_smalldelay io (IoOutputByte io (IDE_REG_COMMAND base) command d);
     (err, d) \<leftarrow> BootIdeWaitNotBusy io n base d;
     Some (if err then 1 else 0, d)
   }"

section \<open>Data transfer\<close>

fun in_words :: "'d ports \<Rightarrow> u16 \<Rightarrow> nat \<Rightarrow> 'd \<Rightarrow> bytes \<times> 'd" where
  "in_words io p 0 d = ([], d)"
| "in_words io p (Suc k) d =
     (let (w, d) = IoInputWord io p d; (bs, d) = in_words io p k d
      in (ucast w # ucast (drop_bit 8 w) # bs, d))"

fun out_words :: "'d ports \<Rightarrow> u16 \<Rightarrow> bytes \<Rightarrow> 'd \<Rightarrow> 'd" where
  "out_words io p (a # b # bs) d = out_words io p bs (IoOutputWord io p (le16 a b) d)"
| "out_words io p _ d = d"

definition BootIdeReadData ::
  "'d ports \<Rightarrow> u16 \<Rightarrow> bytes \<Rightarrow> nat \<Rightarrow> 'd \<Rightarrow> (u32 \<times> bytes \<times> 'd) option" where
  "BootIdeReadData io base buf sz d =
     (let (e, d) = BootIdeWaitDataReady io base d
      in if e \<noteq> 0 then Some (1, buf, d)
         else do {
           let (bs, d) = in_words io (IDE_REG_DATA base) (sz div 2) d;
           buf \<leftarrow> put_bytes buf 0 bs;
           let (_, d) = IoInputByte io (IDE_REG_STATUS base) d;
           let (s, d) = IoInputByte io (IDE_REG_ALTSTATUS base) d;
           Some (if s AND 0x01 \<noteq> 0 then 2 else 0, buf, d)
         })"

definition BootIdeWriteData ::
  "'d ports \<Rightarrow> nat \<Rightarrow> u16 \<Rightarrow> bytes \<Rightarrow> nat \<Rightarrow> 'd \<Rightarrow> (u32 \<times> 'd) option" where
  "BootIdeWriteData io n base buf sz d =
     (let (_, d) = BootIdeWaitDataReady io base d
      in if length buf < 2 * (sz div 2) then None
         else do {
           let d = wait_smalldelay io (out_words io (IDE_REG_DATA base) (take (2 * (sz div 2)) buf) d);
           (err, d) \<leftarrow> BootIdeWaitNotBusy io n base d;
           if err then Some (1, d)
           else do {
             let (s, d) = IoInputByte io (IDE_REG_ALTSTATUS base) d;
             Some (if s AND 0x01 \<noteq> 0 then 2 else 0, d) } })"

definition BootIdeWriteAtapiData ::
  "'d ports \<Rightarrow> nat \<Rightarrow> u16 \<Rightarrow> bytes \<Rightarrow> nat \<Rightarrow> 'd \<Rightarrow> (u32 \<times> 'd) option" where
  "BootIdeWriteAtapiData io n base buf sz d =
     (let (_, d) = BootIdeWaitDataReady io base d;
          d = wait_smalldelay io d;
          (_, d) = IoInputByte io (IDE_REG_CYLINDER_LSB base) d;
          (_, d) = IoInputByte io (IDE_REG_CYLINDER_MSB base) d;
          (s, d) = IoInputByte io (IDE_REG_STATUS base) d
      in if s AND 1 \<noteq> 0 then Some (1, d)
         else if length buf < 2 * (sz div 2) then None
         else
           (let d = out_words io (IDE_REG_DATA base) (take (2 * (sz div 2)) buf) d;
                (s, d) = IoInputByte io (IDE_REG_STATUS base) d
            in if s AND 1 \<noteq> 0 then Some (1, d)
               else do {
                 (err, d) \<leftarrow> BootIdeWaitNotBusy io n base (wait_smalldelay io d);
                 if err then Some (1, d)
                 else do {
                   let (s, d) = IoInputByte io (IDE_REG_ALTSTATUS base) (wait_smalldelay io d);
                   Some (if s AND 0x01 \<noteq> 0 then 2 else 0, d) } }))"

section \<open>ATAPI packets\<close>

definition BootIdeIssueAtapiPacketCommandAndPacket ::
  "'d ports \<Rightarrow> nat \<Rightarrow> tsHarddiskInfo list \<Rightarrow> u32 \<Rightarrow> bytes \<Rightarrow> 'd \<Rightarrow> (u32 \<times> 'd) option" where
  "BootIdeIssueAtapiPacketCommandAndPacket io n info drv pkt d = do {
     h \<leftarrow> drive_info info drv;
     let base = m_fwPortBase h;
     let p = IDE_DEFAULT_COMMAND\<lparr>m_bDrivehead := drive_select drv\<rparr>;
     let d = IoOutputByte io (IDE_REG_DRIVEHEAD base) (m_bDrivehead p) d;
     let p = p\<lparr>m_wCylinder := 2048\<rparr>;
     (_, d) \<leftarrow> BootIdeWaitNotBusy io n base d;
     (e, d) \<leftarrow> BootIdeIssueAtaCommand io n base IDE_CMD_ATAPI_PACKET p d;
     if e \<noteq> 0 then Some (1, d)
     else do {
       (err, d) \<leftarrow> BootIdeWaitNotBusy io n base d;
       if err then Some (1, d)
       else do {
         (e, d) \<leftarrow> BootIdeWriteAtapiData io n base pkt 12 d;
         if e \<noteq> 0 then Some (1, d)
         else do {
           c \<leftarrow> byte_at pkt 0;
           if c \<noteq> 0x1e
           then (let (e, d) = BootIdeWaitDataReady io base d in Some (if e \<noteq> 0 then 1 else 0, d))
           else Some (0, d) } } } }"

text \<open>The byte count the drive offers, limited to what the caller takes.\<close>

definition atapi_count :: "'d ports \<Rightarrow> u16 \<Rightarrow> nat \<Rightarrow> 'd \<Rightarrow> nat \<times> 'd" where
  "atapi_count io base limit d =
     (let (lo, d) = IoInputByte io (IDE_REG_CYLINDER_LSB base) d;
          (hi, d) = IoInputByte io (IDE_REG_CYLINDER_MSB base) d
      in (min (unat (le16 lo hi)) limit, d))"

text \<open>A query: the packet in a cleared buffer, then the answer into the caller's one.\<close>

definition atapi_query ::
  "'d ports \<Rightarrow> nat \<Rightarrow> tsHarddiskInfo list \<Rightarrow> u32 \<Rightarrow> bytes \<Rightarrow> bytes \<Rightarrow> nat \<Rightarrow> 'd
     \<Rightarrow> (nat \<times> bytes \<times> 'd) option" where
  "atapi_query io n info drv pkt pba nLengthMaxReturn d = do {
     h \<leftarrow> drive_info info drv;
     if \<not> m_fDriveExists h then Some (4, pba, d)
     else do {
       (e, d) \<leftarrow> BootIdeIssueAtapiPacketCommandAndPacket io n info drv pkt d;
       if e \<noteq> 0 then Some (1, pba, d)
       else do {
         let (k, d) = atapi_count io (m_fwPortBase h) nLengthMaxReturn d;
         (_, pba, d) \<leftarrow> BootIdeReadData io (m_fwPortBase h) pba k d;
         Some (k, pba, d) } } }"

definition BootIdeAtapiModeSense ::
  "'d ports \<Rightarrow> nat \<Rightarrow> tsHarddiskInfo list \<Rightarrow> u32 \<Rightarrow> u8 \<Rightarrow> bytes \<Rightarrow> nat \<Rightarrow> 'd
     \<Rightarrow> (nat \<times> bytes \<times> 'd) option" where
  "BootIdeAtapiModeSense io n info drv bCodePage pba nLengthMaxReturn d =
     atapi_query io n info drv
       ((replicate 2048 0)[0 := 0x5a, 2 := bCodePage, 7 := ucast (2048 div 256 :: u32), 8 := ucast (2048 :: u32)])
       pba nLengthMaxReturn d"

definition BootIdeAtapiAdditionalSenseCode ::
  "'d ports \<Rightarrow> nat \<Rightarrow> tsHarddiskInfo list \<Rightarrow> u32 \<Rightarrow> bytes \<Rightarrow> nat \<Rightarrow> 'd
     \<Rightarrow> (nat \<times> bytes \<times> 'd) option" where
  "BootIdeAtapiAdditionalSenseCode io n info drv pba nLengthMaxReturn d =
     atapi_query io n info drv ((replicate 2048 0)[0 := 0x03, 4 := 0xfe]) pba nLengthMaxReturn d"

section \<open>Reading and writing sectors\<close>

text \<open>The read that is repeated for ever after an error.\<close>

fun read_retry :: "'d ports \<Rightarrow> nat \<Rightarrow> u16 \<Rightarrow> bytes \<Rightarrow> nat \<Rightarrow> 'd \<Rightarrow> (bytes \<times> 'd) option" where
  "read_retry io 0 base buf sz d = None"
| "read_retry io (Suc n) base buf sz d = do {
     (e, buf, d) \<leftarrow> BootIdeReadData io base buf sz (delay_us io 50000 d);
     if e = 0 then Some (buf, d) else read_retry io n base buf sz d }"

definition read_until_ok :: "'d ports \<Rightarrow> nat \<Rightarrow> u16 \<Rightarrow> bytes \<Rightarrow> nat \<Rightarrow> 'd \<Rightarrow> (bytes \<times> 'd) option" where
  "read_until_ok io n base buf sz d = do {
     (e, buf, d) \<leftarrow> BootIdeReadData io base buf sz d;
     if e = 0 then Some (buf, d) else read_retry io n base buf sz d }"

text \<open>The ATAPI branch of \<open>BootIdeReadSector\<close>. The status is looked for in ports 1 and 0x20: the
  mask is inside the port's parentheses.\<close>

definition read10_packet :: "u32 \<Rightarrow> bytes" where
  "read10_packet block =
     [0x28, 0, ucast (drop_bit 24 block), ucast (drop_bit 16 block), ucast (drop_bit 8 block), ucast block,
      0, 0, 1, 0, 0, 0]"

definition sticky_error ::
  "'d ports \<Rightarrow> nat \<Rightarrow> tsHarddiskInfo list \<Rightarrow> u32 \<Rightarrow> bytes \<Rightarrow> 'd \<Rightarrow> 'd option" where
  "sticky_error io n info drv ba d = do {
     h \<leftarrow> drive_info info drv;
     let base = m_fwPortBase h;
     let (_, d) = IoInputByte io (IDE_REG_STATUS base) d;
     let (s, d) = IoInputByte io (IDE_REG_STATUS base AND 1) d;
     if s = 0 then Some d
     else do {
       let (e, d) = IoInputByte io (IDE_REG_ERROR base AND 0x20) d;
       if e = 0 then Some d
       else do {
         (_, _, d) \<leftarrow> BootIdeAtapiAdditionalSenseCode io n info drv ba 2048 d;
         Some d } } }"

definition read_atapi ::
  "'d ports \<Rightarrow> nat \<Rightarrow> tsHarddiskInfo list \<Rightarrow> u32 \<Rightarrow> bytes \<Rightarrow> u32 \<Rightarrow> nat \<Rightarrow> 'd
     \<Rightarrow> (u32 \<times> bytes \<times> 'd) option" where
  "read_atapi io n info drv buf block n_bytes d = do {
     h \<leftarrow> drive_info info drv;
     let base = m_fwPortBase h;
     d \<leftarrow> sticky_error io n info drv (replicate 12 0) d;
     (_, d) \<leftarrow> BootIdeWaitNotBusy io n base d;
     if n_bytes < 2048 then Some (1, buf, d)
     else do {
       (e, d) \<leftarrow> BootIdeIssueAtapiPacketCommandAndPacket io n info drv (read10_packet block) d;
       if e \<noteq> 0 then Some (1, buf, d)
       else do {
         let (k, d) = atapi_count io base 2048 d;
         (buf, d) \<leftarrow> read_until_ok io n base buf k d;
         Some (0, buf, d) } } }"

text \<open>The registers that address a block. \<open>ext\<close> says that the block needs 48-bit addressing; a
  geometry with a zero divides by zero.\<close>

definition lba48 :: "u32 \<Rightarrow> bool" where "lba48 block \<longleftrightarrow> block \<ge> 0x10000000"

definition lba48_params :: "u32 \<Rightarrow> u32 \<Rightarrow> tsIdeCommandParams" where
  "lba48_params drv block = IDE_DEFAULT_COMMAND\<lparr>m_bCountSector := 1, m_bCountSectorExt := 0, m_wCylinderExt := 0,
     m_bSectorExt := ucast (drop_bit 24 block AND 0xff), m_wCylinder := ucast (drop_bit 8 block AND 0xffff),
     m_bSector := ucast (block AND 0xff), m_bDrivehead := IDE_DH_DRIVE drv OR IDE_DH_LBA\<rparr>"

definition lba28_params :: "u32 \<Rightarrow> u32 \<Rightarrow> tsIdeCommandParams" where
  "lba28_params drv block = IDE_DEFAULT_COMMAND\<lparr>m_bCountSector := 1, m_bSector := ucast (block AND 0xff),
     m_wCylinder := ucast (drop_bit 8 block AND 0xffff),
     m_bDrivehead := IDE_DH_DEFAULT OR ucast (drop_bit 24 block AND 0x0f) OR IDE_DH_DRIVE drv OR IDE_DH_LBA\<rparr>"

definition chs_params :: "tsHarddiskInfo \<Rightarrow> u32 \<Rightarrow> u32 \<Rightarrow> tsIdeCommandParams option" where
  "chs_params h drv block =
     (let spt = ucast (m_wCountSectorsPerTrack h) :: u32; heads = ucast (m_wCountHeads h) :: u32
      in if spt = 0 \<or> heads = 0 then None
         else (let track = block div spt
               in Some (IDE_DEFAULT_COMMAND\<lparr>m_bCountSector := 1, m_bSector := ucast (1 + block mod spt),
                    m_wCylinder := ucast (track div heads),
                    m_bDrivehead := IDE_DH_DEFAULT OR IDE_DH_HEAD (track mod heads) OR IDE_DH_DRIVE drv
                      OR IDE_DH_CHS\<rparr>)))"

definition address_params :: "tsHarddiskInfo \<Rightarrow> u32 \<Rightarrow> u32 \<Rightarrow> tsIdeCommandParams option" where
  "address_params h drv block =
     (if lba48 block then Some (lba48_params drv block)
      else if m_bLbaMode h = IDE_DH_CHS then chs_params h drv block
      else Some (lba28_params drv block))"

definition control_byte :: "tsHarddiskInfo \<Rightarrow> u8" where
  "control_byte h = (if m_wCountHeads h > 8 then 0x0a else 0x02)"

definition BootIdeReadSector ::
  "'d ports \<Rightarrow> nat \<Rightarrow> tsHarddiskInfo list \<Rightarrow> u32 \<Rightarrow> u32 \<Rightarrow> nat \<Rightarrow> bytes \<Rightarrow> 'd
     \<Rightarrow> (u32 \<times> bytes \<times> 'd) option" where
  "BootIdeReadSector io n info nDriveIndex block byte_offset pbBuffer d = do {
     let n_bytes = length pbBuffer;
     h \<leftarrow> drive_info info nDriveIndex;
     if \<not> m_fDriveExists h then Some (4, pbBuffer, d)
     else do {
       let base = m_fwPortBase h;
       let d = IoOutputByte io (IDE_REG_DRIVEHEAD base) (drive_select nDriveIndex) d;
       if nDriveIndex <s 0 \<or> 2 \<le>s nDriveIndex then Some (1, pbBuffer, d)
       else if m_fAtapi h then read_atapi io n info nDriveIndex pbBuffer block n_bytes d
       else do {
         let d = IoOutputByte io (IDE_REG_CONTROL base) (control_byte h) d;
         p \<leftarrow> address_params h nDriveIndex block;
         (e, d) \<leftarrow> BootIdeIssueAtaCommand io n base
                    (if lba48 block then IDE_CMD_READ_EXT else IDE_CMD_READ_MULTI_RETRY) p d;
         if e \<noteq> 0 then Some (1, pbBuffer, d)
         else if n_bytes \<noteq> IDE_SECTOR_SIZE
         then do {
           (sector, d) \<leftarrow> read_until_ok io n base (replicate IDE_SECTOR_SIZE 0) IDE_SECTOR_SIZE d;
           if byte_offset + n_bytes \<le> IDE_SECTOR_SIZE
           then Some (0, slice byte_offset n_bytes sector, d) else None }
         else do {
           (buf, d) \<leftarrow> read_until_ok io n base pbBuffer IDE_SECTOR_SIZE d;
           Some (0, buf, d) } } } }"

definition BootIdeWriteSector ::
  "'d ports \<Rightarrow> nat \<Rightarrow> tsHarddiskInfo list \<Rightarrow> u32 \<Rightarrow> bytes \<Rightarrow> u32 \<Rightarrow> 'd \<Rightarrow> (u32 \<times> 'd) option" where
  "BootIdeWriteSector io n info nDriveIndex pbBuffer block d = do {
     h \<leftarrow> drive_info info nDriveIndex;
     if \<not> m_fDriveExists h then Some (4, d)
     else do {
       let base = m_fwPortBase h;
       let d = IoOutputByte io (IDE_REG_DRIVEHEAD base) (drive_select nDriveIndex) d;
       if nDriveIndex <s 0 \<or> 2 \<le>s nDriveIndex then Some (1, d)
       else do {
         let d = IoOutputByte io (IDE_REG_CONTROL base) (control_byte h) d;
         p \<leftarrow> address_params h nDriveIndex block;
         (e, d) \<leftarrow> BootIdeIssueAtaCommand io n base IDE_CMD_WRITE_MULTI_RETRY p d;
         if e \<noteq> 0 then Some (1, d)
         else BootIdeWriteData io n base pbBuffer IDE_SECTOR_SIZE d } } }"

section \<open>Drive security\<close>

text \<open>The 512 bytes of a security command: the flag byte, and the password from byte 2 on.\<close>

definition security_data :: "u8 \<Rightarrow> bytes \<Rightarrow> bytes option" where
  "security_data flags password = put_bytes ((replicate 512 0)[0 := flags]) 2 password"

definition master_password :: bytes where
  "master_password = [0x47, 0x45, 0x4e, 0x54, 0x4f, 0x4f, 0x58]"

definition send_security ::
  "'d ports \<Rightarrow> nat \<Rightarrow> u16 \<Rightarrow> u8 \<Rightarrow> tsIdeCommandParams \<Rightarrow> bytes \<Rightarrow> 'd \<Rightarrow> (u32 \<times> 'd) option" where
  "send_security io n base cmd p block d = do {
     (e, d) \<leftarrow> BootIdeIssueAtaCommand io n base cmd p d;
     if e \<noteq> 0 then Some (1, d)
     else do {
       let (_, d) = BootIdeWaitDataReady io base d;
       (_, d) \<leftarrow> BootIdeWriteData io n base block IDE_SECTOR_SIZE d;
       (err, d) \<leftarrow> BootIdeWaitNotBusy io n base d;
       Some (if err then 2 else 0, d) } }"

definition DriveSecurityChange ::
  "'d ports \<Rightarrow> nat \<Rightarrow> u16 \<Rightarrow> u32 \<Rightarrow> u8 \<Rightarrow> bytes \<Rightarrow> 'd \<Rightarrow> (u32 \<times> 'd) option" where
  "DriveSecurityChange io n base driveId cmd password d = do {
     (err, d) \<leftarrow> BootIdeWaitNotBusy io n base d;
     if err then Some (1, d)
     else do {
       let p = IDE_DEFAULT_COMMAND\<lparr>m_bDrivehead := drive_select driveId\<rparr>;
       (e, d) \<leftarrow> (if cmd = IDE_CMD_SECURITY_SET_PASSWORD
                  then do { block \<leftarrow> security_data 0x01 master_password; send_security io n base cmd p block d }
                  else Some (0, d));
       if e = 1 then Some (1, d)
       else do {
         block \<leftarrow> security_data 0x00 (take 20 password);
         (e, d) \<leftarrow> send_security io n base cmd p block d;
         if e \<noteq> 0 then Some (1, d)
         else do {
           (e, d) \<leftarrow> BootIdeIssueAtaCommand io n base IDE_CMD_IDENTIFY p d;
           if e \<noteq> 0 then Some (1, d)
           else do {
             let (_, d) = BootIdeWaitDataReady io base d;
             (e, _, d) \<leftarrow> BootIdeReadData io base (replicate 512 0) IDE_SECTOR_SIZE d;
             Some (if e \<noteq> 0 then 1 else 0, d) } } } } }"

text \<open>The drive password: a keyed hash of the model and the serial number under the key that the
  EEPROM holds.\<close>

definition CalculateDrivePassword ::
  "SHA1Context \<Rightarrow> tsHarddiskInfo list \<Rightarrow> bytes \<Rightarrow> u32 \<Rightarrow> bytes \<Rightarrow> (u32 \<times> bytes) option" where
  "CalculateDrivePassword c0 info eeprom driveId key = do {
     h \<leftarrow> drive_info info driveId;
     (version, eepromKey) \<leftarrow> BootHddKeyGenerateEepromKeyData c0 (take 0x30 eeprom);
     mac \<leftarrow> HMAC_SHA1 c0 eepromKey (take (unat (m_length h)) (m_szIdentityModelNumber h))
              (take (unat (s_length h)) (m_szSerial h));
     if version = 0 then Some (1, key)
     else do { key \<leftarrow> put_bytes key 0 mac; Some (0, key) } }"

section \<open>Detection\<close>

definition ident_word :: "bytes \<Rightarrow> nat \<Rightarrow> u16" where
  "ident_word b k = le16 (b ! (2 * k)) (b ! (2 * k + 1))"

definition ident_dword :: "bytes \<Rightarrow> nat \<Rightarrow> u32" where
  "ident_dword b k = le32 (b ! (2 * k)) (b ! (2 * k + 1)) (b ! (2 * k + 2)) (b ! (2 * k + 3))"

definition clear_info :: "u16 \<Rightarrow> tsHarddiskInfo \<Rightarrow> tsHarddiskInfo" where
  "clear_info base h = h\<lparr>m_fwPortBase := base, m_wCountHeads := 0, m_wCountCylinders := 0,
     m_wCountSectorsPerTrack := 0, m_dwCountSectorsTotal := 1, m_bLbaMode := IDE_DH_CHS,
     m_fDriveExists := False, m_enumDriveType := 0, m_fAtapi := False, m_wAtaRevisionSupported := 0,
     m_fHasMbr := False, m_securitySettings := 0\<rparr>"

text \<open>The sector count: the statement below the test of word 83 is the assignment, since the message
  between them is commented out.\<close>

definition total_sectors :: "bytes \<Rightarrow> u32" where
  "total_sectors b =
     (if bit (ident_word b 86) 10
      then if \<not> bit (ident_word b 83) 10 then ident_dword b 100 else ident_dword b 60
      else ident_dword b 60)"

definition take_identity :: "bytes \<Rightarrow> tsHarddiskInfo \<Rightarrow> tsHarddiskInfo option" where
  "take_identity b h = do {
     (s_len, serial) \<leftarrow> copy_swap_trim (m_szSerial h) (drop 20 b) 20;
     (m_len, model) \<leftarrow> copy_swap_trim (m_szIdentityModelNumber h) (drop 54 b) 40;
     (_, firmware) \<leftarrow> copy_swap_trim (m_szFirmware h) (drop 46 b) 8;
     Some (h\<lparr>m_wCountHeads := ident_word b 3, m_wCountCylinders := ident_word b 1,
       m_wCountSectorsPerTrack := ident_word b 6, m_dwCountSectorsTotal := total_sectors b,
       m_wAtaRevisionSupported := ident_word b 88, s_length := of_nat s_len, m_szSerial := serial,
       m_length := of_nat m_len, m_szIdentityModelNumber := model, m_szFirmware := firmware,
       m_fDriveExists := True\<rparr>) }"

definition lba_mode :: "bytes \<Rightarrow> u8" where
  "lba_mode b = (if ident_word b 49 AND 0x200 \<noteq> 0 then IDE_DH_LBA else IDE_DH_CHS)"

text \<open>The loop that reads the sense data until the drive no longer reports a unit attention.\<close>

fun sense_loop ::
  "'d ports \<Rightarrow> nat \<Rightarrow> tsHarddiskInfo list \<Rightarrow> u32 \<Rightarrow> nat \<Rightarrow> bytes \<Rightarrow> 'd \<Rightarrow> (bytes \<times> 'd) option" where
  "sense_loop io n info drv 0 ba d = None"
| "sense_loop io n info drv (Suc k) ba d =
     (if ba ! 2 \<noteq> 0x06 then Some (ba, d)
      else do {
        (r, ba, d) \<leftarrow> BootIdeAtapiAdditionalSenseCode io n info drv ba 128 d;
        sense_loop io n info drv k (if r < 12 then ba[2 := 0] else ba) d })"

text \<open>The two probes of a hard disk: the letters BRFR leave the drive type unknown in either case,
  the boot signature tells whether there is a master boot record.\<close>

definition probe_disk ::
  "'d ports \<Rightarrow> nat \<Rightarrow> tsHarddiskInfo list \<Rightarrow> u32 \<Rightarrow> 'd \<Rightarrow> (tsHarddiskInfo list \<times> 'd) option" where
  "probe_disk io n info drv d = do {
     (e, ba, d) \<leftarrow> BootIdeReadSector io n info drv 3 0 (replicate 512 0) d;
     let info = (if e = 0 \<and> take 4 ba = [0x42, 0x52, 0x46, 0x52]
                 then info[unat drv := (info ! unat drv)\<lparr>m_enumDriveType := 0\<rparr>] else info);
     (e, ba, d) \<leftarrow> BootIdeReadSector io n info drv 0 0 ba d;
     let info = (if e = 0
                 then info[unat drv := (info ! unat drv)\<lparr>m_fHasMbr := ba ! 0x1fe = 0x55 \<and> ba ! 0x1ff = 0xaa\<rparr>]
                 else info);
     Some (info, d) }"

definition unlock_disk ::
  "'d ports \<Rightarrow> nat \<Rightarrow> SHA1Context \<Rightarrow> bool \<Rightarrow> bytes \<Rightarrow> tsHarddiskInfo list \<Rightarrow> u32 \<Rightarrow> bytes \<Rightarrow> 'd
     \<Rightarrow> (u32 \<times> 'd) option" where
  "unlock_disk io n c0 cromwell eeprom info drv b d = do {
     h \<leftarrow> drive_info info drv;
     if cromwell \<and> ident_word b 128 AND 0x0004 = 0x0004
     then do {
       (e, password) \<leftarrow> CalculateDrivePassword c0 info eeprom drv (replicate 20 0);
       if e \<noteq> 0 then Some (1, d)
       else do {
         (_, d) \<leftarrow> DriveSecurityChange io n (m_fwPortBase h) drv IDE_CMD_SECURITY_UNLOCK password d;
         Some (0, d) } }
     else Some (0, d) }"

text \<open>The identification: the 512 bytes, when there is a drive, and whether it answered as ATAPI.\<close>

definition identify ::
  "'d ports \<Rightarrow> nat \<Rightarrow> u16 \<Rightarrow> u32 \<Rightarrow> 'd \<Rightarrow> (bytes option \<times> bool \<times> 'd) option" where
  "identify io n base drv d = do {
     let p = IDE_DEFAULT_COMMAND\<lparr>m_bDrivehead := drive_select drv\<rparr>;
     let d = outb_all io [(IDE_REG_DRIVEHEAD base, drive_select drv), (IDE_REG_CONTROL base, 0x0a),
               (IDE_REG_FEATURE base, 0x00)] d;
     (err, d) \<leftarrow> BootIdeWaitNotBusy io n base d;
     if err then Some (None, False, d)
     else do {
       (e, d) \<leftarrow> BootIdeIssueAtaCommand io n base IDE_CMD_IDENTIFY p d;
       (e', d) \<leftarrow> (if e = 0 then Some (0, d)
                   else do {
                     (_, d) \<leftarrow> BootIdeIssueAtaCommand io n base ATAPI_SOFT_RESET p d;
                     BootIdeIssueAtaCommand io n base IDE_CMD_PACKET_IDENTIFY p d });
       if e' \<noteq> 0 then Some (None, False, d)
       else do {
         let (_, d) = BootIdeWaitDataReady io base d;
         (r, b, d) \<leftarrow> BootIdeReadData io base (replicate 512 0) IDE_SECTOR_SIZE d;
         Some (if r \<noteq> 0 then None else Some b, e \<noteq> 0, d) } } }"

definition BootIdeDriveInit ::
  "'d ports \<Rightarrow> nat \<Rightarrow> SHA1Context \<Rightarrow> bool \<Rightarrow> bytes \<Rightarrow> u16 \<Rightarrow> tsHarddiskInfo list \<Rightarrow> u32 \<Rightarrow> 'd
     \<Rightarrow> (u32 \<times> tsHarddiskInfo list \<times> 'd) option" where
  "BootIdeDriveInit io n c0 cromwell eeprom base info drv d = do {
     h \<leftarrow> drive_info info drv;
     (ident, atapi, d) \<leftarrow> identify io n base drv d;
     let h = (clear_info base h)\<lparr>m_fAtapi := atapi\<rparr>;
     case ident of
       None \<Rightarrow> Some (1, info[unat drv := h], d)
     | Some b \<Rightarrow> do {
         h \<leftarrow> take_identity b h;
         let info = info[unat drv := h];
         if atapi
         then do {
           d \<leftarrow> (if cromwell
                 then map_option snd (sense_loop io n info drv n ((replicate 128 0)[2 := 0x06]) d)
                 else Some d);
           Some (0, info[unat drv := h\<lparr>m_bLbaMode := lba_mode b\<rparr>], d) }
         else do {
           let h = h\<lparr>m_securitySettings := ident_word b 128\<rparr>;
           let info = info[unat drv := h];
           (e, d) \<leftarrow> unlock_disk io n c0 cromwell eeprom info drv b d;
           if e \<noteq> 0 then Some (1, info, d)
           else do {
             (info, d) \<leftarrow> probe_disk io n (info[unat drv := h\<lparr>m_bLbaMode := lba_mode b\<rparr>]) drv d;
             Some (0, info, d) } } } }"

definition zero_info :: tsHarddiskInfo where
  "zero_info = \<lparr>m_fwPortBase = 0, m_wCountHeads = 0, m_wCountCylinders = 0, m_wCountSectorsPerTrack = 0,
     m_dwCountSectorsTotal = 0, m_bLbaMode = 0, m_szIdentityModelNumber = replicate 42 0,
     m_szSerial = replicate 22 0, m_szFirmware = replicate 10 0, m_fDriveExists = False, m_fAtapi = False,
     m_enumDriveType = 0, m_bCableConductors = 0, m_wAtaRevisionSupported = 0, s_length = 0, m_length = 0,
     m_fHasMbr = False, m_securitySettings = 0\<rparr>"

text \<open>Whether word 93 of the identification reports an 80-conductor cable.\<close>

definition cable80 :: "bytes \<Rightarrow> bool" where
  "cable80 b \<longleftrightarrow> ident_word b 93 AND 0xc000 \<noteq> 0 \<and> ident_word b 93 AND 0x8000 = 0
     \<and> ident_word b 93 AND 0xe000 \<noteq> 0x6000"

definition detect_cable ::
  "'d ports \<Rightarrow> nat \<Rightarrow> tsHarddiskInfo \<Rightarrow> 'd \<Rightarrow> (tsHarddiskInfo \<times> 'd) option" where
  "detect_cable io n h d = do {
     let base = m_fwPortBase h;
     let p = IDE_DEFAULT_COMMAND\<lparr>m_bDrivehead := drive_select 0\<rparr>;
     let d = IoOutputByte io (IDE_REG_DRIVEHEAD base) (drive_select 0) d;
     (e, d) \<leftarrow> BootIdeIssueAtaCommand io n base IDE_CMD_IDENTIFY p d;
     if e \<noteq> 0 then Some (h, d)
     else do {
       let (_, d) = BootIdeWaitDataReady io base d;
       (r, b, d) \<leftarrow> BootIdeReadData io base (replicate 512 0) IDE_SECTOR_SIZE d;
       Some (if r = 0 \<and> cable80 b then h\<lparr>m_bCableConductors := 80\<rparr> else h, d) } }"

text \<open>The mode number that is printed for an 80-conductor cable.\<close>

definition udma_mode :: "u16 \<Rightarrow> u32" where
  "udma_mode r =
     (let nAta = 0;
          nAta = (if r AND 2 \<noteq> 0 then 1 else nAta);
          nAta = (if r AND 4 \<noteq> 0 then 2 else nAta);
          nAta = (if r AND 8 \<noteq> 0 then 3 else nAta);
          nAta = (if r AND 16 \<noteq> 0 then 4 else nAta)
      in if r AND 32 \<noteq> 0 then 5 else nAta)"

text \<open>\<open>BootIdeInit\<close> returns 0 whatever the two drives did; the second result is the mode it prints.\<close>

definition BootIdeInit ::
  "'d ports \<Rightarrow> nat \<Rightarrow> SHA1Context \<Rightarrow> bool \<Rightarrow> bytes \<Rightarrow> 'd \<Rightarrow> (u32 \<times> u32 \<times> tsHarddiskInfo list \<times> 'd) option" where
  "BootIdeInit io n c0 cromwell eeprom d = do {
     let info = replicate 2 (zero_info\<lparr>m_bCableConductors := 40\<rparr>);
     let d = outb_all io [(0xff60, 0x00), (0xff62, 0x62)] d;
     (_, info, d) \<leftarrow> BootIdeDriveInit io n c0 cromwell eeprom IDE_BASE1 info 0 d;
     (_, info, d) \<leftarrow> BootIdeDriveInit io n c0 cromwell eeprom IDE_BASE1 info 1 d;
     (info, d) \<leftarrow> (if m_fDriveExists (info ! 0)
        then do { (h, d) \<leftarrow> detect_cable io n (info ! 0) d; Some (info[0 := h], d) }
        else Some (info, d));
     let mode = (if m_bCableConductors (info ! 0) = 40 then 2 else udma_mode (m_wAtaRevisionSupported (info ! 0)));
     Some (0, mode, info, d) }"

section \<open>Boot sectors and services\<close>

definition baCheck11hFormat :: bytes where
  "baCheck11hFormat = [0x00, 0x43, 0x44, 0x30, 0x30, 0x31, 0x01, 0x45, 0x4C, 0x20, 0x54, 0x4F, 0x52, 0x49, 0x54, 0x4F,
     0x20, 0x53, 0x50, 0x45, 0x43, 0x49, 0x46, 0x49, 0x43, 0x41, 0x54, 0x49, 0x4F, 0x4E]"

text \<open>A block of 2048 bytes at the start of the caller's buffer.\<close>

definition read_block_into ::
  "'d ports \<Rightarrow> nat \<Rightarrow> tsHarddiskInfo list \<Rightarrow> u32 \<Rightarrow> nat \<Rightarrow> bytes \<Rightarrow> u32 \<Rightarrow> 'd \<Rightarrow> (u32 \<times> bytes \<times> 'd) option" where
  "read_block_into io n info drv sz pba block d =
     (if length pba < sz then None
      else do {
        (e, new, d) \<leftarrow> BootIdeReadSector io n info drv block 0 (take sz pba) d;
        Some (e, new @ drop sz pba, d) })"

definition BootIdeBootSectorHddOrElTorito ::
  "'d ports \<Rightarrow> nat \<Rightarrow> tsHarddiskInfo list \<Rightarrow> u32 \<Rightarrow> bytes \<Rightarrow> 'd \<Rightarrow> (u32 \<times> bytes \<times> 'd) option" where
  "BootIdeBootSectorHddOrElTorito io n info drv pba d = do {
     h \<leftarrow> drive_info info drv;
     if \<not> m_fDriveExists h then Some (4, pba, d)
     else if m_fAtapi h
     then do {
       (e, pba, d) \<leftarrow> read_block_into io n info drv 2048 pba 0x11 d;
       if e \<noteq> 0 then Some (1, pba, d)
       else if take 30 pba \<noteq> baCheck11hFormat then Some (2, pba, d)
       else do {
         (e, pba, d) \<leftarrow> read_block_into io n info drv 2048 pba
                          (le32 (pba ! 0x47) (pba ! 0x48) (pba ! 0x49) (pba ! 0x4a)) d;
         if e \<noteq> 0 then Some (3, pba, d)
         else if pba ! 0 \<noteq> 1 \<or> pba ! 0x1e \<noteq> 0x55 \<or> pba ! 0x1f \<noteq> 0xaa then Some (4, pba, d)
         else if pba ! 0x20 \<noteq> 0x88 then Some (4, pba, d)
         else do {
           (e, pba, d) \<leftarrow> read_block_into io n info drv 2048 pba
                            (le32 (pba ! 0x28) (pba ! 0x29) (pba ! 0x2a) (pba ! 0x2b)) d;
           if e \<noteq> 0 then Some (3, pba, d)
           else Some (if pba ! 0x7fe \<noteq> 0x55 \<or> pba ! 0x7ff \<noteq> 0xaa then 4 else 0, pba, d) } } }
     else do {
       (e, pba, d) \<leftarrow> read_block_into io n info drv 512 pba 0 d;
       if e \<noteq> 0 then Some (3, pba, d)
       else Some (if pba ! 0x1fe \<noteq> 0x55 \<or> pba ! 0x1ff \<noteq> 0xaa then 4 else 0, pba, d) } }"

record geometry =
  cylinders :: u32
  heads :: u32
  geo_sectors :: u32
  total_sectors_of :: u32
  geo_flags :: u32

definition get_diskinfo :: "tsHarddiskInfo list \<Rightarrow> u32 \<Rightarrow> geometry \<Rightarrow> (u32 \<times> geometry) option" where
  "get_diskinfo info drive g =
     (if 1 <s drive then Some (1, g)
      else map_option (\<lambda>h. (0, g\<lparr>cylinders := ucast (m_wCountCylinders h), heads := ucast (m_wCountHeads h),
             geo_sectors := ucast (m_wCountSectorsPerTrack h), total_sectors_of := m_dwCountSectorsTotal h,
             geo_flags := 0\<rparr>)) (drive_info info drive))"

definition BootIdeSetTransferMode ::
  "'d ports \<Rightarrow> nat \<Rightarrow> tsHarddiskInfo list \<Rightarrow> u32 \<Rightarrow> u32 \<Rightarrow> 'd \<Rightarrow> (u32 \<times> 'd) option" where
  "BootIdeSetTransferMode io n info drv nMode d = do {
     h \<leftarrow> drive_info info drv;
     let base = m_fwPortBase h;
     let p = IDE_DEFAULT_COMMAND\<lparr>m_bDrivehead := drive_select drv\<rparr>;
     let d = outb_all io [(IDE_REG_DRIVEHEAD base, m_bDrivehead p), (0xff62, 0x62),
               (IDE_REG_CONTROL base, 0x08), (IDE_REG_FEATURE base, 0x01)] d;
     (err, d) \<leftarrow> BootIdeWaitNotBusy io n base d;
     if err then Some (1, d)
     else do {
       let p = p\<lparr>m_bCountSector := ucast nMode\<rparr>;
       let d = IoOutputByte io (IDE_REG_FEATURE base) 3 d;
       BootIdeIssueAtaCommand io n base IDE_CMD_SET_FEATURES p d } }"

end
