(* ===== verification/IdeDrive.thy ===== *)
theory IdeDrive
  imports Ide FatxCorrect IsoCorrect
begin

text \<open>
  A primary IDE channel with a hard disk as master and an ATAPI drive as slave, and what the driver
  of \<open>Ide\<close> does on it: it is a sector source for the FATX reader and a block source for the ISO 9660
  reader. Sector addresses are decoded from the registers the way the ATA standard says.
\<close>

section \<open>The channel\<close>

text \<open>The four address registers are two-deep: the current byte and the one written before. A
  command keeps the drive busy for \<open>t_lag\<close> reads of the status. \<open>t_out\<close> holds the bytes the host may
  read, \<open>t_need\<close> is how many the drive wants, \<open>t_in\<close> what it has got so far.\<close>

record ata_dev =
  t_sel :: u8
  t_count :: "u8 \<times> u8"
  t_num :: "u8 \<times> u8"
  t_lsb :: "u8 \<times> u8"
  t_msb :: "u8 \<times> u8"
  t_err :: bool
  t_busy :: nat
  t_lag :: nat
  t_cmd :: u8
  t_out :: bytes
  t_need :: nat
  t_in :: bytes
  t_disk :: "nat \<Rightarrow> bytes"
  t_disc :: "u32 \<Rightarrow> bytes"
  t_ident :: bytes
  t_pident :: bytes
  t_heads :: nat
  t_spt :: nat

definition slave :: "ata_dev \<Rightarrow> bool" where "slave d \<longleftrightarrow> bit (t_sel d) 4"

definition lba28_address :: "u8 \<Rightarrow> u8 \<Rightarrow> u8 \<Rightarrow> u8 \<Rightarrow> nat" where
  "lba28_address sel num lsb msb = unat (le32 num lsb msb (sel AND 0x0F))"

definition lba48_address :: "u8 \<times> u8 \<Rightarrow> u8 \<times> u8 \<Rightarrow> u8 \<times> u8 \<Rightarrow> nat" where
  "lba48_address num lsb msb =
     unat (le32 (fst num) (fst lsb) (fst msb) (snd num)) + 2 ^ 32 * unat (le16 (snd lsb) (snd msb))"

definition chs_address :: "nat \<Rightarrow> nat \<Rightarrow> u8 \<Rightarrow> u8 \<Rightarrow> u8 \<Rightarrow> u8 \<Rightarrow> nat" where
  "chs_address hds spt sel num lsb msb =
     (unat (le16 lsb msb) * hds + unat (sel AND 0x0F)) * spt + unat num - 1"

definition address28 :: "ata_dev \<Rightarrow> nat" where
  "address28 d =
     (if bit (t_sel d) 6 then lba28_address (t_sel d) (fst (t_num d)) (fst (t_lsb d)) (fst (t_msb d))
      else chs_address (t_heads d) (t_spt d) (t_sel d) (fst (t_num d)) (fst (t_lsb d)) (fst (t_msb d)))"

definition address48 :: "ata_dev \<Rightarrow> nat" where
  "address48 d = lba48_address (t_num d) (t_lsb d) (t_msb d)"

definition ata_status :: "ata_dev \<Rightarrow> u8" where
  "ata_status d =
     (if t_busy d > 0 then 0x80
      else (if t_out d \<noteq> [] \<or> t_need d > 0 then (if t_err d then 0x59 else 0x58)
            else (if t_err d then 0x51 else 0x50)))"

definition ata_command :: "u8 \<Rightarrow> ata_dev \<Rightarrow> ata_dev" where
  "ata_command c d =
     (let d = d\<lparr>t_busy := t_lag d, t_err := False, t_cmd := c, t_out := [], t_need := 0, t_in := []\<rparr>
      in if slave d
         then (if c = 0xA0 then d\<lparr>t_need := 12\<rparr>
               else if c = 0xA1 then d\<lparr>t_out := t_pident d\<rparr>
               else if c = 0x08 then d
               else d\<lparr>t_err := True\<rparr>)
         else (if c = 0x20 then d\<lparr>t_out := t_disk d (address28 d)\<rparr>
               else if c = 0x24 then d\<lparr>t_out := t_disk d (address48 d)\<rparr>
               else if c = 0x30 \<or> c = 0xF1 \<or> c = 0xF2 \<or> c = 0xF6 then d\<lparr>t_need := 512\<rparr>
               else if c = 0xEC then d\<lparr>t_out := t_ident d\<rparr>
               else if c = 0xEF then d
               else d\<lparr>t_err := True\<rparr>))"

text \<open>All the bytes of a transfer to the drive have arrived.\<close>

definition ata_received :: "ata_dev \<Rightarrow> ata_dev" where
  "ata_received d =
     (let d = d\<lparr>t_busy := t_lag d\<rparr>
      in if t_cmd d = 0x30 then d\<lparr>t_disk := (t_disk d)(address28 d := t_in d)\<rparr>
         else if t_cmd d = 0xA0
         then (if t_in d ! 0 = 0x28
               then d\<lparr>t_out := t_disc d (le32 (t_in d ! 5) (t_in d ! 4) (t_in d ! 3) (t_in d ! 2)),
                      t_lsb := (0, fst (t_lsb d)), t_msb := (8, fst (t_msb d))\<rparr>
               else d\<lparr>t_err := True\<rparr>)
         else d)"

definition ata_word_out :: "u16 \<Rightarrow> ata_dev \<Rightarrow> ata_dev" where
  "ata_word_out w d =
     (if t_need d = 0 then d
      else (let d = d\<lparr>t_in := t_in d @ [ucast w, ucast (drop_bit 8 w)], t_need := t_need d - 2\<rparr>
            in if t_need d = 0 then ata_received d else d))"

definition ata_ports :: "ata_dev ports" where
  "ata_ports = \<lparr>
     IoInputByte = (\<lambda>p d. if p = 0x1F7 \<or> p = 0x3F6 then (ata_status d, d\<lparr>t_busy := t_busy d - 1\<rparr>)
                     else if p = 0x1F4 then (fst (t_lsb d), d)
                     else if p = 0x1F5 then (fst (t_msb d), d) else (0, d)),
     IoInputWord = (\<lambda>p d. if p = 0x1F0
                     then (case t_out d of
                             a # b # r \<Rightarrow> (le16 a b, d\<lparr>t_out := r\<rparr>)
                           | _ \<Rightarrow> (0, d))
                     else (0, d)),
     IoInputDword = (\<lambda>p d. (0, d)),
     IoOutputByte = (\<lambda>p b d. if p = 0x1F2 then d\<lparr>t_count := (b, fst (t_count d))\<rparr>
                      else if p = 0x1F3 then d\<lparr>t_num := (b, fst (t_num d))\<rparr>
                      else if p = 0x1F4 then d\<lparr>t_lsb := (b, fst (t_lsb d))\<rparr>
                      else if p = 0x1F5 then d\<lparr>t_msb := (b, fst (t_msb d))\<rparr>
                      else if p = 0x1F6 then d\<lparr>t_sel := b\<rparr>
                      else if p = 0x1F7 then ata_command b d else d),
     IoOutputWord = (\<lambda>p w d. if p = 0x1F0 then ata_word_out w d else d),
     IoOutputDword = (\<lambda>p w d. d),
     delay_us = (\<lambda>t d. d)\<rparr>"

section \<open>Steps\<close>

lemma busy_idle [simp]: "t_busy d = 0 \<Longrightarrow> d\<lparr>t_busy := 0\<rparr> = d"
  by (cases d) simp

lemma ata_ports_simps:
  "IoInputByte ata_ports 0x1F7 d = (ata_status d, d\<lparr>t_busy := t_busy d - 1\<rparr>)"
  "IoInputByte ata_ports 0x3F6 d = (ata_status d, d\<lparr>t_busy := t_busy d - 1\<rparr>)"
  "IoInputByte ata_ports 0x1F4 d = (fst (t_lsb d), d)"
  "IoInputByte ata_ports 0x1F5 d = (fst (t_msb d), d)"
  "IoInputByte ata_ports 1 d = (0, d)"
  "IoOutputByte ata_ports 0x1F6 b d = d\<lparr>t_sel := b\<rparr>"
  "IoOutputByte ata_ports 0x1F7 b d = ata_command b d"
  "IoOutputByte ata_ports 0x3F6 b d = d"
  "IoOutputWord ata_ports 0x1F0 w d = ata_word_out w d"
  "delay_us ata_ports t d = d"
  by (simp_all add: ata_ports_def)

lemma ata_status_bits:
  "ata_status d AND 0x80 = 0 \<longleftrightarrow> t_busy d = 0"
  "t_busy d = 0 \<Longrightarrow> ata_status d AND 1 \<noteq> 0 \<longleftrightarrow> t_err d"
  "t_busy d = 0 \<Longrightarrow> ata_status d AND 0x88 = 0x08 \<longleftrightarrow> t_out d \<noteq> [] \<or> t_need d > 0"
  by (auto simp: ata_status_def)

lemma ata_not_busy:
  assumes "t_busy d < n"
  shows "BootIdeWaitNotBusy ata_ports n 0x1F0 d = Some (t_err d, d\<lparr>t_busy := 0\<rparr>)"
proof -
  have "poll_byte ata_ports 0x3F6 (\<lambda>b. b AND 0x80 = 0) n d
      = Some (ata_status (d\<lparr>t_busy := 0\<rparr>), d\<lparr>t_busy := 0\<rparr>)"
    using assms
  proof (induction n arbitrary: d)
    case (Suc n)
    show ?case
    proof (cases "t_busy d")
      case 0
      then have "d\<lparr>t_busy := 0\<rparr> = d" by simp
      with 0 show ?thesis by (simp add: ata_ports_simps ata_status_bits)
    next
      case (Suc k)
      with Suc.prems Suc.IH [of "d\<lparr>t_busy := k\<rparr>"] show ?thesis
        by (simp add: ata_ports_simps ata_status_bits)
    qed
  qed simp
  then show ?thesis
    using ata_status_bits(2) [of "d\<lparr>t_busy := 0\<rparr>"] by (simp add: BootIdeWaitNotBusy_def)
qed

lemma drq_loop_now:
  assumes "t_busy d = 0" and "t_out d \<noteq> [] \<or> t_need d > 0" and "0 < i"
  shows "drq_loop ata_ports 0x1F0 i d = (if t_err d then 2 else 0, d)"
proof -
  from assms(3) obtain j where "i = Suc j" by (cases i) auto
  moreover have "d\<lparr>t_busy := 0\<rparr> = d" using assms(1) by simp
  ultimately show ?thesis
    using assms ata_status_bits(2,3) [OF assms(1)] by (simp add: ata_ports_simps)
qed

lemma ata_data_ready:
  assumes "t_busy d = 0" and "t_out d \<noteq> [] \<or> t_need d > 0"
  shows "BootIdeWaitDataReady ata_ports 0x1F0 d = (if t_err d then 2 else 0, d)"
  using drq_loop_now [OF assms, of "0x800000"]
  by (simp add: BootIdeWaitDataReady_def wait_smalldelay_def ata_ports_simps)

definition load_registers :: "tsIdeCommandParams \<Rightarrow> ata_dev \<Rightarrow> ata_dev" where
  "load_registers p d = d\<lparr>t_count := (m_bCountSector p, m_bCountSectorExt p),
     t_num := (m_bSector p, m_bSectorExt p),
     t_lsb := (ucast (m_wCylinder p AND 0xFF), ucast (m_wCylinderExt p AND 0xFF)),
     t_msb := (ucast (drop_bit 8 (m_wCylinder p)), ucast (drop_bit 8 (m_wCylinderExt p))),
     t_sel := m_bDrivehead p\<rparr>"

lemma load_command_registers:
  "outb_all ata_ports (command_registers 0x1F0 p) d = load_registers p d"
  by (simp add: command_registers_def load_registers_def ata_ports_def)

lemma ata_command_fields [simp]:
  "t_busy (ata_command c d) = t_lag d" "t_lag (ata_command c d) = t_lag d"
  by (simp_all add: ata_command_def Let_def)

lemma ata_issue:
  assumes "t_busy d = 0" and "t_lag d < n"
  shows "BootIdeIssueAtaCommand ata_ports n 0x1F0 c p d =
    (let d' = ata_command c (load_registers p d)
     in Some (if t_err d' then 1 else 0, d'\<lparr>t_busy := 0\<rparr>))"
proof -
  have d: "d\<lparr>t_busy := t_busy d - 1\<rparr> = d" "d\<lparr>t_busy := 0\<rparr> = d" using assms(1) by simp_all
  have nb: "BootIdeWaitNotBusy ata_ports n 0x1F0 d = Some (t_err d, d)"
    using ata_not_busy [of d n] assms d by simp
  have lag: "t_lag (load_registers p d) = t_lag d" by (simp add: load_registers_def)
  have "BootIdeWaitNotBusy ata_ports n 0x1F0 (ata_command c (load_registers p d)) =
      Some (t_err (ata_command c (load_registers p d)), (ata_command c (load_registers p d))\<lparr>t_busy := 0\<rparr>)"
    using ata_not_busy [of "ata_command c (load_registers p d)" n] assms lag by simp
  then show ?thesis
    using nb d
    by (simp add: BootIdeIssueAtaCommand_def ata_ports_simps load_command_registers wait_smalldelay_def Let_def)
qed

text \<open>Words from and to the drive.\<close>

lemma le16_parts: "ucast (le16 a b) = a" "ucast (drop_bit 8 (le16 a b)) = b"
  by (rule bit_word_eqI; auto simp: le16_def bit_simps dest: bit_imp_le_length)+

lemma ata_in_words:
  "2 * k \<le> length (t_out d) \<Longrightarrow>
   in_words ata_ports 0x1F0 k d = (take (2 * k) (t_out d), d\<lparr>t_out := drop (2 * k) (t_out d)\<rparr>)"
proof (induction k arbitrary: d)
  case (Suc k)
  then obtain a b r where out: "t_out d = a # b # r"
    by (cases "t_out d" rule: swapped.cases) auto
  with Suc.IH [of "d\<lparr>t_out := r\<rparr>"] Suc.prems show ?case
    by (simp add: ata_ports_def le16_parts)
qed simp

lemma ata_read_data:
  assumes "t_busy d = 0" and "\<not> t_err d" and "t_out d \<noteq> []" and "even sz"
    and "sz \<le> length (t_out d)" and "sz \<le> length buf"
  shows "BootIdeReadData ata_ports 0x1F0 buf sz d =
    Some (0, take sz (t_out d) @ drop sz buf, d\<lparr>t_out := drop sz (t_out d)\<rparr>)"
proof -
  have sz: "2 * (sz div 2) = sz" using assms(4) by simp
  have "in_words ata_ports 0x1F0 (sz div 2) d = (take sz (t_out d), d\<lparr>t_out := drop sz (t_out d)\<rparr>)"
    using ata_in_words [of "sz div 2" d] assms(5) by (simp add: sz)
  moreover have "BootIdeWaitDataReady ata_ports 0x1F0 d = (0, d)"
    using ata_data_ready [OF assms(1)] assms(2,3) by simp
  ultimately show ?thesis
    using assms ata_status_bits(2) [of "d\<lparr>t_out := drop sz (t_out d)\<rparr>"]
    by (simp add: BootIdeReadData_def put_bytes_def ata_ports_simps)
qed

section \<open>Addresses\<close>

lemma masks: "(0xff :: u32) = mask 8" "(0xffff :: u32) = mask 16" "(0xFF :: u16) = mask 8" "(0x0f :: u32) = mask 4"
  "(0x0F :: u8) = mask 4"
  by (simp_all add: mask_eq_exp_minus_1)

lemma block_bytes:
  "(ucast ((block :: u32) AND 0xff) :: u8) = ucast block"
  "(ucast ((ucast (drop_bit 8 block AND 0xffff) :: u16) AND 0xFF) :: u8) = ucast (drop_bit 8 block)"
  "(ucast (drop_bit 8 (ucast (drop_bit 8 block AND 0xffff) :: u16)) :: u8) = ucast (drop_bit 16 block)"
  "(ucast (drop_bit 24 block AND 0xff) :: u8) = ucast (drop_bit 24 block)"
  unfolding masks by (rule bit_word_eqI; auto simp: bit_simps)+

lemma bits_below_28:
  assumes "block < (0x10000000 :: u32)" and "bit block k" shows "k < 28"
proof -
  have "unat block < 2 ^ 28" using assms(1) by (simp add: word_less_nat_alt)
  then have "take_bit 28 (unat block) = unat block" by (rule take_bit_nat_eq_self)
  moreover have "bit (unat block) k" using assms(2) by (simp add: bit_unsigned_iff)
  ultimately have "bit (take_bit 28 (unat block)) k" by simp
  then show ?thesis by (simp add: bit_take_bit_iff)
qed

lemma drive_bit: "bit (IDE_DH_DRIVE drv) k \<longleftrightarrow> k = 4 \<and> bit drv 0"
proof -
  have "drv AND 1 \<noteq> 0 \<longleftrightarrow> bit drv 0" by (simp add: and_one_eq odd_iff_mod_2_eq_one bit_0)
  moreover have "bit (0x10 :: u8) k \<longleftrightarrow> k = 4"
  proof -
    have "(0x10 :: u8) = 2 ^ 4" by simp
    then show ?thesis by (simp only: bit_exp_iff) auto
  qed
  ultimately show ?thesis by (auto simp: IDE_DH_DRIVE_def)
qed

lemma const_bits:
  "bit (0xA0 :: u8) k \<longleftrightarrow> k = 5 \<or> k = 7" "bit (0x40 :: u8) k \<longleftrightarrow> k = 6"
proof -
  have "(0xA0 :: u8) = 2 ^ 5 OR 2 ^ 7" by simp
  then show "bit (0xA0 :: u8) k \<longleftrightarrow> k = 5 \<or> k = 7" by (simp only: bit_or_iff bit_exp_iff) auto
  have "(0x40 :: u8) = 2 ^ 6" by simp
  then show "bit (0x40 :: u8) k \<longleftrightarrow> k = 6" by (simp only: bit_exp_iff) auto
qed

lemma const_bits_int: "bit (160 :: int) k \<longleftrightarrow> k = 5 \<or> k = 7" "bit (64 :: int) k \<longleftrightarrow> k = 6"
proof -
  have "(160 :: int) = 2 ^ 5 OR 2 ^ 7" by simp
  then show "bit (160 :: int) k \<longleftrightarrow> k = 5 \<or> k = 7" by (simp only: bit_or_iff bit_exp_iff) auto
  have "(64 :: int) = 2 ^ 6" by simp
  then show "bit (64 :: int) k \<longleftrightarrow> k = 6" by (simp only: bit_exp_iff) auto
qed

lemma lba28_drivehead:
  assumes "block < (0x10000000 :: u32)"
  shows "m_bDrivehead (lba28_params drv block) AND 0x0F = ucast (drop_bit 24 block)"
    and "bit (m_bDrivehead (lba28_params drv block)) 6"
    and "bit (m_bDrivehead (lba28_params drv block)) 4 \<longleftrightarrow> bit drv 0"
proof -
  show "m_bDrivehead (lba28_params drv block) AND 0x0F = ucast (drop_bit 24 block)"
    unfolding masks
    by (rule bit_word_eqI)
      (auto simp: lba28_params_def masks bit_simps const_bits const_bits_int drive_bit dest: bits_below_28 [OF assms])
  show "bit (m_bDrivehead (lba28_params drv block)) 6"
    by (simp add: lba28_params_def bit_simps const_bits)
  show "bit (m_bDrivehead (lba28_params drv block)) 4 \<longleftrightarrow> bit drv 0"
    by (auto simp: lba28_params_def masks bit_simps const_bits drive_bit)
qed

lemma lba28_decodes:
  assumes "block < (0x10000000 :: u32)"
  shows "address28 (load_registers (lba28_params drv block) d) = unat block"
  using lba28_drivehead [OF assms, of drv]
  by (simp add: address28_def load_registers_def lba28_address_def)
    (simp add: lba28_params_def block_bytes le32_of_bytes)

lemma lba48_decodes:
  "address48 (load_registers (lba48_params drv block) d) = unat block"
proof -
  have "le16 (ucast (drop_bit 8 (0 :: u16))) 0 = (0 :: u16)" by (simp add: le16_def)
  then show ?thesis
    by (simp add: address48_def load_registers_def lba48_address_def lba48_params_def block_bytes le32_of_bytes
        IDE_DEFAULT_COMMAND_def le16_def)
qed

lemma lba48_drivehead: "bit (m_bDrivehead (lba48_params drv block)) 4 \<longleftrightarrow> bit drv 0"
  by (simp add: lba48_params_def bit_simps const_bits drive_bit)

lemma le16_of_bytes: "le16 (ucast ((c :: u16) AND 0xFF)) (ucast (drop_bit 8 c)) = c"
  unfolding masks by (rule bit_word_eqI) (auto simp: le16_def bit_simps dest: bit_imp_le_length)

lemma chs_drivehead:
  assumes "x < (16 :: u32)"
  shows "unat ((IDE_DH_DEFAULT OR IDE_DH_HEAD x OR IDE_DH_DRIVE drv OR IDE_DH_CHS) AND 0x0F) = unat x"
    and "\<not> bit (IDE_DH_DEFAULT OR IDE_DH_HEAD x OR IDE_DH_DRIVE drv OR IDE_DH_CHS) 6"
    and "bit (IDE_DH_DEFAULT OR IDE_DH_HEAD x OR IDE_DH_DRIVE drv OR IDE_DH_CHS) 4 \<longleftrightarrow> bit drv 0"
proof -
  have "(IDE_DH_DEFAULT OR IDE_DH_HEAD x OR IDE_DH_DRIVE drv OR IDE_DH_CHS) AND 0x0F = ucast (take_bit 4 x)"
    unfolding masks
    by (rule bit_word_eqI) (auto simp: IDE_DH_HEAD_def masks bit_simps const_bits const_bits_int drive_bit)
  moreover have "unat (ucast (take_bit 4 x) :: u8) = unat x"
    using assms by (simp add: unsigned_ucast_eq unsigned_take_bit_eq word_less_nat_alt take_bit_nat_eq_self)
  ultimately show "unat ((IDE_DH_DEFAULT OR IDE_DH_HEAD x OR IDE_DH_DRIVE drv OR IDE_DH_CHS) AND 0x0F) = unat x"
    by simp
  show "\<not> bit (IDE_DH_DEFAULT OR IDE_DH_HEAD x OR IDE_DH_DRIVE drv OR IDE_DH_CHS) 6"
    by (auto simp: IDE_DH_HEAD_def masks bit_simps const_bits drive_bit)
  show "bit (IDE_DH_DEFAULT OR IDE_DH_HEAD x OR IDE_DH_DRIVE drv OR IDE_DH_CHS) 4 \<longleftrightarrow> bit drv 0"
    by (auto simp: IDE_DH_HEAD_def masks bit_simps const_bits drive_bit)
qed

lemma chs_number:
  assumes "0 < (hds :: nat)" and "0 < spt"
  shows "(block div spt div hds * hds + block div spt mod hds) * spt + (block mod spt + 1) - 1 = block"
  using assms by simp

text \<open>A geometry the registers can express, and the blocks it reaches.\<close>

definition geometry_ok :: "tsHarddiskInfo \<Rightarrow> ata_dev \<Rightarrow> bool" where
  "geometry_ok h d \<longleftrightarrow> unat (m_wCountHeads h) = t_heads d \<and> unat (m_wCountSectorsPerTrack h) = t_spt d
     \<and> 0 < t_heads d \<and> t_heads d \<le> 16 \<and> 0 < t_spt d \<and> t_spt d \<le> 255"

lemma chs_decodes:
  assumes "geometry_ok h d" and "unat block < 65536 * t_heads d * t_spt d" and "chs_params h drv block = Some p"
  shows "address28 (load_registers p d) = unat block" and "bit (m_bDrivehead p) 4 \<longleftrightarrow> bit drv 0"
proof -
  define spt where "spt = (ucast (m_wCountSectorsPerTrack h) :: u32)"
  define hds where "hds = (ucast (m_wCountHeads h) :: u32)"
  have n: "unat spt = t_spt d" "unat hds = t_heads d"
    using assms(1) by (simp_all add: spt_def hds_def geometry_ok_def unsigned_ucast_eq take_bit_nat_eq_self)
  have g: "0 < t_heads d" "t_heads d \<le> 16" "0 < t_spt d" "t_spt d \<le> 255" using assms(1) by (simp_all add: geometry_ok_def)
  have p: "p = IDE_DEFAULT_COMMAND\<lparr>m_bCountSector := 1, m_bSector := ucast (1 + block mod spt),
      m_wCylinder := ucast (block div spt div hds),
      m_bDrivehead := IDE_DH_DEFAULT OR IDE_DH_HEAD (block div spt mod hds) OR IDE_DH_DRIVE drv OR IDE_DH_CHS\<rparr>"
    using assms(3) by (auto simp: chs_params_def Let_def spt_def hds_def split: if_splits)
  have "unat (block div spt mod hds) < t_heads d" using g n by (simp add: unat_mod)
  then have hd: "block div spt mod hds < 16" using g(2) by (simp add: word_less_nat_alt)
  have m: "unat (block mod spt) < t_spt d" using g n by (simp add: unat_mod)
  then have "unat (1 + block mod spt) = unat (block mod spt) + 1"
    using g(4) by (subst unat_add_lem [THEN iffD1]) simp_all
  then have num: "unat (ucast (1 + block mod spt) :: u8) = unat block mod t_spt d + 1"
    using m g(4) n by (simp add: unsigned_ucast_eq unat_mod take_bit_nat_eq_self)
  have c: "unat (block div spt div hds) = unat block div t_spt d div t_heads d"
    by (simp add: unat_div n)
  have "unat block div t_spt d div t_heads d < 65536"
    using assms(2) g by (simp add: div_less_iff_less_mult flip: div_mult2_eq) (simp add: ac_simps)
  then have cyl: "unat (ucast (block div spt div hds) :: u16) = unat block div t_spt d div t_heads d"
    by (simp add: unsigned_ucast_eq c take_bit_nat_eq_self)
  have head: "unat (block div spt mod hds) = unat block div t_spt d mod t_heads d"
    by (simp add: unat_mod unat_div n)
  show "address28 (load_registers p d) = unat block"
    using chs_number [OF g(1,3), of "unat block"] chs_drivehead(1,2) [OF hd, of drv]
    by (simp add: address28_def load_registers_def p chs_address_def le16_of_bytes num cyl head)
  show "bit (m_bDrivehead p) 4 \<longleftrightarrow> bit drv 0"
    using chs_drivehead(3) [OF hd, of drv] by (simp add: p)
qed

section \<open>Sectors of the hard disk\<close>

definition ide_ready :: "nat \<Rightarrow> ata_dev \<Rightarrow> bool" where
  "ide_ready n d \<longleftrightarrow> t_busy d = 0 \<and> t_lag d < n \<and> (\<forall>s. length (t_disk d s) = 512)
     \<and> (\<forall>s. length (t_disc d s) = 2048)"

definition has_master :: "tsHarddiskInfo list \<Rightarrow> tsHarddiskInfo \<Rightarrow> bool" where
  "has_master info h \<longleftrightarrow> drive_info info 0 = Some h \<and> m_fDriveExists h \<and> \<not> m_fAtapi h
     \<and> m_fwPortBase h = IDE_BASE1"

definition reaches :: "tsHarddiskInfo \<Rightarrow> ata_dev \<Rightarrow> u32 \<Rightarrow> bool" where
  "reaches h d block \<longleftrightarrow> lba48 block \<or> m_bLbaMode h \<noteq> IDE_DH_CHS
     \<or> geometry_ok h d \<and> unat block < 65536 * t_heads d * t_spt d"

lemma load_registers_fields [simp]:
  "t_sel (load_registers p d) = m_bDrivehead p" "t_disk (load_registers p d) = t_disk d"
  "t_disc (load_registers p d) = t_disc d" "t_lag (load_registers p d) = t_lag d"
  "t_busy (load_registers p d) = t_busy d" "t_ident (load_registers p d) = t_ident d"
  "t_pident (load_registers p d) = t_pident d"
  by (simp_all add: load_registers_def)

lemma address28_update [simp]:
  "address28 (d\<lparr>t_busy := b\<rparr>) = address28 d" "address28 (d\<lparr>t_err := e\<rparr>) = address28 d"
  "address28 (d\<lparr>t_cmd := c\<rparr>) = address28 d" "address28 (d\<lparr>t_out := out\<rparr>) = address28 d"
  "address28 (d\<lparr>t_need := k\<rparr>) = address28 d" "address28 (d\<lparr>t_in := i\<rparr>) = address28 d"
  "address48 (d\<lparr>t_busy := b\<rparr>) = address48 d" "address48 (d\<lparr>t_err := e\<rparr>) = address48 d"
  "address48 (d\<lparr>t_cmd := c\<rparr>) = address48 d" "address48 (d\<lparr>t_out := out\<rparr>) = address48 d"
  "address48 (d\<lparr>t_need := k\<rparr>) = address48 d" "address48 (d\<lparr>t_in := i\<rparr>) = address48 d"
  by (simp_all add: address28_def address48_def)

lemma ucast16_zero: "(ucast (w :: u16) :: u32) = 0 \<longleftrightarrow> unat w = 0"
proof -
  have "unat w < 2 ^ 16" using unsigned_less [of w] by simp
  then have "unat (ucast w :: u32) = unat w" by (simp add: unsigned_ucast_eq take_bit_nat_eq_self)
  then show ?thesis using unat_eq_zero [of "ucast w :: u32"] by (simp only:)
qed

lemma drive_indices: "\<not> (0 :: u32) <s 0" "\<not> (2 :: u32) \<le>s 0" "\<not> (1 :: u32) <s 0" "\<not> (2 :: u32) \<le>s 1"
  by code_simp+

text \<open>The command that reads or writes a block reaches the master at the address of the block; a
  write of a block that needs 48 bits is the exception.\<close>

lemma master_read_command:
  assumes "reaches h d block"
  shows "\<exists>p. address_params h 0 block = Some p
    \<and> (\<exists>d'. ata_command (if lba48 block then IDE_CMD_READ_EXT else IDE_CMD_READ_MULTI_RETRY) (load_registers p d)
          = d'\<lparr>t_out := t_disk d (unat block)\<rparr>
        \<and> \<not> t_err d' \<and> t_lag d' = t_lag d \<and> t_disk d' = t_disk d \<and> t_disc d' = t_disc d
        \<and> t_ident d' = t_ident d \<and> t_pident d' = t_pident d)"
proof (cases "lba48 block")
  case True
  have "\<not> slave (load_registers (lba48_params 0 block) d)"
    using lba48_drivehead [of 0 block] by (simp add: slave_def)
  then show ?thesis using True lba48_decodes [of 0 block d]
    by (auto simp: address_params_def ata_command_def Let_def slave_def)
next
  case nb: False
  show ?thesis
  proof (cases "m_bLbaMode h = IDE_DH_CHS")
    case True
    then have g: "geometry_ok h d" "unat block < 65536 * t_heads d * t_spt d"
      using assms nb by (auto simp: reaches_def)
    then obtain p where p: "chs_params h 0 block = Some p"
      by (auto simp: geometry_ok_def chs_params_def Let_def ucast16_zero)
    with chs_decodes [OF g p] True nb show ?thesis
      by (auto simp: address_params_def ata_command_def Let_def slave_def)
  next
    case False
    have lt: "block < 0x10000000" using nb by (simp add: lba48_def)
    with lba28_drivehead(3) [OF lt, of 0] lba28_decodes [OF lt, of 0 d] nb False show ?thesis
      by (auto simp: address_params_def ata_command_def Let_def slave_def)
  qed
qed

lemma read_until_ok_now:
  assumes "BootIdeReadData io base buf sz d = Some (0, buf', d')"
  shows "read_until_ok io n base buf sz d = Some (buf', d')"
  using assms by (simp add: read_until_ok_def)

lemma BootIdeReadSector_master:
  assumes "ide_ready n d" and "has_master info h" and "reaches h d block"
    and "off + length buf \<le> 512"
  shows "\<exists>d'. BootIdeReadSector ata_ports n info 0 block off buf d
      = Some (0, slice off (length buf) (t_disk d (unat block)), d')
    \<and> ide_ready n d' \<and> t_disk d' = t_disk d \<and> t_disc d' = t_disc d
    \<and> \<not> t_err d' \<and> t_ident d' = t_ident d \<and> t_pident d' = t_pident d"
proof -
  let ?c = "if lba48 block then IDE_CMD_READ_EXT else IDE_CMD_READ_MULTI_RETRY"
  let ?d = "d\<lparr>t_sel := drive_select 0\<rparr>"
  have r: "reaches h ?d block" using assms(3) by (simp add: reaches_def geometry_ok_def)
  have rdy: "t_busy d = 0" "t_lag d < n" "length (t_disk d s) = 512" for s
    using assms(1) by (simp_all add: ide_ready_def)
  obtain p d1 where p: "address_params h 0 block = Some p"
    and c: "ata_command ?c (load_registers p ?d) = d1\<lparr>t_out := t_disk d (unat block)\<rparr>"
    and d1: "\<not> t_err d1" "t_lag d1 = t_lag d" "t_disk d1 = t_disk d" "t_disc d1 = t_disc d"
      "t_ident d1 = t_ident d" "t_pident d1 = t_pident d"
    using master_read_command [OF r] by auto
  define d2 where "d2 = d1\<lparr>t_out := t_disk d (unat block), t_busy := 0\<rparr>"
  have issue: "BootIdeIssueAtaCommand ata_ports n 0x1F0 ?c p ?d = Some (0, d2)"
    using ata_issue [of ?d n ?c p] rdy d1 by (simp only: c Let_def) (simp add: d2_def)
  have len: "length (t_disk d (unat block)) = 512" by (rule rdy(3))
  have d2: "t_busy d2 = 0" "\<not> t_err d2" "t_out d2 = t_disk d (unat block)" using d1 by (simp_all add: d2_def)
  have ne: "t_out d2 \<noteq> []" using len d2(3) by auto
  have data: "BootIdeReadData ata_ports 0x1F0 b 512 d2 = Some (0, t_disk d (unat block), d2\<lparr>t_out := []\<rparr>)"
    if "length b = 512" for b
    using ata_read_data [OF d2(1,2) ne, of 512 b] that len d2(3) by simp
  have ready: "ide_ready n (d2\<lparr>t_out := []\<rparr>)" using assms(1) d1 by (simp add: ide_ready_def d2_def)
  have h: "drive_info info 0 = Some h" "m_fDriveExists h" "\<not> m_fAtapi h" "m_fwPortBase h = 0x1F0"
    using assms(2) by (simp_all add: has_master_def)
  have keep: "t_disk (d2\<lparr>t_out := []\<rparr>) = t_disk d" "t_disc (d2\<lparr>t_out := []\<rparr>) = t_disc d" "\<not> t_err d2"
      "t_ident d2 = t_ident d" "t_pident d2 = t_pident d"
    using d1 by (simp_all add: d2_def)
  show ?thesis
  proof (cases "length buf = 512")
    case True
    then have "off = 0" using assms(4) by simp
    with True h p issue data [OF True] ready keep len show ?thesis
      by (simp add: BootIdeReadSector_def ata_ports_simps read_until_ok_now slice_0_all drive_indices Let_def)
  next
    case False
    with h p issue data [of "replicate 512 0"] ready keep assms(4) show ?thesis
      by (simp add: BootIdeReadSector_def ata_ports_simps read_until_ok_now drive_indices Let_def)
  qed
qed

section \<open>Writing\<close>

lemma ata_received_fields:
  "t_busy (ata_received d) = t_lag d" "t_lag (ata_received d) = t_lag d"
  by (simp_all add: ata_received_def Let_def)

lemma ata_out_words:
  assumes "even (length bs)" and "bs \<noteq> []" and "length bs = t_need d"
  shows "out_words ata_ports 0x1F0 bs d = ata_received (d\<lparr>t_in := t_in d @ bs, t_need := 0\<rparr>)"
  using assms
proof (induction bs arbitrary: d rule: swapped.induct)
  case (1 a b bs)
  then have need: "t_need d = Suc (Suc (length bs))" by simp
  show ?case
  proof (cases "bs = []")
    case True
    with need show ?thesis by (simp add: ata_ports_simps ata_word_out_def le16_parts)
  next
    case False
    let ?d = "d\<lparr>t_in := t_in d @ [a, b], t_need := length bs\<rparr>"
    have "out_words ata_ports 0x1F0 bs ?d = ata_received (?d\<lparr>t_in := t_in ?d @ bs, t_need := 0\<rparr>)"
      using "1.IH" [of ?d] "1.prems" False by simp
    then show ?thesis using need False
      by (simp add: ata_ports_simps ata_word_out_def le16_parts)
  qed
qed auto

lemma ata_write_data:
  assumes "t_busy d = 0" and "t_need d = 512" and "length buf = 512" and "t_lag d < n"
    and "\<not> t_err (ata_received (d\<lparr>t_in := t_in d @ buf, t_need := 0\<rparr>))"
  shows "BootIdeWriteData ata_ports n 0x1F0 buf 512 d =
    Some (0, (ata_received (d\<lparr>t_in := t_in d @ buf, t_need := 0\<rparr>))\<lparr>t_busy := 0\<rparr>)"
proof -
  let ?r = "ata_received (d\<lparr>t_in := t_in d @ buf, t_need := 0\<rparr>)"
  have "buf \<noteq> []" using assms(3) by auto
  then have out: "out_words ata_ports 0x1F0 buf d = ?r"
    using ata_out_words [of buf d] assms(2,3) by simp
  have "BootIdeWaitNotBusy ata_ports n 0x1F0 ?r = Some (False, ?r\<lparr>t_busy := 0\<rparr>)"
    using ata_not_busy [of ?r n] assms(4,5) by (simp add: ata_received_fields)
  with out show ?thesis
    using assms ata_data_ready [of d] ata_status_bits(2) [of "?r\<lparr>t_busy := 0\<rparr>"]
    by (simp add: BootIdeWriteData_def wait_smalldelay_def ata_ports_simps Let_def)
qed

text \<open>Where a write goes: the low 24 bits are all that is left of a block that needs 48-bit addressing.\<close>

definition write_target :: "u32 \<Rightarrow> nat" where
  "write_target block = (if lba48 block then unat block mod 2 ^ 24 else unat block)"

lemma lba48_wraps:
  "address28 (load_registers (lba48_params 0 block) d) = unat block mod 2 ^ 24"
proof -
  have sel: "(IDE_DH_DRIVE 0 OR IDE_DH_LBA) AND (0x0F :: u8) = 0" "bit (IDE_DH_DRIVE 0 OR IDE_DH_LBA) 6"
    by (simp_all add: IDE_DH_DRIVE_def)
  have "le32 (ucast block) (ucast (drop_bit 8 block)) (ucast (drop_bit 16 block)) 0 = take_bit 24 block"
  proof (rule bit_word_eqI)
    fix k assume "k < LENGTH(32)"
    then consider "k < 8" | "8 \<le> k" "k < 16" | "16 \<le> k" "k < 24" | "24 \<le> k" by fastforce
    then show "bit (le32 (ucast block) (ucast (drop_bit 8 block)) (ucast (drop_bit 16 block)) 0) k
        = bit (take_bit 24 block) k"
      by cases (auto simp: le32_def bit_simps)
  qed
  then show ?thesis using sel
    by (simp add: address28_def load_registers_def lba48_params_def lba28_address_def block_bytes
        unsigned_take_bit_eq take_bit_eq_mod unat_mod)
qed

lemma master_write_command:
  assumes "reaches h d block"
  shows "\<exists>p. address_params h 0 block = Some p \<and> \<not> slave (load_registers p d)
    \<and> address28 (load_registers p d) = write_target block"
proof (cases "lba48 block")
  case True
  then show ?thesis using lba48_drivehead [of 0 block] lba48_wraps [of block d]
    by (simp add: address_params_def slave_def write_target_def)
next
  case nb: False
  show ?thesis
  proof (cases "m_bLbaMode h = IDE_DH_CHS")
    case True
    then have g: "geometry_ok h d" "unat block < 65536 * t_heads d * t_spt d"
      using assms nb by (auto simp: reaches_def)
    then obtain p where p: "chs_params h 0 block = Some p"
      by (auto simp: geometry_ok_def chs_params_def Let_def ucast16_zero)
    with chs_decodes [OF g p] True nb show ?thesis
      by (simp add: address_params_def slave_def write_target_def)
  next
    case False
    have lt: "block < 0x10000000" using nb by (simp add: lba48_def)
    with lba28_drivehead(3) [OF lt, of 0] lba28_decodes [OF lt, of 0 d] nb False show ?thesis
      by (simp add: address_params_def slave_def write_target_def)
  qed
qed

lemma BootIdeWriteSector_master:
  assumes "ide_ready n d" and "has_master info h" and "reaches h d block" and "length buf = 512"
  shows "\<exists>d'. BootIdeWriteSector ata_ports n info 0 buf block d = Some (0, d') \<and> ide_ready n d'
    \<and> t_disk d' = (t_disk d)(write_target block := buf) \<and> t_disc d' = t_disc d
    \<and> t_heads d' = t_heads d \<and> t_spt d' = t_spt d"
proof -
  let ?d = "d\<lparr>t_sel := drive_select 0\<rparr>"
  have r: "reaches h ?d block" using assms(3) by (simp add: reaches_def geometry_ok_def)
  have rdy: "t_busy d = 0" "t_lag d < n" using assms(1) by (simp_all add: ide_ready_def)
  obtain p where p: "address_params h 0 block = Some p" and m: "\<not> slave (load_registers p ?d)"
    and a: "address28 (load_registers p ?d) = write_target block"
    using master_write_command [OF r] by blast
  define d1 where "d1 = (load_registers p ?d)\<lparr>t_err := False, t_cmd := 0x30, t_out := [], t_need := 512, t_in := []\<rparr>"
  have "(ata_command 0x30 (load_registers p ?d))\<lparr>t_busy := 0\<rparr> = d1 \<and> \<not> t_err (ata_command 0x30 (load_registers p ?d))"
    using m rdy(1) by (simp add: ata_command_def Let_def slave_def d1_def)
  then have issue: "BootIdeIssueAtaCommand ata_ports n 0x1F0 0x30 p ?d = Some (0, d1)"
    using ata_issue [of ?d n "0x30" p] rdy by (simp add: Let_def)
  let ?r = "ata_received (d1\<lparr>t_in := t_in d1 @ buf, t_need := 0\<rparr>)"
  have recv: "\<not> t_err ?r" "t_disk ?r = (t_disk d)(write_target block := buf)" "t_disc ?r = t_disc d"
      "t_lag ?r = t_lag d" "t_heads ?r = t_heads d" "t_spt ?r = t_spt d"
    using a by (simp_all add: ata_received_def d1_def Let_def load_registers_def)
  have wr: "BootIdeWriteData ata_ports n 0x1F0 buf 512 d1 = Some (0, ?r\<lparr>t_busy := 0\<rparr>)"
    by (rule ata_write_data) (use rdy assms(4) recv(1) in \<open>simp_all add: d1_def\<close>)
  have "ide_ready n (?r\<lparr>t_busy := 0\<rparr>)" using assms(1,4) recv by (simp add: ide_ready_def)
  then show ?thesis
    using assms(2) p issue wr recv
    by (simp add: BootIdeWriteSector_def has_master_def ata_ports_simps drive_indices Let_def)
qed

section \<open>Blocks of the ATAPI drive\<close>

definition has_slave :: "tsHarddiskInfo list \<Rightarrow> tsHarddiskInfo \<Rightarrow> bool" where
  "has_slave info h \<longleftrightarrow> drive_info info 1 = Some h \<and> m_fDriveExists h \<and> m_fAtapi h
     \<and> m_fwPortBase h = IDE_BASE1"

lemma slave_selected: "bit (drive_select 1) 4"
  by (simp add: drive_select_def IDE_DH_HEAD_def IDE_DH_DRIVE_def)

text \<open>The drive as it waits for a packet, and as it has answered one.\<close>

definition packet_wait :: "tsIdeCommandParams \<Rightarrow> ata_dev \<Rightarrow> ata_dev" where
  "packet_wait p d = (load_registers p d)\<lparr>t_busy := 0, t_err := False, t_cmd := 0xA0, t_out := [], t_need := 12,
     t_in := []\<rparr>"

lemma packet_command:
  assumes "t_busy d = 0" and "t_lag d < n" and "bit (m_bDrivehead p) 4"
  shows "BootIdeIssueAtaCommand ata_ports n 0x1F0 0xA0 p d = Some (0, packet_wait p d)"
  using ata_issue [OF assms(1,2), of "0xA0" p] assms(3)
  by (simp add: ata_command_def Let_def slave_def packet_wait_def)

lemma ata_status_no_error: "\<not> t_err d \<Longrightarrow> ata_status d AND 1 = 0"
  by (simp add: ata_status_def)

definition packet_answer :: "u32 \<Rightarrow> ata_dev \<Rightarrow> ata_dev" where
  "packet_answer block d = (ata_received (d\<lparr>t_in := read10_packet block, t_need := 0\<rparr>))\<lparr>t_busy := 0\<rparr>"

lemma packet_answer_fields:
  assumes "t_cmd d = 0xA0" and "\<not> t_err d"
  shows "t_busy (packet_answer block d) = 0" "\<not> t_err (packet_answer block d)"
    "t_out (packet_answer block d) = t_disc d block" "fst (t_lsb (packet_answer block d)) = 0"
    "fst (t_msb (packet_answer block d)) = 8" "t_lag (packet_answer block d) = t_lag d"
    "t_disk (packet_answer block d) = t_disk d" "t_disc (packet_answer block d) = t_disc d"
proof -
  have "read10_packet block ! 0 = 0x28"
    "le32 (read10_packet block ! 5) (read10_packet block ! 4) (read10_packet block ! 3) (read10_packet block ! 2) = block"
    using le32_of_bytes [of block] by (simp_all add: read10_packet_def)
  then show "t_busy (packet_answer block d) = 0" "\<not> t_err (packet_answer block d)"
    "t_out (packet_answer block d) = t_disc d block" "fst (t_lsb (packet_answer block d)) = 0"
    "fst (t_msb (packet_answer block d)) = 8" "t_lag (packet_answer block d) = t_lag d"
    "t_disk (packet_answer block d) = t_disk d" "t_disc (packet_answer block d) = t_disc d"
    using assms by (simp_all add: packet_answer_def ata_received_def Let_def)
qed

lemma packet_write:
  assumes "t_busy d = 0" and "\<not> t_err d" and "t_need d = 12" and "t_in d = []" and "t_cmd d = 0xA0"
    and "t_lag d < n"
  shows "BootIdeWriteAtapiData ata_ports n 0x1F0 (read10_packet block) 12 d = Some (0, packet_answer block d)"
proof -
  let ?r = "ata_received (d\<lparr>t_in := read10_packet block, t_need := 0\<rparr>)"
  have len: "length (read10_packet block) = 12" by (simp add: read10_packet_def)
  have ne: "read10_packet block \<noteq> []" by (simp add: read10_packet_def)
  have out: "out_words ata_ports 0x1F0 (read10_packet block) d = ?r"
    using ata_out_words [of "read10_packet block" d] ne len assms(3,4) by simp
  have ans: "packet_answer block d = ?r\<lparr>t_busy := 0\<rparr>" by (simp add: packet_answer_def)
  have err: "\<not> t_err ?r" using packet_answer_fields(2) [OF assms(5,2), of block] by (simp add: ans)
  have "BootIdeWaitNotBusy ata_ports n 0x1F0 (?r\<lparr>t_busy := t_busy ?r - 1\<rparr>)
      = Some (False, packet_answer block d)"
    using ata_not_busy [of "?r\<lparr>t_busy := t_busy ?r - 1\<rparr>" n] assms(6) err
    by (simp add: ata_received_fields ans)
  moreover have "ata_status (packet_answer block d) AND 1 = 0" "ata_status ?r AND 1 = 0" "ata_status d AND 1 = 0"
    using err assms(2) by (simp_all add: ans ata_status_no_error)
  ultimately show ?thesis
    using assms ata_data_ready [of d] out len packet_answer_fields(1) [OF assms(5,2), of block]
    by (simp add: BootIdeWriteAtapiData_def wait_smalldelay_def ata_ports_simps Let_def)
qed

lemma packet_read10:
  assumes "t_busy d = 0" and "t_lag d < n" and "has_slave info h" and "t_disc d block \<noteq> []"
  shows "\<exists>d'. BootIdeIssueAtapiPacketCommandAndPacket ata_ports n info 1 (read10_packet block) d = Some (0, d')
    \<and> t_busy d' = 0 \<and> \<not> t_err d' \<and> t_out d' = t_disc d block \<and> fst (t_lsb d') = 0 \<and> fst (t_msb d') = 8
    \<and> t_lag d' = t_lag d \<and> t_disk d' = t_disk d \<and> t_disc d' = t_disc d"
proof -
  let ?p = "IDE_DEFAULT_COMMAND\<lparr>m_bDrivehead := drive_select 1, m_wCylinder := 2048\<rparr>"
  let ?d = "d\<lparr>t_sel := drive_select 1\<rparr>"
  have p: "bit (m_bDrivehead ?p) 4" by (simp add: slave_selected)
  have nb0: "BootIdeWaitNotBusy ata_ports n 0x1F0 ?d = Some (t_err d, ?d)"
    using ata_not_busy [of ?d n] assms(1,2) by simp
  have cmd: "BootIdeIssueAtaCommand ata_ports n 0x1F0 0xA0 ?p ?d = Some (0, packet_wait ?p ?d)"
    by (rule packet_command) (use assms p in simp_all)
  let ?w = "packet_wait ?p ?d"
  have w: "t_busy ?w = 0" "\<not> t_err ?w" "t_need ?w = 12" "t_in ?w = []" "t_cmd ?w = 0xA0" "t_lag ?w < n"
    using assms(2) by (simp_all add: packet_wait_def)
  have nb: "BootIdeWaitNotBusy ata_ports n 0x1F0 ?w = Some (False, ?w)"
    using ata_not_busy [of ?w n] w by simp
  have wr: "BootIdeWriteAtapiData ata_ports n 0x1F0 (read10_packet block) 12 ?w = Some (0, packet_answer block ?w)"
    by (rule packet_write [OF w])
  note f = packet_answer_fields [OF w(5,2), of block]
  have keep: "t_disc ?w = t_disc d" "t_disk ?w = t_disk d" "t_lag ?w = t_lag d" by (simp_all add: packet_wait_def)
  have rdy: "BootIdeWaitDataReady ata_ports 0x1F0 (packet_answer block ?w) = (0, packet_answer block ?w)"
    using ata_data_ready [OF f(1)] f(2,3) assms(4) keep by simp
  have b0: "byte_at (read10_packet block) 0 = Some 0x28" by (simp add: byte_at_def read10_packet_def)
  show ?thesis
    using assms(3) nb0 cmd nb wr rdy b0 f keep
    by (simp add: BootIdeIssueAtapiPacketCommandAndPacket_def has_slave_def ata_ports_simps Let_def)
qed

lemma BootIdeReadSector_slave:
  assumes "ide_ready n d" and "has_slave info h" and "length buf = 2048"
  shows "\<exists>d'. BootIdeReadSector ata_ports n info 1 block off buf d = Some (0, t_disc d block, d')
    \<and> ide_ready n d' \<and> t_disk d' = t_disk d \<and> t_disc d' = t_disc d"
proof -
  let ?d = "d\<lparr>t_sel := drive_select 1\<rparr>"
  have r: "t_busy d = 0" "t_lag d < n" "length (t_disc d block) = 2048"
    using assms(1) by (simp_all add: ide_ready_def)
  have h: "drive_info info 1 = Some h" "m_fDriveExists h" "m_fAtapi h" "m_fwPortBase h = 0x1F0"
    using assms(2) by (simp_all add: has_slave_def)
  have ne: "t_disc ?d block \<noteq> []" using r(3) by auto
  have st: "sticky_error ata_ports n info 1 (replicate 12 0) ?d = Some ?d"
    using h r(1) by (simp add: sticky_error_def ata_ports_simps)
  have nb: "BootIdeWaitNotBusy ata_ports n 0x1F0 ?d = Some (t_err d, ?d)"
    using ata_not_busy [of ?d n] r by simp
  obtain d1 where pk: "BootIdeIssueAtapiPacketCommandAndPacket ata_ports n info 1 (read10_packet block) ?d = Some (0, d1)"
    and d1: "t_busy d1 = 0" "\<not> t_err d1" "t_out d1 = t_disc d block" "fst (t_lsb d1) = 0" "fst (t_msb d1) = 8"
      "t_lag d1 = t_lag d" "t_disk d1 = t_disk d" "t_disc d1 = t_disc d"
    using packet_read10 [of ?d n info h block] r assms(2) ne by auto
  have count: "atapi_count ata_ports 0x1F0 2048 d1 = (2048, d1)"
    using d1 by (simp add: atapi_count_def ata_ports_simps le16_def)
  have "t_out d1 \<noteq> []" using d1(3) ne by simp
  then have data: "BootIdeReadData ata_ports 0x1F0 buf 2048 d1 = Some (0, t_disc d block, d1\<lparr>t_out := []\<rparr>)"
    using ata_read_data [OF d1(1,2), of 2048 buf] d1(3) r(3) assms(3) by simp
  have "ide_ready n (d1\<lparr>t_out := []\<rparr>)" using assms(1) d1 by (simp add: ide_ready_def)
  then show ?thesis
    using h st nb pk count data d1 assms(3)
    by (simp add: BootIdeReadSector_def read_atapi_def read_until_ok_now ata_ports_simps drive_indices Let_def)
qed

section \<open>The two interfaces of the file systems\<close>

lemma ide_sector_source:
  assumes "has_master info h" and "m_bLbaMode h = IDE_DH_LBA"
  shows "sector_source (BootIdeReadSector ata_ports n info) 0 (\<lambda>d s. t_disk d (unat s)) (ide_ready n)"
proof (unfold_locales)
  show "ide_ready n d \<Longrightarrow> length (t_disk d (unat s)) = 512" for d s by (simp add: ide_ready_def)
  have "reaches h d s" for d s using assms(2) by (simp add: reaches_def)
  then show "\<exists>d'. BootIdeReadSector ata_ports n info 0 s 0 old d = Some (0, take (length old) (t_disk d (unat s)), d')
      \<and> ide_ready n d' \<and> (\<lambda>s. t_disk d' (unat s)) = (\<lambda>s. t_disk d (unat s))"
    if "ide_ready n d" "length old \<le> 512" for d old s
    using BootIdeReadSector_master [OF that(1) assms(1), of s 0 old] that(2)
    by (auto simp: slice_def)
qed

lemma ide_block_source:
  assumes "has_slave info h"
  shows "block_source (BootIdeReadSector ata_ports n info) 1 t_disc (ide_ready n)"
proof (unfold_locales)
  show "ide_ready n d \<Longrightarrow> length (t_disc d s) = 2048" for d s by (simp add: ide_ready_def)
  show "\<exists>d'. BootIdeReadSector ata_ports n info 1 s 0 old d = Some (0, t_disc d s, d')
      \<and> ide_ready n d' \<and> t_disc d' = t_disc d"
    if "ide_ready n d" "length old = 2048" for d old s
    using BootIdeReadSector_slave [OF that(1) assms that(2), of s 0] by blast
qed

definition xbox_drives :: "tsHarddiskInfo list" where
  "xbox_drives =
     [zero_info\<lparr>m_fwPortBase := IDE_BASE1, m_fDriveExists := True, m_bLbaMode := IDE_DH_LBA\<rparr>,
      zero_info\<lparr>m_fwPortBase := IDE_BASE1, m_fDriveExists := True, m_fAtapi := True\<rparr>]"

lemma xbox_master: "has_master xbox_drives (xbox_drives ! 0)" "m_bLbaMode (xbox_drives ! 0) = IDE_DH_LBA"
  by (simp_all add: has_master_def xbox_drives_def drive_info_def zero_info_def)

lemma xbox_slave: "has_slave xbox_drives (xbox_drives ! 1)"
  by (simp add: has_slave_def xbox_drives_def drive_info_def zero_info_def)

interpretation hdd: sector_source "BootIdeReadSector ata_ports n xbox_drives" 0
  "\<lambda>d s. t_disk d (unat s)" "ide_ready n" for n
  by (rule ide_sector_source [OF xbox_master])

interpretation dvd: block_source "BootIdeReadSector ata_ports n xbox_drives" 1 t_disc "ide_ready n" for n
  by (rule ide_block_source [OF xbox_slave])

end
