(* ===== verification/IdeInit.thy ===== *)
theory IdeInit
  imports IdeDrive
begin

text \<open>
  Drive detection on the channel of \<open>IdeDrive\<close>: after \<open>BootIdeInit\<close> the drive table describes the
  hard disk and the ATAPI drive, so that the sector and block contracts hold for it. Together with
  the file system theories this composes the stack from the ports up to a loaded file.
\<close>

section \<open>Identification\<close>

text \<open>What the detection keeps of the channel.\<close>

definition same_media :: "ata_dev \<Rightarrow> ata_dev \<Rightarrow> bool" where
  "same_media d d' \<longleftrightarrow> t_disk d' = t_disk d \<and> t_disc d' = t_disc d \<and> t_ident d' = t_ident d
     \<and> t_pident d' = t_pident d"

lemma same_media_refl [simp]: "same_media d d"
  by (simp add: same_media_def)

lemma same_media_trans [trans]: "same_media d d' \<Longrightarrow> same_media d' d'' \<Longrightarrow> same_media d d''"
  by (simp add: same_media_def)

definition idle :: "nat \<Rightarrow> ata_dev \<Rightarrow> bool" where
  "idle n d \<longleftrightarrow> ide_ready n d \<and> \<not> t_err d \<and> length (t_ident d) = 512 \<and> length (t_pident d) = 512"

lemma select_bits: "\<not> bit (drive_select 0) 4" "bit (drive_select 1) 4"
  by (simp_all add: drive_select_def IDE_DH_HEAD_def IDE_DH_DRIVE_def)

lemma feature_port: "IoOutputByte ata_ports 0x1F1 b d = d"
  by (simp add: ata_ports_def)

text \<open>An identification command with its data.\<close>

lemma identify_data:
  assumes "idle n d" and "\<not> t_err (ata_command c (load_registers p d))"
    and "t_out (ata_command c (load_registers p d)) = b" and "length b = 512"
    and "same_media d (ata_command c (load_registers p d))"
  shows "\<exists>d1 d2. BootIdeIssueAtaCommand ata_ports n 0x1F0 c p d = Some (0, d1)
    \<and> BootIdeWaitDataReady ata_ports 0x1F0 d1 = (0, d1)
    \<and> BootIdeReadData ata_ports 0x1F0 (replicate 512 0) 512 d1 = Some (0, b, d2)
    \<and> idle n d2 \<and> same_media d d2"
proof -
  define d1 where "d1 = (ata_command c (load_registers p d))\<lparr>t_busy := 0\<rparr>"
  have r: "t_busy d = 0" "t_lag d < n" using assms(1) by (simp_all add: idle_def ide_ready_def)
  have issue: "BootIdeIssueAtaCommand ata_ports n 0x1F0 c p d = Some (0, d1)"
    using ata_issue [OF r, of c p] assms(2) by (simp add: Let_def d1_def)
  have d1: "t_busy d1 = 0" "\<not> t_err d1" "t_out d1 = b" "t_out d1 \<noteq> []" "t_lag d1 = t_lag d"
    using assms(2-4) by (auto simp: d1_def)
  have "BootIdeWaitDataReady ata_ports 0x1F0 d1 = (0, d1)"
    using ata_data_ready [OF d1(1)] d1 by simp
  moreover have "BootIdeReadData ata_ports 0x1F0 (replicate 512 0) 512 d1 = Some (0, b, d1\<lparr>t_out := []\<rparr>)"
    using ata_read_data [OF d1(1,2,4), of 512 "replicate 512 0"] d1(3) assms(4) by simp
  moreover have "idle n (d1\<lparr>t_out := []\<rparr>)" "same_media d (d1\<lparr>t_out := []\<rparr>)"
    using assms(1,5) d1 by (simp_all add: idle_def ide_ready_def same_media_def d1_def)
  ultimately show ?thesis using issue by blast
qed

lemma identify_master:
  assumes "idle n d"
  shows "\<exists>d'. identify ata_ports n 0x1F0 0 d = Some (Some (t_ident d), False, d') \<and> idle n d' \<and> same_media d d'"
proof -
  let ?p = "IDE_DEFAULT_COMMAND\<lparr>m_bDrivehead := drive_select 0\<rparr>" and ?d = "d\<lparr>t_sel := drive_select 0\<rparr>"
  have i: "idle n ?d" "same_media d ?d" using assms by (simp_all add: idle_def ide_ready_def same_media_def)
  have c: "ata_command 0xEC (load_registers ?p ?d) = (load_registers ?p ?d)\<lparr>t_busy := t_lag d, t_err := False,
      t_cmd := 0xEC, t_out := t_ident d, t_need := 0, t_in := []\<rparr>"
    using select_bits by (simp add: ata_command_def Let_def slave_def)
  have "length (t_ident d) = 512" using assms by (simp add: idle_def)
  then obtain d1 d2 where "BootIdeIssueAtaCommand ata_ports n 0x1F0 0xEC ?p ?d = Some (0, d1)"
    "BootIdeWaitDataReady ata_ports 0x1F0 d1 = (0, d1)"
    "BootIdeReadData ata_ports 0x1F0 (replicate 512 0) 512 d1 = Some (0, t_ident d, d2)"
    "idle n d2" "same_media ?d d2"
    using identify_data [OF i(1), of "0xEC" ?p "t_ident d"] c by (auto simp: same_media_def)
  moreover have "BootIdeWaitNotBusy ata_ports n 0x1F0 ?d = Some (False, ?d)"
    using ata_not_busy [of ?d n] i(1) by (simp add: idle_def ide_ready_def)
  moreover have "same_media d d2" using i(2) \<open>same_media ?d d2\<close> by (rule same_media_trans)
  ultimately show ?thesis
    by (simp add: identify_def ata_ports_simps feature_port Let_def)
qed

lemma identify_slave:
  assumes "idle n d"
  shows "\<exists>d'. identify ata_ports n 0x1F0 1 d = Some (Some (t_pident d), True, d') \<and> idle n d' \<and> same_media d d'"
proof -
  let ?p = "IDE_DEFAULT_COMMAND\<lparr>m_bDrivehead := drive_select 1\<rparr>" and ?d = "d\<lparr>t_sel := drive_select 1\<rparr>"
  have i: "idle n ?d" "same_media d ?d" using assms by (simp_all add: idle_def ide_ready_def same_media_def)
  have r: "t_busy d = 0" "t_lag d < n" using assms by (simp_all add: idle_def ide_ready_def)
  define d1 where "d1 = (load_registers ?p ?d)\<lparr>t_busy := 0, t_err := True, t_cmd := 0xEC, t_out := [], t_need := 0, t_in := []\<rparr>"
  have e1: "BootIdeIssueAtaCommand ata_ports n 0x1F0 0xEC ?p ?d = Some (1, d1)"
    using ata_issue [of ?d n "0xEC" ?p] r select_bits
    by (simp add: ata_command_def Let_def slave_def d1_def)
  define d2 where "d2 = (load_registers ?p d1)\<lparr>t_busy := 0, t_err := False, t_cmd := 0x08, t_out := [], t_need := 0, t_in := []\<rparr>"
  have e2: "BootIdeIssueAtaCommand ata_ports n 0x1F0 0x08 ?p d1 = Some (0, d2)"
    using ata_issue [of d1 n "0x08" ?p] r select_bits
    by (simp add: ata_command_def Let_def slave_def d1_def d2_def)
  have i2: "idle n d2" "same_media d d2"
    using assms by (simp_all add: idle_def ide_ready_def same_media_def d1_def d2_def)
  have c: "ata_command 0xA1 (load_registers ?p d2) = (load_registers ?p d2)\<lparr>t_busy := t_lag d2, t_err := False,
      t_cmd := 0xA1, t_out := t_pident d2, t_need := 0, t_in := []\<rparr>"
    using select_bits by (simp add: ata_command_def Let_def slave_def)
  have len: "length (t_pident d2) = 512" "t_pident d2 = t_pident d" using i2 by (simp_all add: idle_def same_media_def)
  then obtain d3 d4 where "BootIdeIssueAtaCommand ata_ports n 0x1F0 0xA1 ?p d2 = Some (0, d3)"
    "BootIdeWaitDataReady ata_ports 0x1F0 d3 = (0, d3)"
    "BootIdeReadData ata_ports 0x1F0 (replicate 512 0) 512 d3 = Some (0, t_pident d, d4)"
    "idle n d4" "same_media d2 d4"
    using identify_data [OF i2(1), of "0xA1" ?p "t_pident d2"] c by (auto simp: same_media_def)
  moreover have "BootIdeWaitNotBusy ata_ports n 0x1F0 ?d = Some (False, ?d)"
    using ata_not_busy [of ?d n] i(1) by (simp add: idle_def ide_ready_def)
  moreover have "same_media d d4" using i2(2) \<open>same_media d2 d4\<close> by (rule same_media_trans)
  ultimately show ?thesis using e1 e2
    by (simp add: identify_def ata_ports_simps feature_port Let_def)
qed

section \<open>The drive table\<close>

definition roomy :: "tsHarddiskInfo \<Rightarrow> bool" where
  "roomy h \<longleftrightarrow> length (m_szSerial h) = 22 \<and> length (m_szIdentityModelNumber h) = 42 \<and> length (m_szFirmware h) = 10"

lemma copy_swap_trim_field:
  assumes "even k" and "k < length dst" and "off + k \<le> length b"
  shows "\<exists>i dst'. copy_swap_trim dst (drop off b) k = Some (i, dst') \<and> length dst' = length dst"
proof -
  have "drop off b = take k (drop off b) @ drop (off + k) b"
    by (metis append_take_drop_id drop_drop add.commute)
  moreover have "length (take k (drop off b)) = k" using assms(3) by simp
  ultimately show ?thesis
    using copy_swap_trim_spec [of "take k (drop off b)" dst "drop (off + k) b"] assms(1,2) by auto
qed

lemma take_identity_total:
  assumes "roomy h" and "length b = 512"
  shows "\<exists>h'. take_identity b h = Some h' \<and> m_fDriveExists h' \<and> m_fAtapi h' = m_fAtapi h
    \<and> m_fwPortBase h' = m_fwPortBase h"
proof -
  obtain i1 f1 i2 f2 i3 f3 where
    "copy_swap_trim (m_szSerial h) (drop 20 b) 20 = Some (i1, f1)"
    "copy_swap_trim (m_szIdentityModelNumber h) (drop 54 b) 40 = Some (i2, f2)"
    "copy_swap_trim (m_szFirmware h) (drop 46 b) 8 = Some (i3, f3)"
    using copy_swap_trim_field [of 20 "m_szSerial h" 20 b]
      copy_swap_trim_field [of 40 "m_szIdentityModelNumber h" 54 b]
      copy_swap_trim_field [of 8 "m_szFirmware h" 46 b] assms
    by (auto simp: roomy_def)
  then show ?thesis by (simp add: take_identity_def)
qed

definition lba_master :: "tsHarddiskInfo list \<Rightarrow> bool" where
  "lba_master info \<longleftrightarrow> has_master info (info ! 0) \<and> m_bLbaMode (info ! 0) = IDE_DH_LBA"

lemma lba_master_update:
  assumes "lba_master info" and "length info = 2"
  shows "lba_master (info[0 := (info ! 0)\<lparr>m_enumDriveType := t\<rparr>])"
    and "lba_master (info[0 := (info ! 0)\<lparr>m_fHasMbr := m\<rparr>])"
    and "lba_master (info[0 := (info ! 0)\<lparr>m_bCableConductors := c\<rparr>])"
  using assms by (simp_all add: lba_master_def has_master_def drive_info_def)

lemma read_probe:
  assumes "lba_master info" and "idle n d" and "length ba = 512"
  shows "\<exists>d'. BootIdeReadSector ata_ports n info 0 s 0 ba d = Some (0, t_disk d (unat s), d')
    \<and> idle n d' \<and> same_media d d'"
proof -
  have "reaches (info ! 0) d s" "has_master info (info ! 0)"
    using assms(1) by (simp_all add: lba_master_def reaches_def)
  moreover have "ide_ready n d" using assms(2) by (simp add: idle_def)
  ultimately obtain d' where
    "BootIdeReadSector ata_ports n info 0 s 0 ba d = Some (0, slice 0 512 (t_disk d (unat s)), d')"
    "ide_ready n d'" "t_disk d' = t_disk d" "t_disc d' = t_disc d" "\<not> t_err d'" "t_ident d' = t_ident d"
    "t_pident d' = t_pident d"
    using BootIdeReadSector_master [of n d info "info ! 0" s 0 ba] assms(3) by auto
  moreover have "length (t_disk d (unat s)) = 512" using assms(2) by (simp add: idle_def ide_ready_def)
  ultimately show ?thesis using assms(2) by (auto simp: idle_def same_media_def slice_0_all)
qed

lemma probe_disk_keeps:
  assumes "lba_master info" and "length info = 2" and "idle n d"
  shows "\<exists>info' d'. probe_disk ata_ports n info 0 d = Some (info', d') \<and> lba_master info' \<and> length info' = 2
    \<and> info' ! 1 = info ! 1 \<and> idle n d' \<and> same_media d d'"
proof -
  obtain d1 where r1: "BootIdeReadSector ata_ports n info 0 3 0 (replicate 512 0) d = Some (0, t_disk d 3, d1)"
    and d1: "idle n d1" "same_media d d1"
    using read_probe [OF assms(1,3), of "replicate 512 0" 3] by auto
  define info1 where "info1 = (if take 4 (t_disk d 3) = [0x42, 0x52, 0x46, 0x52]
      then info[0 := (info ! 0)\<lparr>m_enumDriveType := 0\<rparr>] else info)"
  have i1: "lba_master info1" "length info1 = 2" "info1 ! 1 = info ! 1"
    using assms lba_master_update(1) by (simp_all add: info1_def)
  have "length (t_disk d 3) = 512" using assms(3) by (simp add: idle_def ide_ready_def)
  then obtain d2 where r2: "BootIdeReadSector ata_ports n info1 0 0 0 (t_disk d 3) d1 = Some (0, t_disk d1 0, d2)"
    and d2: "idle n d2" "same_media d1 d2"
    using read_probe [OF i1(1) d1(1), of "t_disk d 3" 0] by auto
  define info2 where "info2 = info1[0 := (info1 ! 0)\<lparr>m_fHasMbr := t_disk d1 0 ! 0x1fe = 0x55 \<and> t_disk d1 0 ! 0x1ff = 0xaa\<rparr>]"
  have i2: "lba_master info2" "length info2 = 2" "info2 ! 1 = info ! 1"
    using i1 lba_master_update(2) by (simp_all add: info2_def)
  have "probe_disk ata_ports n info 0 d = Some (info2, d2)"
    using r1 r2
    by (cases "take 4 (t_disk d 3) = [0x42, 0x52, 0x46, 0x52]")
      (simp_all add: probe_disk_def Let_def info1_def info2_def)
  with i2 d2 same_media_trans [OF d1(2) d2(2)] show ?thesis by blast
qed

lemma DriveInit_master:
  assumes "idle n d" and "lba_mode (t_ident d) = IDE_DH_LBA" and "length info = 2" and "roomy (info ! 0)"
  shows "\<exists>info' d'. BootIdeDriveInit ata_ports n c0 False eeprom 0x1F0 info 0 d = Some (0, info', d')
    \<and> lba_master info' \<and> length info' = 2 \<and> info' ! 1 = info ! 1 \<and> idle n d' \<and> same_media d d'"
proof -
  let ?b = "t_ident d" and ?h = "(clear_info 0x1F0 (info ! 0))\<lparr>m_fAtapi := False\<rparr>"
  have nonempty: "info \<noteq> []" using assms(3) by auto
  obtain d1 where id: "identify ata_ports n 0x1F0 0 d = Some (Some ?b, False, d1)"
    and d1: "idle n d1" "same_media d d1"
    using identify_master [OF assms(1)] by blast
  have "roomy ?h" using assms(4) by (simp add: roomy_def clear_info_def)
  moreover have "length ?b = 512" using assms(1) by (simp add: idle_def)
  ultimately obtain h where h: "take_identity ?b ?h = Some h" "m_fDriveExists h" "\<not> m_fAtapi h"
    "m_fwPortBase h = 0x1F0"
    using take_identity_total [of ?h ?b] by (auto simp: clear_info_def)
  let ?h' = "h\<lparr>m_securitySettings := ident_word ?b 128, m_bLbaMode := lba_mode ?b\<rparr>"
  have m: "lba_master (info[0 := ?h'])" "length (info[0 := ?h']) = 2" "info[0 := ?h'] ! 1 = info ! 1"
    using h assms(2,3) by (simp_all add: lba_master_def has_master_def drive_info_def)
  obtain info' d' where probe: "probe_disk ata_ports n (info[0 := ?h']) 0 d1 = Some (info', d')"
    and r: "lba_master info'" "length info' = 2" "info' ! 1 = info ! 1" "idle n d'" "same_media d1 d'"
    using probe_disk_keeps [OF m(1,2) d1(1)] m(3) by auto
  have "BootIdeDriveInit ata_ports n c0 False eeprom 0x1F0 info 0 d = Some (0, info', d')"
    using id h(1) probe assms(3) nonempty
    by (simp add: BootIdeDriveInit_def drive_info_def unlock_disk_def Let_def)
  with r same_media_trans [OF d1(2) r(5)] show ?thesis by blast
qed

lemma DriveInit_slave:
  assumes "idle n d" and "lba_master info" and "length info = 2" and "roomy (info ! 1)"
  shows "\<exists>info' d'. BootIdeDriveInit ata_ports n c0 False eeprom 0x1F0 info 1 d = Some (0, info', d')
    \<and> lba_master info' \<and> has_slave info' (info' ! 1) \<and> length info' = 2 \<and> idle n d' \<and> same_media d d'"
proof -
  let ?b = "t_pident d" and ?h = "(clear_info 0x1F0 (info ! 1))\<lparr>m_fAtapi := True\<rparr>"
  obtain d1 where id: "identify ata_ports n 0x1F0 1 d = Some (Some ?b, True, d1)"
    and d1: "idle n d1" "same_media d d1"
    using identify_slave [OF assms(1)] by blast
  have "roomy ?h" using assms(4) by (simp add: roomy_def clear_info_def)
  moreover have "length ?b = 512" using assms(1) by (simp add: idle_def)
  ultimately obtain h where h: "take_identity ?b ?h = Some h" "m_fDriveExists h" "m_fAtapi h"
    "m_fwPortBase h = 0x1F0"
    using take_identity_total [of ?h ?b] by (auto simp: clear_info_def)
  let ?info = "info[1 := h\<lparr>m_bLbaMode := lba_mode ?b\<rparr>]"
  have "BootIdeDriveInit ata_ports n c0 False eeprom 0x1F0 info 1 d = Some (0, ?info, d1)"
    using id h(1) assms(3) by (simp add: BootIdeDriveInit_def drive_info_def Let_def)
  moreover have "lba_master ?info" "has_slave ?info (?info ! 1)" "length ?info = 2"
    using assms(2,3) h by (simp_all add: lba_master_def has_master_def has_slave_def drive_info_def)
  ultimately show ?thesis using d1 by blast
qed

lemma detect_cable_total:
  assumes "idle n d" and "m_fwPortBase h = 0x1F0"
  shows "\<exists>h' d'. detect_cable ata_ports n h d = Some (h', d') \<and> (\<exists>c. h' = h\<lparr>m_bCableConductors := c\<rparr>)
    \<and> idle n d' \<and> same_media d d'"
proof -
  let ?p = "IDE_DEFAULT_COMMAND\<lparr>m_bDrivehead := drive_select 0\<rparr>" and ?d = "d\<lparr>t_sel := drive_select 0\<rparr>"
  have i: "idle n ?d" "same_media d ?d" using assms by (simp_all add: idle_def ide_ready_def same_media_def)
  have c: "ata_command 0xEC (load_registers ?p ?d) = (load_registers ?p ?d)\<lparr>t_busy := t_lag d, t_err := False,
      t_cmd := 0xEC, t_out := t_ident d, t_need := 0, t_in := []\<rparr>"
    using select_bits by (simp add: ata_command_def Let_def slave_def)
  have "length (t_ident d) = 512" using assms by (simp add: idle_def)
  then obtain d1 d2 where "BootIdeIssueAtaCommand ata_ports n 0x1F0 0xEC ?p ?d = Some (0, d1)"
    "BootIdeWaitDataReady ata_ports 0x1F0 d1 = (0, d1)"
    "BootIdeReadData ata_ports 0x1F0 (replicate 512 0) 512 d1 = Some (0, t_ident d, d2)"
    and d2: "idle n d2" "same_media ?d d2"
    using identify_data [OF i(1), of "0xEC" ?p "t_ident d"] c by (auto simp: same_media_def)
  then have r: "detect_cable ata_ports n h d = Some (if cable80 (t_ident d) then h\<lparr>m_bCableConductors := 80\<rparr> else h, d2)"
    using assms(2) by (simp add: detect_cable_def ata_ports_simps Let_def)
  have "\<exists>c. h = h\<lparr>m_bCableConductors := c\<rparr>" by (rule exI [of _ "m_bCableConductors h"]) simp
  then have "\<exists>c. (if cable80 (t_ident d) then h\<lparr>m_bCableConductors := 80\<rparr> else h) = h\<lparr>m_bCableConductors := c\<rparr>"
    by auto
  with r d2(1) same_media_trans [OF i(2) d2(2)] show ?thesis by blast
qed

lemma BootIdeInit_describes:
  assumes "idle n d" and "lba_mode (t_ident d) = IDE_DH_LBA"
  shows "\<exists>mode info d'. BootIdeInit ata_ports n c0 False eeprom d = Some (0, mode, info, d')
    \<and> lba_master info \<and> has_slave info (info ! 1) \<and> idle n d' \<and> same_media d d'"
proof -
  let ?info = "replicate 2 (zero_info\<lparr>m_bCableConductors := 40\<rparr>)"
  have room: "roomy (?info ! 0)" "roomy (?info ! 1)" by (simp_all add: roomy_def zero_info_def)
  have out: "outb_all ata_ports [(0xff60, 0), (0xff62, 0x62)] d = d" by (simp add: ata_ports_def)
  obtain info1 d1 where i1: "BootIdeDriveInit ata_ports n c0 False eeprom 0x1F0 ?info 0 d = Some (0, info1, d1)"
    and f1: "lba_master info1" "length info1 = 2" "info1 ! 1 = ?info ! 1" "idle n d1" "same_media d d1"
    using DriveInit_master [OF assms, of ?info c0 eeprom] room by auto
  obtain info2 d2 where i2: "BootIdeDriveInit ata_ports n c0 False eeprom 0x1F0 info1 1 d1 = Some (0, info2, d2)"
    and f2: "lba_master info2" "has_slave info2 (info2 ! 1)" "length info2 = 2" "idle n d2" "same_media d1 d2"
    using DriveInit_slave [OF f1(4,1,2), of c0 eeprom] f1(3) room by auto
  have m: "m_fDriveExists (info2 ! 0)" "m_fwPortBase (info2 ! 0) = 0x1F0"
    using f2(1) by (simp_all add: lba_master_def has_master_def drive_info_def split: if_splits)
  obtain c d3 where i3: "detect_cable ata_ports n (info2 ! 0) d2 = Some ((info2 ! 0)\<lparr>m_bCableConductors := c\<rparr>, d3)"
    and f3: "idle n d3" "same_media d2 d3"
    using detect_cable_total [OF f2(4) m(2)] by blast
  let ?info3 = "info2[0 := (info2 ! 0)\<lparr>m_bCableConductors := c\<rparr>]"
  have "lba_master ?info3" by (rule lba_master_update(3) [OF f2(1,3)])
  moreover have "has_slave ?info3 (?info3 ! 1)"
    using f2(2,3) by (simp add: has_slave_def drive_info_def split: if_splits)
  moreover have "\<exists>mode. BootIdeInit ata_ports n c0 False eeprom d = Some (0, mode, ?info3, d3)"
    using i1 i2 i3 m(1) out by (simp add: BootIdeInit_def Let_def del: outb_all.simps)
  moreover have "same_media d d3"
    by (rule same_media_trans [OF same_media_trans [OF f1(5) f2(5)] f3(2)])
  ultimately show ?thesis using f3(1) by blast
qed

section \<open>Properties\<close>

definition blank_ata :: ata_dev where
  "blank_ata = \<lparr>t_sel = 0, t_count = (0, 0), t_num = (0, 0), t_lsb = (0, 0), t_msb = (0, 0), t_err = False,
     t_busy = 0, t_lag = 3, t_cmd = 0, t_out = [], t_need = 0, t_in = [],
     t_disk = (\<lambda>s. replicate 512 (of_nat s)), t_disc = demo_disc,
     t_ident = (replicate 512 0)[99 := 2], t_pident = replicate 512 0, t_heads = 4, t_spt = 17\<rparr>"

lemma blank_ready: "ide_ready 9 blank_ata" "idle 9 blank_ata"
  using demo_disc_length by (simp_all add: ide_ready_def idle_def blank_ata_def)

text \<open>C8. Sector reads: on the channel, whatever of the three addressing modes the block and the drive
  table ask for, \<open>BootIdeReadSector\<close> returns 0 with the bytes of the addressed sector from the
  given offset on, and leaves the media as they were.\<close>

theorem BootIdeReadSector_reads:
  assumes "ide_ready n d" and "has_master info h" and "reaches h d block" and "off + length buf \<le> 512"
  shows "\<exists>d'. BootIdeReadSector ata_ports n info 0 block off buf d
      = Some (0, slice off (length buf) (t_disk d (unat block)), d')
    \<and> ide_ready n d' \<and> t_disk d' = t_disk d \<and> t_disc d' = t_disc d"
  using BootIdeReadSector_master [OF assms] by blast

definition chs_drives :: "tsHarddiskInfo list" where
  "chs_drives = [zero_info\<lparr>m_fwPortBase := IDE_BASE1, m_fDriveExists := True, m_wCountHeads := 4,
     m_wCountSectorsPerTrack := 17\<rparr>]"

theorem BootIdeReadSector_reads_witness:
  "(\<exists>d. BootIdeReadSector ata_ports 9 xbox_drives 0 0x10000007 500 (replicate 4 9) blank_ata
      = Some (0, slice 500 4 (replicate 512 (of_nat 0x10000007)), d))
   \<and> (\<exists>d. BootIdeReadSector ata_ports 9 chs_drives 0 100 0 (replicate 512 9) blank_ata
      = Some (0, slice 0 512 (replicate 512 (of_nat 100)), d))"
proof
  have "reaches (xbox_drives ! 0) blank_ata 0x10000007"
    using xbox_master(2) by (simp add: reaches_def)
  from BootIdeReadSector_reads [OF blank_ready(1) xbox_master(1) this, of 500 "replicate 4 9"]
  show "\<exists>d. BootIdeReadSector ata_ports 9 xbox_drives 0 0x10000007 500 (replicate 4 9) blank_ata
      = Some (0, slice 500 4 (replicate 512 (of_nat 0x10000007)), d)"
    by (auto simp: blank_ata_def)
  have "has_master chs_drives (chs_drives ! 0)" "reaches (chs_drives ! 0) blank_ata 100"
    by (simp_all add: has_master_def chs_drives_def drive_info_def zero_info_def reaches_def geometry_ok_def
        blank_ata_def)
  from BootIdeReadSector_reads [OF blank_ready(1) this, of 0 "replicate 512 9"]
  show "\<exists>d. BootIdeReadSector ata_ports 9 chs_drives 0 100 0 (replicate 512 9) blank_ata
      = Some (0, slice 0 512 (replicate 512 (of_nat 100)), d)"
    by (auto simp: blank_ata_def)
qed

text \<open>C9. Sector writes: what \<open>BootIdeWriteSector\<close> has written to a block below 0x10000000 is what
  \<open>BootIdeReadSector\<close> then reads from it, and every other sector is as before.\<close>

theorem BootIdeWriteSector_roundtrip:
  assumes "ide_ready n d" and "has_master info h" and "reaches h d block" and "\<not> lba48 block"
    and "length data = 512" and "length buf = 512"
  shows "\<exists>d1 d2. BootIdeWriteSector ata_ports n info 0 data block d = Some (0, d1)
    \<and> BootIdeReadSector ata_ports n info 0 block 0 buf d1 = Some (0, data, d2)
    \<and> t_disk d2 = (t_disk d)(unat block := data) \<and> t_disc d2 = t_disc d"
proof -
  obtain d1 where w: "BootIdeWriteSector ata_ports n info 0 data block d = Some (0, d1)"
    and d1: "ide_ready n d1" "t_disk d1 = (t_disk d)(unat block := data)" "t_disc d1 = t_disc d"
      "t_heads d1 = t_heads d" "t_spt d1 = t_spt d"
    using BootIdeWriteSector_master [OF assms(1-3,5)] assms(4) by (auto simp: write_target_def)
  have "reaches h d1 block" using assms(3) d1(4,5) by (simp add: reaches_def geometry_ok_def)
  from BootIdeReadSector_master [OF d1(1) assms(2) this, of 0 buf] obtain d2 where
    "BootIdeReadSector ata_ports n info 0 block 0 buf d1 = Some (0, data, d2)"
    "t_disk d2 = t_disk d1" "t_disc d2 = t_disc d1"
    using assms(5,6) d1(2) by (auto simp: slice_0_all)
  with w d1 show ?thesis by auto
qed

theorem BootIdeWriteSector_roundtrip_witness:
  "\<exists>d1 d2. BootIdeWriteSector ata_ports 9 xbox_drives 0 (replicate 512 0xEE) 5 blank_ata = Some (0, d1)
    \<and> BootIdeReadSector ata_ports 9 xbox_drives 0 5 0 (replicate 512 0) d1 = Some (0, replicate 512 0xEE, d2)"
proof -
  have "reaches (xbox_drives ! 0) blank_ata 5" "\<not> lba48 5"
    using xbox_master(2) by (simp_all add: reaches_def lba48_def)
  from BootIdeWriteSector_roundtrip [OF blank_ready(1) xbox_master(1) this, of "replicate 512 0xEE" "replicate 512 0"]
  show ?thesis by auto
qed

text \<open>C10. A write to a block that needs 48-bit addressing is issued as the 28-bit command: it reports
  success and overwrites the sector whose number is the low 24 bits of the block.\<close>

theorem BootIdeWriteSector_wraps:
  assumes "ide_ready n d" and "has_master info h" and "lba48 block" and "length data = 512"
  shows "\<exists>d'. BootIdeWriteSector ata_ports n info 0 data block d = Some (0, d')
    \<and> t_disk d' = (t_disk d)(unat block mod 2 ^ 24 := data)"
proof -
  have "reaches h d block" using assms(3) by (simp add: reaches_def)
  from BootIdeWriteSector_master [OF assms(1,2) this assms(4)] assms(3) show ?thesis
    by (auto simp: write_target_def)
qed

theorem BootIdeWriteSector_wraps_witness:
  "\<exists>d. BootIdeWriteSector ata_ports 9 xbox_drives 0 (replicate 512 0xEE) 0x10000000 blank_ata = Some (0, d)
    \<and> t_disk d 0 = replicate 512 0xEE"
proof -
  have "lba48 0x10000000" by (simp add: lba48_def)
  from BootIdeWriteSector_wraps [OF blank_ready(1) xbox_master(1) this, of "replicate 512 0xEE"]
  show ?thesis by auto
qed



text \<open>C3. The stack: after \<open>BootIdeInit\<close> has detected the drives, \<open>LoadFATXFile\<close> through
  \<open>BootIdeReadSector\<close> puts the bytes of the file into the buffer, whenever the directory walk on
  the disk finds it with a chain that ends and holds its size.\<close>

theorem ide_LoadFATXFile:
  assumes "idle n d" and "lba_mode (t_ident d) = IDE_DH_LBA"
    and "wf_partition p" and "nDriveIndex p = 0" and "length stk = clusterSize p"
    and "0 \<notin> set s" and "length (fi_filename fi) = 44"
    and "resolve p k (\<lambda>s. t_disk d (unat s)) (path_components s) FATX_ROOT_FAT_CLUSTER = Some (Some (c, sz))"
    and "chain p k c = Some cs" and "unat sz \<le> length (chain_bytes p (\<lambda>s. t_disk d (unat s)) cs)"
  shows "\<exists>mode info d1 fi' d2. BootIdeInit ata_ports n c0 False eeprom d = Some (0, mode, info, d1)
    \<and> LoadFATXFile (BootIdeReadSector ata_ports n info) (Some p) k stk (s @ 0 # r) fi d1 = Some (True, fi', d2)
    \<and> fi_buffer fi' = take (unat sz) (chain_bytes p (\<lambda>s. t_disk d (unat s)) cs) \<and> fi_fileSize fi' = sz"
proof -
  obtain mode info d1 where init: "BootIdeInit ata_ports n c0 False eeprom d = Some (0, mode, info, d1)"
    and m: "lba_master info" and d1: "idle n d1" "same_media d d1"
    using BootIdeInit_describes [OF assms(1,2), of c0 eeprom] by blast
  have src: "sector_source (BootIdeReadSector ata_ports n info) 0 (\<lambda>d s. t_disk d (unat s)) (ide_ready n)"
    using m by (intro ide_sector_source) (auto simp: lba_master_def)
  have disk: "t_disk d1 = t_disk d" and rdy: "ide_ready n d1" using d1 by (simp_all add: same_media_def idle_def)
  show ?thesis
    using sector_source.LoadFATXFile_loads [OF src rdy assms(3,4,5,6,7), of k c sz cs r] assms(8-10) init
    unfolding disk by blast
qed

definition fatx_ata :: ata_dev where
  "fatx_ata = blank_ata\<lparr>t_disk := (\<lambda>s. demo_image (of_nat s))\<rparr>"

lemma fatx_ata_idle:
  "idle 9 fatx_ata" "lba_mode (t_ident fatx_ata) = IDE_DH_LBA" "(\<lambda>s. t_disk fatx_ata (unat s)) = demo_image"
proof -
  show "idle 9 fatx_ata"
    using blank_ready(2) demo_good by (simp add: idle_def ide_ready_def fatx_ata_def good_image_def)
  show "lba_mode (t_ident fatx_ata) = IDE_DH_LBA"
    by (simp add: lba_mode_def ident_word_def fatx_ata_def blank_ata_def le16_def)
  show "(\<lambda>s. t_disk fatx_ata (unat s)) = demo_image" by (simp add: fatx_ata_def)
qed

theorem ide_LoadFATXFile_witness:
  "\<exists>mode info d1 fi d2. BootIdeInit ata_ports 9 blank_context False [] fatx_ata = Some (0, mode, info, d1)
    \<and> LoadFATXFile (BootIdeReadSector ata_ports 9 info) (Some demo_partition) 4 (replicate 0x4000 0)
        ([0x5c, 0x41, 0x2e, 0x42] @ 0 # []) blank_fileinfo d1 = Some (True, fi, d2)
    \<and> fi_buffer fi = take (unat (0x4001 :: u32)) (chain_bytes demo_partition demo_image [2, 3])"
  using ide_LoadFATXFile [OF fatx_ata_idle(1,2) demo_wf, where k = 4, unfolded fatx_ata_idle(3),
      OF _ _ _ demo_resolve demo_chain(2), of "replicate 0x4000 0" blank_fileinfo blank_context "[]" "[]"]
    demo_length
  by (auto simp: blank_fileinfo_def demo_partition_def)

text \<open>C12. The same for a disc: after detection, \<open>BootIso9660GetFile\<close> through the ATAPI packets of
  \<open>BootIdeReadSector\<close> returns what the walk over the disc's directories finds.\<close>

theorem ide_BootIso9660GetFile:
  assumes "idle n d" and "lba_mode (t_ident d) = IDE_DH_LBA" and "\<And>k. length (uninit k) = k"
    and "\<And>c. c \<in> set cs \<Longrightarrow> 0x2f \<notin> set c" and "length (iso_path cs) \<le> 768"
    and "iso_walk (t_disc d) (rec_extent (drop 156 (t_disc d 16))) (rec_size (drop 156 (t_disc d 16))) cs = Some res"
    and "\<And>r. res = Some r \<Longrightarrow> rec_size r < max_bytes \<and> unat (rec_size r) < 2 ^ 32 - 2048
          \<and> unat (round_up (rec_size r)) \<le> length buf"
  shows "\<exists>mode info d1 d2. BootIdeInit ata_ports n c0 False eeprom d = Some (0, mode, info, d1)
    \<and> BootIso9660GetFile (BootIdeReadSector ata_ports n info) uninit 1 (iso_path cs) buf max_bytes d1
      = Some (fst (get_result (t_disc d) res buf), snd (get_result (t_disc d) res buf), d2)"
proof -
  obtain mode info d1 where init: "BootIdeInit ata_ports n c0 False eeprom d = Some (0, mode, info, d1)"
    and s: "has_slave info (info ! 1)" and d1: "idle n d1" "same_media d d1"
    using BootIdeInit_describes [OF assms(1,2), of c0 eeprom] by blast
  have rdy: "ide_ready n d1" and disc: "t_disc d1 = t_disc d" using d1 by (simp_all add: same_media_def idle_def)
  have walk: "iso_walk (t_disc d1) (rec_extent (drop 156 (t_disc d1 16))) (rec_size (drop 156 (t_disc d1 16))) cs
      = Some res" unfolding disc by (rule assms(6))
  from block_source.BootIso9660GetFile_gets [OF ide_block_source [OF s] rdy assms(3,4,5) refl walk assms(7)]
  show ?thesis using init unfolding disc by blast
qed

theorem ide_BootIso9660GetFile_witness:
  "\<exists>mode info d1 d2. BootIdeInit ata_ports 9 blank_context False [] blank_ata = Some (0, mode, info, d1)
    \<and> BootIso9660GetFile (BootIdeReadSector ata_ports 9 info) (\<lambda>k. replicate k 0) 1 (iso_path [[0x63, 0x66]])
        (replicate 4096 0) 4096 d1 = Some (3, demo_disc 19 @ replicate 2048 0, d2)"
proof -
  have lba: "lba_mode (t_ident blank_ata) = IDE_DH_LBA" and disc: "t_disc blank_ata = demo_disc"
    by (simp_all add: lba_mode_def ident_word_def blank_ata_def le16_def)
  have walk: "iso_walk (t_disc blank_ata) (rec_extent (drop 156 (t_disc blank_ata 16)))
      (rec_size (drop 156 (t_disc blank_ata 16))) [[0x63, 0x66]] = Some (Some demo_file)"
    unfolding disc disc_root by (rule disc_walk)
  show ?thesis
    using ide_BootIso9660GetFile [OF blank_ready(2) lba _ _ _ walk, of "\<lambda>k. replicate k 0" 4096 "replicate 4096 0"
        blank_context "[]"] disc
    by (simp add: demo_file_fields get_result_def round_up_def)
qed

end
