(* ===== verification/FlashTypes.thy ===== *)
theory FlashTypes
  imports Prelude
begin

text \<open>
  The table \<open>include/flashtypes.h\<close> of the flash chips the loader knows: manufacturer, device, name
  and size in bytes. The last entry ends it. \<open>flash_lookup\<close> is the search of
  \<open>BootFlashGetDescriptor\<close> (\<open>drivers/flash/BootFlash.c\<close>) for an identification: it stops at the
  first match or at an entry with manufacturer 0, and has no defined result behind the array.
\<close>

record KNOWN_FLASH_TYPE =
  kft_manufacturer :: u8
  kft_device :: u8
  kft_description :: string
  kft_length :: u32

definition flash_type :: "u8 \<times> u8 \<times> string \<times> u32 \<Rightarrow> KNOWN_FLASH_TYPE" where
  "flash_type r = (case r of (m, d, s, n) \<Rightarrow>
     \<lparr>kft_manufacturer = m, kft_device = d, kft_description = s, kft_length = n\<rparr>)"

definition flash_chips :: "(u8 \<times> u8 \<times> string \<times> u32) list" where
  "flash_chips = [
     (0x01, 0x0C, ''AMD_Am29DL400BT'', 0x80000),
     (0x01, 0x0F, ''AMD_Am29DL400BB'', 0x80000),
     (0x01, 0x23, ''AMD_Am29F400BT'', 0x80000),
     (0x01, 0x34, ''AMD_Am29F002BB/NBB'', 0x40000),
     (0x01, 0x37, ''AMD_Am29LV008BB'', 0x100000),
     (0x01, 0x38, ''AMD_Am29LV080B'', 0x100000),
     (0x01, 0x3B, ''AMD_Am29LV200BT'', 0x40000),
     (0x01, 0x3E, ''AMD_Am29LV008BT'', 0x100000),
     (0x01, 0x40, ''AMD_Am29LV002BT'', 0x40000),
     (0x01, 0x4A, ''AMD_Am29DL800BT'', 0x100000),
     (0x01, 0x4F, ''AMD_Am29LV040B'', 0x80000),
     (0x01, 0x51, ''AMD_Am29F200BT'', 0x40000),
     (0x01, 0x57, ''AMD_Am29F200BB'', 0x40000),
     (0x01, 0x58, ''AMD_Am29F800BB'', 0x100000),
     (0x01, 0x5B, ''AMD_Am29LV800BB/DB'', 0x100000),
     (0x01, 0x77, ''AMD_Am29F004BT'', 0x80000),
     (0x01, 0x7B, ''AMD_Am29F004BB'', 0x80000),
     (0x01, 0xA4, ''AMD_Am29F040B'', 0x80000),
     (0x01, 0xAB, ''AMD_Am29F400BB'', 0x80000),
     (0x01, 0xAD, ''XECUTER3'', 0x200000),
     (0x01, 0xB0, ''AMD_Am29F002BT/NBT'', 0x40000),
     (0x01, 0xB5, ''AMD_Am29LV004BT'', 0x80000),
     (0x01, 0xB6, ''AMD_Am29LV004BB'', 0x80000),
     (0x01, 0xB9, ''AMD_Am29LV400BT'', 0x80000),
     (0x01, 0xBA, ''AMD_Am29LV400BB'', 0x80000),
     (0x01, 0xBF, ''AMD_Am29LV200BB'', 0x40000),
     (0x01, 0xC2, ''AMD_Am29LV002BB'', 0x40000),
     (0x01, 0xCB, ''AMD_Am29DL800BB'', 0x100000),
     (0x01, 0xD5, ''AMD_Am29F080B'', 0x100000),
     (0x01, 0xD6, ''AMD_Am29F800BT'', 0x100000),
     (0x01, 0xDA, ''AMD_Am29LV800BT/DT'', 0x100000),
     (0x04, 0x0C, ''Fujitsu_MBM29DL400TC'', 0x80000),
     (0x04, 0x0F, ''Fujitsu_MBM29DL400BC'', 0x80000),
     (0x04, 0x23, ''Fujitsu_MBM29F400TC'', 0x80000),
     (0x04, 0x34, ''Fujitsu_MBM29F002BC'', 0x40000),
     (0x04, 0x37, ''Fujitsu_MBM29LV008BA'', 0x100000),
     (0x04, 0x38, ''Fujitsu_MBM29LV080A'', 0x100000),
     (0x04, 0x3B, ''Fujitsu_MBM29LV200TC'', 0x40000),
     (0x04, 0x3E, ''Fujitsu_MBM29LV008TA'', 0x100000),
     (0x04, 0x40, ''Fujitsu_MBM29LV002TC'', 0x40000),
     (0x04, 0x4A, ''Fujitsu_MBM29DL800TA'', 0x100000),
     (0x04, 0x51, ''Fujitsu_MBM29F200TC'', 0x40000),
     (0x04, 0x57, ''Fujitsu_MBM29F200BC'', 0x40000),
     (0x04, 0x58, ''Fujitsu_MBM29F800BA'', 0x100000),
     (0x04, 0x5B, ''Fujitsu_MBM29LV800BA/BE'', 0x100000),
     (0x04, 0x77, ''Fujitsu_MBM29F004TC'', 0x80000),
     (0x04, 0x7B, ''Fujitsu_MBM29F004BC'', 0x80000),
     (0x04, 0xA4, ''Fujitsu_MBM29F040C'', 0x80000),
     (0x04, 0xAB, ''Fujitsu_MBM29F400BC'', 0x80000),
     (0x04, 0xB0, ''Fujitsu_MBM29F002TC'', 0x40000),
     (0x04, 0xB5, ''Fujitsu_MBM29LV004TC'', 0x80000),
     (0x04, 0xB6, ''Fujitsu_MBM29LV004BC'', 0x80000),
     (0x04, 0xB9, ''Fujitsu_MBM29LV400TC'', 0x80000),
     (0x04, 0xBA, ''Fujitsu_MBM29LV400BC'', 0x80000),
     (0x04, 0xBF, ''Fujitsu_MBM29LV200BC'', 0x40000),
     (0x04, 0xC2, ''Fujitsu_MBM29LV002BC'', 0x40000),
     (0x04, 0xCB, ''Fujitsu_MBM29DL800BA'', 0x100000),
     (0x04, 0xD5, ''Fujitsu_MBM29F080A'', 0x100000),
     (0x04, 0xD6, ''Fujitsu_MBM29F800TA'', 0x100000),
     (0x04, 0xDA, ''Fujitsu_MBM29LV800TA/TE'', 0x100000),
     (0x20, 0x34, ''ST_M29F002B/BB'', 0x40000),
     (0x20, 0x58, ''ST_M29F800DB'', 0x100000),
     (0x20, 0xB0, ''ST_M29F002T/NT/BT/BNT'', 0x40000),
     (0x20, 0xD3, ''ST_M29F200BT'', 0x40000),
     (0x20, 0xD4, ''ST_M29F200BB'', 0x40000),
     (0x20, 0xD5, ''ST_M29F400T/BT'', 0x80000),
     (0x20, 0xD6, ''ST_M29F400B/BB'', 0x80000),
     (0x20, 0xE2, ''ST_M29F040_series'', 0x80000),
     (0x20, 0xEC, ''ST_M29F800DT'', 0x100000),
     (0x20, 0xF1, ''ST_M29F080_series'', 0x100000),
     (0x37, 0x0D, ''AMIC_A29002U/290021U'', 0x40000),
     (0x37, 0x0E, ''AMIC_A29800T'', 0x100000),
     (0x37, 0x1A, ''AMIC_A29L008T/A29L800T'', 0x100000),
     (0x37, 0x31, ''AMIC_A29400U/294001U'', 0x80000),
     (0x37, 0x34, ''AMIC_A29L004T/A29L400T'', 0x80000),
     (0x37, 0x86, ''AMIC_A29040A'', 0x80000),
     (0x37, 0x8C, ''AMIC_A29002T/290021T'', 0x40000),
     (0x37, 0x8F, ''AMIC_A29800U'', 0x100000),
     (0x37, 0x92, ''AMIC_A29L040'', 0x80000),
     (0x37, 0x9B, ''AMIC_A29L008U/A29L800U'', 0x100000),
     (0x37, 0xB0, ''AMIC_A29400T/294001T'', 0x80000),
     (0x37, 0xB5, ''AMIC_A29L004U/A29L400U'', 0x80000),
     (0x89, 0xA2, ''Sharp_LH28F008SA_series'', 0x100000),
     (0x89, 0xA6, ''Sharp_LH28F008SC_series'', 0x100000),
     (0xAD, 0x23, ''Hynix_HY29F400T/AT'', 0x80000),
     (0xAD, 0x58, ''Hynix_HY29F800B/AB'', 0x100000),
     (0xAD, 0x5B, ''Hynix_HY29LV800B'', 0x100000),
     (0xAD, 0xA4, ''Hynix_HY29F040A'', 0x80000),
     (0xAD, 0xAB, ''Hynix_HY29F400B/AB'', 0x80000),
     (0xAD, 0xB0, ''Hynix_HY29F002'', 0x40000),
     (0xAD, 0xB9, ''Hynix_HY29LV400T'', 0x80000),
     (0xAD, 0xBA, ''Hynix_HY29LV400B'', 0x80000),
     (0xAD, 0xD5, ''Hynix_HY29F080'', 0x100000),
     (0xAD, 0xD6, ''Hynix_HY29F800T/AT'', 0x100000),
     (0xAD, 0xDA, ''Hynix_HY29LV800T'', 0x100000),
     (0xB0, 0x4B, ''Sharp_LH28F800BVxx-BTL_series'', 0x100000),
     (0xB0, 0x4C, ''Sharp_LH28F800BVxx-TV_series'', 0x100000),
     (0xB0, 0x4D, ''Sharp_LH28F800BVxx-BV_series'', 0x100000),
     (0xB0, 0xC9, ''Sharp_LHF00L02/L06/L07'', 0x100000),
     (0xB0, 0xCF, ''Sharp_LHF00L03/L04/L05'', 0x100000),
     (0xB0, 0xEC, ''Sharp_LH28F008BJxx-PT_series'', 0x100000),
     (0xB0, 0xED, ''Sharp_LH28F008BJxx-PB_series'', 0x100000),
     (0xBF, 0x10, ''SST_29EE020'', 0x40000),
     (0xBF, 0x12, ''SST_29LE020/29VE020'', 0x40000),
     (0xBF, 0x13, ''SST_29SF040'', 0x80000),
     (0xBF, 0x14, ''SST_29VF040'', 0x80000),
     (0xBF, 0x1B, ''SST_49LF003A'', 0x60000),
     (0xBF, 0x1C, ''SST_49LF030A'', 0x60000),
     (0xBF, 0x51, ''SST_49LF040'', 0x80000),
     (0xBF, 0x52, ''SST_49LF020A'', 0x40000),
     (0xBF, 0x57, ''SST_49LF002A'', 0x40000),
     (0xBF, 0x5A, ''SST_49LF008A'', 0x100000),
     (0xBF, 0x5B, ''SST_49LF080A'', 0x100000),
     (0xBF, 0x60, ''SST_49LF004A/B'', 0x80000),
     (0xBF, 0x61, ''SST_49LF020'', 0x40000),
     (0xBF, 0xB6, ''SST_39SF020A'', 0x40000),
     (0xBF, 0xB7, ''SST_39SF040'', 0x80000),
     (0xBF, 0xD6, ''SST_39LF020/39VF020'', 0x40000),
     (0xBF, 0xD7, ''SST_39LF040/39VF040'', 0x80000),
     (0xBF, 0xD8, ''SST_39LF080/39VF080/39VF088'', 0x100000),
     (0xC2, 0x23, ''Macronix_MX29F400T'', 0x80000),
     (0xC2, 0x34, ''Macronix_MX29F002B/NB'', 0x40000),
     (0xC2, 0x36, ''Macronix_MX29F022T/NT'', 0x40000),
     (0xC2, 0x37, ''Macronix_MX29F022B/NB'', 0x40000),
     (0xC2, 0x37, ''Macronix_MX29LV008B'', 0x100000),
     (0xC2, 0x38, ''Macronix_MX29LV081'', 0x100000),
     (0xC2, 0x3E, ''Macronix_MX29LV008T'', 0x100000),
     (0xC2, 0x45, ''Macronix_MX29F004T'', 0x80000),
     (0xC2, 0x46, ''Macronix_MX29F004B'', 0x80000),
     (0xC2, 0x4F, ''Macronix_MX29LV040'', 0x80000),
     (0xC2, 0x51, ''Macronix_MX29F200T'', 0x40000),
     (0xC2, 0x57, ''Macronix_MX29F200B'', 0x40000),
     (0xC2, 0x58, ''Macronix_MX29F800B'', 0x100000),
     (0xC2, 0x5B, ''Macronix_MX29LV800B'', 0x100000),
     (0xC2, 0xA4, ''Macronix_MX29F040'', 0x80000),
     (0xC2, 0xAB, ''Macronix_MX29F400B'', 0x80000),
     (0xC2, 0xB0, ''Macronix_MX29F002T/NT'', 0x40000),
     (0xC2, 0xB5, ''Macronix_MX29LV004T'', 0x80000),
     (0xC2, 0xB6, ''Macronix_MX29LV004B'', 0x80000),
     (0xC2, 0xB9, ''Macronix_MX29LV400T'', 0x80000),
     (0xC2, 0xBA, ''Macronix_MX29LV400B'', 0x80000),
     (0xC2, 0xD5, ''Macronix_MX29F080'', 0x100000),
     (0xC2, 0xD6, ''Macronix_MX29F800T'', 0x100000),
     (0xC2, 0xDA, ''Macronix_MX29LV800T'', 0x100000),
     (0xDA, 0x0B, ''Winbond_W49F002U'', 0x40000),
     (0xDA, 0x3D, ''Winbond_W39V040A'', 0x80000),
     (0xDA, 0x45, ''Winbond_W29C020'', 0x40000),
     (0xDA, 0x46, ''Winbond_W29C040'', 0x40000),
     (0xDA, 0x8C, ''Winbond_W49F020'', 0x40000),
     (0xDA, 0xB0, ''Winbond_W49V002A'', 0x40000),
     (0xDA, 0xB5, ''Winbond_W39L020'', 0x40000),
     (0xDA, 0xB6, ''Winbond_W39L040'', 0x80000)]"

text \<open>The terminator of the table.\<close>

definition flash_terminator :: "u8 \<times> u8 \<times> string \<times> u32" where
  "flash_terminator = (0, 0, '''', 0)"

definition aknownflashtypesDefault :: "KNOWN_FLASH_TYPE list" where
  "aknownflashtypesDefault = map flash_type (flash_chips @ [flash_terminator])"

fun flash_lookup :: "u8 \<Rightarrow> u8 \<Rightarrow> KNOWN_FLASH_TYPE list \<Rightarrow> KNOWN_FLASH_TYPE option option" where
  "flash_lookup m d [] = None"
| "flash_lookup m d (k # ks) =
     (if kft_manufacturer k = 0 then Some None
      else if kft_manufacturer k = m \<and> kft_device k = d then Some (Some k)
      else flash_lookup m d ks)"

section \<open>The search\<close>

text \<open>On a table that ends with the terminator, the search always has a result: the first entry with
  the identification.\<close>

lemma flash_lookup_find:
  assumes "\<And>k. k \<in> set ks \<Longrightarrow> kft_manufacturer k \<noteq> 0" and "kft_manufacturer t = 0"
  shows "flash_lookup m d (ks @ [t]) = Some (find (\<lambda>k. kft_manufacturer k = m \<and> kft_device k = d) ks)"
  using assms(1) by (induction ks) (auto simp: assms(2))

lemma chips_nonzero: "list_all (\<lambda>r. fst r \<noteq> 0) flash_chips"
  unfolding flash_chips_def by (simp only: list.pred_inject fst_conv) simp

lemma flash_lookup_known:
  "flash_lookup m d aknownflashtypesDefault =
     Some (map_option flash_type (find (\<lambda>r. fst r = m \<and> fst (snd r) = d) flash_chips))"
proof -
  let ?ks = "map flash_type flash_chips"
  have tbl: "aknownflashtypesDefault = ?ks @ [flash_type flash_terminator]"
    by (simp add: aknownflashtypesDefault_def)
  have "kft_manufacturer k \<noteq> 0" if "k \<in> set ?ks" for k
    using that chips_nonzero by (auto simp: flash_type_def list_all_iff)
  moreover have "kft_manufacturer (flash_type flash_terminator) = 0" by (simp add: flash_type_def flash_terminator_def)
  moreover have "find (\<lambda>k. kft_manufacturer k = m \<and> kft_device k = d) (map flash_type rs)
      = map_option flash_type (find (\<lambda>r. fst r = m \<and> fst (snd r) = d) rs)" for rs
    by (induction rs) (auto simp: flash_type_def)
  ultimately show ?thesis unfolding tbl by (subst flash_lookup_find) auto
qed

end
