(* ===== verification/Flash.thy ===== *)
theory Flash
  imports FlashTypes I2c
begin

text \<open>
  Reflashing, \<open>drivers/flash/BootFlash.c\<close> and \<open>BootFlashUi.c\<close>: identification of the chip, erasing
  the region to program, programming with verification.

  The memory-mapped chip is a parameter: every access is a volatile read or write that may change
  its state \<open>'d\<close>. The callback reports the events of \<open>BootFlash.h\<close> and may act on the state. Texts
  are kept as the message and its values. A loop that waits for the chip makes at most \<open>n\<close> reads:
  \<open>None\<close> says that the wait did not end within it, or that an access left the caller's buffer.
\<close>

record 'd flash_port =
  fl_read :: "u32 \<Rightarrow> 'd \<Rightarrow> u8 \<times> 'd"
  fl_write :: "u32 \<Rightarrow> u8 \<Rightarrow> 'd \<Rightarrow> 'd"

datatype flash_event =
    EE_ERASE_START | EE_ERASE_UPDATE | EE_ERASE_END | EE_ERASE_ERROR
  | EE_PROGRAM_START | EE_PROGRAM_UPDATE | EE_PROGRAM_END | EE_PROGRAM_ERROR
  | EE_VERIFY_START | EE_VERIFY_UPDATE | EE_VERIFY_END | EE_VERIFY_ERROR

type_synonym 'd flash_callback = "flash_event \<Rightarrow> u32 \<Rightarrow> u32 \<Rightarrow> 'd \<Rightarrow> bool \<times> 'd"

datatype flash_text =
    Chip_text string u32 | Master_Lock_text | Block_Locks_text "u8 list" | Read_Only_text u8 u8 | Unknown_text u8 u8

datatype flash_error =
    Erase_Aborted | Erase_failed u32 u8 | Requires_5V | Chip_Status_after_Erase u8
  | Program_Aborted | Program_failed u32 u8 u8 | Chip_Status_after_Program u8 | Chip_Status_timed_out u8

record 'd OBJECT_FLASH =
  m_bManufacturerId :: u8
  m_bDeviceId :: u8
  m_szFlashDescription :: "flash_text list"
  m_szAdditionalErrorInfo :: "flash_error option"
  m_dwLengthInBytes :: u32
  m_dwStartOffset :: u32
  m_dwLengthUsedArea :: u32
  m_pcallbackFlash :: "'d flash_callback option"
  m_fDetectedUsing28xxxConventions :: bool
  m_fIsBelievedCapableOfWriteAndErase :: bool

fun fl_write_all :: "'d flash_port \<Rightarrow> (u32 \<times> u8) list \<Rightarrow> 'd \<Rightarrow> 'd" where
  "fl_write_all fl [] d = d"
| "fl_write_all fl ((a, b) # r) d = fl_write_all fl r (fl_write fl a b d)"

text \<open>The callback, when there is one; the tests of its result are on \<open>fst\<close>.\<close>

definition notify :: "'d OBJECT_FLASH \<Rightarrow> flash_event \<Rightarrow> u32 \<Rightarrow> u32 \<Rightarrow> 'd \<Rightarrow> bool \<times> 'd" where
  "notify pof ee pos extent d =
     (case m_pcallbackFlash pof of None \<Rightarrow> (True, d) | Some cb \<Rightarrow> cb ee pos extent d)"

section \<open>Identification\<close>

definition try_29xxx :: "'d flash_port \<Rightarrow> 'd OBJECT_FLASH \<Rightarrow> 'd \<Rightarrow> 'd OBJECT_FLASH \<times> 'd" where
  "try_29xxx fl pof d =
     (let d = fl_write_all fl [(0x5555, 0xf0), (0x5555, 0xaa), (0x2aaa, 0x55), (0x5555, 0xf0),
                               (0x5555, 0xaa), (0x2aaa, 0x55), (0x5555, 0x90)] d;
          (m, d) = fl_read fl 0 d;
          (v, d) = fl_read fl 1 d;
          d = fl_write fl 0x5555 0xf0 d
      in (pof\<lparr>m_bManufacturerId := m, m_bDeviceId := v, m_fDetectedUsing28xxxConventions := False\<rparr>, d))"

definition try_28xxx :: "'d flash_port \<Rightarrow> 'd OBJECT_FLASH \<Rightarrow> 'd \<Rightarrow> 'd OBJECT_FLASH \<times> 'd" where
  "try_28xxx fl pof d =
     (let d = fl_write_all fl [(0x5555, 0xff), (0x5555, 0x90)] d;
          (m, d) = fl_read fl 0 d;
          d = fl_write fl 0x5555 0x90 d;
          (v, d) = fl_read fl 1 d;
          d = fl_write fl 0x5555 0xff d
      in (pof\<lparr>m_bManufacturerId := m, m_bDeviceId := v, m_fDetectedUsing28xxxConventions := True\<rparr>, d))"

text \<open>The 28xxx protocol comes first; the 29xxx protocol is tried when the first one read back the
  two bytes of normal mode. The second comparison reads the chip again.\<close>

definition no_answer :: "'d flash_port \<Rightarrow> u8 \<Rightarrow> u8 \<Rightarrow> 'd OBJECT_FLASH \<Rightarrow> 'd \<Rightarrow> bool \<times> 'd" where
  "no_answer fl b0 b1 pof d =
     (if b0 \<noteq> m_bManufacturerId pof then (False, d)
      else (let (x, d) = fl_read fl 1 d in (b1 = x, d)))"

definition try_protocols :: "'d flash_port \<Rightarrow> u8 \<Rightarrow> u8 \<Rightarrow> 'd OBJECT_FLASH \<Rightarrow> 'd \<Rightarrow> 'd OBJECT_FLASH \<times> 'd" where
  "try_protocols fl b0 b1 pof d =
     (let (pof, d) = try_28xxx fl pof d;
          (again, d) = no_answer fl b0 b1 pof d
      in if again
         then (let (pof, d) = try_29xxx fl pof d; (_, d) = no_answer fl b0 b1 pof d in (pof, d))
         else (pof, d))"

text \<open>The lock bits of the blocks of 64 KByte, a read of each after its command.\<close>

fun block_locks :: "'d flash_port \<Rightarrow> u32 list \<Rightarrow> 'd \<Rightarrow> u8 list \<times> 'd" where
  "block_locks fl [] d = ([], d)"
| "block_locks fl (a # as) d =
     (let d = fl_write fl 0x5555 0x90 d;
          (b, d) = fl_read fl (a OR 0x0002) d;
          (bs, d) = block_locks fl as d
      in ((b AND 1) # bs, d))"

definition block_starts :: "u32 \<Rightarrow> u32 list" where
  "block_starts len = map (\<lambda>i. of_nat (i * 0x10000)) [0..<(unat len + 0xffff) div 0x10000]"

definition read_locks :: "'d flash_port \<Rightarrow> 'd OBJECT_FLASH \<Rightarrow> 'd \<Rightarrow> 'd OBJECT_FLASH \<times> 'd" where
  "read_locks fl pof d =
     (let d = fl_write fl 0x5555 0x90 d;
          (m, d) = fl_read fl 3 d;
          pof = (if m \<noteq> 0 then pof\<lparr>m_fIsBelievedCapableOfWriteAndErase := False,
                                m_szFlashDescription := m_szFlashDescription pof @ [Master_Lock_text]\<rparr> else pof);
          (bs, d) = block_locks fl (block_starts (m_dwLengthInBytes pof)) d;
          d = fl_write_all fl [(0x5555, 0x50), (0x5555, 0xff)] d
      in (pof\<lparr>m_szFlashDescription := m_szFlashDescription pof @ [Block_Locks_text bs]\<rparr>, d))"

definition BootFlashGetDescriptor ::
  "'d flash_port \<Rightarrow> KNOWN_FLASH_TYPE list \<Rightarrow> 'd OBJECT_FLASH \<Rightarrow> 'd \<Rightarrow> (bool \<times> 'd OBJECT_FLASH \<times> 'd) option" where
  "BootFlashGetDescriptor fl pkft pof d = do {
     let pof = pof\<lparr>m_fIsBelievedCapableOfWriteAndErase := True, m_szAdditionalErrorInfo := None\<rparr>;
     let (b0, d) = fl_read fl 0 d;
     let (b1, d) = fl_read fl 1 d;
     let (pof, d) = try_protocols fl b0 b1 pof d;
     seen \<leftarrow> flash_lookup (m_bManufacturerId pof) (m_bDeviceId pof) pkft;
     case seen of
       Some k \<Rightarrow>
         (let pof = pof\<lparr>m_szFlashDescription := [Chip_text (kft_description k) (kft_length k div 1024)],
                        m_dwLengthInBytes := kft_length k\<rparr>;
              (pof, d) = (if m_fDetectedUsing28xxxConventions pof then read_locks fl pof d else (pof, d))
          in Some (True, pof, d))
     | None \<Rightarrow>
         (let (same, d) = no_answer fl b0 b1 pof d;
              m = m_bManufacturerId pof; v = m_bDeviceId pof
          in Some (False, pof\<lparr>m_szFlashDescription := [if same then Read_Only_text m v else Unknown_text m v]\<rparr>, d))
   }"

section \<open>Erasing\<close>

text \<open>Waiting until bit 6 no longer toggles from read to read, and counting how often it did.\<close>

fun toggle_wait :: "'d flash_port \<Rightarrow> nat \<Rightarrow> u32 \<Rightarrow> u8 \<Rightarrow> u32 \<Rightarrow> 'd \<Rightarrow> (u32 \<times> 'd) option" where
  "toggle_wait fl 0 dw b tries d = None"
| "toggle_wait fl (Suc n) dw b tries d =
     (let (x, d) = fl_read fl dw d
      in if x AND 0x40 \<noteq> b AND 0x40 then toggle_wait fl n dw (b XOR 0x40) (tries + 1) d
         else Some (tries, d))"

definition wait_toggle_end :: "'d flash_port \<Rightarrow> nat \<Rightarrow> u32 \<Rightarrow> 'd \<Rightarrow> (u32 \<times> 'd) option" where
  "wait_toggle_end fl n dw d = (let (b, d) = fl_read fl dw d in toggle_wait fl n dw b 0 d)"

text \<open>One erase command of the 29xxx family; \<open>reset\<close> says that the reset sequence goes before it.\<close>

definition erase_command ::
  "'d flash_port \<Rightarrow> nat \<Rightarrow> bool \<Rightarrow> u32 \<Rightarrow> u8 \<Rightarrow> u32 \<Rightarrow> 'd \<Rightarrow> (u32 \<times> 'd) option" where
  "erase_command fl n reset a code dw d =
     wait_toggle_end fl n dw
       (fl_write_all fl
         ((if reset then [(0x5555, 0xaa), (0x2aaa, 0x55), (0x5555, 0xf0)] else [])
          @ [(0x5555, 0xaa), (0x2aaa, 0x55), (0x5555, 0x80), (0x5555, 0xaa), (0x2aaa, 0x55), (a, code)]) d)"

definition erase_29xxx ::
  "'d flash_port \<Rightarrow> nat \<Rightarrow> 'd OBJECT_FLASH \<Rightarrow> nat \<Rightarrow> u32 \<Rightarrow> 'd \<Rightarrow> 'd option" where
  "erase_29xxx fl n pof retries dw d = do {
     (tries, d) \<leftarrow> erase_command fl n False dw 0x50 dw d;
     (tries, d) \<leftarrow> (if tries < 3 then erase_command fl n True dw 0x30 dw d else Some (tries, d));
     (tries, d) \<leftarrow> (if tries < 3 \<and> retries < 2 \<and> m_dwStartOffset pof = 0
                      \<and> m_dwLengthUsedArea pof = m_dwLengthInBytes pof
                   then erase_command fl n True 0x5555 0x10 dw d else Some (tries, d));
     Some d }"

text \<open>The 28xxx family: at least \<open>spin\<close> reads, and until bit 7 of the status comes.\<close>

fun status_wait :: "'d flash_port \<Rightarrow> nat \<Rightarrow> u32 \<Rightarrow> u8 \<Rightarrow> nat \<Rightarrow> 'd \<Rightarrow> (u8 \<times> 'd) option" where
  "status_wait fl 0 dw b spin d = None"
| "status_wait fl (Suc n) dw b spin d =
     (if b AND 0x80 = 0 \<or> spin \<noteq> 0
      then (let (b, d) = fl_read fl dw d in status_wait fl n dw b (spin - 1) d)
      else Some (b, d))"

definition erase_28xxx :: "'d flash_port \<Rightarrow> nat \<Rightarrow> u32 \<Rightarrow> 'd \<Rightarrow> (u8 \<times> 'd) option" where
  "erase_28xxx fl n dw d = do {
     (b, d) \<leftarrow> status_wait fl n dw 0 0x100 (fl_write_all fl [(0x5555, 0x50), (dw, 0x20), (dw, 0xd0)] d);
     Some (b, fl_write_all fl [(0x5555, 0x50), (0x5555, 0xff)] d) }"

text \<open>The two failure exits: the error event with the byte that is read, and the end event.\<close>

definition erase_error_events :: "'d flash_port \<Rightarrow> 'd OBJECT_FLASH \<Rightarrow> u32 \<Rightarrow> 'd \<Rightarrow> 'd" where
  "erase_error_events fl pof dw d =
     (case m_pcallbackFlash pof of
        None \<Rightarrow> d
      | Some cb \<Rightarrow>
          (let (x, d) = fl_read fl dw d;
               (_, d) = cb EE_ERASE_ERROR (dw - m_dwStartOffset pof) (ucast x) d;
               (_, d) = cb EE_ERASE_END 0 0 d
           in d))"

definition same_4K :: "u32 \<Rightarrow> u32 \<Rightarrow> bool" where
  "same_4K a b \<longleftrightarrow> a AND 0xfffff000 = b AND 0xfffff000"

abbreviation (input) "MAX_ERASE_RETRIES \<equiv> 4 :: nat"

function erase_loop ::
  "'d flash_port \<Rightarrow> nat \<Rightarrow> 'd OBJECT_FLASH \<Rightarrow> u32 \<Rightarrow> u32 \<Rightarrow> u32 \<Rightarrow> nat \<Rightarrow> 'd
     \<Rightarrow> (bool \<times> flash_error option \<times> 'd) option" where
  "erase_loop fl n pof dw dwLen dwLast retries d =
     (if dwLen = 0 then Some (True, None, d)
      else
        (let (x, d) = fl_read fl dw d
         in if x \<noteq> 0xff
            then
              (let same = same_4K dwLast dw;
                   retries' = (if same then retries - 1 else MAX_ERASE_RETRIES);
                   dwLast' = (if same then dwLast else dw)
               in if same \<and> retries' = 0
                  then (let d = erase_error_events fl pof dw d; (x, d) = fl_read fl dw d
                        in Some (False, Some (Erase_failed dw x), d))
                  else if m_fDetectedUsing28xxxConventions pof
                  then (case erase_28xxx fl n dw d of
                          None \<Rightarrow> None
                        | Some (b, d) \<Rightarrow>
                            if b AND 0x7e \<noteq> 0
                            then Some (False, Some (if b AND 8 \<noteq> 0 then Requires_5V else Chip_Status_after_Erase b),
                                       erase_error_events fl pof dw d)
                            else erase_loop fl n pof dw dwLen dwLast' retries' d)
                  else (case erase_29xxx fl n pof retries' dw d of
                          None \<Rightarrow> None
                        | Some d \<Rightarrow> erase_loop fl n pof dw dwLen dwLast' retries' d))
            else
              (let (go, d) = (if dw AND 0x3ff = 0
                              then notify pof EE_ERASE_UPDATE (dw - m_dwStartOffset pof) (m_dwLengthUsedArea pof) d
                              else (True, d))
               in if \<not> go then Some (False, Some Erase_Aborted, d)
                  else erase_loop fl n pof (dw + 1) (dwLen - 1) dwLast retries d)))"
  by pat_completeness auto

text \<open>The loop ends: a byte is passed, or the retries of its block run down.\<close>

termination
proof (relation "measures [\<lambda>(fl, n, pof, dw, len, last, r, d). unat len,
    \<lambda>(fl, n, pof, dw, len, last, r, d). if same_4K last dw then r else 5]", goal_cases)
  case 1
  show ?case by simp
qed (auto simp: same_4K_def unat_gt_0 measures_def unat_minus_one split: if_splits)

declare erase_loop.simps [simp del]

definition BootFlashEraseMinimalRegion ::
  "'d flash_port \<Rightarrow> nat \<Rightarrow> 'd OBJECT_FLASH \<Rightarrow> 'd \<Rightarrow> (bool \<times> 'd OBJECT_FLASH \<times> 'd) option" where
  "BootFlashEraseMinimalRegion fl n pof d = do {
     let pof = pof\<lparr>m_szAdditionalErrorInfo := None\<rparr>;
     let (go, d) = notify pof EE_ERASE_START 0 0 d;
     if \<not> go then Some (False, pof\<lparr>m_szAdditionalErrorInfo := Some Erase_Aborted\<rparr>, d)
     else do {
       (ok, err, d) \<leftarrow> erase_loop fl n pof (m_dwStartOffset pof) (m_dwLengthUsedArea pof) 0xffffffff
                        MAX_ERASE_RETRIES d;
       if \<not> ok then Some (False, pof\<lparr>m_szAdditionalErrorInfo := err\<rparr>, d)
       else (let (go, d) = notify pof EE_ERASE_END 0 0 d in Some (go, pof, d)) } }"

section \<open>Programming\<close>

text \<open>28xxx: until bit 7 of the status comes or the time to live, which runs down while it does
  not, is over; and at least \<open>spin\<close> reads. The loop ends by itself.\<close>

function program_wait :: "'d flash_port \<Rightarrow> u32 \<Rightarrow> u8 \<Rightarrow> u32 \<Rightarrow> nat \<Rightarrow> 'd \<Rightarrow> u8 \<times> u32 \<times> 'd" where
  "program_wait fl dw b ttl spin d =
     (let ttl = (if b AND 0x80 = 0 then ttl - 1 else ttl)
      in if (b AND 0x80 = 0 \<and> ttl \<noteq> 0) \<or> spin \<noteq> 0
         then (let (b, d) = fl_read fl dw d in program_wait fl dw b ttl (spin - 1) d)
         else (b, ttl, d))"
  by pat_completeness auto

termination
proof (relation "measures [\<lambda>(fl, dw, b, ttl, spin, d). spin, \<lambda>(fl, dw, b, ttl, spin, d). unat (ttl - 1)]",
    goal_cases)
  case 1
  show ?case by simp
next
  case (2 fl dw b ttl spin d ttl' x b' d')
  then have "spin = 0 \<Longrightarrow> ttl' = ttl - 1 \<and> ttl - 1 \<noteq> 0" by (auto split: if_splits)
  moreover have "unat (w - 1) < unat w" if "w \<noteq> 0" for w :: u32
    using that by (simp add: unat_minus_one unat_gt_0)
  ultimately have "spin = 0 \<Longrightarrow> unat (ttl' - 1) < unat (ttl - 1)" by blast
  then show ?case by (cases "spin = 0") simp_all
qed

declare program_wait.simps [simp del]

definition program_28xxx :: "'d flash_port \<Rightarrow> u32 \<Rightarrow> u8 \<Rightarrow> 'd \<Rightarrow> u8 \<times> u32 \<times> 'd" where
  "program_28xxx fl dw v d =
     (let (b, ttl, d) = program_wait fl dw 0 0xfffff 2 (fl_write_all fl [(dw, 0x40), (dw, v)] d)
      in (b, ttl, fl_write_all fl [(dw, 0x50), (dw, 0xff)] d))"

definition program_29xxx :: "'d flash_port \<Rightarrow> nat \<Rightarrow> u32 \<Rightarrow> u8 \<Rightarrow> 'd \<Rightarrow> 'd option" where
  "program_29xxx fl n dw v d =
     map_option snd
       (wait_toggle_end fl n dw (fl_write_all fl [(0x5555, 0xaa), (0x2aaa, 0x55), (0x5555, 0xa0), (dw, v)] d))"

text \<open>The error event of a byte that should be \<open>v\<close>, at the position \<open>pos\<close>, and the end event.\<close>

definition program_error_events ::
  "'d flash_port \<Rightarrow> 'd OBJECT_FLASH \<Rightarrow> u32 \<Rightarrow> u8 \<Rightarrow> u32 \<Rightarrow> 'd \<Rightarrow> 'd" where
  "program_error_events fl pof pos v dw d =
     (case m_pcallbackFlash pof of
        None \<Rightarrow> d
      | Some cb \<Rightarrow>
          (let (x, d) = fl_read fl dw d;
               (_, d) = cb EE_PROGRAM_ERROR pos (push_bit 8 (ucast v) OR ucast x) d;
               (_, d) = cb EE_PROGRAM_END 0 0 d
           in d))"

definition program_status_error :: "u8 \<Rightarrow> u32 \<Rightarrow> flash_error" where
  "program_status_error b ttl =
     (if b AND 8 \<noteq> 0 then Requires_5V
      else if ttl \<noteq> 0 then Chip_Status_after_Program b else Chip_Status_timed_out b)"

function program_loop ::
  "'d flash_port \<Rightarrow> nat \<Rightarrow> 'd OBJECT_FLASH \<Rightarrow> bytes \<Rightarrow> u32 \<Rightarrow> u32 \<Rightarrow> u32 \<Rightarrow> u32 \<Rightarrow> nat \<Rightarrow> 'd
     \<Rightarrow> (bool \<times> flash_error option \<times> 'd) option" where
  "program_loop fl n pof pba dw dwLen dwSrc dwLast retries d =
     (if dwLen = 0 then Some (True, None, d)
      else
        (let (x, d) = fl_read fl dw d
         in case byte_at pba (unat dwSrc) of
              None \<Rightarrow> None
            | Some v \<Rightarrow>
                if x \<noteq> v
                then
                  (let same = (dwLast = dw);
                       retries' = (if same then retries - 1 else 4);
                       dwLast' = (if same then dwLast else dw)
                   in if same \<and> retries' = 0
                      then (let d = program_error_events fl pof dw v dw d; (x, d) = fl_read fl dw d
                            in Some (False, Some (Program_failed dw v x), d))
                      else if m_fDetectedUsing28xxxConventions pof
                      then (let (b, ttl, d) = program_28xxx fl dw v d
                            in if b AND 0x7e \<noteq> 0 \<or> ttl = 0
                               then Some (False, Some (program_status_error b ttl),
                                          program_error_events fl pof (dw - m_dwStartOffset pof) v dw d)
                               else program_loop fl n pof pba dw dwLen dwSrc dwLast' retries' d)
                      else (case program_29xxx fl n dw v d of
                              None \<Rightarrow> None
                            | Some d \<Rightarrow> program_loop fl n pof pba dw dwLen dwSrc dwLast' retries' d))
                else
                  (let (go, d) = (if dw AND 0x3ff = 0
                                  then notify pof EE_PROGRAM_UPDATE dwSrc (m_dwLengthUsedArea pof) d
                                  else (True, d))
                   in if \<not> go then Some (False, Some Program_Aborted, d)
                      else program_loop fl n pof pba (dw + 1) (dwLen - 1) (dwSrc + 1) dwLast retries d)))"
  by pat_completeness auto

termination
proof (relation "measures [\<lambda>(fl, n, pof, pba, dw, len, src, last, r, d). unat len,
    \<lambda>(fl, n, pof, pba, dw, len, src, last, r, d). if last = dw then r else 5]", goal_cases)
  case 1
  show ?case by simp
qed (auto simp: unat_gt_0 measures_def unat_minus_one split: if_splits)

declare program_loop.simps [simp del]

text \<open>The comparison at the end. Its error event gives the address, and may cut the rest short.\<close>

fun verify_loop :: "'d flash_port \<Rightarrow> 'd OBJECT_FLASH \<Rightarrow> bytes \<Rightarrow> nat \<Rightarrow> u32 \<Rightarrow> u32 \<Rightarrow> 'd \<Rightarrow> (bool \<times> 'd) option" where
  "verify_loop fl pof pba 0 dw dwSrc d = Some (True, d)"
| "verify_loop fl pof pba (Suc len) dw dwSrc d =
     (let (x, d) = fl_read fl dw d
      in case byte_at pba (unat dwSrc) of
           None \<Rightarrow> None
         | Some v \<Rightarrow>
             if x = v then verify_loop fl pof pba len (dw + 1) (dwSrc + 1) d
             else (case m_pcallbackFlash pof of
                     None \<Rightarrow> Some (False, d)
                   | Some cb \<Rightarrow>
                       (let (x, d) = fl_read fl dw d;
                            (go, d) = cb EE_VERIFY_ERROR dw (push_bit 8 (ucast v) OR ucast x) d
                        in if go then Some (False, snd (cb EE_VERIFY_END 0 0 d)) else Some (False, d))))"

text \<open>Verification has no error text of its own; a callback that declines ends it with false.\<close>

definition BootFlashVerify :: "'d flash_port \<Rightarrow> 'd OBJECT_FLASH \<Rightarrow> bytes \<Rightarrow> 'd \<Rightarrow> (bool \<times> 'd) option" where
  "BootFlashVerify fl pof pba d =
     (let (go, d) = notify pof EE_PROGRAM_END 0 0 d
      in if \<not> go then Some (False, d)
         else (let (go, d) = notify pof EE_VERIFY_START 0 0 d
               in if \<not> go then Some (False, d)
                  else do {
                    (ok, d) \<leftarrow> verify_loop fl pof pba (unat (m_dwLengthUsedArea pof)) (m_dwStartOffset pof) 0 d;
                    if \<not> ok then Some (False, d) else Some (notify pof EE_VERIFY_END 0 0 d) }))"

definition BootFlashProgram ::
  "'d flash_port \<Rightarrow> nat \<Rightarrow> 'd OBJECT_FLASH \<Rightarrow> bytes \<Rightarrow> 'd \<Rightarrow> (bool \<times> 'd OBJECT_FLASH \<times> 'd) option" where
  "BootFlashProgram fl n pof pba d = do {
     let pof = pof\<lparr>m_szAdditionalErrorInfo := None\<rparr>;
     let (go, d) = notify pof EE_PROGRAM_START 0 0 d;
     if \<not> go then Some (False, pof\<lparr>m_szAdditionalErrorInfo := Some Program_Aborted\<rparr>, d)
     else do {
       (ok, err, d) \<leftarrow> program_loop fl n pof pba (m_dwStartOffset pof) (m_dwLengthUsedArea pof) 0 0xffffffff 4 d;
       if \<not> ok then Some (False, pof\<lparr>m_szAdditionalErrorInfo := err\<rparr>, d)
       else do {
         (ok, d) \<leftarrow> BootFlashVerify fl pof pba d;
         Some (ok, pof, d) } } }"

section \<open>The user interface\<close>

text \<open>\<open>BootFlashUserInterface\<close> shows the two update events as a bar of a colour, by \<open>bar\<close>.\<close>

definition BootFlashUserInterface :: "(u32 \<Rightarrow> u32 \<Rightarrow> u32 \<Rightarrow> 'd \<Rightarrow> 'd) \<Rightarrow> 'd flash_callback" where
  "BootFlashUserInterface bar ee dwPos dwExtent d =
     (True, if ee = EE_ERASE_UPDATE then bar dwPos dwExtent 0xffffff00 d
            else if ee = EE_PROGRAM_UPDATE then bar dwPos dwExtent 0xff00ff00 d
            else d)"

text \<open>The end of \<open>BootReflashAndReset\<close>: a value that it returns, or one of its three endless loops.\<close>

datatype reflash_end = Refused int | Resetting | Programming_failed | Erasing_failed

definition BootReflashAndReset ::
  "'d flash_port \<Rightarrow> 'd ports \<Rightarrow> (u32 \<Rightarrow> u32 \<Rightarrow> u32 \<Rightarrow> 'd \<Rightarrow> 'd) \<Rightarrow> nat \<Rightarrow> 'd OBJECT_FLASH
     \<Rightarrow> bytes \<Rightarrow> u32 \<Rightarrow> u32 \<Rightarrow> 'd \<Rightarrow> (reflash_end \<times> 'd) option" where
  "BootReflashAndReset fl io bar n pof pbNewData dwStartOffset dwLength d = do {
     let pof = pof\<lparr>m_dwStartOffset := dwStartOffset, m_dwLengthUsedArea := dwLength,
                   m_pcallbackFlash := Some (BootFlashUserInterface bar)\<rparr>;
     (ok, pof, d) \<leftarrow> BootFlashGetDescriptor fl aknownflashtypesDefault pof d;
     if \<not> ok then Some (Refused 1, d)
     else if \<not> m_fIsBelievedCapableOfWriteAndErase pof then Some (Refused 2, d)
     else if m_dwLengthInBytes pof < dwStartOffset + dwLength then Some (Refused 3, d)
     else do {
       (ok, pof, d) \<leftarrow> BootFlashEraseMinimalRegion fl n pof d;
       if \<not> ok then Some (Erasing_failed, d)
       else do {
         (ok, pof, d) \<leftarrow> BootFlashProgram fl n pof pbNewData d;
         if \<not> ok then Some (Programming_failed, d)
         else do {
           d \<leftarrow> setLED io n inputLED d;
           d \<leftarrow> I2CRebootSlow io n d;
           Some (Resetting, d) } } } }"

end
