(* ===== verification/FlashChip.thy ===== *)
theory FlashChip
  imports Flash
begin

text \<open>
  What reflashing does to the chip. The locale \<open>flash_device\<close> is the contract of a chip under the
  command sequences of \<open>BootFlash.c\<close>: contents \<open>mem\<close>, a sector number \<open>sec\<close> per address, a sector
  erase that fills with 0xff and a byte program that clears bits. The erase and program loops are
  verified once against it, with the effect stated as a function on the contents.

  Two reference chips provide it at the level of bus cycles: a command state machine of the 29xxx
  family with its toggling status bit, and one of the 28xxx family with its status register.
\<close>

section \<open>The effect on the contents\<close>

type_synonym contents = "u32 \<Rightarrow> u8"

definition flash_region :: "u32 \<Rightarrow> nat \<Rightarrow> u32 set" where
  "flash_region dw k = (\<lambda>i. dw + of_nat i) ` {..<k}"

text \<open>The sectors in which the region has a byte that is not blank are erased, and only these.\<close>

definition erased_map :: "(u32 \<Rightarrow> u32) \<Rightarrow> u32 set \<Rightarrow> contents \<Rightarrow> contents" where
  "erased_map sec R m = (\<lambda>a. if \<exists>b\<in>R. sec a = sec b \<and> m b \<noteq> 0xff then 0xff else m a)"

fun written_map :: "u32 \<Rightarrow> bytes \<Rightarrow> contents \<Rightarrow> contents" where
  "written_map dw [] m = m"
| "written_map dw (v # vs) m = written_map (dw + 1) vs (m(dw := v))"

lemma flash_region_0 [simp]: "flash_region dw 0 = {}"
  by (simp add: flash_region_def)

lemma flash_region_Suc: "flash_region dw (Suc k) = insert dw (flash_region (dw + 1) k)"
  by (simp add: flash_region_def lessThan_Suc_eq_insert_0 image_image add.assoc)

lemma erased_map_blank:
  "m dw = 0xff \<Longrightarrow> erased_map sec (insert dw R) m = erased_map sec R m"
  by (auto simp: erased_map_def)

lemma erased_map_sector:
  "m dw \<noteq> 0xff \<Longrightarrow>
   erased_map sec (insert dw R) m = erased_map sec R (\<lambda>a. if sec a = sec dw then 0xff else m a)"
  by (fastforce simp: erased_map_def)

lemma erased_map_region: "a \<in> R \<Longrightarrow> erased_map sec R m a = 0xff"
  by (auto simp: erased_map_def)

lemma erased_map_other: "\<forall>b\<in>R. sec b \<noteq> sec a \<Longrightarrow> erased_map sec R m a = m a"
  by (force simp: erased_map_def)

lemma written_map_before:
  "unat dw + length vs \<le> 2 ^ 32 \<Longrightarrow> a < dw \<Longrightarrow> written_map dw vs m a = m a"
proof (induction vs arbitrary: dw m)
  case (Cons v vs)
  show ?case
  proof (cases "vs = []")
    case False
    with Cons.prems have "unat dw + 1 < 2 ^ 32" by (cases vs) simp_all
    then have "unat (dw + 1) = unat dw + 1" by (simp add: unat_word_ariths)
    with Cons show ?thesis by (auto simp: word_less_nat_alt)
  qed (use Cons.prems in auto)
qed simp

lemma next_address:
  "unat dw + length (v # vs) \<le> 2 ^ 32 \<Longrightarrow> vs \<noteq> [] \<Longrightarrow> dw < dw + 1 \<and> unat (dw + 1) = unat dw + 1"
  for dw :: u32
  by (cases vs) (auto simp: word_less_nat_alt unat_word_ariths)

lemma written_map_at:
  "unat dw + length vs \<le> 2 ^ 32 \<Longrightarrow> i < length vs \<Longrightarrow> written_map dw vs m (dw + of_nat i) = vs ! i"
proof (induction vs arbitrary: dw m i)
  case (Cons v vs)
  show ?case
  proof (cases i)
    case 0
    show ?thesis
    proof (cases "vs = []")
      case False
      from next_address [OF Cons.prems(1) False] Cons.prems(1) 0 show ?thesis by (simp add: written_map_before)
    qed (simp add: 0)
  next
    case (Suc j)
    with Cons.prems have ne: "vs \<noteq> []" by auto
    from next_address [OF Cons.prems(1) ne] Cons.prems Suc
    have "written_map (dw + 1) vs (m(dw := v)) (dw + 1 + of_nat j) = vs ! j" by (intro Cons.IH) auto
    then show ?thesis by (simp add: Suc add.assoc)
  qed
qed simp

lemma written_map_other: "a \<notin> flash_region dw (length vs) \<Longrightarrow> written_map dw vs m a = m a"
  by (induction vs arbitrary: dw m) (auto simp: flash_region_Suc)

text \<open>Programming can only clear bits: what can be written over the contents, and what is stored.\<close>

fun writable :: "u32 \<Rightarrow> bytes \<Rightarrow> contents \<Rightarrow> bool" where
  "writable dw [] m = True"
| "writable dw (v # vs) m \<longleftrightarrow> m dw AND v = v \<and> writable (dw + 1) vs m"

fun stored :: "u32 \<Rightarrow> bytes \<Rightarrow> contents \<Rightarrow> bool" where
  "stored dw [] m = True"
| "stored dw (v # vs) m \<longleftrightarrow> m dw = v \<and> stored (dw + 1) vs m"

lemma writable_before:
  "unat dw + length vs \<le> 2 ^ 32 \<Longrightarrow> a < dw \<Longrightarrow> writable dw vs (m(a := x)) = writable dw vs m"
proof (induction vs arbitrary: dw)
  case (Cons v vs)
  show ?case
  proof (cases "vs = []")
    case False
    from next_address [OF Cons.prems(1) False] Cons show ?thesis by auto
  qed (use Cons.prems in auto)
qed simp

lemma stored_written: "unat dw + length vs \<le> 2 ^ 32 \<Longrightarrow> stored dw vs (written_map dw vs m)"
proof (induction vs arbitrary: dw m)
  case (Cons v vs)
  show ?case
  proof (cases "vs = []")
    case False
    from next_address [OF Cons.prems False] Cons.prems have "unat (dw + 1) + length vs \<le> 2 ^ 32" "dw < dw + 1"
      by auto
    with Cons.IH show ?thesis by (simp add: written_map_before)
  qed simp
qed simp

lemma writable_blank: "\<forall>a\<in>flash_region dw (length vs). m a = 0xff \<Longrightarrow> writable dw vs m"
proof (induction vs arbitrary: dw)
  case (Cons v vs)
  have "0xff AND v = v" by (rule all_u8 [of _ v]) code_simp
  with Cons show ?case by (simp add: flash_region_Suc)
qed simp

text \<open>What the update leaves, byte by byte.\<close>

lemma updated_contents:
  assumes m: "m' = written_map off (take (unat len) pba) (erased_map sc (flash_region off (unat len)) m)"
    and pba: "unat len \<le> length pba" and fits: "unat off + unat len \<le> 2 ^ 32"
  shows "\<forall>i < unat len. m' (off + of_nat i) = pba ! i"
    and "\<forall>a. (\<forall>b\<in>flash_region off (unat len). sc b \<noteq> sc a) \<longrightarrow> m' a = m a"
proof -
  let ?vs = "take (unat len) pba"
  have l: "length ?vs = unat len" using pba by simp
  have fit: "unat off + length ?vs \<le> 2 ^ 32" using fits l by simp
  show "\<forall>i < unat len. m' (off + of_nat i) = pba ! i"
    using written_map_at [OF fit, of _ "erased_map sc (flash_region off (unat len)) m"] l by (simp add: m)
  show "\<forall>a. (\<forall>b\<in>flash_region off (unat len). sc b \<noteq> sc a) \<longrightarrow> m' a = m a"
  proof (intro allI impI)
    fix a assume other: "\<forall>b\<in>flash_region off (unat len). sc b \<noteq> sc a"
    then have "a \<notin> flash_region off (length ?vs)" using l by auto
    then show "m' a = m a" by (simp add: m written_map_other erased_map_other [OF other])
  qed
qed

section \<open>The contract of a chip\<close>

locale flash_device =
  fixes fl :: "'d flash_port"
    and fuel :: nat
    and is_28xxx :: bool
    and mem :: "'d \<Rightarrow> contents"
    and ready :: "'d \<Rightarrow> bool"
    and sec :: "'d \<Rightarrow> u32 \<Rightarrow> u32"
  assumes read_ready: "ready d \<Longrightarrow> fl_read fl a d = (mem d a, d)"
    and sec_4K: "ready d \<Longrightarrow> same_4K a b \<Longrightarrow> sec d a = sec d b"
    and erase_29: "ready d \<Longrightarrow> \<not> is_28xxx \<Longrightarrow> \<exists>d'. erase_29xxx fl fuel pof r dw d = Some d' \<and> ready d'
          \<and> sec d' = sec d \<and> mem d' = (\<lambda>a. if sec d a = sec d dw then 0xff else mem d a)"
    and erase_28: "ready d \<Longrightarrow> is_28xxx \<Longrightarrow> \<exists>b d'. erase_28xxx fl fuel dw d = Some (b, d') \<and> b AND 0x7e = 0
          \<and> ready d' \<and> sec d' = sec d \<and> mem d' = (\<lambda>a. if sec d a = sec d dw then 0xff else mem d a)"
    and program_29: "ready d \<Longrightarrow> \<not> is_28xxx \<Longrightarrow> \<exists>d'. program_29xxx fl fuel dw v d = Some d' \<and> ready d'
          \<and> sec d' = sec d \<and> mem d' = (mem d)(dw := mem d dw AND v)"
    and program_28: "ready d \<Longrightarrow> is_28xxx \<Longrightarrow> \<exists>b t d'. program_28xxx fl dw v d = (b, t, d') \<and> b AND 0x7e = 0
          \<and> t \<noteq> 0 \<and> ready d' \<and> sec d' = sec d \<and> mem d' = (mem d)(dw := mem d dw AND v)"
begin

text \<open>A callback that goes on and leaves the chip alone.\<close>

definition quiet :: "'d OBJECT_FLASH \<Rightarrow> bool" where
  "quiet pof \<longleftrightarrow> (\<forall>ee p e d. ready d \<longrightarrow>
     (\<exists>d'. notify pof ee p e d = (True, d') \<and> ready d' \<and> mem d' = mem d \<and> sec d' = sec d))"

lemma quiet_notify:
  assumes "quiet pof" "ready d"
  obtains d' where "notify pof ee p e d = (True, d')" "ready d'" "mem d' = mem d" "sec d' = sec d"
  using assms unfolding quiet_def by blast

lemma quiet_error: "quiet (pof\<lparr>m_szAdditionalErrorInfo := e\<rparr>) \<longleftrightarrow> quiet pof"
  by (simp add: quiet_def notify_def)

text \<open>One blank byte is passed.\<close>

lemma erase_loop_blank:
  assumes "quiet pof" "ready d" "len \<noteq> 0" "mem d dw = 0xff"
  obtains d' where "ready d'" "mem d' = mem d" "sec d' = sec d"
    and "erase_loop fl fuel pof dw len last' r d = erase_loop fl fuel pof (dw + 1) (len - 1) last' r d'"
proof (cases "dw AND 0x3ff = 0")
  case True
  obtain d' where d': "notify pof EE_ERASE_UPDATE (dw - m_dwStartOffset pof) (m_dwLengthUsedArea pof) d = (True, d')"
    "ready d'" "mem d' = mem d" "sec d' = sec d"
    using quiet_notify [OF assms(1,2)] by blast
  show ?thesis
    by (rule that [OF d'(2-4)], subst erase_loop.simps) (simp add: True assms(3,4) d'(1) read_ready [OF assms(2)])
next
  case False
  show ?thesis
    by (rule that [OF assms(2) refl refl], subst erase_loop.simps)
      (simp add: False assms(3,4) read_ready [OF assms(2)])
qed

text \<open>A byte that is not blank has its sector erased, and does not fail: the retries of its block
  have not been used on blank bytes.\<close>

definition retries_left :: "u32 \<Rightarrow> nat \<Rightarrow> 'd \<Rightarrow> bool" where
  "retries_left last' r d \<longleftrightarrow> 2 \<le> r \<or> (\<forall>a. same_4K last' a \<longrightarrow> mem d a = 0xff)"

lemma erase_loop_sector:
  assumes r: "ready d" and len: "len \<noteq> 0" and dirty: "mem d dw \<noteq> 0xff"
    and conv: "m_fDetectedUsing28xxxConventions pof = is_28xxx" and left: "retries_left last' r d"
  obtains d' l r' where "ready d'" "sec d' = sec d"
    and "mem d' = (\<lambda>a. if sec d a = sec d dw then 0xff else mem d a)" "retries_left l r' d'"
    and "erase_loop fl fuel pof dw len last' r d = erase_loop fl fuel pof dw len l r' d'"
proof -
  define l where "l = (if same_4K last' dw then last' else dw)"
  define r' where "r' = (if same_4K last' dw then r - 1 else MAX_ERASE_RETRIES)"
  have go: "\<not> (same_4K last' dw \<and> r' = 0)"
    using left dirty by (auto simp: retries_left_def r'_def)
  have l: "same_4K l dw" by (simp add: l_def same_4K_def)
  obtain d' where d': "ready d'" "sec d' = sec d"
    and m: "mem d' = (\<lambda>a. if sec d a = sec d dw then 0xff else mem d a)"
    and step: "erase_loop fl fuel pof dw len last' r d = erase_loop fl fuel pof dw len l r' d'"
  proof (cases is_28xxx)
    case True
    obtain b d' where e: "erase_28xxx fl fuel dw d = Some (b, d')" "b AND 0x7e = 0" "ready d'" "sec d' = sec d"
      "mem d' = (\<lambda>a. if sec d a = sec d dw then 0xff else mem d a)"
      using erase_28 [OF r True] by blast
    show ?thesis
      by (rule that [OF e(3-5)], subst erase_loop.simps)
        (use go in \<open>auto simp: len dirty conv True e(1,2) read_ready [OF r] Let_def l_def r'_def\<close>)
  next
    case False
    obtain d' where e: "erase_29xxx fl fuel pof r' dw d = Some d'" "ready d'" "sec d' = sec d"
      "mem d' = (\<lambda>a. if sec d a = sec d dw then 0xff else mem d a)"
      using erase_29 [OF r False] by blast
    show ?thesis
      by (rule that [OF e(2-4)], subst erase_loop.simps)
        (use go e(1) in \<open>auto simp: len dirty conv False read_ready [OF r] Let_def l_def r'_def\<close>)
  qed
  have "mem d' a = 0xff" if "same_4K l a" for a
  proof -
    have "same_4K a dw" using that l by (simp add: same_4K_def)
    then show ?thesis by (simp add: m sec_4K [OF r])
  qed
  then have "retries_left l r' d'" by (simp add: retries_left_def)
  with d' m step show thesis by (intro that)
qed

lemma erase_loop_erases:
  assumes "quiet pof" "m_fDetectedUsing28xxxConventions pof = is_28xxx"
  shows "ready d \<Longrightarrow> retries_left last' r d \<Longrightarrow>
    \<exists>d'. erase_loop fl fuel pof dw len last' r d = Some (True, None, d') \<and> ready d' \<and> sec d' = sec d
       \<and> mem d' = erased_map (sec d) (flash_region dw (unat len)) (mem d)"
proof (induction "unat len" arbitrary: dw len last' r d)
  case 0
  then show ?case by (subst erase_loop.simps) (auto simp: unat_eq_zero erased_map_def)
next
  case (Suc k)
  have len: "len \<noteq> 0" using Suc.hyps(2) by auto
  have k: "k = unat (len - 1)" using Suc.hyps(2) len by (simp add: unat_minus_one)
  have blank: "\<exists>d'. erase_loop fl fuel pof dw len l s e = Some (True, None, d') \<and> ready d' \<and> sec d' = sec e
       \<and> mem d' = erased_map (sec e) (flash_region (dw + 1) k) (mem e)"
    if e: "ready e" "mem e dw = 0xff" "retries_left l s e" for e l s
  proof -
    obtain f where f: "ready f" "mem f = mem e" "sec f = sec e"
      "erase_loop fl fuel pof dw len l s e = erase_loop fl fuel pof (dw + 1) (len - 1) l s f"
      using erase_loop_blank [OF assms(1) e(1) len e(2)] by blast
    have "retries_left l s f" using e(3) f(2) by (simp add: retries_left_def)
    from Suc.hyps(1) [OF k f(1) this, of "dw + 1"] show ?thesis using f(2-4) k by simp
  qed
  show ?case
  proof (cases "mem d dw = 0xff")
    case True
    from blank [OF Suc.prems(1) True Suc.prems(2)] show ?thesis
      by (simp add: Suc.hyps(2) [symmetric] flash_region_Suc erased_map_blank [of "mem d" dw, OF True])
  next
    case False
    obtain e l s where e: "ready e" "sec e = sec d" "mem e = (\<lambda>a. if sec d a = sec d dw then 0xff else mem d a)"
      "retries_left l s e" "erase_loop fl fuel pof dw len last' r d = erase_loop fl fuel pof dw len l s e"
      using erase_loop_sector [OF Suc.prems(1) len False assms(2) Suc.prems(2)] by blast
    have "mem e dw = 0xff" by (simp add: e(3))
    from blank [OF e(1) this e(4)] show ?thesis
      by (simp add: Suc.hyps(2) [symmetric] flash_region_Suc erased_map_sector [of "mem d" dw, OF False] e(2,3,5))
  qed
qed

lemma BootFlashEraseMinimalRegion_erases:
  assumes q: "quiet pof" and conv: "m_fDetectedUsing28xxxConventions pof = is_28xxx" and r: "ready d"
  shows "\<exists>d'. BootFlashEraseMinimalRegion fl fuel pof d = Some (True, pof\<lparr>m_szAdditionalErrorInfo := None\<rparr>, d')
    \<and> ready d' \<and> sec d' = sec d
    \<and> mem d' = erased_map (sec d) (flash_region (m_dwStartOffset pof) (unat (m_dwLengthUsedArea pof))) (mem d)"
proof -
  let ?p = "pof\<lparr>m_szAdditionalErrorInfo := None\<rparr>"
  have q': "quiet ?p" using q by (simp add: quiet_error)
  obtain d1 where d1: "notify ?p EE_ERASE_START 0 0 d = (True, d1)" "ready d1" "mem d1 = mem d" "sec d1 = sec d"
    using quiet_notify [OF q' r] by blast
  have "retries_left 0xffffffff MAX_ERASE_RETRIES d1" by (simp add: retries_left_def)
  from erase_loop_erases [OF q' _ d1(2) this, of "m_dwStartOffset ?p" "m_dwLengthUsedArea ?p"] conv
  obtain d2 where d2: "erase_loop fl fuel ?p (m_dwStartOffset ?p) (m_dwLengthUsedArea ?p) 0xffffffff
      MAX_ERASE_RETRIES d1 = Some (True, None, d2)" "ready d2" "sec d2 = sec d1"
    "mem d2 = erased_map (sec d1) (flash_region (m_dwStartOffset ?p) (unat (m_dwLengthUsedArea ?p))) (mem d1)"
    by auto
  obtain d3 where d3: "notify ?p EE_ERASE_END 0 0 d2 = (True, d3)" "ready d3" "mem d3 = mem d2" "sec d3 = sec d2"
    using quiet_notify [OF q' d2(2)] by blast
  show ?thesis
    using d1 d2 d3 by (simp add: BootFlashEraseMinimalRegion_def Let_def)
qed

text \<open>Programming: a byte that is there already is passed.\<close>

lemma program_loop_same:
  assumes "quiet pof" "ready d" "len \<noteq> 0" "byte_at pba (unat src) = Some (mem d dw)"
  obtains d' where "ready d'" "mem d' = mem d" "sec d' = sec d"
    and "program_loop fl fuel pof pba dw len src last' r d =
         program_loop fl fuel pof pba (dw + 1) (len - 1) (src + 1) last' r d'"
proof (cases "dw AND 0x3ff = 0")
  case True
  obtain d' where d': "notify pof EE_PROGRAM_UPDATE src (m_dwLengthUsedArea pof) d = (True, d')"
    "ready d'" "mem d' = mem d" "sec d' = sec d"
    using quiet_notify [OF assms(1,2)] by blast
  show ?thesis
    by (rule that [OF d'(2-4)], subst program_loop.simps) (simp add: True assms(3,4) d'(1) read_ready [OF assms(2)])
next
  case False
  show ?thesis
    by (rule that [OF assms(2) refl refl], subst program_loop.simps)
      (simp add: False assms(3,4) read_ready [OF assms(2)])
qed

lemma program_loop_attempt:
  assumes r: "ready d" and len: "len \<noteq> 0" and v: "byte_at pba (unat src) = Some v" "mem d dw \<noteq> v"
    and conv: "m_fDetectedUsing28xxxConventions pof = is_28xxx" and left: "last' = dw \<longrightarrow> 2 \<le> k"
  shows "\<exists>d'. ready d' \<and> sec d' = sec d \<and> mem d' = (mem d)(dw := mem d dw AND v)
    \<and> program_loop fl fuel pof pba dw len src last' k d =
        program_loop fl fuel pof pba dw len src dw (if last' = dw then k - 1 else 4) d'"
proof (cases is_28xxx)
  case True
  obtain b t d' where e: "program_28xxx fl dw v d = (b, t, d')" "b AND 0x7e = 0" "t \<noteq> 0" "ready d'" "sec d' = sec d"
    "mem d' = (mem d)(dw := mem d dw AND v)"
    using program_28 [OF r True] by blast
  show ?thesis
    by (intro exI [of _ d'] conjI e(4-6), subst program_loop.simps)
      (use left in \<open>auto simp: len v conv True e(1-3) read_ready [OF r] Let_def\<close>)
next
  case False
  obtain d' where e: "program_29xxx fl fuel dw v d = Some d'" "ready d'" "sec d' = sec d"
    "mem d' = (mem d)(dw := mem d dw AND v)"
    using program_29 [OF r False] by blast
  show ?thesis
    by (intro exI [of _ d'] conjI e(2-4), subst program_loop.simps)
      (use left e(1) in \<open>auto simp: len v conv False read_ready [OF r] Let_def\<close>)
qed

lemma program_loop_writes:
  assumes q: "quiet pof" and conv: "m_fDetectedUsing28xxxConventions pof = is_28xxx"
  shows "ready d \<Longrightarrow> drop (unat src) pba = vs @ rest \<Longrightarrow> length vs = unat len \<Longrightarrow> writable dw vs (mem d) \<Longrightarrow>
    unat dw + length vs \<le> 2 ^ 32 \<Longrightarrow> unat src + length vs \<le> 2 ^ 32 \<Longrightarrow> 2 \<le> k \<or> last' < dw \<Longrightarrow>
    \<exists>d'. program_loop fl fuel pof pba dw len src last' k d = Some (True, None, d') \<and> ready d' \<and> sec d' = sec d
       \<and> mem d' = written_map dw vs (mem d)"
proof (induction vs arbitrary: dw len src last' k d)
  case Nil
  then show ?case by (subst program_loop.simps) (auto simp: unat_eq_zero [symmetric] simp del: unat_eq_zero)
next
  case (Cons v vs)
  have len0: "len \<noteq> 0" using Cons.prems(3) by auto
  then have len: "len \<noteq> 0" "length vs = unat (len - 1)" using Cons.prems(3) by (simp_all add: unat_minus_one)
  have v: "byte_at pba (unat src) = Some v"
    using Cons.prems(2) by (metis byte_at_def drop_all list.distinct(1) not_le nth_via_drop append_Cons)
  have tl: "drop (Suc (unat src)) pba = vs @ rest" using Cons.prems(2) by (metis append_Cons drop_Suc list.sel(3) tl_drop)
  have step: "\<exists>d'. program_loop fl fuel pof pba dw len src l j e = Some (True, None, d') \<and> ready d' \<and> sec d' = sec e
       \<and> mem d' = written_map (dw + 1) vs (mem e)"
    if e: "ready e" "mem e = (mem d)(dw := v)" "2 \<le> j \<or> l \<le> dw" for e l j
  proof -
    have "byte_at pba (unat src) = Some (mem e dw)" by (simp add: v e(2))
    then obtain f where f: "ready f" "mem f = mem e" "sec f = sec e"
      "program_loop fl fuel pof pba dw len src l j e = program_loop fl fuel pof pba (dw + 1) (len - 1) (src + 1) l j f"
      using program_loop_same [OF q e(1) len(1)] by metis
    show ?thesis
    proof (cases "vs = []")
      case True
      with len have "len - 1 = 0" by (simp add: unat_eq_zero [symmetric] del: unat_eq_zero)
      then show ?thesis using f True by (subst (asm) (2) program_loop.simps) auto
    next
      case False
      have dw: "dw < dw + 1" "unat (dw + 1) = unat dw + 1"
        using next_address [OF Cons.prems(5) False] by auto
      have src: "unat (src + 1) = unat src + 1" using next_address [of src v vs] Cons.prems(6) False by auto
      have "writable (dw + 1) vs (mem f)"
        using Cons.prems(4,5) dw by (simp add: f(2) e(2) writable_before)
      moreover have "2 \<le> j \<or> l < dw + 1" using e(3) dw(1) by auto
      ultimately show ?thesis
        using Cons.IH [OF f(1), of "src + 1" "len - 1" "dw + 1" j l] f(2-4) tl len(2) src dw Cons.prems(5,6) by simp
    qed
  qed
  show ?case
  proof (cases "mem d dw = v")
    case True
    then have same: "mem d = (mem d)(dw := v)" by auto
    have "2 \<le> k \<or> last' \<le> dw" using Cons.prems(7) by auto
    from step [OF Cons.prems(1) same this] same show ?thesis by auto
  next
    case False
    obtain e j where e: "ready e" "sec e = sec d" "mem e = (mem d)(dw := v)"
      "program_loop fl fuel pof pba dw len src last' k d = program_loop fl fuel pof pba dw len src dw j e"
      using program_loop_attempt [OF Cons.prems(1) len(1) v False conv, of last' k] Cons.prems(4,7)
      by (cases "last' = dw") auto
    from step [OF e(1,3), of j dw] e show ?thesis by auto
  qed
qed

text \<open>A byte that programming cannot reach uses up its retries.\<close>

lemma program_loop_stuck:
  assumes conv: "m_fDetectedUsing28xxxConventions pof = is_28xxx" and len: "len \<noteq> 0"
    and v: "byte_at pba (unat src) = Some v" and cb: "m_pcallbackFlash pof = None"
  shows "ready d \<Longrightarrow> mem d dw AND v = x \<Longrightarrow> x \<noteq> v \<Longrightarrow> mem d dw = x \<Longrightarrow>
    \<exists>d'. program_loop fl fuel pof pba dw len src dw (Suc k) d = Some (False, Some (Program_failed dw v x), d')"
proof (induction k arbitrary: d)
  case 0
  then show ?case
    by (subst program_loop.simps) (simp add: len v program_error_events_def cb read_ready)
next
  case (Suc k)
  have "mem d dw \<noteq> v" using Suc.prems(3,4) by simp
  from program_loop_attempt [OF Suc.prems(1) len v this conv, of dw "Suc (Suc k)"]
  obtain e where e: "ready e" "mem e = (mem d)(dw := mem d dw AND v)"
    "program_loop fl fuel pof pba dw len src dw (Suc (Suc k)) d = program_loop fl fuel pof pba dw len src dw (Suc k) e"
    by auto
  have "mem e dw AND v = x" "mem e dw = x" using Suc.prems(2,4) by (simp_all add: e(2))
  from Suc.IH [OF e(1) this(1) Suc.prems(3) this(2)] e(3) show ?case by simp
qed

lemma program_loop_stuck_first:
  assumes r: "ready d" and len: "len \<noteq> 0" and v: "byte_at pba (unat src) = Some v"
    and bits: "mem d dw AND v \<noteq> v"
    and conv: "m_fDetectedUsing28xxxConventions pof = is_28xxx" and cb: "m_pcallbackFlash pof = None"
  shows "\<exists>d'. program_loop fl fuel pof pba dw len src last' 4 d =
    Some (False, Some (Program_failed dw v (mem d dw AND v)), d')"
proof -
  define j where "j = (if last' = dw then 2 else 3 :: nat)"
  have "mem d dw \<noteq> v" using bits by auto
  from program_loop_attempt [OF r len v this conv, of last' 4]
  obtain e where e: "ready e" "mem e = (mem d)(dw := mem d dw AND v)"
    "program_loop fl fuel pof pba dw len src last' 4 d =
     program_loop fl fuel pof pba dw len src dw (if last' = dw then 4 - 1 else 4) e"
    by auto
  have j: "(if last' = dw then 4 - 1 else 4) = Suc j" by (simp add: j_def)
  have "mem e dw AND v = mem d dw AND v" "mem e dw = mem d dw AND v" by (simp_all add: e(2) and.assoc)
  from program_loop_stuck [OF conv len v cb e(1) this(1) bits this(2), of j] e(3) [unfolded j] show ?thesis by simp
qed

lemma verify_loop_stored:
  "ready d \<Longrightarrow> drop (unat src) pba = vs @ rest \<Longrightarrow> stored dw vs (mem d) \<Longrightarrow> unat src + length vs \<le> 2 ^ 32 \<Longrightarrow>
   verify_loop fl pof pba (length vs) dw src d = Some (True, d)"
proof (induction vs arbitrary: dw src)
  case (Cons v vs)
  have v: "byte_at pba (unat src) = Some v"
    using Cons.prems(2) by (metis byte_at_def drop_all list.distinct(1) not_le nth_via_drop append_Cons)
  have tl: "drop (Suc (unat src)) pba = vs @ rest" using Cons.prems(2) by (metis append_Cons drop_Suc list.sel(3) tl_drop)
  show ?case
  proof (cases "vs = []")
    case True
    then show ?thesis using Cons.prems(3) by (simp add: read_ready [OF Cons.prems(1)] v)
  next
    case False
    have "unat (src + 1) = unat src + 1" using next_address [of src v vs] Cons.prems(4) False by auto
    then show ?thesis using Cons tl by (simp add: read_ready [OF Cons.prems(1)] v)
  qed
qed simp

lemma BootFlashProgram_writes:
  assumes q: "quiet pof" and conv: "m_fDetectedUsing28xxxConventions pof = is_28xxx" and r: "ready d"
    and vs: "vs = take (unat (m_dwLengthUsedArea pof)) pba" "unat (m_dwLengthUsedArea pof) \<le> length pba"
    and fits: "unat (m_dwStartOffset pof) + length vs \<le> 2 ^ 32" and w: "writable (m_dwStartOffset pof) vs (mem d)"
  shows "\<exists>d'. BootFlashProgram fl fuel pof pba d = Some (True, pof\<lparr>m_szAdditionalErrorInfo := None\<rparr>, d')
    \<and> ready d' \<and> sec d' = sec d \<and> mem d' = written_map (m_dwStartOffset pof) vs (mem d)"
proof -
  let ?p = "pof\<lparr>m_szAdditionalErrorInfo := None\<rparr>"
  have q': "quiet ?p" using q by (simp add: quiet_error)
  have pba: "drop (unat (0::u32)) pba = vs @ drop (unat (m_dwLengthUsedArea pof)) pba"
    and len: "length vs = unat (m_dwLengthUsedArea pof)" using vs by simp_all
  have small: "unat (0::u32) + length vs \<le> 2 ^ 32" using unat_lt_u32 [of "m_dwLengthUsedArea pof"] len by simp
  obtain d1 where d1: "notify ?p EE_PROGRAM_START 0 0 d = (True, d1)" "ready d1" "mem d1 = mem d" "sec d1 = sec d"
    using quiet_notify [OF q' r] by blast
  from program_loop_writes [OF q' _ d1(2) pba len _ fits small, of 4 "0xffffffff"] conv w d1(3)
  obtain d2 where d2: "program_loop fl fuel ?p pba (m_dwStartOffset pof) (m_dwLengthUsedArea pof) 0 0xffffffff 4 d1
      = Some (True, None, d2)" "ready d2" "sec d2 = sec d1" "mem d2 = written_map (m_dwStartOffset pof) vs (mem d)"
    by auto
  obtain d3 where d3: "notify ?p EE_PROGRAM_END 0 0 d2 = (True, d3)" "ready d3" "mem d3 = mem d2" "sec d3 = sec d2"
    using quiet_notify [OF q' d2(2)] by blast
  obtain d4 where d4: "notify ?p EE_VERIFY_START 0 0 d3 = (True, d4)" "ready d4" "mem d4 = mem d3" "sec d4 = sec d3"
    using quiet_notify [OF q' d3(2)] by blast
  obtain d5 where d5: "notify ?p EE_VERIFY_END 0 0 d4 = (True, d5)" "ready d5" "mem d5 = mem d4" "sec d5 = sec d4"
    using quiet_notify [OF q' d4(2)] by blast
  have "stored (m_dwStartOffset pof) vs (mem d4)" by (simp add: d4(3) d3(3) d2(4) stored_written [OF fits])
  from verify_loop_stored [OF d4(2) pba this small, of ?p] len
  have verify: "verify_loop fl ?p pba (unat (m_dwLengthUsedArea pof)) (m_dwStartOffset pof) 0 d4 = Some (True, d4)"
    by simp
  have "BootFlashProgram fl fuel pof pba d = Some (True, ?p, d5)"
    using d1(1) d2(1) d3(1) d4(1) d5(1) verify by (simp add: BootFlashProgram_def BootFlashVerify_def Let_def)
  then show ?thesis using d1 d2 d3 d4 d5 by simp
qed

text \<open>The update, once the chip is identified and the area fits.\<close>

lemma BootReflashAndReset_updates:
  assumes r: "ready d"
    and p1: "BootFlashGetDescriptor fl aknownflashtypesDefault (pof\<lparr>m_dwStartOffset := off, m_dwLengthUsedArea := len,
      m_pcallbackFlash := Some (BootFlashUserInterface bar)\<rparr>) d = Some (True, p1, d)"
    and same: "m_dwStartOffset p1 = off" "m_dwLengthUsedArea p1 = len"
    and conv: "m_fDetectedUsing28xxxConventions p1 = is_28xxx" and rw: "m_fIsBelievedCapableOfWriteAndErase p1"
    and q: "quiet p1"
    and fits: "unat off + unat len \<le> unat (m_dwLengthInBytes p1)" and pba: "unat len \<le> length pba"
  shows "\<exists>d'. ready d'
    \<and> mem d' = written_map off (take (unat len) pba) (erased_map (sec d) (flash_region off (unat len)) (mem d))
    \<and> BootReflashAndReset fl io bar fuel pof pba off len d
        = do { d \<leftarrow> setLED io fuel inputLED d'; d \<leftarrow> I2CRebootSlow io fuel d; Some (Resetting, d) }"
proof -
  let ?vs = "take (unat len) pba"
  have small: "unat off + unat len \<le> 2 ^ 32" using fits unat_lt_u32 [of "m_dwLengthInBytes p1"] by simp
  have nowrap: "unat (off + len) = unat off + unat len"
    using fits unat_lt_u32 [of "m_dwLengthInBytes p1"] by (simp add: unat_word_ariths)
  have ok: "\<not> m_dwLengthInBytes p1 < off + len" using fits nowrap by (simp add: word_less_nat_alt)
  let ?p2 = "p1\<lparr>m_szAdditionalErrorInfo := None\<rparr>"
  obtain d2 where d2: "BootFlashEraseMinimalRegion fl fuel p1 d = Some (True, ?p2, d2)" "ready d2" "sec d2 = sec d"
    "mem d2 = erased_map (sec d) (flash_region off (unat len)) (mem d)"
    using BootFlashEraseMinimalRegion_erases [OF q conv r] same by auto
  have q2: "quiet ?p2" using q by (simp add: quiet_error)
  have "length ?vs = unat len" using pba by simp
  then have w: "writable off ?vs (mem d2)"
    by (intro writable_blank) (simp add: d2(4) erased_map_region)
  obtain d3 where d3: "BootFlashProgram fl fuel ?p2 pba d2 = Some (True, ?p2\<lparr>m_szAdditionalErrorInfo := None\<rparr>, d3)"
    "ready d3" "mem d3 = written_map off ?vs (mem d2)"
    using BootFlashProgram_writes [OF q2 _ d2(2), of ?vs pba] same conv pba small w by auto
  have "BootReflashAndReset fl io bar fuel pof pba off len d
      = do { d \<leftarrow> setLED io fuel inputLED d3; d \<leftarrow> I2CRebootSlow io fuel d; Some (Resetting, d) }"
    using p1 d2(1) d3(1) rw ok by (simp add: BootReflashAndReset_def Let_def)
  with d3(2,3) d2(4) show ?thesis by (intro exI [of _ d3]) simp
qed

end

section \<open>A chip of the 29xxx family\<close>

text \<open>The command state machine: two unlock cycles, a command, and for erasing two more cycles and
  the sector. A busy chip ignores writes and answers reads with a status whose bit 6 toggles.
  The rest of the machine, \<open>'s\<close>, is beside the chip.\<close>

datatype amd_mode = Read_Array | Unlock1 | Unlock2 | Byte_Program | Erase1 | Erase2 | Erase3 | Autoselect

record amd_chip =
  amd_cells :: contents
  amd_mode :: amd_mode
  amd_busy :: nat
  amd_manufacturer :: u8
  amd_device :: u8
  amd_sector_bits :: nat
  amd_erase_code :: u8
  amd_erase_time :: nat
  amd_program_time :: nat

fun unlocked :: "u8 \<Rightarrow> amd_mode" where
  "unlocked v = (if v = 0xa0 then Byte_Program else if v = 0x80 then Erase1
                 else if v = 0x90 then Autoselect else Read_Array)"

definition amd_erase :: "(u32 \<Rightarrow> bool) \<Rightarrow> amd_chip \<Rightarrow> amd_chip" where
  "amd_erase here c = c\<lparr>amd_mode := Read_Array, amd_busy := amd_erase_time c,
     amd_cells := (\<lambda>a. if here a then 0xff else amd_cells c a)\<rparr>"

definition amd_write :: "u32 \<Rightarrow> u8 \<Rightarrow> amd_chip \<Rightarrow> amd_chip" where
  "amd_write a v c =
     (if amd_busy c \<noteq> 0 then c
      else if amd_mode c = Byte_Program
      then c\<lparr>amd_mode := Read_Array, amd_busy := amd_program_time c,
             amd_cells := (amd_cells c)(a := amd_cells c a AND v)\<rparr>
      else if amd_mode c = Erase3
      then (if v = amd_erase_code c
            then amd_erase (\<lambda>b. drop_bit (amd_sector_bits c) b = drop_bit (amd_sector_bits c) a) c
            else if a = 0x5555 \<and> v = 0x10 then amd_erase (\<lambda>b. True) c
            else c\<lparr>amd_mode := Read_Array\<rparr>)
      else c\<lparr>amd_mode :=
             (case amd_mode c of
                Unlock1 \<Rightarrow> if a = 0x2aaa \<and> v = 0x55 then Unlock2 else Read_Array
              | Unlock2 \<Rightarrow> if a = 0x5555 then unlocked v else Read_Array
              | Erase1 \<Rightarrow> if a = 0x5555 \<and> v = 0xaa then Erase2 else Read_Array
              | Erase2 \<Rightarrow> if a = 0x2aaa \<and> v = 0x55 then Erase3 else Read_Array
              | Autoselect \<Rightarrow> if v = 0xf0 then Read_Array else if a = 0x5555 \<and> v = 0xaa then Unlock1 else Autoselect
              | _ \<Rightarrow> if a = 0x5555 \<and> v = 0xaa then Unlock1 else Read_Array)\<rparr>)"

definition amd_read :: "u32 \<Rightarrow> amd_chip \<Rightarrow> u8 \<times> amd_chip" where
  "amd_read a c =
     (if amd_busy c \<noteq> 0 then (if odd (amd_busy c) then 0x40 else 0, c\<lparr>amd_busy := amd_busy c - 1\<rparr>)
      else if amd_mode c = Autoselect \<and> a = 0 then (amd_manufacturer c, c)
      else if amd_mode c = Autoselect \<and> a = 1 then (amd_device c, c)
      else (amd_cells c a, c))"

definition amd_port :: "(amd_chip \<times> 's) flash_port" where
  "amd_port = \<lparr>fl_read = (\<lambda>a (c, s). (case amd_read a c of (v, c) \<Rightarrow> (v, c, s))),
               fl_write = (\<lambda>a v (c, s). (amd_write a v c, s))\<rparr>"

text \<open>A chip at rest with plausible times and sectors of at least 4 KByte.\<close>

definition amd_ready :: "nat \<Rightarrow> amd_chip \<times> 's \<Rightarrow> bool" where
  "amd_ready n d \<longleftrightarrow> (case d of (c, _) \<Rightarrow>
     amd_mode c = Read_Array \<and> amd_busy c = 0 \<and> 12 \<le> amd_sector_bits c
     \<and> amd_erase_code c \<in> {0x50, 0x30} \<and> 4 \<le> amd_erase_time c
     \<and> amd_erase_time c < 2 ^ 31 \<and> amd_program_time c < 2 ^ 31 \<and> amd_erase_time c + 2 \<le> n \<and> amd_program_time c + 2 \<le> n)"

abbreviation (input) amd_sec :: "amd_chip \<times> 's \<Rightarrow> u32 \<Rightarrow> u32" where
  "amd_sec d \<equiv> drop_bit (amd_sector_bits (fst d))"

abbreviation (input) amd_mem :: "amd_chip \<times> 's \<Rightarrow> contents" where
  "amd_mem d \<equiv> amd_cells (fst d)"

lemma amd_port_simps [simp]:
  "fl_read amd_port a (c, s) = (fst (amd_read a c), snd (amd_read a c), s)"
  "fl_write amd_port a v (c, s) = (amd_write a v c, s)"
  by (simp_all add: amd_port_def split: prod.splits)

lemma amd_write_all [simp]:
  "fl_write_all amd_port ws (c, s) = (fold (\<lambda>(a, v). amd_write a v) ws c, s)"
  by (induction ws arbitrary: c) auto

lemma amd_rest [simp]: "amd_busy c = 0 \<Longrightarrow> c\<lparr>amd_busy := 0\<rparr> = c"
  "amd_mode c = Read_Array \<Longrightarrow> c\<lparr>amd_mode := Read_Array\<rparr> = c"
  by (cases c, simp)+

text \<open>The wait for the status bit to come to rest, and how many toggles it counts.\<close>

lemma toggle_wait_amd:
  assumes "amd_mode c = Read_Array"
  shows "amd_busy c + 2 \<le> n \<Longrightarrow> b AND 0x40 = (if odd (amd_busy c) then 0 else 0x40) \<or> amd_busy c = 0 \<Longrightarrow>
   \<exists>t. toggle_wait amd_port n dw b tries (c, s) = Some (t, c\<lparr>amd_busy := 0\<rparr>, s)
     \<and> (t = tries + of_nat (amd_busy c) \<or> t = tries + of_nat (amd_busy c) + 1)"
  using assms
proof (induction "amd_busy c" arbitrary: c n b tries)
  case 0
  obtain m where n: "n = Suc (Suc m)" using 0(2) by (cases n; cases "n - 1") auto
  define x where "x = amd_cells c dw"
  have r: "amd_read dw c = (x, c)" using 0(1,4) by (simp add: amd_read_def x_def)
  have "x AND 0x40 \<noteq> b AND 0x40 \<Longrightarrow> x AND 0x40 = (b XOR 0x40) AND 0x40"
  proof -
    have m: "y AND 0x40 = (if bit y 6 then 0x40 else 0)" for y :: u8
      by (rule all_u8 [of _ y]) code_simp
    show "x AND 0x40 \<noteq> b AND 0x40 \<Longrightarrow> x AND 0x40 = (b XOR 0x40) AND 0x40"
      unfolding m by (auto simp: bit_simps split: if_splits)
  qed
  then show ?case using 0(1) by (auto simp: n r)
next
  case (Suc k)
  obtain m where n: "n = Suc m" using Suc.prems(1) by (cases n) auto
  let ?c = "c\<lparr>amd_busy := k\<rparr>"
  let ?x = "if odd (Suc k) then 0x40 else 0 :: u8"
  have r: "amd_read dw c = (?x, ?c)" using Suc(2) by (simp add: amd_read_def)
  have b: "b AND 0x40 = (if odd (Suc k) then 0 else 0x40)" using Suc.prems(2) Suc(2) by simp
  have "(b XOR 0x40) AND 0x40 = (b AND 0x40) XOR 0x40" by (rule all_u8 [of _ b]) code_simp
  then have b': "(b XOR 0x40) AND 0x40 = (if odd k then 0 else 0x40)" by (simp add: b)
  from Suc.hyps(1) [of ?c m "b XOR 0x40" "tries + 1"] Suc.prems(1,3) Suc(2) b' n
  obtain t where t: "toggle_wait amd_port m dw (b XOR 0x40) (tries + 1) (?c, s) = Some (t, c\<lparr>amd_busy := 0\<rparr>, s)"
    "t = tries + 1 + of_nat k \<or> t = tries + 1 + of_nat k + 1"
    by auto
  have "?x AND 0x40 \<noteq> b AND 0x40" by (simp add: b)
  then have "toggle_wait amd_port n dw b tries (c, s) = Some (t, c\<lparr>amd_busy := 0\<rparr>, s)"
    using t(1) by (simp add: n r)
  moreover have "t = tries + of_nat (amd_busy c) \<or> t = tries + of_nat (amd_busy c) + 1"
    using t(2) by (auto simp: Suc(2) [symmetric] algebra_simps)
  ultimately show ?case by blast
qed

lemma wait_toggle_end_amd:
  assumes m: "amd_mode c = Read_Array" and n: "amd_busy c + 2 \<le> n" and small: "amd_busy c < 2 ^ 31"
  shows "\<exists>t. wait_toggle_end amd_port n dw (c, s) = Some (t, c\<lparr>amd_busy := 0\<rparr>, s)
     \<and> (amd_busy c = 0 \<longrightarrow> t = 0) \<and> (4 \<le> amd_busy c \<longrightarrow> \<not> t < 3)"
proof (cases "amd_busy c")
  case 0
  then have "amd_read dw c = (amd_cells c dw, c)" using m by (simp add: amd_read_def)
  then show ?thesis using n 0 by (cases n) (simp_all add: wait_toggle_end_def)
next
  case (Suc k)
  let ?b = "if odd (Suc k) then 0x40 else 0 :: u8"
  let ?c = "c\<lparr>amd_busy := k\<rparr>"
  have r: "amd_read dw c = (?b, ?c)" using Suc by (simp add: amd_read_def)
  have "?b AND 0x40 = (if odd (amd_busy ?c) then 0 else 0x40)" by simp
  with m n Suc have "\<exists>t. toggle_wait amd_port n dw ?b 0 (?c, s) = Some (t, ?c\<lparr>amd_busy := 0\<rparr>, s)
     \<and> (t = 0 + of_nat (amd_busy ?c) \<or> t = 0 + of_nat (amd_busy ?c) + 1)"
    by (intro toggle_wait_amd) simp_all
  then obtain t where t: "toggle_wait amd_port n dw ?b 0 (?c, s) = Some (t, c\<lparr>amd_busy := 0\<rparr>, s)"
    "t = of_nat k \<or> t = of_nat k + 1"
    by auto
  have "\<not> t < 3" if "4 \<le> amd_busy c"
  proof -
    have k: "3 \<le> k" "k < 2 ^ 31" using that small Suc by auto
    have "unat (of_nat k :: u32) = k" using k by (intro unat_of_nat_u32) simp
    moreover have "unat (of_nat (k + 1) :: u32) = k + 1" using k by (intro unat_of_nat_u32) simp
    ultimately have "3 \<le> unat t" using t(2) k(1) by (auto simp: add.commute)
    moreover have "unat (3 :: u32) = 3" by simp
    ultimately show ?thesis by (simp only: word_less_nat_alt not_less)
  qed
  then show ?thesis using t(1) by (simp add: wait_toggle_end_def r Suc)
qed

text \<open>The command cycles one by one.\<close>

lemma amd_cycles:
  assumes "amd_busy c = 0"
  shows "amd_write 0x5555 0xaa (c\<lparr>amd_mode := Read_Array\<rparr>) = c\<lparr>amd_mode := Unlock1\<rparr>"
    "amd_write 0x2aaa 0x55 (c\<lparr>amd_mode := Unlock1\<rparr>) = c\<lparr>amd_mode := Unlock2\<rparr>"
    "amd_write 0x5555 v (c\<lparr>amd_mode := Unlock2\<rparr>) = c\<lparr>amd_mode := unlocked v\<rparr>"
    "amd_write 0x5555 0xaa (c\<lparr>amd_mode := Erase1\<rparr>) = c\<lparr>amd_mode := Erase2\<rparr>"
    "amd_write 0x2aaa 0x55 (c\<lparr>amd_mode := Erase2\<rparr>) = c\<lparr>amd_mode := Erase3\<rparr>"
    "amd_write a 0xf0 (c\<lparr>amd_mode := Read_Array\<rparr>) = c\<lparr>amd_mode := Read_Array\<rparr>"
    "amd_write a 0xff (c\<lparr>amd_mode := Read_Array\<rparr>) = c\<lparr>amd_mode := Read_Array\<rparr>"
    "amd_write a 0x90 (c\<lparr>amd_mode := Read_Array\<rparr>) = c\<lparr>amd_mode := Read_Array\<rparr>"
    "amd_write a 0xf0 (c\<lparr>amd_mode := Autoselect\<rparr>) = c\<lparr>amd_mode := Read_Array\<rparr>"
  using assms by (simp_all add: amd_write_def)

definition amd_sector_erase :: "u32 \<Rightarrow> amd_chip \<Rightarrow> amd_chip" where
  "amd_sector_erase dw c = amd_erase (\<lambda>b. drop_bit (amd_sector_bits c) b = drop_bit (amd_sector_bits c) dw) c"

lemma amd_command:
  assumes "amd_mode c = Read_Array" "amd_busy c = 0" "code \<noteq> 0x10"
  shows "fold (\<lambda>(a, v). amd_write a v)
      ((if reset then [(0x5555, 0xaa), (0x2aaa, 0x55), (0x5555, 0xf0)] else [])
       @ [(0x5555, 0xaa), (0x2aaa, 0x55), (0x5555, 0x80), (0x5555, 0xaa), (0x2aaa, 0x55), (dw, code)]) c
    = (if code = amd_erase_code c then amd_sector_erase dw c else c)"
proof -
  have start: "amd_write 0x5555 0xaa c = c\<lparr>amd_mode := Unlock1\<rparr>"
    using amd_cycles(1) [OF assms(2)] assms(1) by simp
  have last: "amd_write dw code (c\<lparr>amd_mode := Erase3\<rparr>) =
      (if code = amd_erase_code c then amd_sector_erase dw c else c\<lparr>amd_mode := Read_Array\<rparr>)"
    using assms(2,3) by (simp add: amd_write_def amd_sector_erase_def amd_erase_def cong: if_cong)
  show ?thesis
    by (cases "code = amd_erase_code c") (use last in \<open>simp_all add: start amd_cycles [OF assms(2)] assms(1)\<close>)
qed

lemma erase_command_amd:
  assumes c: "amd_mode c = Read_Array" "amd_busy c = 0" "amd_erase_time c + 2 \<le> n" "4 \<le> amd_erase_time c"
    "amd_erase_time c < 2 ^ 31" and code: "code \<noteq> 0x10"
  shows "\<exists>t. erase_command amd_port n reset dw code dw (c, s) =
      Some (t, (if code = amd_erase_code c then (amd_sector_erase dw c)\<lparr>amd_busy := 0\<rparr> else c), s)
     \<and> (t < 3 \<longleftrightarrow> code \<noteq> amd_erase_code c)"
proof (cases "code = amd_erase_code c")
  case True
  let ?c = "amd_sector_erase dw c"
  have "amd_mode ?c = Read_Array" "amd_busy ?c = amd_erase_time c" by (simp_all add: amd_sector_erase_def amd_erase_def)
  then show ?thesis
    using wait_toggle_end_amd [of ?c n dw s] c(3-5) amd_command [OF c(1,2) code, of reset dw] True
    by (auto simp: erase_command_def)
next
  case False
  then show ?thesis
    using wait_toggle_end_amd [of c n dw s] c amd_command [OF c(1,2) code, of reset dw]
    by (auto simp: erase_command_def)
qed

lemma erase_29xxx_amd:
  assumes "amd_ready n (c, s)"
  shows "erase_29xxx amd_port n pof r dw (c, s) = Some ((amd_sector_erase dw c)\<lparr>amd_busy := 0\<rparr>, s)"
proof -
  from assms have c: "amd_mode c = Read_Array" "amd_busy c = 0" "amd_erase_time c + 2 \<le> n" "4 \<le> amd_erase_time c"
    "amd_erase_time c < 2 ^ 31" and code: "amd_erase_code c = 0x50 \<or> amd_erase_code c = 0x30"
    by (auto simp: amd_ready_def)
  obtain t1 where t1: "erase_command amd_port n False dw 0x50 dw (c, s) =
      Some (t1, (if 0x50 = amd_erase_code c then (amd_sector_erase dw c)\<lparr>amd_busy := 0\<rparr> else c), s)"
    "t1 < 3 \<longleftrightarrow> 0x50 \<noteq> amd_erase_code c"
    using erase_command_amd [OF c, of "0x50" False dw s] by auto
  obtain t2 where t2: "erase_command amd_port n True dw 0x30 dw (c, s) =
      Some (t2, (if 0x30 = amd_erase_code c then (amd_sector_erase dw c)\<lparr>amd_busy := 0\<rparr> else c), s)"
    "t2 < 3 \<longleftrightarrow> 0x30 \<noteq> amd_erase_code c"
    using erase_command_amd [OF c, of "0x30" True dw s] by auto
  show ?thesis using code t1 t2 by (auto simp: erase_29xxx_def)
qed

lemma program_29xxx_amd:
  assumes "amd_ready n (c, s)"
  shows "program_29xxx amd_port n dw v (c, s) = Some (c\<lparr>amd_cells := (amd_cells c)(dw := amd_cells c dw AND v)\<rparr>, s)"
proof -
  let ?c = "c\<lparr>amd_mode := Read_Array, amd_busy := amd_program_time c,
              amd_cells := (amd_cells c)(dw := amd_cells c dw AND v)\<rparr>"
  from assms have c: "amd_mode c = Read_Array" "amd_busy c = 0" "amd_program_time c + 2 \<le> n"
    "amd_program_time c < 2 ^ 31"
    by (auto simp: amd_ready_def)
  have w: "amd_write dw v (amd_write 0x5555 0xa0 (amd_write 0x2aaa 0x55 (amd_write 0x5555 0xaa c))) = ?c"
    using c by (simp add: amd_write_def)
  have "?c\<lparr>amd_busy := 0\<rparr> = c\<lparr>amd_cells := (amd_cells c)(dw := amd_cells c dw AND v)\<rparr>"
    using c by (cases c) simp
  then show ?thesis
    using wait_toggle_end_amd [of ?c n dw s] c(3,4) by (auto simp: program_29xxx_def w)
qed

lemma drop_bit_4K:
  assumes "12 \<le> k" "same_4K a b"
  shows "drop_bit k a = drop_bit k b"
proof -
  have "drop_bit k x = drop_bit k (x AND 0xfffff000)" for x :: u32
  proof (rule bit_word_eqI)
    fix i assume "i < LENGTH(32)"
    have hi: "bit (0xfffff000 :: u32) j" if "12 \<le> j" "j < 32" for j
    proof -
      have "\<forall>j\<in>set [12..<32]. bit (0xfffff000 :: u32) j" by code_simp
      then show ?thesis by (rule bspec) (simp only: set_upt atLeastLessThan_iff that simp_thms)
    qed
    show "bit (drop_bit k x) i \<longleftrightarrow> bit (drop_bit k (x AND 0xfffff000)) i"
      using assms(1) hi [of "k + i"] bit_imp_le_length [of x "k + i"]
      by (auto simp: bit_drop_bit_eq bit_and_iff)
  qed
  then show ?thesis using assms(2) unfolding same_4K_def by metis
qed

interpretation amd: flash_device amd_port n False amd_mem "amd_ready n" amd_sec for n
proof
  fix d :: "amd_chip \<times> 's" and a b dw :: u32 and v pof r
  assume r: "amd_ready n d"
  obtain c s where d: "d = (c, s)" by (cases d)
  have c: "amd_mode c = Read_Array" "amd_busy c = 0" "12 \<le> amd_sector_bits c" using r by (auto simp: d amd_ready_def)
  show "fl_read amd_port a d = (amd_mem d a, d)" using c by (simp add: d amd_read_def)
  show "same_4K a b \<Longrightarrow> amd_sec d a = amd_sec d b" using c(3) by (simp add: d drop_bit_4K)
  show "\<exists>d'. erase_29xxx amd_port n pof r dw d = Some d' \<and> amd_ready n d' \<and> amd_sec d' = amd_sec d
      \<and> amd_mem d' = (\<lambda>a. if amd_sec d a = amd_sec d dw then 0xff else amd_mem d a)"
    using r by (auto simp: d erase_29xxx_amd amd_ready_def amd_sector_erase_def amd_erase_def)
  show "\<exists>d'. program_29xxx amd_port n dw v d = Some d' \<and> amd_ready n d' \<and> amd_sec d' = amd_sec d
      \<and> amd_mem d' = (amd_mem d)(dw := amd_mem d dw AND v)"
    using r by (auto simp: d program_29xxx_amd amd_ready_def)
qed simp_all

text \<open>Identification: the first protocol sees the array, the second one the identification.\<close>

lemma try_protocols_amd:
  fixes s :: 's
  assumes "amd_ready n (c, s)"
  shows "try_protocols amd_port (amd_cells c 0) (amd_cells c 1) pof (c, s) =
    (pof\<lparr>m_bManufacturerId := amd_manufacturer c, m_bDeviceId := amd_device c,
         m_fDetectedUsing28xxxConventions := False\<rparr>, (c, s))"
proof -
  have c: "amd_mode c = Read_Array" "amd_busy c = 0" using assms by (auto simp: amd_ready_def)
  have start: "amd_write 0x5555 0xaa c = c\<lparr>amd_mode := Unlock1\<rparr>" "amd_write a 0xf0 c = c"
    "amd_write a 0xff c = c" "amd_write a 0x90 c = c" "amd_read a c = (amd_cells c a, c)" for a
    using amd_cycles [OF c(2)] c by (simp_all add: amd_read_def)
  have ids: "amd_read 0 (c\<lparr>amd_mode := Autoselect\<rparr>) = (amd_manufacturer c, c\<lparr>amd_mode := Autoselect\<rparr>)"
    "amd_read 1 (c\<lparr>amd_mode := Autoselect\<rparr>) = (amd_device c, c\<lparr>amd_mode := Autoselect\<rparr>)"
    using c by (simp_all add: amd_read_def)
  have "try_28xxx amd_port pof (c, s) = (pof\<lparr>m_bManufacturerId := amd_cells c 0, m_bDeviceId := amd_cells c 1,
      m_fDetectedUsing28xxxConventions := True\<rparr>, (c, s))" for pof :: "(amd_chip \<times> 's) OBJECT_FLASH"
    by (simp add: try_28xxx_def start)
  moreover have "try_29xxx amd_port pof (c, s) = (pof\<lparr>m_bManufacturerId := amd_manufacturer c,
      m_bDeviceId := amd_device c, m_fDetectedUsing28xxxConventions := False\<rparr>, (c, s))"
    for pof :: "(amd_chip \<times> 's) OBJECT_FLASH"
    using c by (simp add: try_29xxx_def start amd_cycles [OF c(2)] ids)
  ultimately show ?thesis by (simp add: try_protocols_def no_answer_def start)
qed

abbreviation (input) "chip_entry m v \<equiv> find (\<lambda>r. fst r = m \<and> fst (snd r) = v) flash_chips"

lemma GetDescriptor_amd:
  assumes "amd_ready n (c, s)"
  shows "\<exists>pof'. BootFlashGetDescriptor amd_port aknownflashtypesDefault pof (c, s) =
      Some (chip_entry (amd_manufacturer c) (amd_device c) \<noteq> None, pof', (c, s))
    \<and> m_dwStartOffset pof' = m_dwStartOffset pof \<and> m_dwLengthUsedArea pof' = m_dwLengthUsedArea pof
    \<and> m_pcallbackFlash pof' = m_pcallbackFlash pof \<and> \<not> m_fDetectedUsing28xxxConventions pof'
    \<and> m_fIsBelievedCapableOfWriteAndErase pof'
    \<and> (\<forall>name size. chip_entry (amd_manufacturer c) (amd_device c) = Some (amd_manufacturer c, amd_device c, name, size)
         \<longrightarrow> m_dwLengthInBytes pof' = size \<and> m_szFlashDescription pof' = [Chip_text name (size div 1024)])"
proof -
  have c: "amd_mode c = Read_Array" "amd_busy c = 0" using assms by (auto simp: amd_ready_def)
  have rd: "amd_read a c = (amd_cells c a, c)" for a using c by (simp add: amd_read_def)
  show ?thesis
    by (cases "chip_entry (amd_manufacturer c) (amd_device c)")
      (auto simp: BootFlashGetDescriptor_def Let_def rd try_protocols_amd [OF assms] flash_lookup_known no_answer_def
        flash_type_def split: prod.splits)
qed

end
