(* ===== verification/FlashSharp.thy ===== *)
theory FlashSharp
  imports FlashChip
begin

text \<open>
  A reference chip of the 28xxx family, as a second provider of the contract \<open>flash_device\<close>: its
  commands are single writes and it answers with a status register. After a command it still
  reads as ready for \<open>sharp_lag\<close> reads (the comment in \<open>BootFlash.c\<close>: it does not go busy for
  about 500 ns), which the least number of reads of the wait loops makes up for.
\<close>

datatype sharp_mode = S_Array | S_Id | S_Status | S_Erase | S_Program

record sharp_chip =
  sharp_cells :: contents
  sharp_mode :: sharp_mode
  sharp_late :: nat
  sharp_busy :: nat
  sharp_manufacturer :: u8
  sharp_device :: u8
  sharp_locks :: "u32 \<Rightarrow> u8"
  sharp_sector_bits :: nat
  sharp_lag :: nat
  sharp_time :: nat

definition sharp_start :: "contents \<Rightarrow> sharp_chip \<Rightarrow> sharp_chip" where
  "sharp_start m c = c\<lparr>sharp_mode := S_Status, sharp_late := sharp_lag c, sharp_busy := sharp_time c, sharp_cells := m\<rparr>"

definition sharp_write :: "u32 \<Rightarrow> u8 \<Rightarrow> sharp_chip \<Rightarrow> sharp_chip" where
  "sharp_write a v c =
     (if sharp_late c + sharp_busy c \<noteq> 0 then c
      else if sharp_mode c = S_Erase
      then (if v = 0xd0
            then sharp_start (\<lambda>b. if drop_bit (sharp_sector_bits c) b = drop_bit (sharp_sector_bits c) a
                                  then 0xff else sharp_cells c b) c
            else c\<lparr>sharp_mode := S_Status\<rparr>)
      else if sharp_mode c = S_Program
      then sharp_start ((sharp_cells c)(a := sharp_cells c a AND v)) c
      else if v = 0xff then c\<lparr>sharp_mode := S_Array\<rparr>
      else if v = 0x90 then c\<lparr>sharp_mode := S_Id\<rparr>
      else if v = 0x20 then c\<lparr>sharp_mode := S_Erase\<rparr>
      else if v = 0x40 then c\<lparr>sharp_mode := S_Program\<rparr>
      else c)"

definition sharp_read :: "u32 \<Rightarrow> sharp_chip \<Rightarrow> u8 \<times> sharp_chip" where
  "sharp_read a c =
     (if sharp_late c \<noteq> 0 then (0x80, c\<lparr>sharp_late := sharp_late c - 1\<rparr>)
      else if sharp_busy c \<noteq> 0 then (0, c\<lparr>sharp_busy := sharp_busy c - 1\<rparr>)
      else if sharp_mode c = S_Array then (sharp_cells c a, c)
      else if sharp_mode c = S_Id
      then (if a = 0 then sharp_manufacturer c else if a = 1 then sharp_device c else sharp_locks c a, c)
      else (0x80, c))"

definition sharp_port :: "(sharp_chip \<times> 's) flash_port" where
  "sharp_port = \<lparr>fl_read = (\<lambda>a (c, s). (case sharp_read a c of (v, c) \<Rightarrow> (v, c, s))),
                 fl_write = (\<lambda>a v (c, s). (sharp_write a v c, s))\<rparr>"

definition sharp_ready :: "nat \<Rightarrow> sharp_chip \<times> 's \<Rightarrow> bool" where
  "sharp_ready n d \<longleftrightarrow> (case d of (c, _) \<Rightarrow>
     sharp_mode c = S_Array \<and> sharp_late c = 0 \<and> sharp_busy c = 0 \<and> 12 \<le> sharp_sector_bits c
     \<and> sharp_lag c \<le> 1 \<and> sharp_time c < 0xffff0 \<and> sharp_time c + 0x200 \<le> n)"

abbreviation (input) sharp_sec :: "sharp_chip \<times> 's \<Rightarrow> u32 \<Rightarrow> u32" where
  "sharp_sec d \<equiv> drop_bit (sharp_sector_bits (fst d))"

abbreviation (input) sharp_mem :: "sharp_chip \<times> 's \<Rightarrow> contents" where
  "sharp_mem d \<equiv> sharp_cells (fst d)"

lemma sharp_port_simps [simp]:
  "fl_read sharp_port a (c, s) = (fst (sharp_read a c), snd (sharp_read a c), s)"
  "fl_write sharp_port a v (c, s) = (sharp_write a v c, s)"
  by (simp_all add: sharp_port_def split: prod.splits)

section \<open>The wait loops\<close>

text \<open>What the loop has read so far cannot end it while the chip is late or busy.\<close>

definition still_waiting :: "nat \<Rightarrow> u8 \<Rightarrow> sharp_chip \<Rightarrow> bool" where
  "still_waiting spin b c \<longleftrightarrow>
     sharp_mode c = S_Status \<and> (sharp_late c + sharp_busy c \<noteq> 0 \<longrightarrow> sharp_late c < spin \<or> (sharp_late c = 0 \<and> b = 0))
     \<and> (b = 0 \<or> b = 0x80)"

definition settled :: "sharp_chip \<Rightarrow> sharp_chip" where
  "settled c = c\<lparr>sharp_late := 0, sharp_busy := 0\<rparr>"

lemma sharp_read_step:
  assumes "still_waiting spin b c" "b = 0 \<or> spin \<noteq> 0"
  shows "still_waiting (spin - 1) (fst (sharp_read a c)) (snd (sharp_read a c))"
    and "settled (snd (sharp_read a c)) = settled c"
    and "sharp_late c + sharp_busy c \<noteq> 0 \<Longrightarrow>
      sharp_late (snd (sharp_read a c)) + sharp_busy (snd (sharp_read a c)) < sharp_late c + sharp_busy c"
    and "sharp_busy (snd (sharp_read a c)) + (if fst (sharp_read a c) = 0 then 1 else 0) \<le> sharp_busy c"
    and "sharp_late c + sharp_busy c = 0 \<Longrightarrow> sharp_read a c = (0x80, c)"
  using assms by (auto simp: still_waiting_def sharp_read_def settled_def)

lemma status_wait_sharp:
  "still_waiting spin b c \<Longrightarrow> sharp_late c + sharp_busy c + spin + 2 \<le> n + (if b = 0 then 0 else 1) \<Longrightarrow>
   status_wait sharp_port n dw b spin (c, s) = Some (0x80, settled c, s)"
proof (induction n arbitrary: b spin c)
  case 0
  then show ?case by (simp split: if_splits)
next
  case (Suc n)
  show ?case
  proof (cases "b = 0 \<or> spin \<noteq> 0")
    case True
    let ?b = "fst (sharp_read dw c)" and ?c = "snd (sharp_read dw c)"
    note step = sharp_read_step [OF Suc.prems(1) True, of dw]
    have "sharp_late ?c + sharp_busy ?c + (spin - 1) + 2 \<le> n + (if ?b = 0 then 0 else 1)"
      using step(3,5) Suc.prems(2) True by (cases "sharp_late c + sharp_busy c = 0") (auto split: if_splits)
    from Suc.IH [OF step(1) this] step(2) True Suc.prems(1) show ?thesis
      by (auto simp: still_waiting_def)
  next
    case False
    with Suc.prems(1) have "b = 0x80" "sharp_late c + sharp_busy c = 0" by (auto simp: still_waiting_def)
    with False show ?thesis by (simp add: settled_def)
  qed
qed

lemma sharp_read_measure:
  assumes "still_waiting spin b c" "b = 0 \<or> spin \<noteq> 0"
  shows "sharp_late (snd (sharp_read a c)) + sharp_busy (snd (sharp_read a c)) + (spin - 1)
      + (if fst (sharp_read a c) = 0 then 1 else 0)
    < sharp_late c + sharp_busy c + spin + (if b = 0 then 1 else 0)"
  using assms by (auto simp: still_waiting_def sharp_read_def)

lemma program_wait_sharp:
  "still_waiting spin b c \<Longrightarrow> sharp_busy c + (if b = 0 then 1 else 0) < unat ttl \<Longrightarrow>
   \<exists>t. program_wait sharp_port dw b ttl spin (c, s) = (0x80, t, settled c, s) \<and> t \<noteq> 0"
proof (induction "sharp_late c + sharp_busy c + spin + (if b = 0 then 1 else 0)" arbitrary: b ttl spin c
    rule: less_induct)
  case less
  have b: "b = 0 \<or> b = 0x80" using less.prems(1) by (simp add: still_waiting_def)
  have ttl0: "ttl \<noteq> 0" using less.prems(2) by (auto split: if_splits)
  show ?case
  proof (cases "b = 0 \<or> spin \<noteq> 0")
    case True
    let ?b = "fst (sharp_read dw c)" and ?c = "snd (sharp_read dw c)"
    let ?t = "if b = 0 then ttl - 1 else ttl"
    note step = sharp_read_step [OF less.prems(1) True, of dw]
    have t: "sharp_busy c < unat ?t"
      using less.prems(2) unat_minus_one [OF ttl0] by (auto split: if_splits)
    then have t0: "?t \<noteq> 0" by auto
    have "sharp_busy ?c + (if ?b = 0 then 1 else 0) < unat ?t" using step(4) t by simp
    from less.hyps [OF sharp_read_measure [OF less.prems(1) True] step(1) this]
    obtain t' where t': "program_wait sharp_port dw ?b ?t (spin - 1) (?c, s) = (0x80, t', settled ?c, s)" "t' \<noteq> 0"
      by blast
    have "program_wait sharp_port dw b ttl spin (c, s) = program_wait sharp_port dw ?b ?t (spin - 1) (?c, s)"
      using b True t0 by (subst program_wait.simps) auto
    then show ?thesis using t' step(2) by simp
  next
    case False
    with less.prems(1) have "b = 0x80" "sharp_late c + sharp_busy c = 0" by (auto simp: still_waiting_def)
    with False ttl0 show ?thesis by (subst program_wait.simps) (simp add: settled_def)
  qed
qed

section \<open>The commands\<close>

lemma sharp_rest [simp]: "sharp_late c = 0 \<Longrightarrow> c\<lparr>sharp_late := 0\<rparr> = c"
  "sharp_busy c = 0 \<Longrightarrow> c\<lparr>sharp_busy := 0\<rparr> = c" "sharp_mode c = S_Array \<Longrightarrow> c\<lparr>sharp_mode := S_Array\<rparr> = c"
  by (cases c, simp)+

lemma sharp_done:
  assumes "sharp_mode c = S_Array" "sharp_late c = 0" "sharp_busy c = 0"
  shows "sharp_write a 0xff (sharp_write a' 0x50 (settled (sharp_start m c))) = c\<lparr>sharp_cells := m\<rparr>"
  using assms by (cases c) (simp add: sharp_write_def settled_def sharp_start_def)

lemma still_waiting_start:
  "sharp_lag c < spin \<Longrightarrow> still_waiting spin 0 (sharp_start m c)"
  by (simp add: still_waiting_def sharp_start_def)

lemma fl_write_sharp:
  "fl_write_all sharp_port [(a, v), (b, w)] (c, s) = (sharp_write b w (sharp_write a v c), s)"
  by simp

lemma erase_28xxx_sharp:
  assumes r: "sharp_ready n (c, s)"
  shows "erase_28xxx sharp_port n dw (c, s) = Some (0x80, c\<lparr>sharp_cells :=
    (\<lambda>b. if drop_bit (sharp_sector_bits c) b = drop_bit (sharp_sector_bits c) dw then 0xff else sharp_cells c b)\<rparr>, s)"
proof -
  let ?m = "\<lambda>b. if drop_bit (sharp_sector_bits c) b = drop_bit (sharp_sector_bits c) dw then 0xff else sharp_cells c b"
  let ?c = "sharp_start ?m c"
  have c: "sharp_mode c = S_Array" "sharp_late c = 0" "sharp_busy c = 0" "sharp_lag c \<le> 1" "sharp_time c + 0x200 \<le> n"
    using r by (auto simp: sharp_ready_def)
  have w: "sharp_write dw 0xd0 (sharp_write dw 0x20 (sharp_write 0x5555 0x50 c)) = ?c"
    using c(1-3) by (simp add: sharp_write_def sharp_start_def cong: if_cong)
  have "still_waiting 0x100 0 ?c" by (rule still_waiting_start) (use c(4) in simp)
  then have "status_wait sharp_port n dw 0 0x100 (?c, s) = Some (0x80, settled ?c, s)"
    by (rule status_wait_sharp) (use c(4,5) in \<open>simp add: sharp_start_def\<close>)
  then show ?thesis using sharp_done [OF c(1-3), of "0x5555" "0x5555" ?m] by (simp add: erase_28xxx_def w)
qed

lemma program_28xxx_sharp:
  assumes r: "sharp_ready n (c, s)"
  shows "\<exists>t. program_28xxx sharp_port dw v (c, s) =
      (0x80, t, c\<lparr>sharp_cells := (sharp_cells c)(dw := sharp_cells c dw AND v)\<rparr>, s) \<and> t \<noteq> 0"
proof -
  let ?m = "(sharp_cells c)(dw := sharp_cells c dw AND v)"
  let ?c = "sharp_start ?m c"
  have c: "sharp_mode c = S_Array" "sharp_late c = 0" "sharp_busy c = 0" "sharp_lag c \<le> 1" "sharp_time c < 0xffff0"
    using r by (auto simp: sharp_ready_def)
  have w: "sharp_write dw v (sharp_write dw 0x40 c) = ?c"
    using c(1-3) by (simp add: sharp_write_def sharp_start_def)
  have "still_waiting 2 0 ?c" by (rule still_waiting_start) (use c(4) in simp)
  then obtain t where "program_wait sharp_port dw 0 0xfffff 2 (?c, s) = (0x80, t, settled ?c, s)" "t \<noteq> 0"
    using program_wait_sharp [of 2 0 ?c "0xfffff" dw s] c(5) by (auto simp: sharp_start_def)
  then show ?thesis using sharp_done [OF c(1-3), of dw dw ?m] by (auto simp: program_28xxx_def w)
qed

interpretation sharp: flash_device sharp_port n True sharp_mem "sharp_ready n" sharp_sec for n
proof
  fix d :: "sharp_chip \<times> 's" and a b dw :: u32 and v
  assume r: "sharp_ready n d"
  obtain c s where d: "d = (c, s)" by (cases d)
  have c: "sharp_mode c = S_Array" "sharp_late c = 0" "sharp_busy c = 0" "12 \<le> sharp_sector_bits c"
    using r by (auto simp: d sharp_ready_def)
  show "fl_read sharp_port a d = (sharp_mem d a, d)" using c by (simp add: d sharp_read_def)
  show "same_4K a b \<Longrightarrow> sharp_sec d a = sharp_sec d b" using c(4) by (simp add: d drop_bit_4K)
  show "\<exists>b d'. erase_28xxx sharp_port n dw d = Some (b, d') \<and> b AND 0x7e = 0 \<and> sharp_ready n d'
      \<and> sharp_sec d' = sharp_sec d \<and> sharp_mem d' = (\<lambda>a. if sharp_sec d a = sharp_sec d dw then 0xff else sharp_mem d a)"
    using r by (auto simp: d erase_28xxx_sharp sharp_ready_def)
  show "\<exists>b t d'. program_28xxx sharp_port dw v d = (b, t, d') \<and> b AND 0x7e = 0 \<and> t \<noteq> 0 \<and> sharp_ready n d'
      \<and> sharp_sec d' = sharp_sec d \<and> sharp_mem d' = (sharp_mem d)(dw := sharp_mem d dw AND v)"
  proof -
    obtain t where "program_28xxx sharp_port dw v (c, s) =
      (0x80, t, c\<lparr>sharp_cells := (sharp_cells c)(dw := sharp_cells c dw AND v)\<rparr>, s)" "t \<noteq> 0"
      using program_28xxx_sharp [of n c s dw v] r by (auto simp: d)
    then show ?thesis using r by (auto simp: d sharp_ready_def)
  qed
qed simp_all

end
