(* ===== verification/FlashUpdate.thy ===== *)
theory FlashUpdate
  imports FlashChip FlashSharp
begin

text \<open>
  Reflashing as a whole on the two reference chips: identification, the check of
  the size, erasing, programming and verification, up to the reset through the SMBus. The state
  beside the chip is what the progress bar draws on and what the ports of the SMBus answer from.
\<close>

section \<open>The pieces on the chip\<close>

text \<open>A drawing routine of the second component, as the progress bar of the callback.\<close>

definition bar_beside :: "(u32 \<Rightarrow> u32 \<Rightarrow> u32 \<Rightarrow> 's \<Rightarrow> 's) \<Rightarrow> u32 \<Rightarrow> u32 \<Rightarrow> u32 \<Rightarrow> 'c \<times> 's \<Rightarrow> 'c \<times> 's" where
  "bar_beside draw p e col d = (case d of (c, s) \<Rightarrow> (c, draw p e col s))"

lemma quiet_amd_ui:
  "m_pcallbackFlash pof = Some (BootFlashUserInterface (bar_beside draw)) \<Longrightarrow> amd.quiet n pof"
  by (auto simp: amd.quiet_def notify_def BootFlashUserInterface_def bar_beside_def amd_ready_def)

lemma quiet_amd_none: "m_pcallbackFlash pof = None \<Longrightarrow> amd.quiet n pof"
  by (auto simp: amd.quiet_def notify_def)

text \<open>Examples for the instances: a chip of each family, zero everywhere.\<close>

definition demo_amd :: amd_chip where
  "demo_amd = \<lparr>amd_cells = (\<lambda>a. 0), amd_mode = Read_Array, amd_busy = 0, amd_manufacturer = 0x01,
     amd_device = 0xA4, amd_sector_bits = 16, amd_erase_code = 0x30, amd_erase_time = 5, amd_program_time = 2\<rparr>"

definition demo_sharp :: sharp_chip where
  "demo_sharp = \<lparr>sharp_cells = (\<lambda>a. 0), sharp_mode = S_Array, sharp_late = 0, sharp_busy = 0,
     sharp_manufacturer = 0x89, sharp_device = 0xA6, sharp_locks = (\<lambda>a. 0), sharp_sector_bits = 16,
     sharp_lag = 1, sharp_time = 20\<rparr>"

definition demo_of :: "u32 \<Rightarrow> u32 \<Rightarrow> 'd OBJECT_FLASH" where
  "demo_of off len = \<lparr>m_bManufacturerId = 0, m_bDeviceId = 0, m_szFlashDescription = [], m_szAdditionalErrorInfo = None,
     m_dwLengthInBytes = 0x80000, m_dwStartOffset = off, m_dwLengthUsedArea = len, m_pcallbackFlash = None,
     m_fDetectedUsing28xxxConventions = False, m_fIsBelievedCapableOfWriteAndErase = True\<rparr>"

definition silent_ports :: "'d ports" where
  "silent_ports = \<lparr>IoInputByte = (\<lambda>_ d. (0, d)), IoInputWord = (\<lambda>_ d. (0, d)), IoInputDword = (\<lambda>_ d. (0, d)),
     IoOutputByte = (\<lambda>_ _ d. d), IoOutputWord = (\<lambda>_ _ d. d), IoOutputDword = (\<lambda>_ _ d. d), delay_us = (\<lambda>_ d. d)\<rparr>"

lemma demo_amd_ready: "amd_ready 7 (demo_amd, ())"
  by (simp add: amd_ready_def demo_amd_def)

lemma demo_sharp_ready: "sharp_ready 1000 (demo_sharp, ())"
  by (simp add: sharp_ready_def demo_sharp_def)

lemma first_in_region: "0 < k \<Longrightarrow> dw \<in> flash_region dw k"
  by (cases k) (simp_all add: flash_region_Suc)

abbreviation (input) "used_region pof \<equiv> flash_region (m_dwStartOffset pof) (unat (m_dwLengthUsedArea pof))"

text \<open>Erasing succeeds and has exactly the minimal effect: a sector that has a byte other than 0xff
  in the area to be used is filled with 0xff, and every other sector is left as it was.\<close>

lemma BootFlashEraseMinimalRegion_minimal:
  assumes "amd_ready n d" and "\<not> m_fDetectedUsing28xxxConventions pof"
    and "m_pcallbackFlash pof = None \<or> m_pcallbackFlash pof = Some (BootFlashUserInterface (bar_beside draw))"
  shows "\<exists>pof' d'. BootFlashEraseMinimalRegion amd_port n pof d = Some (True, pof', d') \<and> amd_ready n d'
    \<and> amd_cells (fst d') = erased_map (drop_bit (amd_sector_bits (fst d))) (used_region pof) (amd_cells (fst d))
    \<and> (\<forall>a\<in>used_region pof. amd_cells (fst d') a = 0xff)"
proof -
  have "amd.quiet n pof" using assms(3) quiet_amd_ui quiet_amd_none by blast
  from amd.BootFlashEraseMinimalRegion_erases [OF this _ assms(1)] assms(2) show ?thesis
    by (auto simp: erased_map_region)
qed

lemma BootFlashEraseMinimalRegion_minimal_witness:
  "\<exists>pof' d'. BootFlashEraseMinimalRegion amd_port 7 (demo_of 0x10000 0x2000) (demo_amd, ()) = Some (True, pof', d')
    \<and> amd_cells (fst d') 0x10000 = 0xff"
proof -
  have in_use: "0x10000 \<in> used_region (demo_of 0x10000 0x2000 :: (amd_chip \<times> unit) OBJECT_FLASH)"
    by (simp add: demo_of_def first_in_region)
  obtain pof' d' where "BootFlashEraseMinimalRegion amd_port 7 (demo_of 0x10000 0x2000) (demo_amd, ()) = Some (True, pof', d')"
    "\<forall>a\<in>used_region (demo_of 0x10000 0x2000 :: (amd_chip \<times> unit) OBJECT_FLASH). amd_cells (fst d') a = 0xff"
    using BootFlashEraseMinimalRegion_minimal [OF demo_amd_ready, of "demo_of 0x10000 0x2000" "\<lambda>_ _ _ s. s"]
    by (auto simp: demo_of_def)
  with in_use show ?thesis by blast
qed

text \<open>Programming data that only clears bits of the area succeeds, stores the data there and changes
  nothing else.\<close>

lemma BootFlashProgram_stores:
  assumes "amd_ready n d" and "\<not> m_fDetectedUsing28xxxConventions pof" and "m_pcallbackFlash pof = None"
    and len: "unat (m_dwLengthUsedArea pof) \<le> length pba"
    and fits: "unat (m_dwStartOffset pof) + unat (m_dwLengthUsedArea pof) \<le> 2 ^ 32"
    and bits: "writable (m_dwStartOffset pof) (take (unat (m_dwLengthUsedArea pof)) pba) (amd_cells (fst d))"
  shows "\<exists>pof' d'. BootFlashProgram amd_port n pof pba d = Some (True, pof', d') \<and> amd_ready n d'
    \<and> (\<forall>i < unat (m_dwLengthUsedArea pof). amd_cells (fst d') (m_dwStartOffset pof + of_nat i) = pba ! i)
    \<and> (\<forall>a. a \<notin> used_region pof \<longrightarrow> amd_cells (fst d') a = amd_cells (fst d) a)"
proof -
  let ?vs = "take (unat (m_dwLengthUsedArea pof)) pba"
  have l: "length ?vs = unat (m_dwLengthUsedArea pof)" using len by simp
  have fit: "unat (m_dwStartOffset pof) + length ?vs \<le> 2 ^ 32" using fits l by simp
  obtain d' where d': "BootFlashProgram amd_port n pof pba d = Some (True, pof\<lparr>m_szAdditionalErrorInfo := None\<rparr>, d')"
    "amd_ready n d'" "amd_cells (fst d') = written_map (m_dwStartOffset pof) ?vs (amd_cells (fst d))"
    using amd.BootFlashProgram_writes [OF quiet_amd_none [OF assms(3)] _ assms(1) refl len fit bits] assms(2) by auto
  have "amd_cells (fst d') (m_dwStartOffset pof + of_nat i) = pba ! i" if "i < unat (m_dwLengthUsedArea pof)" for i
    using written_map_at [OF fit, of i "amd_cells (fst d)"] that l by (simp add: d'(3))
  moreover have "amd_cells (fst d') a = amd_cells (fst d) a" if "a \<notin> used_region pof" for a
    using written_map_other [of a "m_dwStartOffset pof" ?vs] that l by (simp add: d'(3))
  ultimately show ?thesis using d'(1,2) by blast
qed

lemma BootFlashProgram_stores_witness:
  "\<exists>pof' d'. BootFlashProgram amd_port 7 (demo_of 0x10000 2) [0, 0, 1] (demo_amd, ()) = Some (True, pof', d')
    \<and> amd_cells (fst d') 0x10001 = 0"
proof -
  let ?of = "demo_of 0x10000 2 :: (amd_chip \<times> unit) OBJECT_FLASH"
  have "writable (m_dwStartOffset ?of) (take (unat (m_dwLengthUsedArea ?of)) [0, 0, 1]) (amd_cells (fst (demo_amd, ())))"
    by (simp add: demo_of_def demo_amd_def)
  from BootFlashProgram_stores [OF demo_amd_ready _ _ _ _ this]
  obtain pof' d' where r: "BootFlashProgram amd_port 7 ?of [0, 0, 1] (demo_amd, ()) = Some (True, pof', d')"
    "\<forall>i < 2. amd_cells (fst d') (0x10000 + of_nat i) = [0, 0, 1] ! i"
    by (auto simp: demo_of_def)
  from r(2) [rule_format, of 1] have "amd_cells (fst d') 0x10001 = 0" by simp
  with r(1) show ?thesis by blast
qed

section \<open>The whole update\<close>



text \<open>An update of a chip that is not in the table, or of an area whose end lies behind the chip, is
  refused with a code of its own, and the chip is as before.\<close>

lemma BootReflashAndReset_refuses:
  fixes c :: amd_chip and s :: 's
  assumes r: "amd_ready n (c, s)"
  shows "(find (\<lambda>r. fst r = amd_manufacturer c \<and> fst (snd r) = amd_device c) flash_chips = None \<longrightarrow>
      BootReflashAndReset amd_port io bar n pof pba off len (c, s) = Some (Refused 1, c, s))
    \<and> (\<forall>name extent. find (\<lambda>r. fst r = amd_manufacturer c \<and> fst (snd r) = amd_device c) flash_chips
        = Some (amd_manufacturer c, amd_device c, name, extent) \<longrightarrow> extent < off + len \<longrightarrow>
      BootReflashAndReset amd_port io bar n pof pba off len (c, s) = Some (Refused 3, c, s))"
  using GetDescriptor_amd [OF r, of "pof\<lparr>m_dwStartOffset := off, m_dwLengthUsedArea := len,
      m_pcallbackFlash := Some (BootFlashUserInterface bar)\<rparr>"]
  by (auto simp: BootReflashAndReset_def Let_def)

lemma BootReflashAndReset_refuses_witness:
  "BootReflashAndReset amd_port silent_ports (bar_beside (\<lambda>_ _ _ s. s)) 7 (demo_of 0 0) [] 0x80000 1 (demo_amd, ())
    = Some (Refused 3, demo_amd, ())"
proof -
  have "chip_entry (amd_manufacturer demo_amd) (amd_device demo_amd)
      = Some (amd_manufacturer demo_amd, amd_device demo_amd, ''AMD_Am29F040B'', 0x80000)"
    unfolding flash_chips_def by (simp add: demo_amd_def)
  with BootReflashAndReset_refuses [OF demo_amd_ready, of silent_ports "bar_beside (\<lambda>_ _ _ s. s)" "demo_of 0 0" "[]"
      "0x80000" 1]
  show ?thesis by auto
qed

section \<open>The same on a chip of the 28xxx family\<close>

lemma quiet_sharp_ui:
  "m_pcallbackFlash pof = Some (BootFlashUserInterface (bar_beside draw)) \<Longrightarrow> sharp.quiet n pof"
  by (auto simp: sharp.quiet_def notify_def BootFlashUserInterface_def bar_beside_def sharp_ready_def)

lemma sharp_id_cycles:
  assumes "sharp_mode c = S_Array" "sharp_late c = 0" "sharp_busy c = 0"
  shows "sharp_write a 0xff c = c" "sharp_write a 0x90 c = c\<lparr>sharp_mode := S_Id\<rparr>"
    "sharp_write a 0x90 (c\<lparr>sharp_mode := S_Id\<rparr>) = c\<lparr>sharp_mode := S_Id\<rparr>"
    "sharp_write a 0x50 (c\<lparr>sharp_mode := S_Id\<rparr>) = c\<lparr>sharp_mode := S_Id\<rparr>"
    "sharp_write a 0xff (c\<lparr>sharp_mode := S_Id\<rparr>) = c"
    "sharp_read a c = (sharp_cells c a, c)"
    "\<exists>v. sharp_read a (c\<lparr>sharp_mode := S_Id\<rparr>) = (v, c\<lparr>sharp_mode := S_Id\<rparr>)"
    "sharp_read 0 (c\<lparr>sharp_mode := S_Id\<rparr>) = (sharp_manufacturer c, c\<lparr>sharp_mode := S_Id\<rparr>)"
    "sharp_read 1 (c\<lparr>sharp_mode := S_Id\<rparr>) = (sharp_device c, c\<lparr>sharp_mode := S_Id\<rparr>)"
    "sharp_read 3 (c\<lparr>sharp_mode := S_Id\<rparr>) = (sharp_locks c 3, c\<lparr>sharp_mode := S_Id\<rparr>)"
  using assms by (auto simp: sharp_write_def sharp_read_def)

lemma block_locks_sharp:
  assumes c: "sharp_mode c = S_Array" "sharp_late c = 0" "sharp_busy c = 0"
  shows "\<exists>bs. block_locks sharp_port as (c\<lparr>sharp_mode := S_Id\<rparr>, s) = (bs, c\<lparr>sharp_mode := S_Id\<rparr>, s)"
proof (induction as)
  case (Cons a as)
  then obtain bs where "block_locks sharp_port as (c\<lparr>sharp_mode := S_Id\<rparr>, s) = (bs, c\<lparr>sharp_mode := S_Id\<rparr>, s)" by blast
  moreover obtain v where "sharp_read (a OR 2) (c\<lparr>sharp_mode := S_Id\<rparr>) = (v, c\<lparr>sharp_mode := S_Id\<rparr>)"
    using sharp_id_cycles(7) [OF c] by blast
  ultimately show ?case by (simp add: sharp_id_cycles(3) [OF c])
qed simp

text \<open>The first protocol gives the identification, unless the first byte of the contents is the
  manufacturer's number.\<close>

lemma GetDescriptor_sharp:
  assumes r: "sharp_ready n (c, s)" and first: "sharp_cells c 0 \<noteq> sharp_manufacturer c"
    and known: "chip_entry (sharp_manufacturer c) (sharp_device c) = Some (sharp_manufacturer c, sharp_device c, name, extent)"
  shows "\<exists>pof'. BootFlashGetDescriptor sharp_port aknownflashtypesDefault pof (c, s) = Some (True, pof', (c, s))
    \<and> m_dwStartOffset pof' = m_dwStartOffset pof \<and> m_dwLengthUsedArea pof' = m_dwLengthUsedArea pof
    \<and> m_pcallbackFlash pof' = m_pcallbackFlash pof \<and> m_fDetectedUsing28xxxConventions pof'
    \<and> m_fIsBelievedCapableOfWriteAndErase pof' = (sharp_locks c 3 = 0) \<and> m_dwLengthInBytes pof' = extent"
proof -
  have c: "sharp_mode c = S_Array" "sharp_late c = 0" "sharp_busy c = 0" using r by (auto simp: sharp_ready_def)
  note cyc = sharp_id_cycles [OF c]
  have protocols: "try_protocols sharp_port b0 b1 pof (c, s) = (pof\<lparr>m_bManufacturerId := sharp_manufacturer c,
      m_bDeviceId := sharp_device c, m_fDetectedUsing28xxxConventions := True\<rparr>, (c, s))"
    if "b0 = sharp_cells c 0" for b0 b1 and pof :: "(sharp_chip \<times> _) OBJECT_FLASH"
    using first that by (simp add: try_protocols_def try_28xxx_def no_answer_def cyc)
  obtain bs where bs: "block_locks sharp_port (block_starts extent) (c\<lparr>sharp_mode := S_Id\<rparr>, s) = (bs, c\<lparr>sharp_mode := S_Id\<rparr>, s)"
    using block_locks_sharp [OF c, of "block_starts extent" s] by (elim exE) (rule that)
  show ?thesis
    by (auto simp: BootFlashGetDescriptor_def Let_def cyc protocols flash_lookup_known known flash_type_def
        read_locks_def bs)
qed


lemma demo_sharp_entry:
  "chip_entry (sharp_manufacturer demo_sharp) (sharp_device demo_sharp)
     = Some (sharp_manufacturer demo_sharp, sharp_device demo_sharp, ''Sharp_LH28F008SC_series'', 0x100000)"
  unfolding flash_chips_def by (simp add: demo_sharp_def)


text \<open>C17. With the master lock set, the update is refused and the chip is as before.\<close>

theorem BootReflashAndReset_locked:
  assumes r: "sharp_ready n (c, s)" and first: "sharp_cells c 0 \<noteq> sharp_manufacturer c" and lock: "sharp_locks c 3 \<noteq> 0"
    and known: "find (\<lambda>r. fst r = sharp_manufacturer c \<and> fst (snd r) = sharp_device c) flash_chips
      = Some (sharp_manufacturer c, sharp_device c, name, extent)"
  shows "BootReflashAndReset sharp_port io bar n pof pba off len (c, s) = Some (Refused 2, c, s)"
  using GetDescriptor_sharp [OF r first known, of "pof\<lparr>m_dwStartOffset := off, m_dwLengthUsedArea := len,
      m_pcallbackFlash := Some (BootFlashUserInterface bar)\<rparr>"] lock
  by (auto simp: BootReflashAndReset_def Let_def)

theorem BootReflashAndReset_locked_witness:
  "BootReflashAndReset sharp_port silent_ports (bar_beside (\<lambda>_ _ _ s. s)) 1000 (demo_of 0 0) [0x12] 0x10000 1
     (demo_sharp\<lparr>sharp_locks := (\<lambda>a. 1)\<rparr>, ()) = Some (Refused 2, demo_sharp\<lparr>sharp_locks := (\<lambda>a. 1)\<rparr>, ())"
proof -
  let ?c = "demo_sharp\<lparr>sharp_locks := (\<lambda>a. 1)\<rparr>"
  have "sharp_ready 1000 (?c, ())" using demo_sharp_ready by (simp add: sharp_ready_def)
  from BootReflashAndReset_locked [OF this] show ?thesis using demo_sharp_entry by (simp add: demo_sharp_def)
qed

section \<open>Failures\<close>

text \<open>C18. A byte that needs a bit set again cannot be programmed: after the retries the result is false, with
  the address, the byte that was written and the byte that was read in the error.\<close>

theorem BootFlashProgram_stuck:
  assumes r: "amd_ready n d" and "\<not> m_fDetectedUsing28xxxConventions pof" and cb: "m_pcallbackFlash pof = None"
    and len: "m_dwLengthUsedArea pof \<noteq> 0" and pba: "pba \<noteq> []"
    and bits: "amd_cells (fst d) (m_dwStartOffset pof) AND hd pba \<noteq> hd pba"
  shows "\<exists>pof' d'. BootFlashProgram amd_port n pof pba d = Some (False, pof', d')
    \<and> m_szAdditionalErrorInfo pof' = Some (Program_failed (m_dwStartOffset pof) (hd pba)
         (amd_cells (fst d) (m_dwStartOffset pof) AND hd pba))"
proof -
  let ?p = "pof\<lparr>m_szAdditionalErrorInfo := None\<rparr>"
  have v: "byte_at pba (unat (0::u32)) = Some (hd pba)" using pba by (cases pba) (simp_all add: byte_at_def)
  obtain d' where d': "program_loop amd_port n ?p pba (m_dwStartOffset pof) (m_dwLengthUsedArea pof) 0 0xffffffff 4 d
    = Some (False, Some (Program_failed (m_dwStartOffset pof) (hd pba)
        (amd_cells (fst d) (m_dwStartOffset pof) AND hd pba)), d')"
    using amd.program_loop_stuck_first [OF r len v bits, of ?p "0xffffffff"] assms(2) cb by auto
  show ?thesis using d' cb by (simp add: BootFlashProgram_def notify_def Let_def)
qed

theorem BootFlashProgram_stuck_witness:
  "\<exists>pof' d'. BootFlashProgram amd_port 7 (demo_of 0x10000 1) [0x0f] (demo_amd, ()) = Some (False, pof', d')
    \<and> m_szAdditionalErrorInfo pof' = Some (Program_failed 0x10000 0x0f 0)"
proof -
  let ?of = "demo_of 0x10000 1 :: (amd_chip \<times> unit) OBJECT_FLASH"
  have p: "\<not> m_fDetectedUsing28xxxConventions ?of" "m_pcallbackFlash ?of = None" "m_dwLengthUsedArea ?of \<noteq> 0"
    "m_dwStartOffset ?of = 0x10000" by (simp_all add: demo_of_def)
  have "amd_cells (fst (demo_amd, ())) (m_dwStartOffset ?of) AND hd [0x0f] \<noteq> hd [0x0f]" by (simp add: demo_amd_def)
  from BootFlashProgram_stuck [OF demo_amd_ready p(1-3) _ this] show ?thesis by (simp add: p(4) demo_amd_def)
qed

text \<open>The identification 0xc2, 0x37 is twice in the table: a Macronix MX29LV008B of 1 MByte is taken for
  the chip of 256 KByte before it.\<close>

lemma BootFlashGetDescriptor_shadowed:
  fixes c :: amd_chip and s :: 's
  assumes r: "amd_ready n (c, s)" and "amd_manufacturer c = 0xC2" "amd_device c = 0x37"
  shows "\<exists>pof'. BootFlashGetDescriptor amd_port aknownflashtypesDefault pof (c, s) = Some (True, pof', c, s)
    \<and> m_dwLengthInBytes pof' = 0x40000
    \<and> (\<exists>name. (amd_manufacturer c, amd_device c, name, 0x100000) \<in> set flash_chips)"
proof -
  have "chip_entry 0xC2 0x37 = Some (0xC2, 0x37, ''Macronix_MX29F022B/NB'', 0x40000)"
    unfolding flash_chips_def by simp
  moreover have "(0xC2, 0x37, ''Macronix_MX29LV008B'', 0x100000) \<in> set flash_chips"
    unfolding flash_chips_def by simp
  ultimately show ?thesis using GetDescriptor_amd [OF r, of pof] assms(2,3) by auto
qed

lemma BootFlashGetDescriptor_shadowed_witness:
  "\<exists>pof'. BootFlashGetDescriptor amd_port aknownflashtypesDefault (demo_of 0 0)
      (demo_amd\<lparr>amd_manufacturer := 0xC2, amd_device := 0x37\<rparr>, ())
    = Some (True, pof', demo_amd\<lparr>amd_manufacturer := 0xC2, amd_device := 0x37\<rparr>, ()) \<and> m_dwLengthInBytes pof' = 0x40000"
proof -
  have "amd_ready 7 (demo_amd\<lparr>amd_manufacturer := 0xC2, amd_device := 0x37\<rparr>, ())"
    using demo_amd_ready by (simp add: amd_ready_def)
  from BootFlashGetDescriptor_shadowed [OF this, of "demo_of 0 0"] show ?thesis by auto
qed

end
