(* ===== verification/Memory.thy ===== *)
theory Memory
  imports CString
begin

text \<open>
  Memory as the code that handles raw addresses sees it: a function from 32-bit addresses to bytes, the
  loads and stores of blocks and words, and copies. What a load gives after a store is proved once,
  for the first stage, the memory probe and the start of Linux.
\<close>

section \<open>Loads and stores\<close>

type_synonym memory = "u32 \<Rightarrow> u8"

definition load_bytes :: "memory \<Rightarrow> u32 \<Rightarrow> nat \<Rightarrow> bytes" where
  "load_bytes m a n = map (\<lambda>i. m (a + of_nat i)) [0..<n]"

definition store_bytes :: "u32 \<Rightarrow> bytes \<Rightarrow> memory \<Rightarrow> memory" where
  "store_bytes a bs m = (\<lambda>x. let i = unat (x - a) in if i < length bs then bs ! i else m x)"

definition load32 :: "memory \<Rightarrow> u32 \<Rightarrow> u32" where
  "load32 m a = le32 (m a) (m (a + 1)) (m (a + 2)) (m (a + 3))"

definition store32 :: "u32 \<Rightarrow> u32 \<Rightarrow> memory \<Rightarrow> memory" where
  "store32 a w = store_bytes a (le32_bytes w)"

lemma length_load [simp]: "length (load_bytes m a n) = n"
  by (simp add: load_bytes_def)

lemma nth_load: "i < n \<Longrightarrow> load_bytes m a n ! i = m (a + of_nat i)"
  by (simp add: load_bytes_def)

lemma load_store_same:
  assumes "length bs < 2 ^ 32"
  shows "load_bytes (store_bytes a bs m) a (length bs) = bs"
  by (rule nth_equalityI)
    (use assms unat_of_nat_u32 in \<open>auto simp: load_bytes_def store_bytes_def Let_def\<close>)

lemma load_slice:
  assumes "load_bytes m a N = f" and "i + n \<le> N"
  shows "load_bytes m (a + of_nat i) n = slice i n f"
proof (rule nth_equalityI)
  fix j assume "j < length (load_bytes m (a + of_nat i) n)"
  then have j: "j < n" by simp
  then have "load_bytes m (a + of_nat i) n ! j = m (a + of_nat (i + j))" by (simp add: nth_load add.assoc)
  also have "\<dots> = f ! (i + j)" using assms j by (auto simp: nth_load)
  finally show "load_bytes m (a + of_nat i) n ! j = slice i n f ! j" using assms j by (auto simp: nth_slice)
qed (use assms in auto)

lemma load32_bytes: "load_bytes m a 4 = le32_bytes w \<Longrightarrow> load32 m a = w"
  by (simp add: load_bytes_def load32_def le32_bytes_def upt_rec le32_of_bytes)

text \<open>Addresses from \<open>lo\<close> up to \<open>hi\<close>, as numbers; what a store leaves alone.\<close>

definition agree_from :: "nat \<Rightarrow> memory \<Rightarrow> memory \<Rightarrow> bool" where
  "agree_from lo m m' \<longleftrightarrow> (\<forall>a. lo \<le> unat a \<longrightarrow> m' a = m a)"

lemma store_elsewhere:
  assumes "unat a + length bs \<le> 2 ^ 32" and "unat x < unat a \<or> unat a + length bs \<le> unat x"
  shows "store_bytes a bs m x = m x"
proof -
  have "\<not> unat (x - a) < length bs"
  proof (cases "unat x < unat a")
    case True
    have "unat (x - a) = 2 ^ 32 + unat x - unat a"
      using True unat_lt_u32 [of a] by (simp add: unat_sub_if_size word_size)
    then show ?thesis using True assms(1) by simp
  next
    case False
    then have "unat (x - a) = unat x - unat a" by (simp add: unat_sub word_le_nat_alt)
    then show ?thesis using assms(2) False by auto
  qed
  then show ?thesis by (simp add: store_bytes_def Let_def)
qed

lemma agree_store:
  "unat a + length bs \<le> lo \<Longrightarrow> lo \<le> 2 ^ 32 \<Longrightarrow> agree_from lo m m' \<Longrightarrow> agree_from lo m (store_bytes a bs m')"
  by (auto simp: agree_from_def store_elsewhere)

lemma agree_refl: "agree_from lo m m" by (simp add: agree_from_def)

lemma agree_load:
  "agree_from lo m m' \<Longrightarrow> lo \<le> unat a \<Longrightarrow> unat a + n \<le> 2 ^ 32 \<Longrightarrow> load_bytes m' a n = load_bytes m a n"
  by (rule nth_equalityI) (auto simp: nth_load agree_from_def unat_word_ariths unat_of_nat_u32)

lemma load_store_apart:
  assumes "unat a + n \<le> 2 ^ 32" and "unat b + length bs \<le> 2 ^ 32"
    and "unat a + n \<le> unat b \<or> unat b + length bs \<le> unat a"
  shows "load_bytes (store_bytes b bs m) a n = load_bytes m a n"
proof (rule nth_equalityI)
  fix i assume "i < length (load_bytes (store_bytes b bs m) a n)"
  then have i: "i < n" by simp
  then have "unat (a + of_nat i) = unat a + i" using assms(1) by (simp add: unat_word_ariths unat_of_nat_u32)
  then have "store_bytes b bs m (a + of_nat i) = m (a + of_nat i)"
    using assms(2,3) i by (intro store_elsewhere) auto
  with i show "load_bytes (store_bytes b bs m) a n ! i = load_bytes m a n ! i" by (simp add: nth_load)
qed simp

lemma load_store_inside:
  assumes "unat b + length bs \<le> 2 ^ 32" and "i + n \<le> length bs" and "0 < n"
  shows "load_bytes (store_bytes b bs m) (b + of_nat i) n = slice i n bs"
proof -
  have "load_bytes (store_bytes b bs m) b (length bs) = bs \<or> length bs = 2 ^ 32"
    using load_store_same [of bs b m] unat_lt_u32 [of b] assms(1) by (cases "length bs < 2 ^ 32") auto
  then show ?thesis
  proof
    assume "load_bytes (store_bytes b bs m) b (length bs) = bs"
    from load_slice [OF this assms(2)] show ?thesis .
  next
    assume full: "length bs = 2 ^ 32"
    then have "unat b = 0" using assms(1) by simp
    then have b: "b = 0" by (simp add: unat_eq_zero)
    show ?thesis
      by (rule nth_equalityI)
        (use assms full in \<open>auto simp: nth_load store_bytes_def Let_def b nth_slice unat_of_nat_u32 add.commute
            simp flip: of_nat_add\<close>)
  qed
qed

text \<open>A forward copy has no defined result when it overwrites source bytes it has not read yet.\<close>

definition mem_copy :: "u32 \<Rightarrow> u32 \<Rightarrow> u32 \<Rightarrow> memory \<Rightarrow> memory option" where
  "mem_copy dst src n m =
     (if dst = src \<or> n \<le> dst - src then Some (store_bytes dst (load_bytes m src (unat n)) m) else None)"

section \<open>Fields\<close>

text \<open>Stores at offsets from a base, the last one first, and what they leave in a field.\<close>

fun patch :: "u32 \<Rightarrow> (nat \<times> bytes) list \<Rightarrow> memory \<Rightarrow> memory" where
  "patch base [] m = m"
| "patch base ((off, bs) # fs) m = store_bytes (base + of_nat off) bs (patch base fs m)"

fun last_write :: "(nat \<times> bytes) list \<Rightarrow> nat \<Rightarrow> nat \<Rightarrow> bytes option" where
  "last_write [] off n = None"
| "last_write ((p, bs) # fs) off n =
     (if off + n \<le> p \<or> p + length bs \<le> off then last_write fs off n
      else if p \<le> off \<and> off + n \<le> p + length bs then Some (slice (off - p) n bs) else None)"

lemma unat_base_offset: "unat (base :: u32) + k \<le> 2 ^ 32 \<Longrightarrow> off < k \<Longrightarrow> unat (base + of_nat off) = unat base + off"
  by (simp add: unat_word_ariths unat_of_nat_u32)

lemma load_patch:
  assumes "\<forall>(p, bs)\<in>set fs. p + length bs \<le> k \<and> bs \<noteq> []" and "unat base + k \<le> 2 ^ 32" and "off + n \<le> k" and "0 < n"
    and "last_write fs off n = Some v"
  shows "load_bytes (patch base fs m) (base + of_nat off) n = v"
  using assms(1,5)
proof (induction fs)
  case (Cons f fs)
  obtain p bs where f: "f = (p, bs)" by fastforce
  have p: "p + length bs \<le> k" "bs \<noteq> []" using Cons.prems(1) by (auto simp: f)
  have u: "unat (base + of_nat p) = unat base + p" "unat (base + of_nat off) = unat base + off"
    using unat_base_offset [OF assms(2)] p assms(3,4) by (auto simp: neq_Nil_conv)
  show ?case
  proof (cases "off + n \<le> p \<or> p + length bs \<le> off")
    case True
    then have "load_bytes (patch base (f # fs) m) (base + of_nat off) n = load_bytes (patch base fs m) (base + of_nat off) n"
      using p assms(2,3) unfolding f patch.simps by (intro load_store_apart) (auto simp: u)
    with Cons True show ?thesis by (auto simp: f)
  next
    case False
    then have in_bs: "p \<le> off" "off + n \<le> p + length bs" and v: "v = slice (off - p) n bs"
      using Cons.prems(2) by (auto simp: f split: if_splits)
    have "load_bytes (store_bytes (base + of_nat p) bs (patch base fs m)) (base + of_nat p + of_nat (off - p)) n
        = slice (off - p) n bs"
      using p in_bs assms(2,4) by (intro load_store_inside) (auto simp: u)
    moreover have "base + of_nat p + of_nat (off - p) = base + (of_nat off :: u32)"
      using in_bs(1) by (simp add: of_nat_diff)
    ultimately show ?thesis by (simp add: f v)
  qed
qed simp

lemma load_patch_apart:
  assumes "\<forall>(p, bs)\<in>set fs. p + length bs \<le> k" and "unat base + k \<le> 2 ^ 32" and "unat a + n \<le> 2 ^ 32"
    and "unat a + n \<le> unat base \<or> unat base + k \<le> unat a"
  shows "load_bytes (patch base fs m) a n = load_bytes m a n"
  using assms(1)
proof (induction fs)
  case (Cons f fs)
  obtain p bs where f: "f = (p, bs)" by fastforce
  have p: "p + length bs \<le> k" using Cons.prems(1) by (auto simp: f)
  show ?case
  proof (cases "bs = []")
    case True
    then show ?thesis using Cons by (simp add: f store_bytes_def)
  next
    case False
    then have "p < k" using p by (cases bs) auto
    then have u: "unat (base + of_nat p) = unat base + p" using unat_base_offset [OF assms(2)] by simp
    have "load_bytes (store_bytes (base + of_nat p) bs (patch base fs m)) a n = load_bytes (patch base fs m) a n"
      using p assms(2-4) by (intro load_store_apart) (auto simp: u)
    then show ?thesis using Cons by (auto simp: f)
  qed
qed simp

end
