(* ===== verification/BootRom.thy ===== *)
theory BootRom
  imports I2c Sha1 Memory
begin

text \<open>
  The first stage, \<open>boot_rom/2bBootStartBios.c\<close> and \<open>2bPicResponseAction.c\<close>: the code that
  \<open>boot_rom/2bBootStartup.S\<close> copies to RAM and enters after reset. It checks itself, answers the
  challenge of the PIC, looks for a good image in the banks of the flash, unpacks it and jumps.

  Memory is the whole address space, RAM, mapped flash and the registers of the video chip alike,
  as a function from addresses to bytes; the ports are those of \<open>PortIO\<close>. The unpacker
  (\<open>lib/gzip\<close>) is a parameter: it is given where to put its output and where its input is.
\<close>

section \<open>The SMBus and the LED\<close>

text \<open>The first stage has its own transfers: 400 attempts, and a data byte is written as a byte.\<close>

fun rom_get_attempts :: "'d ports \<Rightarrow> nat \<Rightarrow> u8 \<Rightarrow> u8 \<Rightarrow> nat \<Rightarrow> 'd \<Rightarrow> (u32 \<times> 'd) option" where
  "rom_get_attempts io n a r 0 d = Some (ERR_I2C_ERROR_BUS, d)"
| "rom_get_attempts io n a r (Suc k) d =
     (let d = IoOutputByte io (I2C_IO_BASE + 4) (read_address a) d;
          d = IoOutputByte io (I2C_IO_BASE + 8) r d;
          d = IoOutputWord io (I2C_IO_BASE + 0) 0xffff d;
          d = IoOutputByte io (I2C_IO_BASE + 2) 0x0a d
      in case poll_byte io (I2C_IO_BASE + 0) (\<lambda>b. b AND 0x36 \<noteq> 0) n d of
           None \<Rightarrow> None
         | Some (b, d) \<Rightarrow>
             if b AND 0x10 = 0 then rom_get_attempts io n a r k d
             else (let (v, d) = IoInputByte io (I2C_IO_BASE + 6) d in Some (ucast v, d)))"

definition rom_I2CTransmitByteGetReturn :: "'d ports \<Rightarrow> nat \<Rightarrow> u8 \<Rightarrow> u8 \<Rightarrow> 'd \<Rightarrow> (u32 \<times> 'd) option" where
  "rom_I2CTransmitByteGetReturn io n a r d = do {
     (_, d) \<leftarrow> poll_word io (I2C_IO_BASE + 0) (\<lambda>w. w AND 0x0800 = 0) n d;
     rom_get_attempts io n a r 400 d }"

fun rom_put_attempts :: "'d ports \<Rightarrow> nat \<Rightarrow> u8 \<Rightarrow> u16 \<Rightarrow> nat \<Rightarrow> 'd \<Rightarrow> (u32 \<times> 'd) option" where
  "rom_put_attempts io n a w 0 d = Some (ERR_I2C_ERROR_BUS, d)"
| "rom_put_attempts io n a w (Suc k) d =
     (let d = IoOutputByte io (I2C_IO_BASE + 4) (write_address a) d;
          d = IoOutputByte io (I2C_IO_BASE + 8) (ucast (drop_bit 8 w)) d;
          d = IoOutputByte io (I2C_IO_BASE + 6) (ucast w) d;
          d = IoOutputWord io (I2C_IO_BASE + 0) 0xffff d;
          d = IoOutputByte io (I2C_IO_BASE + 2) 0x1a d
      in case poll_byte io (I2C_IO_BASE + 0) (\<lambda>b. b AND 0x36 \<noteq> 0) n d of
           None \<Rightarrow> None
         | Some (b, d) \<Rightarrow> if b AND 0x10 = 0 then rom_put_attempts io n a w k d else Some (ERR_SUCCESS, d))"

definition rom_I2CTransmitWord :: "'d ports \<Rightarrow> nat \<Rightarrow> u8 \<Rightarrow> u16 \<Rightarrow> 'd \<Rightarrow> (u32 \<times> 'd) option" where
  "rom_I2CTransmitWord io n a w d = do {
     (_, d) \<leftarrow> poll_word io (I2C_IO_BASE + 0) (\<lambda>w. w AND 0x0800 = 0) n d;
     rom_put_attempts io n a w 400 d }"

definition rom_I2cSetFrontpanelLed :: "'d ports \<Rightarrow> nat \<Rightarrow> u8 \<Rightarrow> 'd \<Rightarrow> (u32 \<times> 'd) option" where
  "rom_I2cSetFrontpanelLed io n b d = do {
     (_, d) \<leftarrow> rom_I2CTransmitWord io n 0x10 (0x800 OR ucast b) d;
     (_, d) \<leftarrow> rom_I2CTransmitWord io n 0x10 0x701 d;
     Some (ERR_SUCCESS, d) }"

text \<open>\<open>setLED\<close> of \<open>lib/misc/LED.c\<close> on these transfers, for patterns of four letters.\<close>

definition rom_setLED :: "'d ports \<Rightarrow> nat \<Rightarrow> bytes \<Rightarrow> 'd \<Rightarrow> 'd option" where
  "rom_setLED io n pattern d =
     (if length pattern = 4
      then map_option snd (rom_I2cSetFrontpanelLed io n (led_byte pattern) d) else Some d)"

section \<open>The challenge of the PIC\<close>

fun pic_rounds :: "nat \<Rightarrow> u8 \<Rightarrow> u8 \<Rightarrow> u8 \<Rightarrow> u8 \<Rightarrow> u8 \<times> u8" where
  "pic_rounds 0 b1 b2 b3 b4 = (b1, b2)"
| "pic_rounds (Suc n) b1 b2 b3 b4 =
     (let b1 = b1 + (b2 XOR b3); b2 = b2 + (b1 XOR b4) in pic_rounds n b1 b2 b3 b4)"

definition BootPicManipulation :: "u8 \<Rightarrow> u8 \<Rightarrow> u8 \<Rightarrow> u8 \<Rightarrow> u16" where
  "BootPicManipulation bC bD bE bF =
     (let b3 = push_bit 2 bC XOR (bD + 0x39) XOR drop_bit 2 bE XOR (bF + 0x63);
          b4 = (bC + 0x0b) XOR drop_bit 2 bD XOR (bE + 0x1b);
          (b1, b2) = pic_rounds 4 0x33 0xed b3 b4
      in push_bit 8 (ucast b2) OR ucast b1)"

text \<open>The four bytes of the challenge, in order; a negative value is an error.\<close>

fun get_challenge :: "'d ports \<Rightarrow> nat \<Rightarrow> u8 list \<Rightarrow> 'd \<Rightarrow> ((u32 + u8 list) \<times> 'd) option" where
  "get_challenge io n [] d = Some (Inr [], d)"
| "get_challenge io n (r # rs) d = do {
     (v, d) \<leftarrow> rom_I2CTransmitByteGetReturn io n 0x10 r d;
     if v <s 0 then Some (Inl v, d)
     else do {
       (x, d) \<leftarrow> get_challenge io n rs d;
       Some (map_sum id ((#) (ucast v)) x, d) } }"

definition BootPerformPicChallengeResponseAction :: "'d ports \<Rightarrow> nat \<Rightarrow> 'd \<Rightarrow> (u32 \<times> 'd) option" where
  "BootPerformPicChallengeResponseAction io n d = do {
     (x, d) \<leftarrow> get_challenge io n [0x1c, 0x1d, 0x1e, 0x1f] d;
     case x of
       Inl e \<Rightarrow> Some (e, d)
     | Inr b \<Rightarrow> do {
         let w = BootPicManipulation (b ! 0) (b ! 1) (b ! 2) (b ! 3);
         (_, d) \<leftarrow> rom_I2CTransmitWord io n 0x10 (0x2000 OR (w AND 0xff)) d;
         (_, d) \<leftarrow> rom_I2CTransmitWord io n 0x10 (0x2100 OR drop_bit 8 w) d;
         Some (ERR_SUCCESS, d) } }"

section \<open>PCI configuration\<close>

definition rom_pci_address :: "u32 \<Rightarrow> u32 \<Rightarrow> u32 \<Rightarrow> u32 \<Rightarrow> u32" where
  "rom_pci_address bus dev func reg_off =
     0x80000000 OR push_bit 16 (bus AND 0xff) OR push_bit 11 (dev AND 0x1f) OR push_bit 8 (func AND 0x07)
     OR (reg_off AND 0xff)"

definition rom_PciWriteDword :: "'d ports \<Rightarrow> u32 \<Rightarrow> u32 \<Rightarrow> u32 \<Rightarrow> u32 \<Rightarrow> u32 \<Rightarrow> 'd \<Rightarrow> 'd" where
  "rom_PciWriteDword io bus dev func reg_off dw d =
     IoOutputDword io 0xcfc dw (IoOutputDword io 0xcf8 (rom_pci_address bus dev func reg_off) d)"

definition rom_PciReadDword :: "'d ports \<Rightarrow> u32 \<Rightarrow> u32 \<Rightarrow> u32 \<Rightarrow> u32 \<Rightarrow> 'd \<Rightarrow> u32 \<times> 'd" where
  "rom_PciReadDword io bus dev func reg_off d =
     IoInputDword io 0xcfc (IoOutputDword io 0xcf8 (rom_pci_address bus dev func reg_off) d)"

definition BootAGPBUSInitialization :: "'d ports \<Rightarrow> 'd \<Rightarrow> 'd" where
  "BootAGPBUSInitialization io d =
     (let (v, d) = rom_PciReadDword io 0 1 0 0x54 d;
          d = rom_PciWriteDword io 0 1 0 0x54 (v OR 0x88000000) d;
          (v, d) = rom_PciReadDword io 0 0 0 0x64 d;
          d = rom_PciWriteDword io 0 0 0 0x64 (v OR 0x88000000) d;
          (temp, d) = rom_PciReadDword io 0 0 0 0x6C d;
          d = IoOutputDword io 0xcfc (temp AND 0xFFFFFFFE) d;
          d = IoOutputDword io 0xcfc temp d
      in rom_PciWriteDword io 0 0 0 0x80 0x00000100 d)"

section \<open>The loader\<close>

abbreviation (input) "PROGRAMM_Memory_2bl \<equiv> 0x00100000 :: u32"
abbreviation (input) "CROMWELL_Memory_pos \<equiv> 0x03A00000 :: u32"
abbreviation (input) "CROMWELL_compress_temploc \<equiv> 0x02000000 :: u32"

definition Buildinflash_Flash :: "u32 list" where
  "Buildinflash_Flash = [0xfff00000, 0xfff40000, 0xfff80000, 0xfffc0000]"

text \<open>The bank of a try: an image of 256 KByte is in the last one, one of 1 MByte is looked for in
  bank 1, 2, 0 and 3, 25 times each.\<close>

definition choose_bank :: "u32 \<Rightarrow> nat \<Rightarrow> u32 \<Rightarrow> u32" where
  "choose_bank Biossize_type loadretry flashbank =
     (if Biossize_type = 0 then 3
      else if Biossize_type = 1
      then (if loadretry = 0 then 1 else if loadretry = 25 then 2 else if loadretry = 50 then 0
            else if loadretry = 75 then 3 else flashbank)
      else flashbank)"

definition flash_address :: "u32 \<Rightarrow> u32 \<Rightarrow> u32" where
  "flash_address flashbank start = Buildinflash_Flash ! unat flashbank + start"

text \<open>One try: copy the image to RAM, clear 20 KByte behind it, hash it and compare.\<close>

definition try_bank ::
  "u32 \<Rightarrow> u32 \<Rightarrow> u32 \<Rightarrow> bytes \<Rightarrow> SHA1Context \<Rightarrow> memory \<Rightarrow> (bool \<times> bytes \<times> SHA1Context \<times> memory) option" where
  "try_bank flashbank start sz result c m = do {
     let sum = load_bytes m (flash_address flashbank start) 20;
     let m = store_bytes CROMWELL_compress_temploc
               (load_bytes m (flash_address flashbank start + 20) (unat sz)) m;
     let m = store_bytes (CROMWELL_compress_temploc + sz) (replicate (20 * 1024) 0) m;
     let (result, c) = sha1_buffer (load_bytes m CROMWELL_compress_temploc (unat sz)) result c;
     same \<leftarrow> memcmp sum result 20;
     Some (same = 0, result, c, m) }"

fun load_tries ::
  "u32 \<Rightarrow> u32 \<Rightarrow> u32 \<Rightarrow> nat list \<Rightarrow> u32 \<Rightarrow> bytes \<Rightarrow> SHA1Context \<Rightarrow> memory \<Rightarrow> (u32 option \<times> memory) option" where
  "load_tries typ start sz [] flashbank result c m = Some (None, m)"
| "load_tries typ start sz (loadretry # retries) flashbank result c m = do {
     let flashbank = choose_bank typ loadretry flashbank;
     (good, result, c, m) \<leftarrow> try_bank flashbank start sz result c m;
     if good then Some (Some flashbank, m) else load_tries typ start sz retries flashbank result c m }"

text \<open>The words left for the second stage. \<open>cromloadtry\<close> is set to 0 and counted up in every try,
  so it is 1.\<close>

definition leave_words :: "u32 \<Rightarrow> u32 \<Rightarrow> memory \<Rightarrow> memory" where
  "leave_words flashbank Biossize_type m =
     store32 (CROMWELL_Memory_pos + 0x2C) Biossize_type
       (store32 (CROMWELL_Memory_pos + 0x28) (flashbank + 1)
         (store32 (CROMWELL_Memory_pos + 0x24) 1
           (store32 (CROMWELL_Memory_pos + 0x20) 1 m)))"

text \<open>The ends: the jump to the second stage, or one of the two endless loops.\<close>

datatype rom_end = Jump_to_Cromwell | Self_check_failed | No_valid_image

definition BootStartBiosLoader ::
  "'d ports \<Rightarrow> nat \<Rightarrow> (u32 \<Rightarrow> u32 \<Rightarrow> u32 \<Rightarrow> memory \<Rightarrow> memory option) \<Rightarrow> SHA1Context \<Rightarrow> bytes
     \<Rightarrow> memory \<Rightarrow> 'd \<Rightarrow> (rom_end \<times> memory \<times> 'd) option" where
  "BootStartBiosLoader io n decompress_kernel context SHA1_result m d = do {
     let bootloaderChecksum = load_bytes m PROGRAMM_Memory_2bl 20;
     let bootloadersize = load32 m (PROGRAMM_Memory_2bl + 20);
     let compressed_image_start = load32 m (PROGRAMM_Memory_2bl + 24);
     let compressed_image_size = load32 m (PROGRAMM_Memory_2bl + 28);
     let Biossize_type = load32 m (PROGRAMM_Memory_2bl + 32);
     let (SHA1_result, context) =
       sha1_buffer (load_bytes m (PROGRAMM_Memory_2bl + 20) (unat (bootloadersize - 20))) SHA1_result context;
     same \<leftarrow> memcmp bootloaderChecksum SHA1_result 20;
     if same \<noteq> 0 then Some (Self_check_failed, m, d)
     else do {
       (_, d) \<leftarrow> BootPerformPicChallengeResponseAction io n d;
       let m = store32 0xFD600800 (0xf0000000 OR (64 * 0x100000 - 0x00400000)) m;
       let d = BootAGPBUSInitialization io d;
       let m = store32 (0xFD000000 + 0x100200) 0x03070103 m;
       let m = store32 (0xFD000000 + 0x100204) 0x11448000 m;
       let d = rom_PciWriteDword io 0 0 0 0x84 0x7FFFFFF d;
       (found, m) \<leftarrow> load_tries Biossize_type compressed_image_start compressed_image_size [0..<100] 3
                      SHA1_result context m;
       case found of
         None \<Rightarrow> do {
           d \<leftarrow> rom_setLED io n errorLED d;
           Some (No_valid_image, m, d) }
       | Some flashbank \<Rightarrow> do {
           d \<leftarrow> rom_setLED io n highLED d;
           m \<leftarrow> decompress_kernel CROMWELL_Memory_pos CROMWELL_compress_temploc compressed_image_size m;
           let m = leave_words flashbank Biossize_type m;
           d \<leftarrow> rom_setLED io n [0x6f, 0x6f, 0x6f, 0x6f] d;
           Some (Jump_to_Cromwell, m, d) } } }"

end
