(* ===== verification/BootRomCorrect.thy ===== *)
theory BootRomCorrect
  imports BootRom
begin

text \<open>
  The first stage on the reference SMBus controller of \<open>I2c\<close>: the answer to the PIC, and what the
  loader does with every content of the flash: which bank it takes, what it hands to the unpacker
  and what it leaves for the second stage.
\<close>

section \<open>Transfers\<close>

lemma smb_clear_all:
  "IoOutputWord smb_ports I2C_IO_BASE 0xffff d = d\<lparr>s_status := 0\<rparr>"
proof -
  have z: "(- 65536 :: u16) = 0" by code_simp
  have "w AND - 65536 = 0" for w :: u16 by (subst z) simp
  then show ?thesis by (simp add: smb_ports_def)
qed

lemma rom_get_smb:
  assumes "s_wait d = 0" and "s_lag d < n" and "a < 0x80"
  shows "s_rejects d < k \<Longrightarrow> \<exists>d'. rom_get_attempts smb_ports n a r k d = Some (ucast (s_chip d a r), d')
    \<and> s_chip d' = s_chip d \<and> s_wait d' = 0 \<and> s_lag d' = s_lag d \<and> s_rejects d' = 0 \<and> s_status d' AND 0x0800 = 0"
  using assms(1,2)
proof (induction k arbitrary: d)
  case (Suc k)
  let ?d = "d\<lparr>s_addr := read_address a, s_reg := r, s_status := 0\<rparr>"
  have p: "poll_byte smb_ports I2C_IO_BASE (\<lambda>b. b AND 0x36 \<noteq> 0) n (smb_start ?d) =
      Some (if s_rejects d > 0 then 4 else 0x10, smb_try (read_address a) r d)"
    using smb_start_poll [of ?d n] Suc.prems by (simp add: smb_try_def)
  have v: "(ucast (ucast (w :: u8) :: u16) :: u8) = w" for w
    by (rule bit_word_eqI) (auto simp: bit_simps)
  show ?case
  proof (cases "s_rejects d")
    case 0
    then show ?thesis
      using Suc.prems p v by (simp add: smb_ports_simps smb_clear_all smb_try_read [OF assms(3)])
  next
    case (Suc j)
    then have d: "smb_try (read_address a) r d
      = d\<lparr>s_addr := read_address a, s_reg := r, s_wait := 0, s_rejects := j, s_status := 4\<rparr>"
      by (simp add: smb_try_read [OF assms(3)])
    have "rom_get_attempts smb_ports n a r (Suc k) d = rom_get_attempts smb_ports n a r k (smb_try (read_address a) r d)"
      using p Suc by (simp add: smb_ports_simps smb_clear_all)
    moreover have "s_rejects (smb_try (read_address a) r d) < k" "s_wait (smb_try (read_address a) r d) = 0"
      "s_lag (smb_try (read_address a) r d) < n" using Suc Suc.prems by (simp_all add: d)
    ultimately show ?thesis using Suc.IH [of "smb_try (read_address a) r d"] by (simp add: d)
  qed
qed simp

lemma rom_put_smb:
  assumes "s_wait d = 0" and "s_lag d < n" and "a < 0x80"
  shows "s_rejects d < k \<Longrightarrow> \<exists>d'. rom_put_attempts smb_ports n a w k d = Some (ERR_SUCCESS, d')
    \<and> s_chip d' = (s_chip d)(a := (s_chip d a)(ucast (drop_bit 8 w) := ucast w))
    \<and> s_wait d' = 0 \<and> s_lag d' = s_lag d \<and> s_rejects d' = 0 \<and> s_status d' AND 0x0800 = 0"
  using assms(1,2)
proof (induction k arbitrary: d)
  case (Suc k)
  let ?r = "ucast (drop_bit 8 w) :: u8"
  let ?e = "d\<lparr>s_data := ucast (ucast w :: u8)\<rparr>"
  let ?d = "?e\<lparr>s_addr := write_address a, s_reg := ?r, s_status := 0\<rparr>"
  let ?t = "smb_try (write_address a) ?r ?e"
  have step: "IoOutputByte smb_ports 0xc002 0x1a (IoOutputWord smb_ports I2C_IO_BASE 0xffff
      (IoOutputByte smb_ports 0xc006 (ucast w) (IoOutputByte smb_ports 0xc008 ?r
        (IoOutputByte smb_ports 0xc004 (write_address a) d)))) = smb_start ?d"
  proof -
    have "d\<lparr>s_addr := x, s_reg := y, s_data := z, s_status := 0\<rparr> = d\<lparr>s_data := z, s_addr := x, s_reg := y, s_status := 0\<rparr>"
      for x y z by simp
    then show ?thesis by (simp only: smb_ports_simps smb_clear_all)
  qed
  have p: "poll_byte smb_ports I2C_IO_BASE (\<lambda>b. b AND 0x36 \<noteq> 0) n (smb_start ?d) =
      Some (if s_rejects d > 0 then 4 else 0x10, ?t)"
    using smb_start_poll [of ?d n] Suc.prems by (simp add: smb_try_def)
  have v: "(ucast (ucast (x :: u8) :: u16) :: u8) = x" for x
    by (rule bit_word_eqI) (auto simp: bit_simps)
  show ?case
  proof (cases "s_rejects d")
    case 0
    have "?t = ?e\<lparr>s_addr := write_address a, s_reg := ?r, s_wait := 0, s_status := 0x10,
        s_chip := (s_chip d)(a := (s_chip d a)(?r := ucast w))\<rparr>"
      using 0 v by (simp add: smb_try_write [OF assms(3)])
    moreover have "rom_put_attempts smb_ports n a w (Suc k) d = Some (ERR_SUCCESS, ?t)"
      using p step 0 by simp
    ultimately show ?thesis using 0 Suc.prems by (simp add: fun_upd_def)
  next
    case (Suc j)
    then have d: "?t = ?e\<lparr>s_addr := write_address a, s_reg := ?r, s_wait := 0, s_rejects := j, s_status := 4\<rparr>"
      by (simp add: smb_try_write [OF assms(3)])
    have "rom_put_attempts smb_ports n a w (Suc k) d = rom_put_attempts smb_ports n a w k ?t"
      using p step Suc by simp
    moreover have "s_rejects ?t < k" "s_wait ?t = 0" "s_lag ?t < n" using Suc Suc.prems by (simp_all add: d)
    ultimately show ?thesis using Suc.IH [of ?t] by (simp add: d)
  qed
qed simp

lemma rom_get:
  assumes "smb_ready n d" and "a < 0x80"
  obtains d' where "rom_I2CTransmitByteGetReturn smb_ports n a r d = Some (ucast (s_chip d a r), d')"
    "smb_ready n d'" "s_chip d' = s_chip d"
proof -
  have d: "s_wait d = 0" "s_status d AND 0x0800 = 0" "s_rejects d < 400" "s_lag d < n" "0 < n"
    using assms(1) by (auto simp: smb_ready_def)
  from rom_get_smb [OF d(1,4) assms(2) d(3), of r] smb_not_busy [OF d(1,2,5)] that d(4) show ?thesis
    by (auto simp: rom_I2CTransmitByteGetReturn_def smb_ready_def)
qed

lemma rom_put:
  assumes "smb_ready n d" and "a < 0x80"
  obtains d' where "rom_I2CTransmitWord smb_ports n a w d = Some (ERR_SUCCESS, d')" "smb_ready n d'"
    "s_chip d' = (s_chip d)(a := (s_chip d a)(ucast (drop_bit 8 w) := ucast w))"
proof -
  have d: "s_wait d = 0" "s_status d AND 0x0800 = 0" "s_rejects d < 400" "s_lag d < n" "0 < n"
    using assms(1) by (auto simp: smb_ready_def)
  from rom_put_smb [OF d(1,4) assms(2) d(3), of w] smb_not_busy [OF d(1,2,5)] that d(4) show ?thesis
    by (auto simp: rom_I2CTransmitWord_def smb_ready_def)
qed

lemma rom_led:
  assumes "smb_ready n d"
  obtains d' where "rom_setLED smb_ports n p d = Some d'" "smb_ready n d'"
proof (cases "length p = 4")
  case True
  obtain d1 where d1: "rom_I2CTransmitWord smb_ports n 0x10 (0x800 OR ucast (led_byte p)) d = Some (ERR_SUCCESS, d1)"
    "smb_ready n d1" using rom_put [OF assms, of "0x10" "0x800 OR ucast (led_byte p)"] by auto
  obtain d2 where d2: "rom_I2CTransmitWord smb_ports n 0x10 0x701 d1 = Some (ERR_SUCCESS, d2)" "smb_ready n d2"
    using rom_put [OF d1(2), of "0x10" "0x701"] by auto
  show ?thesis by (rule that [OF _ d2(2)]) (simp add: rom_setLED_def rom_I2cSetFrontpanelLed_def True d1(1) d2(1))
qed (use assms that in \<open>simp add: rom_setLED_def\<close>)

section \<open>The challenge\<close>

lemma byte_not_negative: "\<not> (ucast (b :: u8) :: u32) <s 0"
  by (rule all_u8 [of _ b]) code_simp

lemma get_challenge_smb:
  assumes "smb_ready n d"
  obtains d' where "get_challenge smb_ports n rs d = Some (Inr (map (s_chip d 0x10) rs), d')" "smb_ready n d'"
    "s_chip d' = s_chip d"
  using assms
proof (induction rs arbitrary: d thesis)
  case (Cons r rs)
  obtain d1 where d1: "rom_I2CTransmitByteGetReturn smb_ports n 0x10 r d = Some (ucast (s_chip d 0x10 r), d1)"
    "smb_ready n d1" "s_chip d1 = s_chip d"
    using rom_get [OF Cons.prems(2), of "0x10" r] by auto
  obtain d2 where d2: "get_challenge smb_ports n rs d1 = Some (Inr (map (s_chip d1 0x10) rs), d2)" "smb_ready n d2"
    "s_chip d2 = s_chip d1"
    using Cons.IH [OF _ d1(2)] by metis
  have "(ucast (ucast (b :: u8) :: u32) :: u8) = b" for b by (rule bit_word_eqI) (auto simp: bit_simps)
  then show ?case
    by (intro Cons.prems(1) [OF _ d2(2)]) (simp_all add: d1 d2 byte_not_negative)
qed simp

lemma word_halves:
  "(ucast (drop_bit 8 (0x2000 OR (w AND 0xff) :: u16)) :: u8) = 0x20" "(ucast (0x2000 OR (w AND 0xff) :: u16) :: u8) = ucast w"
  "(ucast (drop_bit 8 (0x2100 OR drop_bit 8 w :: u16)) :: u8) = 0x21"
  "(ucast (0x2100 OR drop_bit 8 w :: u16) :: u8) = ucast (drop_bit 8 w)"
proof -
  have "0x2000 = (2 ^ 13 :: u16)" by simp
  then have b: "bit (0x2000 :: u16) k \<longleftrightarrow> k = 13" for k by (simp only: bit_exp_iff) auto
  have "0x2100 = (2 ^ 13 OR 2 ^ 8 :: u16)" by simp
  then have b': "bit (0x2100 :: u16) k \<longleftrightarrow> k = 13 \<or> k = 8" for k by (simp only: bit_or_iff bit_exp_iff) auto
  have "0x20 = (2 ^ 5 :: u8)" by simp
  then have c: "bit (0x20 :: u8) k \<longleftrightarrow> k = 5" for k by (simp only: bit_exp_iff) auto
  have "0x21 = (2 ^ 5 OR 2 ^ 0 :: u8)" by simp
  then have c': "bit (0x21 :: u8) k \<longleftrightarrow> k = 5 \<or> k = 0" for k by (simp only: bit_or_iff bit_exp_iff) auto
  have mask: "(0xff :: u16) = mask 8" by (simp add: mask_eq_exp_minus_1)
  have m: "bit (0xff :: u16) k \<longleftrightarrow> k < 8" for k unfolding mask by (auto simp only: bit_mask_iff) simp
  note bits = bit_ucast_iff bit_drop_bit_eq o_apply bit_or_iff bit_and_iff b b' c c' m
  show "(ucast (drop_bit 8 (0x2000 OR (w AND 0xff) :: u16)) :: u8) = 0x20"
    by (rule bit_word_eqI, simp only: bits) auto
  show "(ucast (0x2000 OR (w AND 0xff) :: u16) :: u8) = ucast w"
    by (rule bit_word_eqI, simp only: bits) auto
  show "(ucast (drop_bit 8 (0x2100 OR drop_bit 8 w :: u16)) :: u8) = 0x21"
    by (rule bit_word_eqI, simp only: bits) (auto dest: bit_imp_le_length)
  show "(ucast (0x2100 OR drop_bit 8 w :: u16) :: u8) = ucast (drop_bit 8 w)"
    by (rule bit_word_eqI, simp only: bits) auto
qed

lemma pic_challenge_smb:
  assumes "smb_ready n d"
  shows "\<exists>d'. BootPerformPicChallengeResponseAction smb_ports n d = Some (ERR_SUCCESS, d') \<and> smb_ready n d'
    \<and> s_chip d' = (let w = BootPicManipulation (s_chip d 0x10 0x1c) (s_chip d 0x10 0x1d) (s_chip d 0x10 0x1e)
                              (s_chip d 0x10 0x1f)
                    in (s_chip d)(0x10 := (s_chip d 0x10)(0x20 := ucast w, 0x21 := ucast (drop_bit 8 w))))"
proof -
  let ?g = "s_chip d 0x10"
  define w where "w = BootPicManipulation (?g 0x1c) (?g 0x1d) (?g 0x1e) (?g 0x1f)"
  obtain d1 where d1: "get_challenge smb_ports n [0x1c, 0x1d, 0x1e, 0x1f] d
      = Some (Inr (map ?g [0x1c, 0x1d, 0x1e, 0x1f]), d1)" "smb_ready n d1" "s_chip d1 = s_chip d"
    using get_challenge_smb [OF assms] by blast
  obtain d2 where d2: "rom_I2CTransmitWord smb_ports n 0x10 (0x2000 OR (w AND 0xff)) d1 = Some (ERR_SUCCESS, d2)"
    "smb_ready n d2" "s_chip d2 = (s_chip d)(0x10 := ?g(0x20 := ucast w))"
    using rom_put [OF d1(2), of "0x10" "0x2000 OR (w AND 0xff)"] by (auto simp: d1(3) word_halves)
  obtain d3 where d3: "rom_I2CTransmitWord smb_ports n 0x10 (0x2100 OR drop_bit 8 w) d2 = Some (ERR_SUCCESS, d3)"
    "smb_ready n d3" "s_chip d3 = (s_chip d)(0x10 := ?g(0x20 := ucast w, 0x21 := ucast (drop_bit 8 w)))"
    using rom_put [OF d2(2), of "0x10" "0x2100 OR drop_bit 8 w"] by (auto simp: d2(3) word_halves)
  have "BootPerformPicChallengeResponseAction smb_ports n d = Some (ERR_SUCCESS, d3)"
    using d1(1) d2(1) d3(1)
    by (simp add: BootPerformPicChallengeResponseAction_def w_def [symmetric] Let_def numeral_3_eq_3 numeral_2_eq_2)
  then show ?thesis using d3(2,3) by (simp add: w_def Let_def)
qed

text \<open>C32. The challenge is answered: the bytes in the registers 0x1c to 0x1f of the PIC are combined as the
  code says, the low byte of the result is written to the register 0x20 and the high byte to 0x21,
  whatever transactions collide before.\<close>

theorem BootPerformPicChallengeResponseAction_answers:
  assumes "smb_ready n d"
  shows "\<exists>d'. BootPerformPicChallengeResponseAction smb_ports n d = Some (ERR_SUCCESS, d') \<and> smb_ready n d'
    \<and> s_chip d' = (let w = BootPicManipulation (s_chip d 0x10 0x1c) (s_chip d 0x10 0x1d) (s_chip d 0x10 0x1e)
                              (s_chip d 0x10 0x1f)
                    in (s_chip d)(0x10 := (s_chip d 0x10)(0x20 := ucast w, 0x21 := ucast (drop_bit 8 w))))"
  by (rule pic_challenge_smb [OF assms])

theorem BootPerformPicChallengeResponseAction_answers_witness:
  "\<exists>d'. BootPerformPicChallengeResponseAction smb_ports 4 (blank_smb 2) = Some (ERR_SUCCESS, d')
    \<and> s_chip d' 0x10 0x20 = ucast (BootPicManipulation 0 0 0 0)"
  using BootPerformPicChallengeResponseAction_answers [of 4 "blank_smb 2"]
  by (auto simp: blank_smb_def smb_ready_def Let_def)

section \<open>The search for an image\<close>

definition valid_image :: "memory \<Rightarrow> u32 \<Rightarrow> u32 \<Rightarrow> u32 \<Rightarrow> bool" where
  "valid_image m start sz bank \<longleftrightarrow>
     load_bytes m (flash_address bank start) 20
     = fips_sha1 (load_bytes m (flash_address bank start + 20) (unat sz))"

text \<open>An image that lies within its bank.\<close>

definition in_bank :: "u32 \<Rightarrow> u32 \<Rightarrow> bool" where
  "in_bank start sz \<longleftrightarrow> unat start + 20 + unat sz < 0x40000"

lemma bank_address:
  assumes "bank \<in> {0, 1, 2, 3}" and "in_bank start sz"
  shows "0xfff00000 \<le> unat (flash_address bank start)"
    and "unat (flash_address bank start) + 20 + unat sz \<le> 2 ^ 32"
    and "unat (flash_address bank start + 20) = unat (flash_address bank start) + 20"
  using assms by (auto simp: flash_address_def Buildinflash_Flash_def in_bank_def unat_word_ariths)

lemma try_bank_result:
  assumes b: "bank \<in> {0, 1, 2, 3}" "in_bank start sz" and c: "length (Message_Block c) = 64"
    and a: "agree_from 0xfff00000 m0 m"
  obtains r' c' m' where "try_bank bank start sz r c m = Some (valid_image m0 start sz bank, r', c', m')"
    and "length (Message_Block c') = 64" "agree_from 0xfff00000 m0 m'"
    and "load_bytes m' CROMWELL_compress_temploc (unat sz) = load_bytes m0 (flash_address bank start + 20) (unat sz)"
proof -
  let ?sum = "load_bytes m (flash_address bank start) 20"
  let ?img = "load_bytes m (flash_address bank start + 20) (unat sz)"
  let ?m1 = "store_bytes CROMWELL_compress_temploc ?img m"
  let ?m2 = "store_bytes (CROMWELL_compress_temploc + sz) (replicate (20 * 1024) 0) ?m1"
  note adr = bank_address [OF b]
  have sz: "unat sz \<le> 0x40000" using b(2) by (simp add: in_bank_def)
  have same: "?sum = load_bytes m0 (flash_address bank start) 20" "?img = load_bytes m0 (flash_address bank start + 20) (unat sz)"
    using adr by (intro agree_load [OF a]; simp)+
  have a2: "agree_from 0xfff00000 m0 ?m2"
    using sz by (intro agree_store a) (simp_all add: unat_word_ariths)
  have img: "load_bytes ?m2 CROMWELL_compress_temploc (unat sz) = ?img"
  proof (rule nth_equalityI)
    fix i assume "i < length (load_bytes ?m2 CROMWELL_compress_temploc (unat sz))"
    then have i: "i < unat sz" by simp
    have "unat (CROMWELL_compress_temploc + of_nat i) = 0x2000000 + i"
      using i sz by (simp add: unat_word_ariths unat_of_nat_u32)
    moreover have "unat (CROMWELL_compress_temploc + sz) = 0x2000000 + unat sz"
      using sz by (simp add: unat_word_ariths)
    ultimately have "?m2 (CROMWELL_compress_temploc + of_nat i) = ?m1 (CROMWELL_compress_temploc + of_nat i)"
      using i sz by (intro store_elsewhere) simp_all
    moreover have "?m1 (CROMWELL_compress_temploc + of_nat i) = ?img ! i"
      using i sz by (simp add: store_bytes_def Let_def unat_of_nat_u32)
    ultimately show "load_bytes ?m2 CROMWELL_compress_temploc (unat sz) ! i = ?img ! i"
      using i by (simp add: nth_load)
  qed simp
  define rc where "rc = sha1_buffer ?img r c"
  have rc: "fst rc = fips_sha1 ?img" "length (Message_Block (snd rc)) = 64"
    unfolding rc_def using sha1_buffer_eq [OF c, of ?img r] sz by simp_all
  obtain k where k: "memcmp ?sum (fst rc) 20 = Some k" "k = 0 \<longleftrightarrow> ?sum = fst rc"
    using memcmp_eq [of ?sum 20 "fst rc"] by (auto simp: rc(1))
  have "try_bank bank start sz r c m = Some (k = 0, fst rc, snd rc, ?m2)"
    unfolding try_bank_def Let_def img rc_def [symmetric] split_beta k(1) by simp
  moreover have "k = 0 \<longleftrightarrow> valid_image m0 start sz bank"
    by (simp add: k(2) rc(1) valid_image_def same)
  ultimately show ?thesis using that [of "fst rc" "snd rc" ?m2] rc(2) a2 img same(2) by simp
qed

text \<open>The banks in the order of the tries.\<close>

fun bank_tries :: "u32 \<Rightarrow> nat list \<Rightarrow> u32 \<Rightarrow> u32 list" where
  "bank_tries typ [] bank = []"
| "bank_tries typ (k # ks) bank = (let bank = choose_bank typ k bank in bank # bank_tries typ ks bank)"

lemma load_tries_result:
  assumes sz: "in_bank start sz" and ty: "typ = 0 \<or> typ = 1"
  shows "bank \<in> {0, 1, 2, 3} \<Longrightarrow> length (Message_Block c) = 64 \<Longrightarrow> agree_from 0xfff00000 m0 m \<Longrightarrow>
   \<exists>m'. load_tries typ start sz ks bank r c m = Some (find (valid_image m0 start sz) (bank_tries typ ks bank), m')
     \<and> agree_from 0xfff00000 m0 m'
     \<and> (\<forall>b. find (valid_image m0 start sz) (bank_tries typ ks bank) = Some b \<longrightarrow>
          load_bytes m' CROMWELL_compress_temploc (unat sz) = load_bytes m0 (flash_address b start + 20) (unat sz))"
proof (induction ks arbitrary: bank r c m)
  case (Cons k ks)
  let ?b = "choose_bank typ k bank"
  have b: "?b \<in> {0, 1, 2, 3}" using Cons.prems(1) ty by (auto simp: choose_bank_def)
  from try_bank_result [OF b sz Cons.prems(2,3)] obtain r' c' m' where
    t: "try_bank ?b start sz r c m = Some (valid_image m0 start sz ?b, r', c', m')"
    "length (Message_Block c') = 64" "agree_from 0xfff00000 m0 m'"
    "load_bytes m' CROMWELL_compress_temploc (unat sz) = load_bytes m0 (flash_address ?b start + 20) (unat sz)"
    by blast
  show ?case
  proof (cases "valid_image m0 start sz ?b")
    case True
    then show ?thesis using t by (simp add: Let_def)
  next
    case False
    with Cons.IH [OF b t(2,3), of r'] t(1) show ?thesis by (simp add: Let_def)
  qed
qed simp

lemma bank_tries_append:
  "bank_tries typ (xs @ ys) b = bank_tries typ xs b @ bank_tries typ ys (last (b # bank_tries typ xs b))"
  by (induction xs arbitrary: b) (auto simp: Let_def)

lemma bank_tries_stay:
  "set ks \<inter> {0, 25, 50, 75} = {} \<Longrightarrow> bank_tries 1 ks b = replicate (length ks) b"
  by (induction ks) (auto simp: choose_bank_def Let_def)

lemma bank_tries_256: "bank_tries 0 ks b = replicate (length ks) 3"
  by (induction ks arbitrary: b) (auto simp: choose_bank_def Let_def)

lemma bank_tries_from:
  assumes "k \<in> {0, 25, 50, 75}"
  shows "bank_tries 1 [k..<k + 25] b = replicate 25 (choose_bank 1 k b)"
proof -
  have "[k..<k + 25] = k # [Suc k..<k + 25]" by (simp add: upt_conv_Cons)
  moreover have "set [Suc k..<k + 25] \<inter> {0, 25, 50, 75} = {}" using assms by auto
  ultimately show ?thesis
    by (simp add: Let_def bank_tries_stay replicate_Suc [symmetric] del: replicate_Suc)
qed

lemma find_append_None: "find P (replicate n x @ ys) = (if 0 < n \<and> P x then Some x else find P ys)"
  by (induction n) auto

lemma find_tries:
  "find P (bank_tries 1 [0..<100] 3) = find P [1, 2, 0, 3]"
  "find P (bank_tries 0 [0..<100] 3) = find P [3]"
proof -
  have "[0..<100] = [0..<0 + 25] @ [25..<25 + 25] @ [50..<50 + 25] @ [75..<75 + (25 :: nat)]"
    by (simp only: upt_add_eq_append [of 0 75 25, simplified] upt_add_eq_append [of 0 50 25, simplified]
        upt_add_eq_append [of 0 25 25, simplified]) simp
  then have "bank_tries 1 [0..<100] 3 = replicate 25 1 @ replicate 25 2 @ replicate 25 0 @ replicate 25 3 @ []"
    by (simp only: bank_tries_append bank_tries_from insert_iff simp_thms) (simp add: choose_bank_def)
  then show "find P (bank_tries 1 [0..<100] 3) = find P [1, 2, 0, 3]"
    by (simp only: find_append_None) simp
  show "find P (bank_tries 0 [0..<100] 3) = find P [3]"
    using find_append_None [of P 100 3 "[]"] by (simp add: bank_tries_256)
qed

section \<open>The loader\<close>

lemma agp_smb: "BootAGPBUSInitialization smb_ports d = d" "rom_PciWriteDword smb_ports b v f r w d = d"
  by (simp_all add: BootAGPBUSInitialization_def rom_PciReadDword_def rom_PciWriteDword_def smb_ports_def)

text \<open>The copy of the loader in RAM carries the hash of itself from its size field on.\<close>

definition self_check :: "memory \<Rightarrow> bool" where
  "self_check m \<longleftrightarrow>
     load_bytes m PROGRAMM_Memory_2bl 20 =
     fips_sha1 (load_bytes m (PROGRAMM_Memory_2bl + 20) (unat (load32 m (PROGRAMM_Memory_2bl + 20) - 20)))"

text \<open>The banks in which an image of the given type can be, in the order of the search.\<close>

definition search_order :: "u32 \<Rightarrow> u32 list" where
  "search_order Biossize_type = (if Biossize_type = 0 then [3] else [1, 2, 0, 3])"

lemma self_check_memcmp:
  assumes "length (Message_Block c) = 64"
  obtains k where "memcmp (load_bytes m PROGRAMM_Memory_2bl 20)
      (fst (sha1_buffer (load_bytes m (PROGRAMM_Memory_2bl + 20)
        (unat (load32 m (PROGRAMM_Memory_2bl + 20) - 20))) r c)) 20 = Some k" "k = 0 \<longleftrightarrow> self_check m"
proof -
  let ?buf = "load_bytes m (PROGRAMM_Memory_2bl + 20) (unat (load32 m (PROGRAMM_Memory_2bl + 20) - 20))"
  have h: "fst (sha1_buffer ?buf r c) = fips_sha1 ?buf"
    using sha1_buffer_eq(1) [OF assms, of ?buf r] unat_lt_u32 by simp
  obtain k where "memcmp (load_bytes m PROGRAMM_Memory_2bl 20) (fips_sha1 ?buf) 20 = Some k"
    "k = 0 \<longleftrightarrow> load_bytes m PROGRAMM_Memory_2bl 20 = fips_sha1 ?buf"
    using memcmp_eq [of "load_bytes m PROGRAMM_Memory_2bl 20" 20 "fips_sha1 ?buf"] by auto
  then show ?thesis by (intro that [of k]) (simp_all only: h self_check_def)
qed


lemma BootStartBiosLoader_runs:
  assumes c: "length (Message_Block c) = 64" and self: "self_check m" and d: "smb_ready n d"
    and ty: "load32 m (PROGRAMM_Memory_2bl + 32) = 0 \<or> load32 m (PROGRAMM_Memory_2bl + 32) = 1"
    and start: "start = load32 m (PROGRAMM_Memory_2bl + 24)" and sz: "sz = load32 m (PROGRAMM_Memory_2bl + 28)"
    and fits: "in_bank start sz"
  shows "\<exists>m1 d'. agree_from 0xfff00000 m m1
    \<and> (case find (valid_image m start sz) (search_order (load32 m (PROGRAMM_Memory_2bl + 32))) of
         None \<Rightarrow> BootStartBiosLoader smb_ports n decompress_kernel c r m d = Some (No_valid_image, m1, d')
       | Some b \<Rightarrow>
           load_bytes m1 CROMWELL_compress_temploc (unat sz) = load_bytes m (flash_address b start + 20) (unat sz)
           \<and> BootStartBiosLoader smb_ports n decompress_kernel c r m d
             = map_option (\<lambda>m2. (Jump_to_Cromwell, leave_words b (load32 m (PROGRAMM_Memory_2bl + 32)) m2, d'))
                 (decompress_kernel CROMWELL_Memory_pos CROMWELL_compress_temploc sz m1))"
proof -
  let ?ty = "load32 m (PROGRAMM_Memory_2bl + 32)"
  let ?buf = "load_bytes m (PROGRAMM_Memory_2bl + 20) (unat (load32 m (PROGRAMM_Memory_2bl + 20) - 20))"
  define sh where "sh = sha1_buffer ?buf r c"
  have sh: "length (Message_Block (snd sh)) = 64"
    unfolding sh_def using sha1_buffer_eq(2) [OF c, of ?buf r] unat_lt_u32 by simp
  obtain k where k: "memcmp (load_bytes m PROGRAMM_Memory_2bl 20) (fst sh) 20 = Some k" "k = 0"
    using self_check_memcmp [OF c, of m r] self by (metis sh_def)
  obtain d1 where d1: "BootPerformPicChallengeResponseAction smb_ports n d = Some (ERR_SUCCESS, d1)" "smb_ready n d1"
    using pic_challenge_smb [OF d] by blast
  let ?m = "store32 (0xFD000000 + 0x100204) 0x11448000 (store32 (0xFD000000 + 0x100200) 0x03070103
    (store32 0xFD600800 (0xf0000000 OR (64 * 0x100000 - 0x00400000)) m))"
  have a: "agree_from 0xfff00000 m ?m"
    unfolding store32_def by (intro agree_store agree_refl) simp_all
  obtain m1 where m1: "load_tries ?ty start sz [0..<100] 3 (fst sh) (snd sh) ?m
      = Some (find (valid_image m start sz) (bank_tries ?ty [0..<100] 3), m1)" "agree_from 0xfff00000 m m1"
    "\<forall>b. find (valid_image m start sz) (bank_tries ?ty [0..<100] 3) = Some b \<longrightarrow>
          load_bytes m1 CROMWELL_compress_temploc (unat sz) = load_bytes m (flash_address b start + 20) (unat sz)"
    using load_tries_result [OF fits ty _ sh a, where bank = 3 and ks = "[0..<100]" and r = "fst sh"] by blast
  have order: "find P (bank_tries ?ty [0..<100] 3) = find P (search_order ?ty)" for P
    using ty find_tries by (auto simp: search_order_def)
  have start': "BootStartBiosLoader smb_ports n decompress_kernel c r m d =
    (case find (valid_image m start sz) (search_order ?ty) of
       None \<Rightarrow> do { d \<leftarrow> rom_setLED smb_ports n errorLED d1; Some (No_valid_image, m1, d) }
     | Some flashbank \<Rightarrow> do {
         d \<leftarrow> rom_setLED smb_ports n highLED d1;
         m2 \<leftarrow> decompress_kernel CROMWELL_Memory_pos CROMWELL_compress_temploc sz m1;
         d \<leftarrow> rom_setLED smb_ports n [0x6f, 0x6f, 0x6f, 0x6f] d;
         Some (Jump_to_Cromwell, leave_words flashbank ?ty m2, d) })"
    unfolding BootStartBiosLoader_def Let_def start [symmetric] sz [symmetric] sh_def [symmetric] split_beta k(1)
    by (simp add: k(2) d1(1) agp_smb m1(1) [unfolded order, simplified] split: option.split)
  show ?thesis
  proof (cases "find (valid_image m start sz) (search_order ?ty)")
    case None
    obtain d2 where "rom_setLED smb_ports n errorLED d1 = Some d2" using rom_led [OF d1(2)] by blast
    then show ?thesis using None start' m1(2) by auto
  next
    case (Some b)
    obtain d2 where d2: "rom_setLED smb_ports n highLED d1 = Some d2" "smb_ready n d2" using rom_led [OF d1(2)] by blast
    obtain d3 where d3: "rom_setLED smb_ports n [0x6f, 0x6f, 0x6f, 0x6f] d2 = Some d3" using rom_led [OF d2(2)] by blast
    have "BootStartBiosLoader smb_ports n decompress_kernel c r m d
        = map_option (\<lambda>m2. (Jump_to_Cromwell, leave_words b ?ty m2, d3))
            (decompress_kernel CROMWELL_Memory_pos CROMWELL_compress_temploc sz m1)"
      using start' Some d2(1) d3
      by (cases "decompress_kernel CROMWELL_Memory_pos CROMWELL_compress_temploc sz m1") simp_all
    then show ?thesis using Some m1(2,3) order by auto
  qed
qed


text \<open>A loader of 36 bytes in RAM that checks itself, and one whose hash is spoilt.\<close>

definition loader_words :: bytes where
  "loader_words = le32_bytes 36 @ le32_bytes 0x100 @ le32_bytes 4 @ le32_bytes 0"

lemma loader_words_check:
  assumes "length h = 20"
  shows "self_check (store_bytes PROGRAMM_Memory_2bl (h @ loader_words) (\<lambda>_. 0)) \<longleftrightarrow> h = fips_sha1 loader_words"
    and "load32 (store_bytes PROGRAMM_Memory_2bl (h @ loader_words) (\<lambda>_. 0)) (PROGRAMM_Memory_2bl + 24) = 0x100"
    and "load32 (store_bytes PROGRAMM_Memory_2bl (h @ loader_words) (\<lambda>_. 0)) (PROGRAMM_Memory_2bl + 28) = 4"
    and "load32 (store_bytes PROGRAMM_Memory_2bl (h @ loader_words) (\<lambda>_. 0)) (PROGRAMM_Memory_2bl + 32) = 0"
proof -
  let ?m = "store_bytes PROGRAMM_Memory_2bl (h @ loader_words) (\<lambda>_. 0)"
  have "length (h @ loader_words) = 36" using assms by (simp add: loader_words_def)
  then have m: "load_bytes ?m PROGRAMM_Memory_2bl 36 = h @ loader_words"
    using load_store_same [of "h @ loader_words" PROGRAMM_Memory_2bl "\<lambda>_. 0"] by simp
  have s: "load_bytes ?m (PROGRAMM_Memory_2bl + of_nat (20 + i)) n = slice i n loader_words" if "i + n \<le> 16" for i n
    using load_slice [OF m, of "20 + i" n] that assms by (simp add: slice_def)
  from s [of 0 4] s [of 4 4] s [of 8 4] s [of 12 4]
  have w: "load32 ?m (PROGRAMM_Memory_2bl + 20) = 36" and "load32 ?m (PROGRAMM_Memory_2bl + 24) = 0x100"
    and "load32 ?m (PROGRAMM_Memory_2bl + 28) = 4" and "load32 ?m (PROGRAMM_Memory_2bl + 32) = 0"
    by (simp_all add: loader_words_def slice_def load32_bytes)
  then show "load32 ?m (PROGRAMM_Memory_2bl + 24) = 0x100" "load32 ?m (PROGRAMM_Memory_2bl + 28) = 4"
    "load32 ?m (PROGRAMM_Memory_2bl + 32) = 0" by simp_all
  have "load_bytes ?m PROGRAMM_Memory_2bl 20 = h"
    using load_slice [OF m, of 0 20] assms by (simp add: slice_def)
  moreover have "load_bytes ?m (PROGRAMM_Memory_2bl + 20) 16 = loader_words"
    using s [of 0 16] by (simp add: slice_def loader_words_def)
  ultimately show "self_check ?m \<longleftrightarrow> h = fips_sha1 loader_words" by (simp add: self_check_def w [simplified])
qed



end
