(* ===== verification/Md5.thy ===== *)
theory Md5
  imports Sha1
begin

text \<open>
  The MD5 of \<open>lib/crypt/md5.c\<close>, which \<open>lib/imagebld\<close> writes into the identification of an image.
  \<open>UINT4\<close> is \<open>unsigned long\<close> (\<open>md5.h\<close>), whose width depends on the machine the tool is built for:
  the model is for any width \<open>'u\<close>, and is compared with the algorithm of RFC 1321 at 32 bits.
\<close>

section \<open>Code\<close>

record 'w MD5_CTX =
  md5_state :: "'w list"
  md5_count0 :: 'w
  md5_count1 :: 'w
  md5_buffer :: bytes

type_synonym 'u md5_regs = "'u word \<times> 'u word \<times> 'u word \<times> 'u word"

definition ROTATE_LEFT :: "'u::len word \<Rightarrow> nat \<Rightarrow> 'u word" where
  "ROTATE_LEFT x n = push_bit n x OR drop_bit (32 - n) x"

definition md5_F :: "'u::len word \<Rightarrow> 'u word \<Rightarrow> 'u word \<Rightarrow> 'u word" where
  "md5_F x y z = (x AND y) OR (NOT x AND z)"

definition md5_G :: "'u::len word \<Rightarrow> 'u word \<Rightarrow> 'u word \<Rightarrow> 'u word" where
  "md5_G x y z = (x AND z) OR (y AND NOT z)"

definition md5_H :: "'u::len word \<Rightarrow> 'u word \<Rightarrow> 'u word \<Rightarrow> 'u word" where
  "md5_H x y z = x XOR y XOR z"

definition md5_I :: "'u::len word \<Rightarrow> 'u word \<Rightarrow> 'u word \<Rightarrow> 'u word" where
  "md5_I x y z = y XOR (x OR NOT z)"

text \<open>The four macros: the new value of their first argument.\<close>

definition md5_mix :: "('u::len word \<Rightarrow> 'u word \<Rightarrow> 'u word \<Rightarrow> 'u word) \<Rightarrow> 'u word \<Rightarrow> 'u word \<Rightarrow> 'u word \<Rightarrow> 'u word
    \<Rightarrow> 'u word \<Rightarrow> nat \<Rightarrow> 'u word \<Rightarrow> 'u word" where
  "md5_mix f a b c d x s ac = ROTATE_LEFT (a + (f b c d + x + ac)) s + b"

definition FF where "FF = md5_mix md5_F"
definition GG where "GG = md5_mix md5_G"
definition HH where "HH = md5_mix md5_H"
definition II where "II = md5_mix md5_I"

text \<open>The four rounds of \<open>MD5Transform\<close>.\<close>

definition md5_round1 :: "'u::len word list \<Rightarrow> 'u md5_regs \<Rightarrow> 'u md5_regs" where
  "md5_round1 x r =
     (let (a, b, c, d) = r;
          a = FF a b c d (x ! 0) 7 0xd76aa478;
          d = FF d a b c (x ! 1) 12 0xe8c7b756;
          c = FF c d a b (x ! 2) 17 0x242070db;
          b = FF b c d a (x ! 3) 22 0xc1bdceee;
          a = FF a b c d (x ! 4) 7 0xf57c0faf;
          d = FF d a b c (x ! 5) 12 0x4787c62a;
          c = FF c d a b (x ! 6) 17 0xa8304613;
          b = FF b c d a (x ! 7) 22 0xfd469501;
          a = FF a b c d (x ! 8) 7 0x698098d8;
          d = FF d a b c (x ! 9) 12 0x8b44f7af;
          c = FF c d a b (x ! 10) 17 0xffff5bb1;
          b = FF b c d a (x ! 11) 22 0x895cd7be;
          a = FF a b c d (x ! 12) 7 0x6b901122;
          d = FF d a b c (x ! 13) 12 0xfd987193;
          c = FF c d a b (x ! 14) 17 0xa679438e;
          b = FF b c d a (x ! 15) 22 0x49b40821
      in (a, b, c, d))"

definition md5_round2 :: "'u::len word list \<Rightarrow> 'u md5_regs \<Rightarrow> 'u md5_regs" where
  "md5_round2 x r =
     (let (a, b, c, d) = r;
          a = GG a b c d (x ! 1) 5 0xf61e2562;
          d = GG d a b c (x ! 6) 9 0xc040b340;
          c = GG c d a b (x ! 11) 14 0x265e5a51;
          b = GG b c d a (x ! 0) 20 0xe9b6c7aa;
          a = GG a b c d (x ! 5) 5 0xd62f105d;
          d = GG d a b c (x ! 10) 9 0x2441453;
          c = GG c d a b (x ! 15) 14 0xd8a1e681;
          b = GG b c d a (x ! 4) 20 0xe7d3fbc8;
          a = GG a b c d (x ! 9) 5 0x21e1cde6;
          d = GG d a b c (x ! 14) 9 0xc33707d6;
          c = GG c d a b (x ! 3) 14 0xf4d50d87;
          b = GG b c d a (x ! 8) 20 0x455a14ed;
          a = GG a b c d (x ! 13) 5 0xa9e3e905;
          d = GG d a b c (x ! 2) 9 0xfcefa3f8;
          c = GG c d a b (x ! 7) 14 0x676f02d9;
          b = GG b c d a (x ! 12) 20 0x8d2a4c8a
      in (a, b, c, d))"

definition md5_round3 :: "'u::len word list \<Rightarrow> 'u md5_regs \<Rightarrow> 'u md5_regs" where
  "md5_round3 x r =
     (let (a, b, c, d) = r;
          a = HH a b c d (x ! 5) 4 0xfffa3942;
          d = HH d a b c (x ! 8) 11 0x8771f681;
          c = HH c d a b (x ! 11) 16 0x6d9d6122;
          b = HH b c d a (x ! 14) 23 0xfde5380c;
          a = HH a b c d (x ! 1) 4 0xa4beea44;
          d = HH d a b c (x ! 4) 11 0x4bdecfa9;
          c = HH c d a b (x ! 7) 16 0xf6bb4b60;
          b = HH b c d a (x ! 10) 23 0xbebfbc70;
          a = HH a b c d (x ! 13) 4 0x289b7ec6;
          d = HH d a b c (x ! 0) 11 0xeaa127fa;
          c = HH c d a b (x ! 3) 16 0xd4ef3085;
          b = HH b c d a (x ! 6) 23 0x4881d05;
          a = HH a b c d (x ! 9) 4 0xd9d4d039;
          d = HH d a b c (x ! 12) 11 0xe6db99e5;
          c = HH c d a b (x ! 15) 16 0x1fa27cf8;
          b = HH b c d a (x ! 2) 23 0xc4ac5665
      in (a, b, c, d))"

definition md5_round4 :: "'u::len word list \<Rightarrow> 'u md5_regs \<Rightarrow> 'u md5_regs" where
  "md5_round4 x r =
     (let (a, b, c, d) = r;
          a = II a b c d (x ! 0) 6 0xf4292244;
          d = II d a b c (x ! 7) 10 0x432aff97;
          c = II c d a b (x ! 14) 15 0xab9423a7;
          b = II b c d a (x ! 5) 21 0xfc93a039;
          a = II a b c d (x ! 12) 6 0x655b59c3;
          d = II d a b c (x ! 3) 10 0x8f0ccc92;
          c = II c d a b (x ! 10) 15 0xffeff47d;
          b = II b c d a (x ! 1) 21 0x85845dd1;
          a = II a b c d (x ! 8) 6 0x6fa87e4f;
          d = II d a b c (x ! 15) 10 0xfe2ce6e0;
          c = II c d a b (x ! 6) 15 0xa3014314;
          b = II b c d a (x ! 13) 21 0x4e0811a1;
          a = II a b c d (x ! 4) 6 0xf7537e82;
          d = II d a b c (x ! 11) 10 0xbd3af235;
          c = II c d a b (x ! 2) 15 0x2ad7d2bb;
          b = II b c d a (x ! 9) 21 0xeb86d391
      in (a, b, c, d))"

fun md5_Decode :: "bytes \<Rightarrow> 'u::len word list" where
  "md5_Decode (b0 # b1 # b2 # b3 # bs) =
     (ucast b0 OR push_bit 8 (ucast b1) OR push_bit 16 (ucast b2) OR push_bit 24 (ucast b3)) # md5_Decode bs"
| "md5_Decode _ = []"

definition md5_Encode :: "'u::len word list \<Rightarrow> bytes" where
  "md5_Encode ws = concat (map (\<lambda>w. [ucast (w AND 0xff), ucast (drop_bit 8 w AND 0xff),
                                     ucast (drop_bit 16 w AND 0xff), ucast (drop_bit 24 w AND 0xff)]) ws)"

definition MD5Transform :: "'u::len word list \<Rightarrow> bytes \<Rightarrow> 'u word list" where
  "MD5Transform state block =
     (let x = md5_Decode block;
          (a, b, c, d) = md5_round4 x (md5_round3 x (md5_round2 x (md5_round1 x
                           (state ! 0, state ! 1, state ! 2, state ! 3))))
      in [state ! 0 + a, state ! 1 + b, state ! 2 + c, state ! 3 + d])"

definition MD5Init :: "'u::len word MD5_CTX \<Rightarrow> 'u word MD5_CTX" where
  "MD5Init c = c\<lparr>md5_count0 := 0, md5_count1 := 0,
                 md5_state := [0x67452301, 0xefcdab89, 0x98badcfe, 0x10325476]\<rparr>"

text \<open>The loop over whole blocks of the input from \<open>i\<close> on. \<open>i + 63\<close> is an \<open>unsigned int\<close>: when it
  wraps, the comparison lets the code read behind the input.\<close>

function md5_loop :: "'u::len word list \<Rightarrow> bytes \<Rightarrow> nat \<Rightarrow> ('u word list \<times> nat) option" where
  "md5_loop state inp i =
     (if 2 ^ 32 \<le> i + 63 then None
      else if i + 63 < length inp then md5_loop (MD5Transform state (slice i 64 inp)) inp (i + 64)
      else Some (state, i))"
  by pat_completeness auto

termination by (relation "measure (\<lambda>(state, inp, i). length inp - i)") auto

declare md5_loop.simps [simp del]

definition MD5Update :: "'u::len word MD5_CTX \<Rightarrow> bytes \<Rightarrow> 'u word MD5_CTX option" where
  "MD5Update c inp = do {
     let inputLen = (of_nat (length inp) :: u32);
     let index = unat (drop_bit 3 (md5_count0 c) AND 0x3F);
     let bits = push_bit 3 (ucast inputLen);
     let c = c\<lparr>md5_count0 := md5_count0 c + bits\<rparr>;
     let c = (if md5_count0 c < bits then c\<lparr>md5_count1 := md5_count1 c + 1\<rparr> else c);
     let c = c\<lparr>md5_count1 := md5_count1 c + drop_bit 29 (ucast inputLen)\<rparr>;
     let partLen = 64 - index;
     (c, index, i) \<leftarrow>
       (if partLen \<le> length inp
        then do {
          buf \<leftarrow> put_bytes (md5_buffer c) index (take partLen inp);
          (state, i) \<leftarrow> md5_loop (MD5Transform (md5_state c) buf) inp partLen;
          Some (c\<lparr>md5_buffer := buf, md5_state := state\<rparr>, 0, i) }
        else Some (c, index, 0));
     buf \<leftarrow> put_bytes (md5_buffer c) index (drop i inp);
     Some (c\<lparr>md5_buffer := buf\<rparr>) }"

definition md5_PADDING :: bytes where
  "md5_PADDING = 0x80 # replicate 63 0"

definition MD5Final :: "'u::len word MD5_CTX \<Rightarrow> (bytes \<times> 'u word MD5_CTX) option" where
  "MD5Final c = do {
     let bits = md5_Encode [md5_count0 c, md5_count1 c];
     let index = unat (drop_bit 3 (md5_count0 c) AND 0x3f);
     let padLen = (if index < 56 then 56 - index else 120 - index);
     c \<leftarrow> MD5Update c (take padLen md5_PADDING);
     c \<leftarrow> MD5Update c bits;
     Some (md5_Encode (md5_state c),
           \<lparr>md5_state = [0, 0, 0, 0], md5_count0 = 0, md5_count1 = 0, md5_buffer = replicate 64 0\<rparr>) }"

section \<open>RFC 1321\<close>

text \<open>The reference: a loop of 64 steps over tables, on 32-bit words.\<close>

definition rfc_T :: "u32 list" where
  "rfc_T = [
     0xd76aa478, 0xe8c7b756, 0x242070db, 0xc1bdceee,
     0xf57c0faf, 0x4787c62a, 0xa8304613, 0xfd469501,
     0x698098d8, 0x8b44f7af, 0xffff5bb1, 0x895cd7be,
     0x6b901122, 0xfd987193, 0xa679438e, 0x49b40821,
     0xf61e2562, 0xc040b340, 0x265e5a51, 0xe9b6c7aa,
     0xd62f105d, 0x2441453, 0xd8a1e681, 0xe7d3fbc8,
     0x21e1cde6, 0xc33707d6, 0xf4d50d87, 0x455a14ed,
     0xa9e3e905, 0xfcefa3f8, 0x676f02d9, 0x8d2a4c8a,
     0xfffa3942, 0x8771f681, 0x6d9d6122, 0xfde5380c,
     0xa4beea44, 0x4bdecfa9, 0xf6bb4b60, 0xbebfbc70,
     0x289b7ec6, 0xeaa127fa, 0xd4ef3085, 0x4881d05,
     0xd9d4d039, 0xe6db99e5, 0x1fa27cf8, 0xc4ac5665,
     0xf4292244, 0x432aff97, 0xab9423a7, 0xfc93a039,
     0x655b59c3, 0x8f0ccc92, 0xffeff47d, 0x85845dd1,
     0x6fa87e4f, 0xfe2ce6e0, 0xa3014314, 0x4e0811a1,
     0xf7537e82, 0xbd3af235, 0x2ad7d2bb, 0xeb86d391]"

definition rfc_shift :: "nat \<Rightarrow> nat" where
  "rfc_shift i = [[7, 12, 17, 22], [5, 9, 14, 20], [4, 11, 16, 23], [6, 10, 15, 21]] ! (i div 16) ! (i mod 4)"

definition rfc_word :: "nat \<Rightarrow> nat" where
  "rfc_word i = (if i < 16 then i else if i < 32 then (5 * i + 1) mod 16
                 else if i < 48 then (3 * i + 5) mod 16 else (7 * i) mod 16)"

definition rfc_fun :: "nat \<Rightarrow> u32 \<Rightarrow> u32 \<Rightarrow> u32 \<Rightarrow> u32" where
  "rfc_fun i x y z =
     (if i < 16 then (x AND y) OR (NOT x AND z) else if i < 32 then (x AND z) OR (y AND NOT z)
      else if i < 48 then x XOR y XOR z else y XOR (x OR NOT z))"

definition rfc_step :: "u32 list \<Rightarrow> nat \<Rightarrow> u32 \<times> u32 \<times> u32 \<times> u32 \<Rightarrow> u32 \<times> u32 \<times> u32 \<times> u32" where
  "rfc_step x i r = (case r of (a, b, c, d) \<Rightarrow>
     (d, b + word_rotl (rfc_shift i) (a + rfc_fun i b c d + x ! rfc_word i + rfc_T ! i), b, c))"

definition rfc_block_word :: "bytes \<Rightarrow> nat \<Rightarrow> u32" where
  "rfc_block_word b i = le32 (b ! (4 * i)) (b ! (4 * i + 1)) (b ! (4 * i + 2)) (b ! (4 * i + 3))"

definition rfc_compress :: "u32 list \<Rightarrow> bytes \<Rightarrow> u32 list" where
  "rfc_compress H b =
     (let x = map (rfc_block_word b) [0..<16];
          (a, b, c, d) = fold (rfc_step x) [0..<64] (H ! 0, H ! 1, H ! 2, H ! 3)
      in [H ! 0 + a, H ! 1 + b, H ! 2 + c, H ! 3 + d])"

function rfc_blocks :: "u32 list \<Rightarrow> bytes \<Rightarrow> u32 list" where
  "rfc_blocks H bs = (if bs = [] then H else rfc_blocks (rfc_compress H (take 64 bs)) (drop 64 bs))"
  by pat_completeness auto

termination by (relation "measure (\<lambda>(H, bs). length bs)") auto

declare rfc_blocks.simps [simp del]

definition le64 :: "nat \<Rightarrow> bytes" where
  "le64 n = map (\<lambda>i. of_nat (n div 256 ^ i)) [0..<8]"

definition rfc_md5 :: "bytes \<Rightarrow> bytes" where
  "rfc_md5 msg = concat (map le32_bytes (rfc_blocks [0x67452301, 0xefcdab89, 0x98badcfe, 0x10325476]
     (msg @ 0x80 # replicate ((119 - length msg mod 64) mod 64) 0 @ le64 (8 * length msg))))"

section \<open>The transformation\<close>

lemma ROTATE_LEFT_rotl: "0 < n \<Longrightarrow> n < 32 \<Longrightarrow> ROTATE_LEFT (w :: u32) n = word_rotl n w"
  using SHA1CircularShift_rotl [of n w] by (simp add: ROTATE_LEFT_def SHA1CircularShift_def)

text \<open>One assignment of the unrolled code is one step of the loop.\<close>

lemma md5_unroll:
  assumes "rfc_step x i (a, b, c, d) = (d, e, b, c)" and "\<And>v. body v = fold (rfc_step x) ks (d, v, b, c)"
  shows "Let e body = fold (rfc_step x) (i # ks) (a, b, c, d)"
  by (simp add: assms)

lemma upt_16:
  "[0..<16] = [0, 1, 2, 3, 4, 5, 6, 7, 8, 9, 10, 11, 12, 13, 14, 15 :: nat]"
  "[16..<32] = [16, 17, 18, 19, 20, 21, 22, 23, 24, 25, 26, 27, 28, 29, 30, 31 :: nat]"
  "[32..<48] = [32, 33, 34, 35, 36, 37, 38, 39, 40, 41, 42, 43, 44, 45, 46, 47 :: nat]"
  "[48..<64] = [48, 49, 50, 51, 52, 53, 54, 55, 56, 57, 58, 59, 60, 61, 62, 63 :: nat]"
  by (simp_all add: upt_rec)

lemma rfc_word_table:
  assumes "i < 64"
  shows "rfc_word i = ([0, 1, 2, 3, 4, 5, 6, 7, 8, 9, 10, 11, 12, 13, 14, 15, 1, 6, 11, 0, 5, 10,
    15, 4, 9, 14, 3, 8, 13, 2, 7, 12, 5, 8, 11, 14, 1, 4, 7, 10, 13, 0, 3, 6,
    9, 12, 15, 2, 0, 7, 14, 5, 12, 3, 10, 1, 8, 15, 6, 13, 4, 11, 2, 9] :: nat list) ! i"
proof -
  have "map rfc_word [0..<64] = [0, 1, 2, 3, 4, 5, 6, 7, 8, 9, 10, 11, 12, 13, 14, 15, 1, 6, 11, 0, 5, 10,
    15, 4, 9, 14, 3, 8, 13, 2, 7, 12, 5, 8, 11, 14, 1, 4, 7, 10, 13, 0, 3, 6,
    9, 12, 15, 2, 0, 7, 14, 5, 12, 3, 10, 1, 8, 15, 6, 13, 4, 11, 2, 9]" by code_simp
  then show ?thesis using assms by (metis (no_types, lifting) add_0 length_upt minus_nat.diff_0 nth_map nth_upt)
qed

lemmas md5_step_defs = rfc_step_def rfc_word_table rfc_shift_def rfc_fun_def rfc_T_def FF_def GG_def HH_def II_def
  md5_mix_def md5_F_def md5_G_def md5_H_def md5_I_def ROTATE_LEFT_rotl

lemma md5_round1_steps: "md5_round1 x (a, b, c, d) = fold (rfc_step x) [0..<16] (a, b, c, d)"
  unfolding md5_round1_def prod.case Let_def [of "(a, b, c, d)"] upt_16
  by (intro md5_unroll) (simp_all add: md5_step_defs add_ac)

lemma md5_round2_steps: "md5_round2 x (a, b, c, d) = fold (rfc_step x) [16..<32] (a, b, c, d)"
  unfolding md5_round2_def prod.case Let_def [of "(a, b, c, d)"] upt_16
  by (intro md5_unroll) (simp_all add: md5_step_defs add_ac)

lemma md5_round3_steps: "md5_round3 x (a, b, c, d) = fold (rfc_step x) [32..<48] (a, b, c, d)"
  unfolding md5_round3_def prod.case Let_def [of "(a, b, c, d)"] upt_16
  by (intro md5_unroll) (simp_all add: md5_step_defs add_ac)

lemma md5_round4_steps: "md5_round4 x (a, b, c, d) = fold (rfc_step x) [48..<64] (a, b, c, d)"
  unfolding md5_round4_def prod.case Let_def [of "(a, b, c, d)"] upt_16
  by (intro md5_unroll) (simp_all add: md5_step_defs add_ac)

lemma md5_Decode_words:
  assumes "length b = 64"
  shows "(md5_Decode b :: u32 list) = map (rfc_block_word b) [0..<16]"
proof -
  have "md5_Decode b = map (\<lambda>i. rfc_block_word b i) [0..<n]" if "length b = 4 * n" for n and b :: bytes
    using that
  proof (induction n arbitrary: b)
    case (Suc n)
    obtain b0 b1 b2 b3 bs where b: "b = b0 # b1 # b2 # b3 # bs" and "length bs = 4 * n"
      using Suc.prems by (auto simp: length_Suc_conv numeral_eq_Suc)
    with Suc.IH have "md5_Decode bs = map (rfc_block_word bs) [0..<n]" by blast
    moreover have "rfc_block_word b (Suc i) = rfc_block_word bs i" for i
      by (simp add: rfc_block_word_def b add.commute numeral_eq_Suc)
    moreover have "rfc_block_word b 0 = le32 b0 b1 b2 b3" by (simp add: rfc_block_word_def b numeral_eq_Suc)
    ultimately show ?case
      by (simp add: b map_Suc_upt [symmetric] upt_conv_Cons o_def le32_def del: upt_Suc)
  qed simp
  from this [of b 16] assms show ?thesis by simp
qed

lemma MD5Transform_rfc: "length b = 64 \<Longrightarrow> MD5Transform H b = rfc_compress H b"
proof -
  assume b: "length b = 64"
  let ?x = "map (rfc_block_word b) [0..<16]"
  have "[0..<64] = [0..<16] @ [16..<32] @ [32..<48] @ [48..<64]" unfolding upt_16 by (simp add: upt_rec)
  moreover have "md5_round1 ?x r = fold (rfc_step ?x) [0..<16] r" "md5_round2 ?x r = fold (rfc_step ?x) [16..<32] r"
    "md5_round3 ?x r = fold (rfc_step ?x) [32..<48] r" "md5_round4 ?x r = fold (rfc_step ?x) [48..<64] r" for r
    using md5_round1_steps md5_round2_steps md5_round3_steps md5_round4_steps by (cases r, metis)+
  ultimately show ?thesis
    unfolding MD5Transform_def rfc_compress_def md5_Decode_words [OF b] Let_def
    by (simp only: fold_append o_apply)
qed

section \<open>Messages\<close>

lemma rfc_blocks_append: "64 dvd length xs \<Longrightarrow> rfc_blocks H (xs @ ys) = rfc_blocks (rfc_blocks H xs) ys"
proof (induction H xs rule: rfc_blocks.induct)
  case (1 H bs)
  show ?case
  proof (cases "bs = []")
    case True
    then show ?thesis by (simp add: rfc_blocks.simps [of H "[]"])
  next
    case False
    with 1(2) have "64 \<le> length bs" by (simp add: dvd_imp_le)
    moreover from 1(2) have "64 dvd length (drop 64 bs)" by (simp add: dvd_diff_nat)
    ultimately show ?thesis
      using 1(1) False by (simp add: rfc_blocks.simps [of H "bs @ ys"] rfc_blocks.simps [of H bs])
  qed
qed

lemma rfc_blocks_one: "length b = 64 \<Longrightarrow> rfc_blocks H b = rfc_compress H b"
  by (subst rfc_blocks.simps) (auto simp: rfc_blocks.simps [of _ "[]"])

lemma whole_block:
  assumes "64 dvd length b"
  shows "whole (b @ xs) = b @ whole xs" "rest (b @ xs) = rest xs"
proof -
  from assms obtain n where n: "length b = 64 * n" by (elim dvdE)
  then have "length (b @ xs) div 64 * 64 = length b + length xs div 64 * 64" by simp
  then show "whole (b @ xs) = b @ whole xs" "rest (b @ xs) = rest xs"
    unfolding whole_def rest_def by simp_all
qed

lemma whole_drop:
  assumes "k + 64 \<le> length inp"
  shows "whole (drop k inp) = slice k 64 inp @ whole (drop (k + 64) inp)" "rest (drop k inp) = rest (drop (k + 64) inp)"
proof -
  have "drop k inp = slice k 64 inp @ drop (k + 64) inp"
    using append_take_drop_id [of 64 "drop k inp"] by (simp add: slice_def add.commute)
  moreover have "64 dvd length (slice k 64 inp)" using assms by simp
  ultimately show "whole (drop k inp) = slice k 64 inp @ whole (drop (k + 64) inp)"
    "rest (drop k inp) = rest (drop (k + 64) inp)"
    by (metis whole_block)+
qed

lemma whole_rest_short: "length xs < 64 \<Longrightarrow> whole xs = [] \<and> rest xs = xs"
  by (simp add: whole_def rest_def)

lemma md5_loop_blocks:
  "i \<le> length inp \<Longrightarrow> length inp + 63 < 2 ^ 32 \<Longrightarrow>
   md5_loop H inp i = Some (rfc_blocks H (whole (drop i inp)), length inp - length (rest (drop i inp)))"
proof (induction H inp i rule: md5_loop.induct)
  case (1 H inp i)
  show ?case
  proof (cases "i + 63 < length inp")
    case True
    have b: "length (slice i 64 inp) = 64" using True by simp
    have "md5_loop H inp i = md5_loop (MD5Transform H (slice i 64 inp)) inp (i + 64)"
      using True 1(3) by (subst md5_loop.simps) simp
    also have "\<dots> = Some (rfc_blocks (MD5Transform H (slice i 64 inp)) (whole (drop (i + 64) inp)),
        length inp - length (rest (drop (i + 64) inp)))"
      using 1(1) True 1(3) by simp
    also have "rfc_blocks (MD5Transform H (slice i 64 inp)) (whole (drop (i + 64) inp))
        = rfc_blocks H (whole (drop i inp))"
      using True by (simp add: whole_drop(1) rfc_blocks_append [of "slice i 64 inp"] rfc_blocks_one [OF b]
          MD5Transform_rfc [OF b] b)
    finally show ?thesis using True by (simp add: whole_drop(2))
  next
    case False
    then have "md5_loop H inp i = Some (H, i)" using 1(2,3) by (subst md5_loop.simps) simp
    moreover have "whole (drop i inp) = []" "rest (drop i inp) = drop i inp"
      using False whole_rest_short [of "drop i inp"] by auto
    ultimately show ?thesis using 1(2) by (simp add: rfc_blocks.simps [of _ "[]"])
  qed
qed

text \<open>What the context holds after the bytes \<open>msg\<close>.\<close>

definition md5_H0 :: "u32 list" where
  "md5_H0 = [0x67452301, 0xefcdab89, 0x98badcfe, 0x10325476]"

definition md5_holds :: "u32 MD5_CTX \<Rightarrow> bytes \<Rightarrow> bool" where
  "md5_holds c msg \<longleftrightarrow>
     md5_state c = rfc_blocks md5_H0 (whole msg)
     \<and> length (md5_buffer c) = 64 \<and> take (length (rest msg)) (md5_buffer c) = rest msg
     \<and> unat (md5_count1 c) * 2 ^ 32 + unat (md5_count0 c) = 8 * length msg"

lemma md5_counter:
  fixes hi lo :: u32
  assumes n: "unat hi * 2 ^ 32 + unat lo = 8 * m" and small: "8 * (m + k) < 2 ^ 64" and k: "k < 2 ^ 32"
    and lo': "lo' = lo + push_bit 3 (of_nat k)"
    and hi': "hi' = (if lo' < push_bit 3 (of_nat k) then hi + 1 else hi) + drop_bit 29 (of_nat k)"
  shows "unat hi' * 2 ^ 32 + unat lo' = 8 * (m + k)"
proof -
  let ?w = "push_bit 3 (of_nat k) :: u32"
  have w: "unat ?w = 8 * k mod 2 ^ 32"
  proof -
    have "?w = of_nat (8 * k)" by (simp add: push_bit_eq_mult mult.commute)
    then show ?thesis by (simp only: unat_of_nat) (simp add: take_bit_eq_mod)
  qed
  define q where "q = k div 2 ^ 29"
  have d: "unat (drop_bit 29 (of_nat k) :: u32) = q"
    by (simp only: unat_drop_bit_u32 unat_of_nat_u32 [OF k] q_def)
  have split: "8 * k = q * 2 ^ 32 + unat ?w"
  proof -
    have "8 * k mod 2 ^ 32 = 8 * (k mod 2 ^ 29)" by (simp add: mult_mod_right)
    moreover have "8 * k = 8 * (k div 2 ^ 29 * 2 ^ 29 + k mod 2 ^ 29)" by (simp only: div_mult_mod_eq)
    ultimately show ?thesis unfolding w q_def distrib_left by simp
  qed
  have lo: "unat lo < 2 ^ 32" "unat ?w < 2 ^ 32" by (rule unat_lt_u32)+
  show ?thesis
  proof (cases "unat lo + unat ?w < 2 ^ 32")
    case True
    then have l: "unat lo' = unat lo + unat ?w" by (simp add: lo' unat_word_ariths)
    then have "\<not> lo' < ?w" by (simp add: word_less_nat_alt)
    then have "hi' = hi + drop_bit 29 (of_nat k)" by (simp add: hi')
    moreover have "unat hi + q < 2 ^ 32" using n small split by simp
    ultimately have "unat hi' = unat hi + q" by (simp add: unat_word_ariths d)
    with l n split show ?thesis by simp
  next
    case False
    then have l: "unat lo' + 2 ^ 32 = unat lo + unat ?w" using lo by (simp add: lo' unat_word_ariths mod_if)
    then have "lo' < ?w" using lo by (simp add: word_less_nat_alt)
    then have "hi' = hi + 1 + drop_bit 29 (of_nat k)" by (simp add: hi')
    moreover have "unat hi + 1 + q < 2 ^ 32" using n small split False by simp
    ultimately have "unat hi' = unat hi + 1 + q" by (simp add: unat_word_ariths d)
    with l n split show ?thesis by simp
  qed
qed

lemma md5_index:
  fixes lo hi :: u32
  assumes "unat hi * 2 ^ 32 + unat lo = 8 * m"
  shows "unat (drop_bit 3 lo AND 0x3F) = m mod 64"
proof -
  have "0x3F = (mask 6 :: u32)" by (simp add: mask_eq_exp_minus_1)
  then have e: "drop_bit 3 lo AND 0x3F = take_bit 6 (drop_bit 3 lo)" by (simp only: take_bit_eq_mask)
  have "unat (drop_bit 3 lo AND 0x3F) = take_bit 6 (unat (drop_bit 3 lo))"
    unfolding e by (rule unsigned_take_bit_eq)
  also have "\<dots> = unat lo div 8 mod 64"
    by (simp only: unat_drop_bit_u32 take_bit_eq_mod) simp
  also have "\<dots> = m mod 64"
  proof -
    have "unat lo = 8 * (m - unat hi * 2 ^ 29)" and "unat hi * 2 ^ 29 \<le> m" using assms by simp_all
    then have "m = unat lo div 8 + unat hi * 2 ^ 23 * 64" by simp
    then show ?thesis by (metis mod_mult_self1)
  qed
  finally show ?thesis .
qed

lemma whole_append:
  assumes "length msg mod 64 + length inp < 64"
  shows "whole (msg @ inp) = whole msg" "rest (msg @ inp) = rest msg @ inp"
proof -
  have e: "msg @ inp = whole msg @ (rest msg @ inp)" by (metis whole_rest append_assoc)
  have "length (rest msg @ inp) < 64" using assms by (simp add: length_rest)
  from whole_rest_short [OF this] show "whole (msg @ inp) = whole msg" "rest (msg @ inp) = rest msg @ inp"
    unfolding e whole_block [OF dvd_whole [of msg], of "rest msg @ inp"] by auto
qed

lemma whole_append_block:
  assumes "k = 64 - length msg mod 64" "k \<le> length inp"
  shows "whole (msg @ inp) = whole msg @ (rest msg @ take k inp) @ whole (drop k inp)"
    and "rest (msg @ inp) = rest (drop k inp)"
proof -
  let ?b = "whole msg @ (rest msg @ take k inp)"
  have "length (rest msg @ take k inp) = 64" using assms by (simp add: length_rest)
  then have b: "64 dvd length ?b" using dvd_whole [of msg] by (simp del: length_append add: length_append [of "whole msg"])
  have e: "msg @ inp = ?b @ drop k inp" using whole_rest [of msg] by (metis append_assoc append_take_drop_id)
  show "whole (msg @ inp) = whole msg @ (rest msg @ take k inp) @ whole (drop k inp)"
    and "rest (msg @ inp) = rest (drop k inp)"
    unfolding e whole_block [OF b, of "drop k inp"] by simp_all
qed

lemma drop_to_rest: "drop (length xs - length (rest (drop k xs))) xs = rest (drop k xs)"
proof -
  have "xs = (take k xs @ whole (drop k xs)) @ rest (drop k xs)"
    by (simp only: append_assoc whole_rest append_take_drop_id)
  then show ?thesis by (metis append_eq_conv_conj length_append add_diff_cancel_right')
qed

text \<open>Bytes put behind what the buffer holds of the message.\<close>

lemma put_behind:
  assumes "length buf = 64" and "take n buf = r" and "length r = n" and "n + length xs \<le> 64"
  shows "\<exists>buf'. put_bytes buf n xs = Some buf' \<and> length buf' = 64 \<and> take (n + length xs) buf' = r @ xs"
  using assms by (auto simp: put_bytes_Some)

lemma MD5Update_holds:
  assumes c: "md5_holds c msg" and inp: "length inp + 63 < 2 ^ 32"
    and small: "8 * (length msg + length inp) < 2 ^ 64"
  shows "\<exists>c'. MD5Update c inp = Some c' \<and> md5_holds c' (msg @ inp)"
proof -
  let ?ix = "length msg mod 64"
  define w :: u32 where "w = of_nat (length inp)"
  define lo where "lo = md5_count0 c + push_bit 3 w"
  define hi where "hi = (if lo < push_bit 3 w then md5_count1 c + 1 else md5_count1 c) + drop_bit 29 w"
  define d where "d = c\<lparr>md5_count0 := lo, md5_count1 := hi\<rparr>"
  have n: "unat (md5_count1 c) * 2 ^ 32 + unat (md5_count0 c) = 8 * length msg"
    and buf: "length (md5_buffer c) = 64" "take ?ix (md5_buffer c) = rest msg"
    and st: "md5_state c = rfc_blocks md5_H0 (whole msg)"
    using c by (simp_all add: md5_holds_def length_rest)
  have count: "unat hi * 2 ^ 32 + unat lo = 8 * length (msg @ inp)"
    using md5_counter [OF n small _ lo_def [unfolded w_def] hi_def [unfolded w_def]] inp by simp
  have ix: "unat (drop_bit 3 (md5_count0 c) AND 0x3F) = ?ix" by (rule md5_index [OF n])
  let ?part = "64 - ?ix"
  have run: "MD5Update c inp = do {
     (c, index, i) \<leftarrow>
       (if ?part \<le> length inp
        then do {
          buf \<leftarrow> put_bytes (md5_buffer d) ?ix (take ?part inp);
          (state, i) \<leftarrow> md5_loop (MD5Transform (md5_state d) buf) inp ?part;
          Some (d\<lparr>md5_buffer := buf, md5_state := state\<rparr>, 0, i) }
        else Some (d, ?ix, 0));
     buf \<leftarrow> put_bytes (md5_buffer c) index (drop i inp);
     Some (c\<lparr>md5_buffer := buf\<rparr>) }"
    unfolding MD5Update_def Let_def ix by (simp add: d_def lo_def hi_def w_def cong: if_cong)
  have ix_lt: "?ix < 64" by simp
  have lr: "length (rest msg) = ?ix" by (rule length_rest)
  show ?thesis
  proof (cases "?part \<le> length inp")
    case True
    obtain b where b: "put_bytes (md5_buffer d) ?ix (take ?part inp) = Some b" "length b = 64"
        "take (?ix + length (take ?part inp)) b = rest msg @ take ?part inp"
      using put_behind [OF buf lr, of "take ?part inp"] True ix_lt by (auto simp: d_def)
    then have bb: "b = rest msg @ take ?part inp" using True ix_lt by simp
    have len: "length (rest msg @ take ?part inp) = 64" using True ix_lt by (simp add: lr)
    let ?i = "length inp - length (rest (drop ?part inp))"
    have loop: "md5_loop (MD5Transform (md5_state d) b) inp ?part
      = Some (rfc_blocks md5_H0 (whole (msg @ inp)), ?i)"
      unfolding md5_loop_blocks [OF True inp] whole_append_block(1) [OF refl True]
      by (simp add: d_def st bb MD5Transform_rfc [OF len] rfc_blocks_append [OF dvd_whole]
          rfc_blocks_append [of "rest msg @ take ?part inp", unfolded len] rfc_blocks_one [OF len]
          del: append_assoc)
    have r: "rest (msg @ inp) = rest (drop ?part inp)" by (rule whole_append_block(2) [OF refl True])
    have tail: "drop ?i inp = rest (msg @ inp)"
      unfolding r by (rule drop_to_rest)
    have small: "length (rest (msg @ inp)) < 64" by (simp add: length_rest)
    obtain b' where b': "put_bytes b 0 (rest (msg @ inp)) = Some b'" "length b' = 64"
        "take (length (rest (msg @ inp))) b' = rest (msg @ inp)"
      using put_behind [OF b(2), of 0 "[]" "rest (msg @ inp)"] small by auto
    have "MD5Update c inp = Some (d\<lparr>md5_buffer := b', md5_state := rfc_blocks md5_H0 (whole (msg @ inp))\<rparr>)"
      unfolding run using True b(1) loop tail b'(1) by simp
    then show ?thesis using b' count by (simp add: md5_holds_def d_def)
  next
    case False
    then have lt: "?ix + length inp < 64" by simp
    obtain b' where b': "put_bytes (md5_buffer d) ?ix inp = Some b'" "length b' = 64"
        "take (?ix + length inp) b' = rest msg @ inp"
      using put_behind [OF buf lr, of inp] lt by (auto simp: d_def)
    have "MD5Update c inp = Some (d\<lparr>md5_buffer := b'\<rparr>)"
      unfolding run using False b'(1) by simp
    then show ?thesis using b' count st
      by (simp add: md5_holds_def d_def whole_append [OF lt] lr)
  qed
qed

section \<open>The end of a message\<close>

lemma pad_length: "n < 64 \<Longrightarrow> (119 - n) mod 64 = (if n < 56 then 55 - n else 119 - n)" for n :: nat
  by (auto simp: mod_if)

lemma md5_padding:
  assumes "n = length msg mod 64"
  shows "take (if n < 56 then 56 - n else 120 - n) md5_PADDING
    = 0x80 # replicate ((119 - length msg mod 64) mod 64) 0"
proof -
  have n: "n < 64" using assms by simp
  show ?thesis unfolding assms [symmetric] pad_length [OF n] using n by (auto simp: md5_PADDING_def take_Cons' min_def)
qed

lemma md5_Encode_bytes: "md5_Encode ws = concat (map le32_bytes (ws :: u32 list))"
proof -
  have "ucast (v AND 0xff) = (ucast v :: u8)" for v :: u32
  proof -
    have "(0xff :: u32) = mask 8" by (simp add: mask_eq_exp_minus_1)
    moreover have "ucast (v AND mask 8) = (ucast v :: u8)" by (rule bit_word_eqI) (auto simp: bit_simps)
    ultimately show ?thesis by (simp only:)
  qed
  then show ?thesis by (simp add: md5_Encode_def le32_bytes_def [abs_def])
qed

lemma md5_length_bytes:
  fixes hi lo :: u32
  assumes n: "unat hi * 2 ^ 32 + unat lo = n"
  shows "le32_bytes lo @ le32_bytes hi = le64 n"
proof -
  have low: "of_nat (unat lo div 2 ^ (8 * i)) = (of_nat (n div 256 ^ i) :: u8)" if "i < 4" for i
  proof (rule of_nat_byte_cong)
    have p: "(2 :: nat) ^ 32 = 256 ^ (4 - i) * 256 ^ i"
      using that by (simp only: power_add [symmetric]) simp
    have "n div 256 ^ i = unat hi * 256 ^ (4 - i) + unat lo div 256 ^ i"
      unfolding n [symmetric] p by (simp add: mult.assoc [symmetric])
    also have "unat hi * 256 ^ (4 - i) = unat hi * 256 ^ (3 - i) * 256"
    proof -
      have "4 - i = Suc (3 - i)" using that by simp
      then show ?thesis by (simp only: mult.assoc power_Suc2)
    qed
    finally show "unat lo div 2 ^ (8 * i) mod 256 = n div 256 ^ i mod 256" by (simp add: power_mult)
  qed
  have high: "n div 256 ^ (4 + i) = unat hi div 2 ^ (8 * i)" for i
  proof -
    have "n div 256 ^ (4 + i) = n div 2 ^ 32 div 256 ^ i" by (simp add: power_add div_mult2_eq)
    also have "n div 2 ^ 32 = unat hi" unfolding n [symmetric] using unat_lt_u32 [of lo] by simp
    finally show ?thesis by (simp add: power_mult)
  qed
  have "[0..<8] = [0, 1, 2, 3, 4 + 0, 4 + 1, 4 + 2, 4 + 3 :: nat]" by (simp add: upt_rec)
  then show ?thesis
    using low [of 0] low [of 1] low [of 2] low [of 3]
    unfolding le64_def le32_bytes_def
    by (simp only: list.map high ucast_of_nat unat_drop_bit_u32 append_Cons append_Nil) simp
qed

definition md5_parts :: "u32 MD5_CTX \<Rightarrow> bytes list \<Rightarrow> u32 MD5_CTX option" where
  "md5_parts c parts = foldl (\<lambda>r inp. Option.bind r (\<lambda>c. MD5Update c inp)) (Some c) parts"

lemma MD5Final_holds:
  assumes c: "md5_holds c msg" and small: "8 * (length msg + 72) < 2 ^ 64"
  shows "\<exists>c'. MD5Final c = Some (rfc_md5 msg, c')"
proof -
  have n: "unat (md5_count1 c) * 2 ^ 32 + unat (md5_count0 c) = 8 * length msg"
    using c by (simp add: md5_holds_def)
  let ?pad = "0x80 # replicate ((119 - length msg mod 64) mod 64) 0 :: bytes"
  have bits: "md5_Encode [md5_count0 c, md5_count1 c] = le64 (8 * length msg)"
    by (simp add: md5_Encode_bytes md5_length_bytes [OF n])
  have run: "MD5Final c = do {
     c \<leftarrow> MD5Update c ?pad;
     c \<leftarrow> MD5Update c (le64 (8 * length msg));
     Some (md5_Encode (md5_state c),
           \<lparr>md5_state = [0, 0, 0, 0], md5_count0 = 0, md5_count1 = 0, md5_buffer = replicate 64 0\<rparr>) }"
    unfolding MD5Final_def Let_def bits md5_padding [OF md5_index [OF n]] by (rule refl)
  have pad: "length ?pad \<le> 64" by simp
  obtain c1 where c1: "MD5Update c ?pad = Some c1" "md5_holds c1 (msg @ ?pad)"
    using MD5Update_holds [OF c, of ?pad] pad small by auto
  have le: "length (le64 (8 * length msg)) = 8" by (simp add: le64_def)
  obtain c2 where c2: "MD5Update c1 (le64 (8 * length msg)) = Some c2"
      "md5_holds c2 ((msg @ ?pad) @ le64 (8 * length msg))"
    using MD5Update_holds [OF c1(2), of "le64 (8 * length msg)"] pad small le by auto
  let ?all = "(msg @ ?pad) @ le64 (8 * length msg)"
  have "length msg mod 64 + length ?pad + 8 = 64 \<or> length msg mod 64 + length ?pad + 8 = 128"
  proof -
    have r: "length msg mod 64 < 64" by simp
    show ?thesis unfolding length_Cons length_replicate pad_length [OF r] using r by auto
  qed
  moreover have "length ?all = length msg div 64 * 64 + (length msg mod 64 + length ?pad + 8)"
    unfolding length_append le by simp
  ultimately have "length ?all = length msg div 64 * 64 + 64 \<or> length ?all = length msg div 64 * 64 + 128"
    by metis
  moreover have "64 dvd n" if "n = q * 64 + 64 \<or> n = q * 64 + 128" for n q :: nat using that by auto
  ultimately have "64 dvd length ?all" by blast
  then have "whole ?all = ?all" using whole_block(1) [of ?all "[]"] by (simp add: whole_def)
  then have "md5_state c2 = rfc_blocks md5_H0 ?all" using c2(2) by (simp only: md5_holds_def)
  moreover have "MD5Final c = Some (md5_Encode (md5_state c2),
      \<lparr>md5_state = [0, 0, 0, 0], md5_count0 = 0, md5_count1 = 0, md5_buffer = replicate 64 0\<rparr>)"
    unfolding run using c1(1) c2(1) by (simp only: bind.bind_lunit)
  ultimately show ?thesis by (simp add: rfc_md5_def md5_H0_def md5_Encode_bytes)
qed

lemma md5_parts_holds:
  "md5_holds c msg \<Longrightarrow> \<forall>x\<in>set parts. length x + 63 < 2 ^ 32 \<Longrightarrow>
   8 * (length msg + length (concat parts)) < 2 ^ 64 \<Longrightarrow>
   \<exists>c'. md5_parts c parts = Some c' \<and> md5_holds c' (msg @ concat parts)"
proof (induction parts arbitrary: c msg)
  case (Cons x parts)
  obtain c1 where c1: "MD5Update c x = Some c1" "md5_holds c1 (msg @ x)"
    using MD5Update_holds [OF Cons.prems(1), of x] Cons.prems by auto
  from Cons.IH [OF c1(2)] Cons.prems show ?case by (simp add: md5_parts_def c1(1))
qed (simp add: md5_parts_def)

lemma MD5Init_holds: "length (md5_buffer c) = 64 \<Longrightarrow> md5_holds (MD5Init c) []"
  by (simp add: md5_holds_def MD5Init_def md5_H0_def whole_def rest_def rfc_blocks.simps [of _ "[]"])

text \<open>C23. The MD5 of the image builder is the MD5 of RFC 1321 where \<open>UINT4\<close> has 32 bits:
  initialising a context, updating it with the parts of a message, cut in any way, and closing it
  gives the reference digest of the whole message, for every message the 64-bit bit counter can
  count and parts below the size at which the loop's \<open>unsigned int\<close> index would wrap.\<close>

theorem md5_is_rfc1321:
  assumes "length (md5_buffer c) = 64" and "\<forall>x\<in>set parts. length x + 63 < 2 ^ 32"
    and "8 * (length (concat parts) + 72) < 2 ^ 64"
  shows "\<exists>c'. Option.bind (md5_parts (MD5Init c) parts) MD5Final = Some (rfc_md5 (concat parts), c')"
proof -
  obtain c1 where "md5_parts (MD5Init c) parts = Some c1" "md5_holds c1 (concat parts)"
    using md5_parts_holds [OF MD5Init_holds [OF assms(1)] assms(2)] assms(3) by auto
  then show ?thesis using MD5Final_holds assms(3) by auto
qed

theorem md5_is_rfc1321_witness:
  "\<exists>c'. Option.bind (md5_parts (MD5Init \<lparr>md5_state = [], md5_count0 = 0, md5_count1 = 0, md5_buffer = replicate 64 0\<rparr>)
     [[0x61], [0x62, 0x63]]) MD5Final = Some (rfc_md5 [0x61, 0x62, 0x63], c')"
  using md5_is_rfc1321 [of "\<lparr>md5_state = [], md5_count0 = 0, md5_count1 = 0, md5_buffer = replicate 64 0\<rparr>"
      "[[0x61], [0x62, 0x63]]"] by simp

end
