(* ===== verification/ImageBuild.thy ===== *)
theory ImageBuild
  imports Sha1 Md5
begin

text \<open>
  The image builder \<open>lib/imagebld/imagebld.c\<close>, the tool of the build that makes the flash images
  of 256 KByte and 1 MByte out of the first stage and the packed loader, and puts the loader into
  the templates of the XBE and the VML image. The model starts where the files are read and ends
  where the results are written: a file is a byte list, a file that does not exist is not
  modelled. Pointers and \<open>UINT4\<close> have 32 bits, as on the machines the tool was written for. \<open>None\<close>
  is an access outside a buffer.
\<close>

section \<open>Buffers\<close>

definition get_bytes :: "bytes \<Rightarrow> nat \<Rightarrow> nat \<Rightarrow> bytes option" where
  "get_bytes buf pos n = (if pos + n \<le> length buf then Some (slice pos n buf) else None)"

section \<open>The identification\<close>

definition identifier_name :: bytes where
  "identifier_name = map (of_nat \<circ> of_char) ''Gentoox Loader 6.07'' @ [0]"

definition writeBiosIdentifier :: "u32 MD5_CTX \<Rightarrow> bytes \<Rightarrow> nat \<Rightarrow> bytes option" where
  "writeBiosIdentifier hashcontext cromimage biosSize = do {
     let BiosHeader = biosSize - 64;
     img \<leftarrow> put_bytes cromimage BiosHeader [0x41, 0x55, 0x54, 0x4f];
     img \<leftarrow> put_bytes img (BiosHeader + 4) [1];
     img \<leftarrow> put_bytes img (BiosHeader + 12) (le32_bytes (of_nat biosSize));
     img \<leftarrow> put_bytes img (BiosHeader + 16) identifier_name;
     img \<leftarrow> put_bytes img (BiosHeader + 5) [0x01 OR 0x02 OR 0x04 OR 0x08 OR 0x10 OR 0x20 OR 0x40];
     img \<leftarrow> put_bytes img (BiosHeader + 6) [0x01 OR 0x02];
     input \<leftarrow> get_bytes img 0 (biosSize - 16);
     c \<leftarrow> MD5Update (MD5Init hashcontext) input;
     (digest, c) \<leftarrow> MD5Final c;
     put_bytes img (BiosHeader + 48) digest }"

section \<open>The flash images\<close>

record Checksumstruct =
  Checksum :: bytes
  Size_ramcopy :: u32
  compressed_image_start :: u32
  compressed_image_size :: u32
  Biossize_type :: u32

definition Checksumstruct_at :: "bytes \<Rightarrow> nat \<Rightarrow> Checksumstruct option" where
  "Checksumstruct_at buf pos = do {
     sum \<leftarrow> get_bytes buf pos 20;
     a \<leftarrow> le32_at buf (pos + 20);
     b \<leftarrow> le32_at buf (pos + 24);
     c \<leftarrow> le32_at buf (pos + 28);
     d \<leftarrow> le32_at buf (pos + 32);
     Some \<lparr>Checksum = sum, Size_ramcopy = a, compressed_image_start = b, compressed_image_size = c,
           Biossize_type = d\<rparr> }"

definition Checksumstruct_bytes :: "Checksumstruct \<Rightarrow> bytes" where
  "Checksumstruct_bytes s = Checksum s @ le32_bytes (Size_ramcopy s) @ le32_bytes (compressed_image_start s)
     @ le32_bytes (compressed_image_size s) @ le32_bytes (Biossize_type s)"

text \<open>The descriptor table and the jump at the top of the first stage.\<close>

definition dump_gdt :: "bytes \<Rightarrow> bytes option" where
  "dump_gdt loaderimage = do {
     l \<leftarrow> put_bytes loaderimage 0x3fe00 (replicate 512 0x90);
     l \<leftarrow> put_bytes l 0x3ffd0 (replicate 32 0);
     l \<leftarrow> put_bytes l 0x3ffcf [0xfc, 0xea];
     l \<leftarrow> put_bytes l 0x3ffd2 [0x10, 0xfc, 0xff, 0x08];
     l \<leftarrow> put_bytes l 0x3ffd7 [0x90];
     l \<leftarrow> put_bytes l 0x3ffe0 [0xff, 0xff];
     l \<leftarrow> put_bytes l 0x3ffe5 [0x9b, 0xcf];
     l \<leftarrow> put_bytes l 0x3ffe8 [0xff, 0xff];
     l \<leftarrow> put_bytes l 0x3ffed [0x93, 0xcf];
     put_bytes l 0x3fff4 [0x18, 0x00, 0xd8, 0xff, 0xff, 0xff] }"

text \<open>The hash of the first stage, over what it copies to RAM without the hash itself, put in front of it.\<close>

definition hash_loader ::
  "u32 \<Rightarrow> u32 \<Rightarrow> bytes \<Rightarrow> bytes \<Rightarrow> SHA1Context \<Rightarrow> (bytes \<times> bytes \<times> SHA1Context) option" where
  "hash_loader bootloaderpos sz flash SHA1_result context = do {
     input \<leftarrow> get_bytes flash (unat (bootloaderpos + 20)) (unat (sz - 20));
     let (SHA1_result, context) = sha1_buffer input SHA1_result context;
     flash \<leftarrow> put_bytes flash (unat bootloaderpos) SHA1_result;
     Some (flash, SHA1_result, context) }"

text \<open>The first stage with its table, and the structure it carries.\<close>

definition prepare_loader :: "bytes \<Rightarrow> u32 \<Rightarrow> (bytes \<times> u32 \<times> Checksumstruct) option" where
  "prepare_loader blbin romsize = do {
     loaderimage \<leftarrow> put_bytes (replicate (256 * 1024) 0) 0 (take (256 * 1024) blbin);
     loaderimage \<leftarrow> dump_gdt loaderimage;
     bootloaderpos \<leftarrow> le32_at loaderimage 0x40;
     loaderimage \<leftarrow> put_bytes loaderimage 0x40 [0, 0, 0, 0];
     bootloaderstruct \<leftarrow> Checksumstruct_at loaderimage (unat bootloaderpos);
     let temp = bootloaderpos + Size_ramcopy bootloaderstruct;
     let temp = temp AND 0xfffffff0;
     let temp = temp + 0x10;
     let temp = temp + 0x100;
     Some (loaderimage, bootloaderpos,
           bootloaderstruct\<lparr>compressed_image_start := temp, compressed_image_size := romsize\<rparr>) }"

definition romcopy :: "SHA1Context \<Rightarrow> u32 MD5_CTX \<Rightarrow> bytes \<Rightarrow> bytes \<Rightarrow> bytes \<Rightarrow> (bytes \<times> bytes) option" where
  "romcopy context hashcontext SHA1_result blbin cromfile = do {
     let romsize = (of_nat (length cromfile) :: u32);
     crom \<leftarrow> put_bytes (replicate (1024 * 1024) 0) 0 (take (unat romsize) cromfile);
     (loaderimage, bootloaderpos, s) \<leftarrow> prepare_loader blbin romsize;
     let start = compressed_image_start s;
     flash256 \<leftarrow> put_bytes (replicate (256 * 1024) 0) 0 loaderimage;
     flash1024 \<leftarrow> put_bytes (replicate (1024 * 1024) 0) 0 loaderimage;
     flash256 \<leftarrow> put_bytes flash256 (unat bootloaderpos) (Checksumstruct_bytes (s\<lparr>Biossize_type := 0\<rparr>));
     flash1024 \<leftarrow> put_bytes flash1024 (unat bootloaderpos) (Checksumstruct_bytes (s\<lparr>Biossize_type := 1\<rparr>));
     (flash256, SHA1_result, context) \<leftarrow> hash_loader bootloaderpos (Size_ramcopy s) flash256 SHA1_result context;
     (flash1024, SHA1_result, context) \<leftarrow> hash_loader bootloaderpos (Size_ramcopy s) flash1024 SHA1_result context;
     flash1024 \<leftarrow> put_bytes flash1024 (unat (0 * 256 * 1024 + start)) (replicate (unat (256 * 1024 - start - 512)) 0xff);
     bank \<leftarrow> get_bytes flash1024 0 (256 * 1024);
     flash1024 \<leftarrow> put_bytes flash1024 (3 * 256 * 1024) bank;
     flash256 \<leftarrow> put_bytes flash256 (unat (start + 20 + romsize))
                    (replicate (unat (256 * 1024 - (start + 20 + romsize) - 512)) 0xff);
     image \<leftarrow> get_bytes crom 0 (unat romsize);
     flash256 \<leftarrow> put_bytes flash256 (unat (start + 20)) image;
     input \<leftarrow> get_bytes flash256 (unat (start + 20)) (unat romsize);
     let (SHA1_result, context) = sha1_buffer input SHA1_result context;
     flash256 \<leftarrow> put_bytes flash256 (unat start) SHA1_result;
     flash1024 \<leftarrow> put_bytes flash1024 (1 * 256 * 1024) (replicate (2 * 1024 * 256) 0xff);
     flash1024 \<leftarrow> put_bytes flash1024 (unat (start + 1 * 256 * 1024)) SHA1_result;
     flash1024 \<leftarrow> put_bytes flash1024 (unat (start + 20 + 1 * 256 * 1024)) image;
     flash1024 \<leftarrow> put_bytes flash1024 (unat (start + 2 * 256 * 1024)) SHA1_result;
     flash1024 \<leftarrow> put_bytes flash1024 (unat (start + 20 + 2 * 256 * 1024)) image;
     flash256 \<leftarrow> writeBiosIdentifier hashcontext flash256 (256 * 1024);
     flash1024 \<leftarrow> writeBiosIdentifier hashcontext flash1024 (1024 * 1024);
     Some (flash256, flash1024) }"

section \<open>The templates\<close>

text \<open>What the two other modes do with the template and the loader: \<open>Inl\<close> is the early return.\<close>

datatype romsize_error = Romsize_too_big

text \<open>\<open>vml\<close> is the buffer as it was allocated.\<close>

definition vmlbuild :: "bytes \<Rightarrow> bytes \<Rightarrow> bytes \<Rightarrow> (romsize_error + bytes) option" where
  "vmlbuild vml vmlfile cromfile = do {
     let romsize = length cromfile;
     if romsize > 0x100000 then Some (Inl Romsize_too_big)
     else do {
       let vmlsize = length vmlfile;
       vml \<leftarrow> put_bytes vml 0 vmlfile;
       vml \<leftarrow> put_bytes vml 0x1700 cromfile;
       vml \<leftarrow> put_bytes vml (0x1700 + romsize) (replicate 100 0);
       out \<leftarrow> get_bytes vml 0 (vmlsize + romsize + 100);
       Some (Inr out) } }"

definition shax :: "bytes \<Rightarrow> SHA1Context \<Rightarrow> bytes option" where
  "shax data context =
     (let len = of_nat (length data) :: u32;
          (_, c) = SHA1Reset context;
          (_, c) = SHA1Input c (le32_bytes len);
          (_, c) = SHA1Input c data;
          (_, c, result) = SHA1Result c
      in result)"

definition xberepair :: "SHA1Context \<Rightarrow> bytes \<Rightarrow> bytes \<Rightarrow> bytes \<Rightarrow> (romsize_error + bytes) option" where
  "xberepair context xbe xbefile cromfile = do {
     let romsize = length cromfile;
     if romsize > 0x100000 then Some (Inl Romsize_too_big)
     else do {
       xbe \<leftarrow> put_bytes xbe 0 (replicate 4 0);
       xbe \<leftarrow> put_bytes xbe 0 xbefile;
       xbe \<leftarrow> put_bytes xbe 0x3000 cromfile;
       xbe \<leftarrow> put_bytes xbe 0x1084 (le32_bytes (of_nat romsize));
       let romsize = ((of_nat romsize :: u32) AND 0xfffffff0) + 32;
       Sections \<leftarrow> le32_at xbe 0x120;
       BaseAddress \<leftarrow> le32_at xbe 0x104;
       let sechdr = unat (Sections - BaseAddress);
       let xbesize = 0x3000 + romsize;
       xbe \<leftarrow> put_bytes xbe 0x10C (le32_bytes xbesize);
       xbe \<leftarrow> put_bytes xbe (sechdr + 0x10) (le32_bytes (0x2000 + romsize));
       xbe \<leftarrow> put_bytes xbe (sechdr + 8) (le32_bytes (0x2000 + romsize));
       FileAddress \<leftarrow> le32_at xbe (sechdr + 0xC);
       FileSize \<leftarrow> le32_at xbe (sechdr + 0x10);
       data \<leftarrow> get_bytes xbe (unat FileAddress) (unat FileSize);
       sha_Message_Digest \<leftarrow> shax data context;
       xbe \<leftarrow> put_bytes xbe (sechdr + 0x24) sha_Message_Digest;
       out \<leftarrow> get_bytes xbe 0 (unat xbesize);
       Some (Inr out) } }"

end
