(* ===== verification/ImageBuildCorrect.thy ===== *)
theory ImageBuildCorrect
  imports ImageBuild
begin

text \<open>
  What the image builder makes: the layout of the two flash images, the hashes the first stage
  checks, the identification, and the two templates with the loader in them.
\<close>

section \<open>Overwriting a part of a buffer\<close>

definition upd :: "nat \<Rightarrow> bytes \<Rightarrow> bytes \<Rightarrow> bytes" where
  "upd p bs buf = take p buf @ bs @ drop (p + length bs) buf"

lemma put_upd: "p + length bs \<le> length buf \<Longrightarrow> put_bytes buf p bs = Some (upd p bs buf)"
  by (simp add: put_bytes_def upd_def)

lemma length_upd: "p + length bs \<le> length buf \<Longrightarrow> length (upd p bs buf) = length buf"
  by (simp add: upd_def)

lemma nth_upd:
  "p + length bs \<le> length buf \<Longrightarrow> i < length buf \<Longrightarrow>
   upd p bs buf ! i = (if p \<le> i \<and> i < p + length bs then bs ! (i - p) else buf ! i)"
  by (auto simp: upd_def nth_append min_def)

lemma slice_eqI:
  assumes "p + n \<le> length bs" "q + n \<le> length cs" "\<And>i. i < n \<Longrightarrow> bs ! (p + i) = cs ! (q + i)"
  shows "slice p n bs = slice q n cs"
  by (rule nth_equalityI) (use assms in \<open>auto simp: nth_slice\<close>)

lemma slice_upd_same: "p + length bs \<le> length buf \<Longrightarrow> slice p (length bs) (upd p bs buf) = bs"
  by (simp add: upd_def slice_def)

lemma slice_upd_other:
  assumes "p + length bs \<le> length buf" "q + n \<le> p \<or> p + length bs \<le> q" "q + n \<le> length buf"
  shows "slice q n (upd p bs buf) = slice q n buf"
  by (rule slice_eqI) (use assms in \<open>auto simp: length_upd nth_upd\<close>)

lemma slice_upd_inside:
  assumes "p + length bs \<le> length buf" "p \<le> q" "q + n \<le> p + length bs"
  shows "slice q n (upd p bs buf) = slice (q - p) n bs"
  by (rule slice_eqI) (use assms in \<open>auto simp: length_upd nth_upd\<close>)

lemma get_slice: "p + n \<le> length buf \<Longrightarrow> get_bytes buf p n = Some (slice p n buf)"
  by (simp add: get_bytes_def)

lemma slice_all: "n = length bs \<Longrightarrow> slice 0 n bs = bs"
  by (simp add: slice_def)

lemmas upd_simps = put_upd length_upd slice_upd_same slice_upd_other get_slice

lemma le32_at_slice: "p + 4 \<le> length bs \<Longrightarrow> slice p 4 bs = le32_bytes w \<Longrightarrow> le32_at bs p = Some w"
proof -
  assume p: "p + 4 \<le> length bs" and s: "slice p 4 bs = le32_bytes w"
  have "bs ! (p + i) = le32_bytes w ! i" if "i < 4" for i
    using nth_slice [of i 4 p bs] s p that by simp
  from this [of 0] this [of 1] this [of 2] this [of 3] show ?thesis
    using p le32_of_bytes [of w] by (simp add: le32_at_def le32_bytes_def)
qed

section \<open>The identification\<close>

lemma length_rfc_compress: "length (rfc_compress H b) = 4"
  by (simp add: rfc_compress_def Let_def split: prod.split)

lemma length_rfc_blocks: "length H = 4 \<Longrightarrow> length (rfc_blocks H bs) = 4"
proof (induction H bs rule: rfc_blocks.induct)
  case (1 H bs)
  then show ?case by (subst rfc_blocks.simps) (simp add: length_rfc_compress)
qed

lemma length_rfc_md5 [simp]: "length (rfc_md5 msg) = 16"
  by (simp add: rfc_md5_def length_concat o_def sum_list_triv length_rfc_blocks)

lemma length_identifier_name: "length identifier_name = 20"
  by (simp add: identifier_name_def)

lemma md5_of_image:
  fixes h :: "u32 MD5_CTX"
  assumes "length (md5_buffer h) = 64" and "length img \<le> 0x100000"
  shows "\<exists>c' c''. MD5Update (MD5Init h) img = Some c' \<and> MD5Final c' = Some (rfc_md5 img, c'')"
proof -
  obtain c' where c': "MD5Update (MD5Init h) img = Some c'" "md5_holds c' ([] @ img)"
    using MD5Update_holds [OF MD5Init_holds [OF assms(1)], of img] assms(2) by auto
  then show ?thesis using MD5Final_holds [of c' img] assms(2) by auto
qed

lemma upd_step:
  assumes "y = upd p bs x" and "length x = n" and "p + length bs \<le> n"
  shows "length y = n" and "q + k \<le> n \<Longrightarrow> q + k \<le> p \<or> p + length bs \<le> q \<Longrightarrow> slice q k y = slice q k x"
    and "k = length bs \<Longrightarrow> slice p k y = bs" and "put_bytes x p bs = Some y"
  using assms by (simp_all add: length_upd slice_upd_other slice_upd_same put_upd)

lemma identifier_written:
  assumes h: "length (md5_buffer h) = 64" and n: "length img = n" "n = b + 64" "n \<le> 0x100000"
  shows "\<exists>img'. writeBiosIdentifier h img n = Some img' \<and> length img' = n
    \<and> slice 0 b img' = slice 0 b img
    \<and> slice b 4 img' = [0x41, 0x55, 0x54, 0x4f]
    \<and> slice (b + 12) 4 img' = le32_bytes (of_nat n) \<and> slice (b + 16) 20 img' = identifier_name
    \<and> slice (b + 48) 16 img' = rfc_md5 (slice 0 (b + 48) img')"
proof -
  define i1 where "i1 = upd b [0x41, 0x55, 0x54, 0x4f] img"
  define i2 where "i2 = upd (b + 4) [1] i1"
  define i3 where "i3 = upd (b + 12) (le32_bytes (of_nat n)) i2"
  define i4 where "i4 = upd (b + 16) identifier_name i3"
  define i5 where "i5 = upd (b + 5) [0x7f] i4"
  define i6 where "i6 = upd (b + 6) [3] i5"
  define i7 where "i7 = upd (b + 48) (rfc_md5 (slice 0 (b + 48) i6)) i6"
  note s1 = upd_step [OF i1_def n(1)] and s2 = upd_step [OF i2_def] and s3 = upd_step [OF i3_def]
    and s4 = upd_step [OF i4_def, unfolded length_identifier_name] and s5 = upd_step [OF i5_def]
    and s6 = upd_step [OF i6_def] and s7 = upd_step [OF i7_def]
  have l1: "length i1 = n" using n(2) by (intro s1) simp
  have l2: "length i2 = n" using n(2) by (intro s2 [OF l1]) simp
  have l3: "length i3 = n" using n(2) by (intro s3 [OF l2]) simp
  have l4: "length i4 = n" using n(2) by (intro s4 [OF l3]) simp
  have l5: "length i5 = n" using n(2) by (intro s5 [OF l4]) simp
  have l6: "length i6 = n" using n(2) by (intro s6 [OF l5]) simp
  have l7: "length i7 = n" using n(2) by (intro s7 [OF l6]) simp
  note put = s1(4) s2(4) [OF l1] s3(4) [OF l2] s4(4) [OF l3] s5(4) [OF l4] s6(4) [OF l5] s7(4) [OF l6]
  note other = s1(2) s2(2) [OF l1] s3(2) [OF l2] s4(2) [OF l3] s5(2) [OF l4] s6(2) [OF l5] s7(2) [OF l6]
  have same: "slice b 4 i1 = [0x41, 0x55, 0x54, 0x4f]" "slice (b + 12) 4 i3 = le32_bytes (of_nat n)"
    "slice (b + 16) 20 i4 = identifier_name" "slice (b + 48) 16 i7 = rfc_md5 (slice 0 (b + 48) i6)"
    using n(2) by (intro s1 s3 [OF l2] s4 [OF l3] s7 [OF l6]; simp)+
  have "length (slice 0 (b + 48) i6) \<le> 0x100000" using n(2,3) l6 by simp
  from md5_of_image [OF h this] obtain c' c'' where
    md5: "MD5Update (MD5Init h) (slice 0 (b + 48) i6) = Some c'" "MD5Final c' = Some (rfc_md5 (slice 0 (b + 48) i6), c'')"
    by blast
  have e: "n - 64 = b" "n - 16 = b + 48" "0 + (b + 48) \<le> length i6" using n(2) l6 by simp_all
  have "writeBiosIdentifier h img n = Some i7"
    unfolding writeBiosIdentifier_def Let_def e using put n(2)
    by (simp add: get_slice [OF e(3)] md5 del: of_nat_add)
  moreover have "slice 0 b i7 = slice 0 b img" "slice 0 (b + 48) i7 = slice 0 (b + 48) i6"
    "slice b 4 i7 = [0x41, 0x55, 0x54, 0x4f]" "slice (b + 12) 4 i7 = le32_bytes (of_nat n)"
    "slice (b + 16) 20 i7 = identifier_name" "slice (b + 48) 16 i7 = rfc_md5 (slice 0 (b + 48) i6)"
    using other same n(2) by simp_all
  ultimately show ?thesis using l7 by auto
qed

section \<open>The flash images\<close>

text \<open>The first stage at \<open>base + pos\<close> of an image: its hash, and the words behind it.\<close>

definition loader_in :: "bytes \<Rightarrow> nat \<Rightarrow> nat \<Rightarrow> u32 \<Rightarrow> u32 \<Rightarrow> u32 \<Rightarrow> bool" where
  "loader_in img p ram start romsize typ \<longleftrightarrow>
     slice p 20 img = fips_sha1 (slice (p + 20) (ram - 20) img)
     \<and> slice (p + 20) 16 img = le32_bytes (of_nat ram) @ le32_bytes start @ le32_bytes romsize @ le32_bytes typ"

text \<open>The packed loader behind its hash.\<close>

definition image_in :: "bytes \<Rightarrow> nat \<Rightarrow> bytes \<Rightarrow> bool" where
  "image_in img p crom \<longleftrightarrow> slice p 20 img = fips_sha1 crom \<and> slice (p + 20) (length crom) img = crom"

lemma length_Checksumstruct_bytes: "length (Checksum s) = 20 \<Longrightarrow> length (Checksumstruct_bytes s) = 36"
  by (simp add: Checksumstruct_bytes_def)

lemma hash_loader_eq:
  assumes c: "length (Message_Block c) = 64" and img: "length img \<le> 0x100000"
    and fits: "pos + ram \<le> length img" and ram: "20 \<le> ram"
  shows "\<exists>c'. hash_loader (of_nat pos) (of_nat ram) img r c
      = Some (upd pos (fips_sha1 (slice (pos + 20) (ram - 20) img)) img, fips_sha1 (slice (pos + 20) (ram - 20) img), c')
    \<and> length (Message_Block c') = 64"
proof -
  let ?in = "slice (pos + 20) (ram - 20) img"
  have lt: "pos + 20 < 2 ^ 32" "ram - 20 < 2 ^ 32" "pos < 2 ^ 32" using fits img ram by simp_all
  have e: "(of_nat pos + 20 :: u32) = of_nat (pos + 20)" "(of_nat ram - 20 :: u32) = of_nat (ram - 20)"
    using ram by (simp_all add: of_nat_diff)
  note n = unat_of_nat_u32 [OF lt(1), folded e(1)] unat_of_nat_u32 [OF lt(2), folded e(2)] unat_of_nat_u32 [OF lt(3)]
  have len: "length ?in < 2 ^ 32" using img by simp
  obtain c' where s: "sha1_buffer ?in r c = (fips_sha1 ?in, c')" "length (Message_Block c') = 64"
    using sha1_buffer_eq [OF c len, of r] by (metis prod.collapse)
  have g: "get_bytes img (pos + 20) (ram - 20) = Some ?in" using fits ram by (intro get_slice) simp
  show ?thesis
    unfolding hash_loader_def n g using fits ram s by (simp add: put_upd)
qed

text \<open>A loader that was hashed and is followed by its image is still there after the image was written.\<close>

lemma loader_in_hashed:
  assumes "x' = upd p (fips_sha1 (slice (p + 20) (ram - 20) x)) x" and "p + ram \<le> length x" and "36 \<le> ram"
    and "slice (p + 20) 16 x = le32_bytes (of_nat ram) @ le32_bytes start @ le32_bytes romsize @ le32_bytes typ"
  shows "loader_in x' p ram start romsize typ"
proof -
  note s = upd_step [OF assms(1) refl, unfolded length_fips_sha1]
  have "slice (p + 20) (ram - 20) x' = slice (p + 20) (ram - 20) x" "slice (p + 20) 16 x' = slice (p + 20) 16 x"
    "slice p 20 x' = fips_sha1 (slice (p + 20) (ram - 20) x)"
    using assms(2,3) by (intro s; simp)+
  then show ?thesis using assms(4) by (simp add: loader_in_def)
qed

lemma loader_in_moved:
  assumes "loader_in x p ram start romsize typ" and "36 \<le> ram" and "slice q ram y = slice p ram x"
  shows "loader_in y q ram start romsize typ"
proof -
  have "slice (q + i) n y = slice (p + i) n x" if "i + n \<le> ram" for i n
    using slice_slice [OF that, of q y] slice_slice [OF that, of p x] assms(3) by simp
  from this [of 0 20] this [of 20 "ram - 20"] this [of 20 16] show ?thesis
    using assms(1,2) by (simp add: loader_in_def)
qed

lemma image_in_moved:
  assumes "image_in x p crom" and "slice q (20 + length crom) y = slice p (20 + length crom) x"
  shows "image_in y q crom"
proof -
  have "slice (q + i) n y = slice (p + i) n x" if "i + n \<le> 20 + length crom" for i n
    using slice_slice [OF that, of q y] slice_slice [OF that, of p x] assms(2) by simp
  from this [of 0 20] this [of 20 "length crom"] show ?thesis
    using assms(1) by (simp add: image_in_def)
qed

text \<open>An operation on buffers of \<open>n\<close> bytes that leaves the first \<open>lo\<close> alone.\<close>

definition keeps :: "nat \<Rightarrow> nat \<Rightarrow> (bytes \<Rightarrow> bytes option) \<Rightarrow> bool" where
  "keeps lo n f \<longleftrightarrow> (\<forall>x. length x = n \<longrightarrow>
     (\<exists>y. f x = Some y \<and> length y = n \<and> (\<forall>q k. q + k \<le> lo \<longrightarrow> slice q k y = slice q k x)))"

lemma keeps_put: "lo \<le> p \<Longrightarrow> p + length bs \<le> n \<Longrightarrow> keeps lo n (\<lambda>x. put_bytes x p bs)"
  by (auto simp: keeps_def put_upd length_upd slice_upd_other)

lemma keeps_bind: "keeps lo n f \<Longrightarrow> keeps lo n g \<Longrightarrow> keeps lo n (\<lambda>x. Option.bind (f x) g)"
  unfolding keeps_def by (metis bind.bind_lunit)

lemma dump_gdt_keeps: "keeps 0x3fe00 0x40000 dump_gdt"
  unfolding dump_gdt_def [abs_def] by (intro keeps_bind keeps_put) simp_all

definition image_start :: "nat \<Rightarrow> nat \<Rightarrow> nat" where
  "image_start pos ram = (pos + ram) div 16 * 16 + 0x110"

lemma round_16:
  assumes "n < 2 ^ 32"
  shows "of_nat n AND 0xfffffff0 = (of_nat (n div 16 * 16) :: u32)"
proof -
  have m: "0xfffffff0 = NOT (mask 4 :: u32)" by (simp add: mask_eq_exp_minus_1)
  have "of_nat n AND NOT (mask 4) = (of_nat (n div 2 ^ 4 * 2 ^ 4) :: u32)"
  proof (rule unsigned_word_eqI)
    have "n div 2 ^ 4 * 2 ^ 4 < 2 ^ 32"
      by (rule le_less_trans [OF div_times_less_eq_dividend assms])
    with assms show "unat ((of_nat n :: u32) AND NOT (mask 4)) = unat (of_nat (n div 2 ^ 4 * 2 ^ 4) :: u32)"
      by (simp only: unat_and_not_mask_u32 unat_of_nat_u32)
  qed
  then show ?thesis unfolding m by simp
qed

lemma image_start_word:
  assumes "pos + ram < 0x40000"
  shows "((of_nat pos + of_nat ram) AND 0xfffffff0) + 0x10 + 0x100 = (of_nat (image_start pos ram) :: u32)"
  using round_16 [of "pos + ram"] assms by (simp add: image_start_def)

text \<open>The first stage with its table: the position and the size it carries are those of the file.\<close>

lemma prepare_loader_eq:
  assumes pos: "0x44 \<le> pos" "pos + ram < 0x3fcf0" "36 \<le> ram" and bl: "pos + ram \<le> length bl"
    and at: "slice 0x40 4 bl = le32_bytes (of_nat pos)" "slice (pos + 20) 4 bl = le32_bytes (of_nat ram)"
  shows "\<exists>l s. prepare_loader bl romsize = Some (l, of_nat pos, s) \<and> length l = 0x40000 \<and> length (Checksum s) = 20
    \<and> Size_ramcopy s = of_nat ram \<and> compressed_image_start s = of_nat (image_start pos ram)
    \<and> compressed_image_size s = romsize \<and> slice (pos + 36) (ram - 36) l = slice (pos + 36) (ram - 36) bl"
proof -
  define l0 where "l0 = upd 0 (take 0x40000 bl) (replicate 0x40000 0)"
  have l0: "put_bytes (replicate 0x40000 0) 0 (take 0x40000 bl) = Some l0" "length l0 = 0x40000"
    by (simp_all add: l0_def put_upd length_upd)
  have bl0: "slice q k l0 = slice q k bl" if "q + k \<le> pos + ram" for q k
    by (rule slice_eqI) (use that pos bl in \<open>auto simp: l0_def length_upd nth_upd\<close>)
  obtain l1 where l1: "dump_gdt l0 = Some l1" "length l1 = 0x40000" "\<And>q k. q + k \<le> 0x3fe00 \<Longrightarrow> slice q k l1 = slice q k l0"
    using dump_gdt_keeps l0(2) unfolding keeps_def by blast
  have bl1: "slice q k l1 = slice q k bl" if "q + k \<le> pos + ram" for q k
    using l1(3) [of q k] bl0 [OF that] that pos(2) by simp
  define l2 where "l2 = upd 0x40 [0, 0, 0, 0] l1"
  note s2 = upd_step [OF l2_def l1(2)]
  have bl2: "slice q k l2 = slice q k bl" if "0x44 \<le> q" "q + k \<le> pos + ram" for q k
    using s2(2) [of q k] bl1 [of q k] that pos by simp
  have l2: "length l2 = 0x40000" by (rule s2) simp
  have r: "le32_at l1 0x40 = Some (of_nat pos)"
    using at(1) bl1 [of "0x40" 4] pos l1(2) by (intro le32_at_slice) simp_all
  have "unat (of_nat pos :: u32) = pos" using pos by (intro unat_of_nat_u32) simp
  moreover have "le32_at l2 (pos + 20) = Some (of_nat ram)"
    using at(2) bl2 [of "pos + 20" 4] pos l2 by (intro le32_at_slice) simp_all
  moreover have "\<exists>w. le32_at l2 (pos + i) = Some w" if "i \<le> 32" for i
    using that pos l2 by (simp add: le32_at_def)
  from this [of 24] this [of 28] this [of 32] obtain v w x
    where "le32_at l2 (pos + 24) = Some v" "le32_at l2 (pos + 28) = Some w" "le32_at l2 (pos + 32) = Some x" by auto
  moreover have "get_bytes l2 pos 20 = Some (slice pos 20 l2)" using pos l2 by (simp add: get_slice)
  ultimately have s: "Checksumstruct_at l2 (unat (of_nat pos :: u32))
      = Some \<lparr>Checksum = slice pos 20 l2, Size_ramcopy = of_nat ram, compressed_image_start = v,
          compressed_image_size = w, Biossize_type = x\<rparr>"
    by (simp add: Checksumstruct_at_def)
  have st: "((of_nat pos + of_nat ram) AND 0xfffffff0) + 0x10 + 0x100 = (of_nat (image_start pos ram) :: u32)"
    using pos by (intro image_start_word) simp
  have kb: "256 * 1024 = (0x40000 :: nat)" by simp
  have "put_bytes l1 0x40 [0, 0, 0, 0] = Some l2" by (rule s2) simp
  then have "prepare_loader bl romsize = Some (l2, of_nat pos, \<lparr>Checksum = slice pos 20 l2, Size_ramcopy = of_nat ram,
      compressed_image_start = of_nat (image_start pos ram), compressed_image_size = romsize, Biossize_type = x\<rparr>)"
    unfolding prepare_loader_def Let_def kb l0(1) bind.bind_lunit l1(1) r s by (simp add: s st [simplified] st)
  then show ?thesis using l2 pos bl2 [of "pos + 36" "ram - 36"] by simp
qed

lemma slice_prefix: "slice 0 n x = slice 0 n y \<Longrightarrow> q + k \<le> n \<Longrightarrow> slice q k x = slice q k y"
  using slice_slice [of q k n 0] by (metis add_0)

lemma put_all: "length l = n \<Longrightarrow> put_bytes (replicate n 0) 0 l = Some l"
  by (simp add: put_upd upd_def)

text \<open>The words of the layout, as numbers.\<close>

lemma layout_words:
  fixes st n :: nat
  assumes "st + 20 + n \<le> 0x3fe00"
  shows "unat (0 * 256 * 1024 + of_nat st :: u32) = st"
    and "unat (256 * 1024 - of_nat st - 512 :: u32) = 0x3fe00 - st"
    and "unat (of_nat st + 20 + of_nat n :: u32) = st + 20 + n"
    and "unat (256 * 1024 - (of_nat st + 20 + of_nat n) - 512 :: u32) = 0x3fe00 - (st + 20 + n)"
    and "unat (of_nat st + 20 :: u32) = st + 20" and "unat (of_nat n :: u32) = n" and "unat (of_nat st :: u32) = st"
    and "unat (of_nat st + 1 * 256 * 1024 :: u32) = 0x40000 + st"
    and "unat (of_nat st + 20 + 1 * 256 * 1024 :: u32) = 0x40000 + st + 20"
    and "unat (of_nat st + 2 * 256 * 1024 :: u32) = 0x80000 + st"
    and "unat (of_nat st + 20 + 2 * 256 * 1024 :: u32) = 0x80000 + st + 20"
proof -
  have w: "unat x = k" if "x = of_nat k" "k < 2 ^ 32" for x :: u32 and k
    using that unat_of_nat_u32 by simp
  show "unat (0 * 256 * 1024 + of_nat st :: u32) = st" "unat (of_nat st + 20 + of_nat n :: u32) = st + 20 + n"
    "unat (of_nat st + 20 :: u32) = st + 20" "unat (of_nat n :: u32) = n" "unat (of_nat st :: u32) = st"
    "unat (of_nat st + 1 * 256 * 1024 :: u32) = 0x40000 + st"
    "unat (of_nat st + 20 + 1 * 256 * 1024 :: u32) = 0x40000 + st + 20"
    "unat (of_nat st + 2 * 256 * 1024 :: u32) = 0x80000 + st"
    "unat (of_nat st + 20 + 2 * 256 * 1024 :: u32) = 0x80000 + st + 20"
    using assms by (intro w; simp)+
  show "unat (256 * 1024 - of_nat st - 512 :: u32) = 0x3fe00 - st"
    "unat (256 * 1024 - (of_nat st + 20 + of_nat n) - 512 :: u32) = 0x3fe00 - (st + 20 + n)"
    using assms by (intro w; simp add: of_nat_diff)+
qed

text \<open>The image of 256 KByte and the image of 1 MByte, from the loader with its structure written.\<close>

definition image_256 :: "nat \<Rightarrow> bytes \<Rightarrow> bytes \<Rightarrow> bytes" where
  "image_256 st crom a =
     upd st (fips_sha1 crom) (upd (st + 20) crom
       (upd (st + 20 + length crom) (replicate (0x3fe00 - (st + 20 + length crom)) 0xff) a))"

definition image_1024 :: "nat \<Rightarrow> bytes \<Rightarrow> bytes \<Rightarrow> bytes" where
  "image_1024 st crom c =
     (let c = upd st (replicate (0x3fe00 - st) 0xff) c; c = upd 0xC0000 (slice 0 0x40000 c) c;
          c = upd 0x40000 (replicate 0x80000 0xff) c;
          c = upd (0x40000 + st) (fips_sha1 crom) c; c = upd (0x40000 + st + 20) crom c;
          c = upd (0x80000 + st) (fips_sha1 crom) c
      in upd (0x80000 + st + 20) crom c)"

lemma image_256_result:
  assumes "length a = 0x40000" and "st + 20 + length crom \<le> 0x3fe00"
  shows "length (image_256 st crom a) = 0x40000" and "image_in (image_256 st crom a) st crom"
    and "q + k \<le> st \<Longrightarrow> slice q k (image_256 st crom a) = slice q k a"
  using assms unfolding image_256_def image_in_def
  by (simp_all add: length_upd slice_upd_other slice_upd_inside slice_all)

lemma image_1024_result:
  assumes "length c = 0x100000" and "st + 20 + length crom \<le> 0x3fe00"
  shows "length (image_1024 st crom c) = 0x100000" and "image_in (image_1024 st crom c) (0x40000 + st) crom"
    and "image_in (image_1024 st crom c) (0x80000 + st) crom"
    and "q + k \<le> st \<Longrightarrow> slice (0xC0000 + q) k (image_1024 st crom c) = slice q k c"
  using assms unfolding image_1024_def image_in_def Let_def
  by (simp_all add: length_upd slice_upd_other slice_upd_inside slice_slice slice_all)

text \<open>The whole mode. \<open>loader_in\<close> and \<open>image_in\<close> are what the first stage looks for.\<close>

lemma romcopy_result:
  assumes c: "length (Message_Block context) = 64" and h: "length (md5_buffer hc) = 64"
    and pos: "0x44 \<le> pos" "36 \<le> ram" "pos + ram \<le> length bl"
    and at: "slice 0x40 4 bl = le32_bytes (of_nat pos)" "slice (pos + 20) 4 bl = le32_bytes (of_nat ram)"
    and fits: "image_start pos ram + 20 + length crom \<le> 0x3fe00"
  shows "\<exists>f256 f1024. romcopy context hc r bl crom = Some (f256, f1024)
    \<and> length f256 = 0x40000 \<and> length f1024 = 0x100000
    \<and> loader_in f256 pos ram (of_nat (image_start pos ram)) (of_nat (length crom)) 0
    \<and> image_in f256 (image_start pos ram) crom
    \<and> loader_in f1024 (0xC0000 + pos) ram (of_nat (image_start pos ram)) (of_nat (length crom)) 1
    \<and> image_in f1024 (0x40000 + image_start pos ram) crom \<and> image_in f1024 (0x80000 + image_start pos ram) crom
    \<and> slice 0x3fff0 16 f256 = rfc_md5 (slice 0 0x3fff0 f256)
    \<and> slice 0xffff0 16 f1024 = rfc_md5 (slice 0 0xffff0 f1024)"
proof -
  let ?st = "image_start pos ram" and ?n = "length crom"
  have st: "pos + ram + 0x100 < ?st" unfolding image_start_def by presburger
  obtain l s where prep: "prepare_loader bl (of_nat ?n) = Some (l, of_nat pos, s)" "length l = 0x40000"
      "length (Checksum s) = 20" "Size_ramcopy s = of_nat ram" "compressed_image_start s = of_nat ?st"
      "compressed_image_size s = of_nat ?n"
    using prepare_loader_eq [OF pos(1) _ pos(2,3) at, of "of_nat ?n"] st fits by auto
  define w where "w t = Checksumstruct_bytes (s\<lparr>Biossize_type := t\<rparr>)" for t
  have w: "length (w t) = 36" "slice 20 16 (w t)
      = le32_bytes (of_nat ram) @ le32_bytes (of_nat ?st) @ le32_bytes (of_nat ?n) @ le32_bytes t" for t
    using prep(3-6) by (simp_all add: w_def Checksumstruct_bytes_def slice_def)
  define c0 where "c0 = upd 0 l (replicate 0x100000 0)"
  have c0: "length c0 = 0x100000" "put_bytes (replicate 0x100000 0) 0 l = Some c0"
    using prep(2) by (simp_all add: c0_def length_upd put_upd)
  define hashed where "hashed x = upd pos (fips_sha1 (slice (pos + 20) (ram - 20) x)) x" for x
  have hashed: "length (hashed (upd pos (w t) x)) = length x"
      "loader_in (hashed (upd pos (w t) x)) pos ram (of_nat ?st) (of_nat ?n) t"
    if "0x40000 \<le> length x" for t x
  proof -
    have "slice (pos + 20) 16 (upd pos (w t) x) = slice 20 16 (w t)"
      using that st fits w(1) [of t] by (simp add: slice_upd_inside)
    then show "loader_in (hashed (upd pos (w t) x)) pos ram (of_nat ?st) (of_nat ?n) t"
      using that st fits pos(2) w by (intro loader_in_hashed [OF hashed_def]) (simp_all add: length_upd)
  qed (use that st fits w(1) [of t] in \<open>simp add: hashed_def length_upd\<close>)
  define a where "a = upd pos (w 0) l"
  define c1 where "c1 = upd pos (w 1) c0"
  have lens: "length a = 0x40000" "length c1 = 0x100000"
    using st fits w(1) prep(2) c0(1) by (simp_all add: a_def c1_def length_upd)
  have hash: "\<exists>r' d'. hash_loader (of_nat pos) (of_nat ram) x r d = Some (hashed x, r', d') \<and> length (Message_Block d') = 64"
    if "length (Message_Block d) = 64" "length x \<le> 0x100000" "0x40000 \<le> length x" for x r d
    unfolding hashed_def using hash_loader_eq [OF that(1,2), of pos ram r] that(3) st fits pos(2) by auto
  have la: "length a \<le> 0x100000" "0x40000 \<le> length a" and lc: "length c1 \<le> 0x100000" "0x40000 \<le> length c1"
    using lens by simp_all
  obtain r1 x1 where x1: "hash_loader (of_nat pos) (of_nat ram) a r context = Some (hashed a, r1, x1)"
      "length (Message_Block x1) = 64" using hash [OF c la] by blast
  obtain r2 x2 where x2: "hash_loader (of_nat pos) (of_nat ram) c1 r1 x1 = Some (hashed c1, r2, x2)"
      "length (Message_Block x2) = 64" using hash [OF x1(2) lc] by blast
  obtain x3 where x3: "sha1_buffer crom r2 x2 = (fips_sha1 crom, x3)"
    using sha1_buffer_eq(1) [OF x2(2), of crom r2] fits by (cases "sha1_buffer crom r2 x2") simp
  have lh: "length (hashed a) = 0x40000" "length (hashed c1) = 0x100000"
    using hashed(1) prep(2) c0(1) by (simp_all add: a_def c1_def)
  note i256 = image_256_result [OF lh(1) fits] and i1024 = image_1024_result [OF lh(2) fits]
  obtain f256 where f256: "writeBiosIdentifier hc (image_256 ?st crom (hashed a)) 0x40000 = Some f256"
      "length f256 = 0x40000" "slice 0 0x3ffc0 f256 = slice 0 0x3ffc0 (image_256 ?st crom (hashed a))"
      "slice 0x3fff0 16 f256 = rfc_md5 (slice 0 0x3fff0 f256)"
    using identifier_written [OF h i256(1), of "0x3ffc0"] by auto
  obtain f1024 where f1024: "writeBiosIdentifier hc (image_1024 ?st crom (hashed c1)) 0x100000 = Some f1024"
      "length f1024 = 0x100000" "slice 0 0xfffc0 f1024 = slice 0 0xfffc0 (image_1024 ?st crom (hashed c1))"
      "slice 0xffff0 16 f1024 = rfc_md5 (slice 0 0xffff0 f1024)"
    using identifier_written [OF h i1024(1), of "0xfffc0"] by auto
  have "romcopy context hc r bl crom = Some (f256, f1024)"
  proof -
    define d1 where "d1 = upd ?st (replicate (0x3fe00 - ?st) 0xff) (hashed c1)"
    define d2 where "d2 = upd 0xC0000 (slice 0 0x40000 d1) d1"
    define d3 where "d3 = upd 0x40000 (replicate 0x80000 0xff) d2"
    define d4 where "d4 = upd (0x40000 + ?st) (fips_sha1 crom) d3"
    define d5 where "d5 = upd (0x40000 + ?st + 20) crom d4"
    define d6 where "d6 = upd (0x80000 + ?st) (fips_sha1 crom) d5"
    define d7 where "d7 = upd (0x80000 + ?st + 20) crom d6"
    define e1 where "e1 = upd (?st + 20 + ?n) (replicate (0x3fe00 - (?st + 20 + ?n)) 0xff) (hashed a)"
    define e2 where "e2 = upd (?st + 20) crom e1"
    define e3 where "e3 = upd ?st (fips_sha1 crom) e2"
    have "image_1024 ?st crom (hashed c1) = d7" "image_256 ?st crom (hashed a) = e3"
      by (simp_all only: image_1024_def image_256_def Let_def d1_def d2_def d3_def d4_def d5_def d6_def d7_def
          e1_def e2_def e3_def)
    note identifiers = f1024(1) [unfolded this] f256(1) [unfolded this]
    have d1: "put_bytes (hashed c1) ?st (replicate (0x3fe00 - ?st) 0xff) = Some d1" "length d1 = 0x100000"
      using upd_step(1,4) [OF d1_def lh(2)] fits by simp_all
    have d2: "put_bytes d1 0xC0000 (slice 0 0x40000 d1) = Some d2" "length d2 = 0x100000"
      using upd_step(1,4) [OF d2_def d1(2)] d1(2) by simp_all
    have d3: "put_bytes d2 0x40000 (replicate 0x80000 0xff) = Some d3" "length d3 = 0x100000"
      using upd_step(1,4) [OF d3_def d2(2)] by simp_all
    have d4: "put_bytes d3 (0x40000 + ?st) (fips_sha1 crom) = Some d4" "length d4 = 0x100000"
      using upd_step(1,4) [OF d4_def d3(2)] fits by simp_all
    have d5: "put_bytes d4 (0x40000 + ?st + 20) crom = Some d5" "length d5 = 0x100000"
      using upd_step(1,4) [OF d5_def d4(2)] fits by simp_all
    have d6: "put_bytes d5 (0x80000 + ?st) (fips_sha1 crom) = Some d6" "length d6 = 0x100000"
      using upd_step(1,4) [OF d6_def d5(2)] fits by simp_all
    have d7: "put_bytes d6 (0x80000 + ?st + 20) crom = Some d7"
      using upd_step(4) [OF d7_def d6(2)] fits by simp
    have e1: "put_bytes (hashed a) (?st + 20 + ?n) (replicate (0x3fe00 - (?st + 20 + ?n)) 0xff) = Some e1"
        "length e1 = 0x40000" using upd_step(1,4) [OF e1_def lh(1)] fits by simp_all
    have e2: "put_bytes e1 (?st + 20) crom = Some e2" "length e2 = 0x40000" "slice (?st + 20) ?n e2 = crom"
      using upd_step(1,4) [OF e2_def e1(2)] upd_step(3) [OF e2_def e1(2) _ refl] fits by simp_all
    have e3: "put_bytes e2 ?st (fips_sha1 crom) = Some e3"
      using upd_step(4) [OF e3_def e2(2)] fits by simp
    define cb where "cb = upd 0 crom (replicate 0x100000 0)"
    have cb: "put_bytes (replicate 0x100000 0) 0 (take ?n crom) = Some cb" "get_bytes cb 0 ?n = Some crom"
      using fits upd_step(1,3,4) [OF cb_def refl] by (simp_all add: get_slice)
    have loaders: "put_bytes l pos (Checksumstruct_bytes (s\<lparr>Biossize_type := 0\<rparr>)) = Some a"
        "put_bytes c0 pos (Checksumstruct_bytes (s\<lparr>Biossize_type := 1\<rparr>)) = Some c1"
      using w(1) prep(2) c0(1) st fits by (simp_all add: a_def c1_def w_def put_upd)
    have gets: "get_bytes d1 0 0x40000 = Some (slice 0 0x40000 d1)" "get_bytes e2 (?st + 20) ?n = Some crom"
      using d1(2) e2(2,3) fits by (simp_all add: get_slice)
    have n: "256 * 1024 = (0x40000 :: nat)" "1024 * 1024 = (0x100000 :: nat)" "3 * 256 * 1024 = (0xC0000 :: nat)"
      "1 * 256 * 1024 = (0x40000 :: nat)" "2 * 1024 * 256 = (0x80000 :: nat)" by simp_all
    have p: "unat (of_nat pos :: u32) = pos" using st fits by (intro unat_of_nat_u32) simp
    show ?thesis
      unfolding romcopy_def Let_def
      by (simp only: prep(1,4-6) bind.bind_lunit prod.case layout_words [OF fits] n p cb put_all [OF prep(2)] c0(2)
          loaders x1(1) x2(1) x3 gets d1 d2 d3 d4 d5 d6 d7 e1 e2(1) e3 identifiers)
  qed
  moreover have "loader_in f256 pos ram (of_nat ?st) (of_nat ?n) 0"
  proof (rule loader_in_moved [OF _ pos(2)])
    show "loader_in (hashed a) pos ram (of_nat ?st) (of_nat ?n) 0" unfolding a_def using hashed(2) prep(2) by simp
    have "slice pos ram f256 = slice pos ram (image_256 ?st crom (hashed a))"
      using st fits by (intro slice_prefix [OF f256(3)]) simp
    also have "\<dots> = slice pos ram (hashed a)" using st by (intro i256(3)) simp
    finally show "slice pos ram f256 = slice pos ram (hashed a)" .
  qed
  moreover have "image_in f256 ?st crom"
    using fits by (intro image_in_moved [OF i256(2)] slice_prefix [OF f256(3)]) simp
  moreover have "loader_in f1024 (0xC0000 + pos) ram (of_nat ?st) (of_nat ?n) 1"
  proof (rule loader_in_moved [OF _ pos(2)])
    show "loader_in (hashed c1) pos ram (of_nat ?st) (of_nat ?n) 1" unfolding c1_def using hashed(2) c0(1) by simp
    have "slice (0xC0000 + pos) ram f1024 = slice (0xC0000 + pos) ram (image_1024 ?st crom (hashed c1))"
      using st fits by (intro slice_prefix [OF f1024(3)]) simp
    also have "\<dots> = slice pos ram (hashed c1)" using st by (intro i1024(4)) simp
    finally show "slice (0xC0000 + pos) ram f1024 = slice pos ram (hashed c1)" .
  qed
  moreover have "image_in f1024 (0x40000 + ?st) crom" "image_in f1024 (0x80000 + ?st) crom"
    using fits by (intro image_in_moved [OF i1024(2)] image_in_moved [OF i1024(3)] slice_prefix [OF f1024(3)]; simp)+
  ultimately show ?thesis using f256(2,4) f1024(2,4) by blast
qed


text \<open>A small first stage: the position 0x80 at 0x40, the size 0x40 at 0x94.\<close>

definition small_stage :: bytes where
  "small_stage = replicate 0x40 0 @ le32_bytes 0x80 @ replicate 0x50 0 @ le32_bytes 0x40 @ replicate 0x28 0"

definition blank_md5 :: "u32 MD5_CTX" where
  "blank_md5 = \<lparr>md5_state = [], md5_count0 = 0, md5_count1 = 0, md5_buffer = replicate 64 0\<rparr>"

lemma small_stage_words:
  "length small_stage = 0xC0" "slice 0x40 4 small_stage = le32_bytes 0x80" "slice 0x94 4 small_stage = le32_bytes 0x40"
  by (simp_all add: small_stage_def slice_def)


end
