(* ===== verification/BootChain.thy ===== *)
theory BootChain
  imports BootRomCorrect ImageBuildCorrect
begin

text \<open>
  The image builder and the first stage together: an image made by \<open>romcopy\<close>, mapped where the
  console maps its flash, with the first stage copied to RAM by the start-up code, passes the check
  of itself and hands exactly the packed loader that was built in to the unpacker.
\<close>

section \<open>Images in memory\<close>

text \<open>The loader in RAM: the check succeeds and the words are the ones of the image.\<close>

lemma loader_in_ram:
  assumes l: "loader_in f p ram start romsize typ" and ram: "36 \<le> ram" "ram < 2 ^ 32"
    and m: "load_bytes m PROGRAMM_Memory_2bl ram = slice p ram f"
  shows "self_check m" and "load32 m (PROGRAMM_Memory_2bl + 24) = start"
    and "load32 m (PROGRAMM_Memory_2bl + 28) = romsize" and "load32 m (PROGRAMM_Memory_2bl + 32) = typ"
proof -
  have s: "load_bytes m (PROGRAMM_Memory_2bl + of_nat i) n = slice (p + i) n f" if "i + n \<le> ram" for i n
    using load_slice [OF m that] slice_slice [OF that, of p f] by simp
  have w: "slice (p + 20) 16 f = le32_bytes (of_nat ram) @ le32_bytes start @ le32_bytes romsize @ le32_bytes typ"
    using l by (simp add: loader_in_def)
  have "slice (p + 20 + i) 4 f = slice i 4 (le32_bytes (of_nat ram) @ le32_bytes start @ le32_bytes romsize @ le32_bytes typ)"
    if "i + 4 \<le> 16" for i using slice_slice [OF that, of "p + 20" f] by (simp only: w)
  from this [of 0] this [of 4] this [of 8] this [of 12] have words: "slice (p + 20) 4 f = le32_bytes (of_nat ram)"
    "slice (p + 24) 4 f = le32_bytes start" "slice (p + 28) 4 f = le32_bytes romsize" "slice (p + 32) 4 f = le32_bytes typ"
    by (simp_all add: slice_def add.commute)
  have ld: "load32 m (PROGRAMM_Memory_2bl + of_nat i) = v" if "slice (p + i) 4 f = le32_bytes v" "i + 4 \<le> ram" for i v
    using s [of i 4] that by (intro load32_bytes) simp
  show "load32 m (PROGRAMM_Memory_2bl + 24) = start" using ld [OF words(2)] ram by simp
  show "load32 m (PROGRAMM_Memory_2bl + 28) = romsize" using ld [OF words(3)] ram by simp
  show "load32 m (PROGRAMM_Memory_2bl + 32) = typ" using ld [OF words(4)] ram by simp
  have "load32 m (PROGRAMM_Memory_2bl + 20) = of_nat ram" using ld [OF words(1)] ram by simp
  moreover have "(of_nat ram - 20 :: u32) = of_nat (ram - 20)" using ram by (simp add: of_nat_diff)
  then have "unat (of_nat ram - 20 :: u32) = ram - 20" using ram by (simp only: unat_of_nat_u32)
  moreover have "load_bytes m PROGRAMM_Memory_2bl 20 = slice p 20 f" using s [of 0 20] ram by simp
  moreover have "load_bytes m (PROGRAMM_Memory_2bl + 20) (ram - 20) = slice (p + 20) (ram - 20) f"
    using s [of 20 "ram - 20"] ram by simp
  ultimately show "self_check m" using l by (simp add: self_check_def loader_in_def)
qed

text \<open>A bank with the packed loader at its place is a good one.\<close>

lemma image_in_bank:
  assumes i: "image_in f p crom" and m: "load_bytes m a N = f" and fits: "p + 20 + length crom \<le> N"
    and adr: "flash_address b start = a + of_nat p" and n: "length crom < 2 ^ 32"
  shows "valid_image m start (of_nat (length crom)) b"
    and "load_bytes m (flash_address b start + 20) (unat (of_nat (length crom) :: u32)) = crom"
proof -
  have "load_bytes m (a + of_nat p) 20 = fips_sha1 crom"
    using load_slice [OF m, of p 20] i fits by (simp add: image_in_def)
  moreover have "load_bytes m (a + of_nat p + 20) (length crom) = crom"
    using load_slice [OF m, of "p + 20" "length crom"] i fits by (simp add: image_in_def add.assoc)
  ultimately show "valid_image m start (of_nat (length crom)) b"
    "load_bytes m (flash_address b start + 20) (unat (of_nat (length crom) :: u32)) = crom"
    unfolding valid_image_def adr unat_of_nat_u32 [OF n] by simp_all
qed

lemma bank_words:
  "flash_address 3 (of_nat st) = 0xfffc0000 + of_nat st"
  "flash_address 1 (of_nat st) = 0xfff00000 + of_nat (0x40000 + st)"
  "flash_address 2 (of_nat st) = 0xfff00000 + of_nat (0x80000 + st)"
  by (simp_all add: flash_address_def Buildinflash_Flash_def)

section \<open>The chain\<close>

text \<open>What the loader does once one bank of the search is known to be the first good one.\<close>

lemma chain_boots:
  assumes c: "length (Message_Block c) = 64" and d: "smb_ready n d"
    and l: "loader_in f p ram (of_nat st) (of_nat (length crom)) typ" "36 \<le> ram" "ram < 2 ^ 32" "typ = 0 \<or> typ = 1"
    and m: "load_bytes m PROGRAMM_Memory_2bl ram = slice p ram f"
    and fits: "st + 20 + length crom \<le> 0x3fe00"
    and b: "find (valid_image m (of_nat st) (of_nat (length crom))) (search_order typ) = Some b"
    and img: "load_bytes m (flash_address b (of_nat st) + 20) (unat (of_nat (length crom) :: u32)) = crom"
  shows "\<exists>m1 d'. load_bytes m1 CROMWELL_compress_temploc (length crom) = crom
    \<and> BootStartBiosLoader smb_ports n decompress_kernel c r m d
      = map_option (\<lambda>m2. (Jump_to_Cromwell, leave_words b typ m2, d'))
          (decompress_kernel CROMWELL_Memory_pos CROMWELL_compress_temploc (of_nat (length crom)) m1)"
proof -
  note w = loader_in_ram [OF l(1-3) m]
  have u: "unat (of_nat (length crom) :: u32) = length crom" "unat (of_nat st :: u32) = st"
    using fits by (intro unat_of_nat_u32; simp)+
  have inb: "in_bank (of_nat st) (of_nat (length crom))" using fits by (simp add: in_bank_def u)
  have "\<exists>m1 d'. (case find (valid_image m (of_nat st) (of_nat (length crom))) (search_order typ) of
         None \<Rightarrow> BootStartBiosLoader smb_ports n decompress_kernel c r m d = Some (No_valid_image, m1, d')
       | Some b \<Rightarrow>
           load_bytes m1 CROMWELL_compress_temploc (unat (of_nat (length crom) :: u32))
             = load_bytes m (flash_address b (of_nat st) + 20) (unat (of_nat (length crom) :: u32))
           \<and> BootStartBiosLoader smb_ports n decompress_kernel c r m d
             = map_option (\<lambda>m2. (Jump_to_Cromwell, leave_words b typ m2, d'))
                 (decompress_kernel CROMWELL_Memory_pos CROMWELL_compress_temploc (of_nat (length crom)) m1))"
    using BootStartBiosLoader_runs [OF c w(1) d, where decompress_kernel = decompress_kernel and r = r, unfolded w, OF l(4) refl refl inb]
    by blast
  then show ?thesis unfolding b option.case img unfolding u .
qed

text \<open>C5. The image of 256 KByte, mapped at the top of the address space and its first stage copied to RAM: the
  loader gives the unpacker the bytes of the file the image was built from, and jumps.\<close>

theorem image_256_boots:
  assumes "length (Message_Block context) = 64" and "length (md5_buffer hc) = 64"
    and "0x44 \<le> pos" "36 \<le> ram" "pos + ram \<le> length bl"
    and "slice 0x40 4 bl = le32_bytes (of_nat pos)" "slice (pos + 20) 4 bl = le32_bytes (of_nat ram)"
    and "start = (pos + ram) div 16 * 16 + 0x110" and "start + 20 + length crom \<le> 0x3fe00"
    and "romcopy context hc r bl crom = Some (f256, f1024)"
    and "load_bytes m 0xfffc0000 0x40000 = f256" and "load_bytes m PROGRAMM_Memory_2bl ram = slice pos ram f256"
    and "length (Message_Block c) = 64" and "smb_ready n d"
  shows "\<exists>m1 d'. load_bytes m1 CROMWELL_compress_temploc (length crom) = crom
    \<and> BootStartBiosLoader smb_ports n decompress_kernel c r' m d
      = map_option (\<lambda>m2. (Jump_to_Cromwell, leave_words 3 0 m2, d'))
          (decompress_kernel CROMWELL_Memory_pos CROMWELL_compress_temploc (of_nat (length crom)) m1)"
proof -
  have st: "start = image_start pos ram" by (simp add: assms(8) image_start_def)
  then have lt: "ram < 2 ^ 32" "length crom < 2 ^ 32" using assms(9) by (simp_all add: image_start_def)
  from romcopy_result [OF assms(1-7), folded st, OF assms(9), of r] assms(10)
  have f: "loader_in f256 pos ram (of_nat start) (of_nat (length crom)) 0" "image_in f256 start crom" by auto
  have n: "start + 20 + length crom \<le> 0x40000" using assms(9) by simp
  note v = image_in_bank [OF f(2) assms(11) n bank_words(1) lt(2)]
  show ?thesis
    by (rule chain_boots [OF assms(13,14) f(1) assms(4) lt(1) _ assms(12,9) _ v(2)]) (simp_all add: search_order_def v(1))
qed

text \<open>C6. The image of 1 MByte: bank 1 is taken; and when what is in bank 1 no longer carries its hash,
  bank 2 is, with the same result.\<close>

theorem image_1024_boots:
  assumes "length (Message_Block context) = 64" and "length (md5_buffer hc) = 64"
    and "0x44 \<le> pos" "36 \<le> ram" "pos + ram \<le> length bl"
    and "slice 0x40 4 bl = le32_bytes (of_nat pos)" "slice (pos + 20) 4 bl = le32_bytes (of_nat ram)"
    and "start = (pos + ram) div 16 * 16 + 0x110" and "start + 20 + length crom \<le> 0x3fe00"
    and "romcopy context hc r bl crom = Some (f256, f1024)"
    and "load_bytes m 0xfff40000 0x40000 = bank1" and "load_bytes m 0xfff80000 0x40000 = slice 0x80000 0x40000 f1024"
    and "bank1 = slice 0x40000 0x40000 f1024
      \<or> slice start 20 bank1 \<noteq> fips_sha1 (slice (start + 20) (length crom) bank1)"
    and "load_bytes m PROGRAMM_Memory_2bl ram = slice (0xC0000 + pos) ram f1024"
    and "length (Message_Block c) = 64" and "smb_ready n d"
  shows "\<exists>m1 d' b. load_bytes m1 CROMWELL_compress_temploc (length crom) = crom
    \<and> BootStartBiosLoader smb_ports n decompress_kernel c r' m d
      = map_option (\<lambda>m2. (Jump_to_Cromwell, leave_words b 1 m2, d'))
          (decompress_kernel CROMWELL_Memory_pos CROMWELL_compress_temploc (of_nat (length crom)) m1)
    \<and> b = (if bank1 = slice 0x40000 0x40000 f1024 then 1 else 2)"
proof -
  have st: "start = image_start pos ram" by (simp add: assms(8) image_start_def)
  then have lt: "ram < 2 ^ 32" "length crom < 2 ^ 32" using assms(9) by (simp_all add: image_start_def)
  from romcopy_result [OF assms(1-7), folded st, OF assms(9), of r] assms(10)
  have f: "loader_in f1024 (0xC0000 + pos) ram (of_nat start) (of_nat (length crom)) 1"
    "image_in f1024 (0x40000 + start) crom" "image_in f1024 (0x80000 + start) crom" by auto
  have n: "start + 20 + length crom \<le> 0x40000" using assms(9) by simp
  have in_slice: "image_in (slice q 0x40000 f1024) start crom" if "image_in f1024 (q + start) crom" for q
    by (rule image_in_moved [OF that]) (rule slice_slice, use assms(9) in simp)
  have adr: "flash_address 1 (of_nat start) = 0xfff40000 + of_nat start" "flash_address 2 (of_nat start) = 0xfff80000 + of_nat start"
    by (simp_all add: flash_address_def Buildinflash_Flash_def)
  show ?thesis
  proof (cases "bank1 = slice 0x40000 0x40000 f1024")
    case True
    note v = image_in_bank [OF in_slice [OF f(2)] assms(11) [unfolded True] n adr(1) lt(2)]
    show ?thesis
      using chain_boots [OF assms(15,16) f(1) assms(4) lt(1) _ assms(14,9) _ v(2), of decompress_kernel r'] True
      by (simp add: search_order_def v(1))
  next
    case False
    note v = image_in_bank [OF in_slice [OF f(3)] assms(12) n adr(2) lt(2)]
    have "load_bytes m (flash_address 1 (of_nat start)) 20 = slice start 20 bank1"
      "load_bytes m (flash_address 1 (of_nat start) + 20) (length crom) = slice (start + 20) (length crom) bank1"
      unfolding adr using load_slice [OF assms(11), of start 20] load_slice [OF assms(11), of "start + 20" "length crom"] n
      by (simp_all add: add.assoc)
    then have "\<not> valid_image m (of_nat start) (of_nat (length crom)) 1"
      using assms(13) False by (simp add: valid_image_def unat_of_nat_u32 [OF lt(2)])
    then show ?thesis
      using chain_boots [OF assms(15,16) f(1) assms(4) lt(1) _ assms(14,9) _ v(2), of decompress_kernel r'] False
      by (simp add: search_order_def v(1))
  qed
qed

text \<open>The two images of a small first stage, in memory.\<close>

lemma small_images:
  "\<exists>f256 f1024. romcopy blank_context blank_md5 [] small_stage [1, 2, 3] = Some (f256, f1024)
    \<and> length f256 = 0x40000 \<and> length f1024 = 0x100000"
proof -
  have "length (Message_Block blank_context) = 64" "length (md5_buffer blank_md5) = 64"
    by (simp_all add: blank_context_def blank_md5_def)
  from romcopy_result [OF this, of "0x80" "0x40" small_stage "[1, 2, 3]" "[]"] show ?thesis
    by (simp add: small_stage_words image_start_def) blast
qed

definition flash_memory :: "u32 \<Rightarrow> bytes \<Rightarrow> bytes \<Rightarrow> memory" where
  "flash_memory a flash stage = store_bytes a flash (store_bytes PROGRAMM_Memory_2bl stage (\<lambda>_. 0))"

lemma flash_memory_loads:
  assumes "0x200000 \<le> unat a" "unat a + length flash \<le> 2 ^ 32" "length flash < 2 ^ 32" "length stage \<le> 0x100000"
  shows "load_bytes (flash_memory a flash stage) a (length flash) = flash"
    and "load_bytes (flash_memory a flash stage) PROGRAMM_Memory_2bl (length stage) = stage"
proof -
  show "load_bytes (flash_memory a flash stage) a (length flash) = flash"
    using assms(3) by (simp add: flash_memory_def load_store_same)
  have "load_bytes (flash_memory a flash stage) PROGRAMM_Memory_2bl (length stage)
      = load_bytes (store_bytes PROGRAMM_Memory_2bl stage (\<lambda>_. 0)) PROGRAMM_Memory_2bl (length stage)"
    unfolding flash_memory_def using assms
    by (intro nth_equalityI) (auto simp: nth_load unat_word_ariths unat_of_nat_u32 intro!: store_elsewhere)
  also have "\<dots> = stage" using assms(4) by (intro load_store_same) simp
  finally show "load_bytes (flash_memory a flash stage) PROGRAMM_Memory_2bl (length stage) = stage" .
qed

lemma witness_state: "smb_ready 4 (blank_smb 2)" "length (Message_Block blank_context) = 64" "length (md5_buffer blank_md5) = 64"
  by (simp_all add: blank_smb_def smb_ready_def blank_context_def blank_md5_def)

theorem image_256_boots_witness:
  "\<exists>m m1 d'. load_bytes m1 CROMWELL_compress_temploc 3 = [1, 2, 3]
    \<and> BootStartBiosLoader smb_ports 4 (\<lambda>_ _ _. Some) blank_context [] m (blank_smb 2)
      = Some (Jump_to_Cromwell, leave_words 3 0 m1, d')"
proof -
  obtain f256 f1024 where f: "romcopy blank_context blank_md5 [] small_stage [1, 2, 3] = Some (f256, f1024)"
    "length f256 = 0x40000" using small_images by blast
  let ?m = "flash_memory 0xfffc0000 f256 (slice 0x80 0x40 f256)"
  have "load_bytes ?m 0xfffc0000 0x40000 = f256" "load_bytes ?m PROGRAMM_Memory_2bl 0x40 = slice 0x80 0x40 f256"
    using flash_memory_loads [of "0xfffc0000" f256 "slice 0x80 0x40 f256"] f(2) by simp_all
  from image_256_boots [OF witness_state(2,3) _ _ _ _ _ refl _ f(1) this witness_state(2,1),
      of "\<lambda>_ _ _. Some" "[]"]
  show ?thesis by (simp add: small_stage_words numeral_3_eq_3) blast
qed

theorem image_1024_boots_witness:
  "\<exists>m m1 d'. load_bytes m1 CROMWELL_compress_temploc 3 = [1, 2, 3]
    \<and> BootStartBiosLoader smb_ports 4 (\<lambda>_ _ _. Some) blank_context [] m (blank_smb 2)
      = Some (Jump_to_Cromwell, leave_words 1 1 m1, d')"
proof -
  obtain f256 f1024 where f: "romcopy blank_context blank_md5 [] small_stage [1, 2, 3] = Some (f256, f1024)"
    "length f1024 = 0x100000" using small_images by blast
  let ?m = "flash_memory 0xfff00000 f1024 (slice 0xC0080 0x40 f1024)"
  have l: "load_bytes ?m 0xfff00000 0x100000 = f1024" "load_bytes ?m PROGRAMM_Memory_2bl 0x40 = slice (0xC0000 + 0x80) 0x40 f1024"
    using flash_memory_loads [of "0xfff00000" f1024 "slice 0xC0080 0x40 f1024"] f(2) by simp_all
  have b: "load_bytes ?m 0xfff40000 0x40000 = slice 0x40000 0x40000 f1024" "load_bytes ?m 0xfff80000 0x40000 = slice 0x80000 0x40000 f1024"
    using load_slice [OF l(1), of "0x40000" "0x40000"] load_slice [OF l(1), of "0x80000" "0x40000"] by simp_all
  from image_1024_boots [OF witness_state(2,3) _ _ _ _ _ refl _ f(1) b _ l(2) witness_state(2,1),
      of "\<lambda>_ _ _. Some" "[]"]
  show ?thesis by (simp add: small_stage_words numeral_3_eq_3) blast
qed

end
