(* ===== verification/ImageTemplates.thy ===== *)
theory ImageTemplates
  imports ImageBuildCorrect
begin

text \<open>The two other modes of the image builder: the loader in the template of the VML and of the XBE image.\<close>

section \<open>The templates\<close>

text \<open>A template of 0x1700 bytes gets the loader and 100 zero bytes behind it.\<close>

lemma vmlbuild_appends:
  assumes "length vml = 0x103000" and "length vmlfile = 0x1700" and "length crom \<le> 0x100000"
  shows "vmlbuild vml vmlfile crom = Some (Inr (vmlfile @ crom @ replicate 100 0))"
proof -
  define v1 where "v1 = upd 0 vmlfile vml"
  define v2 where "v2 = upd 0x1700 crom v1"
  define v3 where "v3 = upd (0x1700 + length crom) (replicate 100 0) v2"
  have v1: "length v1 = 0x103000" "put_bytes vml 0 vmlfile = Some v1" "slice 0 0x1700 v1 = vmlfile"
    using upd_step [OF v1_def assms(1)] assms(2) by simp_all
  have v2: "length v2 = 0x103000" "put_bytes v1 0x1700 crom = Some v2"
      "slice 0 0x1700 v2 = slice 0 0x1700 v1" "slice 0x1700 (length crom) v2 = crom"
    using upd_step [OF v2_def v1(1)] assms(3) by simp_all
  have v3: "length v3 = 0x103000" "put_bytes v2 (0x1700 + length crom) (replicate 100 0) = Some v3"
      "slice 0 (0x1700 + length crom) v3 = slice 0 (0x1700 + length crom) v2"
      "slice (0x1700 + length crom) 100 v3 = replicate 100 0"
    using upd_step [OF v3_def v2(1)] assms(3) by simp_all
  have "slice 0 (0x1700 + length crom + 100) v3 = vmlfile @ crom @ replicate 100 0"
  proof -
    have "vmlfile @ crom = slice 0 (0x1700 + length crom) v2"
      using slice_append_slice [of 0 "0x1700" v2 "length crom"] v1(3) v2(3,4) by simp
    moreover have "slice 0 (0x1700 + length crom + 100) v3 = slice 0 (0x1700 + length crom) v2 @ replicate 100 0"
      using slice_append_slice [of 0 "0x1700 + length crom" v3 100] v3(3,4) by simp
    ultimately show ?thesis by (metis append_assoc)
  qed
  then show ?thesis
    using assms v1(2) v2(2) v3(1,2) by (simp add: vmlbuild_def get_slice)
qed

lemma vmlbuild_appends_witness:
  "vmlbuild (replicate 0x103000 7) (replicate 0x1700 5) [1, 2] = Some (Inr (replicate 0x1700 5 @ [1, 2] @ replicate 100 0))"
  by (rule vmlbuild_appends) simp_all

lemma shax_eq:
  assumes "length (Message_Block c) = 64" and "length data < 2 ^ 32"
  shows "shax data c = Some (fips_sha1 (le32_bytes (of_nat (length data)) @ data))"
proof -
  let ?len = "le32_bytes (of_nat (length data))"
  let ?c = "snd (SHA1Input (snd (SHA1Reset c)) ?len)"
  have r: "represents fips_H0 0 ?c ?len"
    using SHA1Input_represents(2) [OF SHA1Reset_represents [OF assms(1)], of ?len] by simp
  have "represents fips_H0 0 (snd (SHA1Input ?c data)) (?len @ data)"
    using SHA1Input_represents(2) [OF r, of data] assms(2) by simp
  from SHA1Result_represents(2) [OF this] show ?thesis
    by (simp add: shax_def Let_def split_beta fips_sha1_def fips_H0_def)
qed

text \<open>The XBE mode puts the loader and its size into the only section of the template, extends the sizes in
  both headers, and stores the digest the console checks: the SHA-1 of the size of the section and its bytes.\<close>

lemma xberepair_signs:
  assumes "length (Message_Block context) = 64" and "length xbe = 0x103000" and "length xbefile \<le> 0x103000"
    and "0x124 \<le> length xbefile" and "length crom \<le> 0xfffdf"
    and "slice 0x104 4 xbefile = le32_bytes base" and "slice 0x120 4 xbefile = le32_bytes sections"
    and "sec = unat (sections - base)" and "0x178 \<le> sec" and "sec + 0x38 \<le> 0x1000" and "sec + 0x10 \<le> length xbefile"
    and "slice (sec + 0xC) 4 xbefile = le32_bytes 0x1000" and "sz = length crom div 16 * 16 + 32"
  shows "\<exists>out. xberepair context xbe xbefile crom = Some (Inr out) \<and> length out = 0x3000 + sz
    \<and> slice 0x3000 (length crom) out = crom \<and> slice 0x1084 4 out = le32_bytes (of_nat (length crom))
    \<and> slice 0x10C 4 out = le32_bytes (of_nat (length out))
    \<and> slice (sec + 0x10) 4 out = le32_bytes (of_nat (0x2000 + sz)) \<and> slice (sec + 8) 4 out = le32_bytes (of_nat (0x2000 + sz))
    \<and> slice (sec + 0x24) 20 out = fips_sha1 (le32_bytes (of_nat (0x2000 + sz)) @ slice 0x1000 (0x2000 + sz) out)"
proof -
  let ?n = "length crom" and ?w = "le32_bytes (of_nat (0x2000 + sz) :: u32)"
  have sz: "sz \<le> ?n + 32" "?n < sz" "sz \<le> 0x100000" using assms(5,13) by presburger+
  define x0 where "x0 = upd 0 (replicate 4 0) xbe"
  define x1 where "x1 = upd 0 xbefile x0"
  define x2 where "x2 = upd 0x3000 crom x1"
  define x3 where "x3 = upd 0x1084 (le32_bytes (of_nat ?n)) x2"
  define x4 where "x4 = upd 0x10C (le32_bytes (of_nat (0x3000 + sz))) x3"
  define x5 where "x5 = upd (sec + 0x10) ?w x4"
  define x6 where "x6 = upd (sec + 8) ?w x5"
  define dig where "dig = fips_sha1 (?w @ slice 0x1000 (0x2000 + sz) x6)"
  define x7 where "x7 = upd (sec + 0x24) dig x6"
  note s0 = upd_step [OF x0_def assms(2)]
  have l0: "length x0 = 0x103000" by (intro s0) simp
  note s1 = upd_step [OF x1_def l0]
  have l1: "length x1 = 0x103000" using assms(3) by (intro s1) simp
  note s2 = upd_step [OF x2_def l1]
  have l2: "length x2 = 0x103000" using assms(5) by (intro s2) simp
  note s3 = upd_step [OF x3_def l2]
  have l3: "length x3 = 0x103000" by (intro s3) simp
  note s4 = upd_step [OF x4_def l3]
  have l4: "length x4 = 0x103000" by (intro s4) simp
  note s5 = upd_step [OF x5_def l4]
  have l5: "length x5 = 0x103000" using assms(10) by (intro s5) simp
  note s6 = upd_step [OF x6_def l5]
  have l6: "length x6 = 0x103000" using assms(10) by (intro s6) simp
  note s7 = upd_step [OF x7_def l6]
  have l7: "length x7 = 0x103000" using assms(10) by (intro s7) (simp add: dig_def)
  have tmpl: "slice q k x1 = slice q k xbefile" if "q + k \<le> length xbefile" for q k
    using that assms(3) l0 by (simp add: x1_def slice_upd_inside)
  have f1: "slice 0x104 4 x1 = le32_bytes base" "slice 0x120 4 x1 = le32_bytes sections" "slice (sec + 0xC) 4 x1 = le32_bytes 0x1000"
    using tmpl assms(4,6,7,11,12) by simp_all
  have f3: "slice q k x3 = slice q k x1" if "q + k \<le> 0x1000" for q k
    using that s3(2) [of q k] s2(2) [of q k] assms(5) by simp
  have "le32_at x3 0x104 = Some base" "le32_at x3 0x120 = Some sections"
    using f1 f3 l3 by (simp_all add: le32_at_slice)
  moreover have "slice (sec + 0xC) 4 x6 = le32_bytes 0x1000" "slice (sec + 0x10) 4 x6 = ?w"
  proof -
    have "slice (sec + 0xC) 4 x6 = slice (sec + 0xC) 4 x5" using assms(10) by (intro s6(2)) simp_all
    also have "\<dots> = slice (sec + 0xC) 4 x4" using assms(10) by (intro s5(2)) simp_all
    also have "\<dots> = slice (sec + 0xC) 4 x3" using assms(9,10) by (intro s4(2)) simp_all
    also have "\<dots> = slice (sec + 0xC) 4 x1" using assms(10) by (intro f3) simp
    finally show "slice (sec + 0xC) 4 x6 = le32_bytes 0x1000" using f1(3) by simp
    have "slice (sec + 0x10) 4 x6 = slice (sec + 0x10) 4 x5" using assms(10) by (intro s6(2)) simp_all
    also have "\<dots> = ?w" using assms(10) by (intro s5(3)) simp_all
    finally show "slice (sec + 0x10) 4 x6 = ?w" .
  qed
  then have "le32_at x6 (sec + 0xC) = Some 0x1000" "le32_at x6 (sec + 0x10) = Some (of_nat (0x2000 + sz))"
    using l6 assms(10) by (intro le32_at_slice; simp)+
  moreover have "get_bytes x6 0x1000 (0x2000 + sz) = Some (slice 0x1000 (0x2000 + sz) x6)"
    using l6 sz by (intro get_slice) simp
  moreover have "shax (slice 0x1000 (0x2000 + sz) x6) context = Some dig"
    using shax_eq [OF assms(1), of "slice 0x1000 (0x2000 + sz) x6"] l6 sz by (simp add: dig_def)
  moreover have "get_bytes x7 0 (0x3000 + sz) = Some (slice 0 (0x3000 + sz) x7)"
    using l7 sz by (intro get_slice) simp
  moreover have "((of_nat ?n :: u32) AND 0xfffffff0) + 32 = of_nat sz"
    using round_16 [of ?n] assms(5,13) by simp
  moreover have "(0x3000 + of_nat sz :: u32) = of_nat (0x3000 + sz)" "(0x2000 + of_nat sz :: u32) = of_nat (0x2000 + sz)"
    by simp_all
  moreover have "unat (of_nat (0x3000 + sz) :: u32) = 0x3000 + sz" "unat (of_nat (0x2000 + sz) :: u32) = 0x2000 + sz"
    using sz by (intro unat_of_nat_u32; simp)+
  moreover have "put_bytes xbe 0 (replicate 4 0) = Some x0" "put_bytes x0 0 xbefile = Some x1"
    "put_bytes x1 0x3000 crom = Some x2" "put_bytes x2 0x1084 (le32_bytes (of_nat ?n)) = Some x3"
    "put_bytes x3 0x10C (le32_bytes (of_nat (0x3000 + sz))) = Some x4"
    "put_bytes x4 (sec + 0x10) ?w = Some x5" "put_bytes x5 (sec + 8) ?w = Some x6"
    "put_bytes x6 (sec + 0x24) dig = Some x7"
    using assms(3,5,10) by (intro s0 s1 s2 s3 s4 s5 s6 s7; simp add: dig_def)+
  moreover have "\<not> ?n > 0x100000" "unat (0x1000 :: u32) = 0x1000" using assms(5) by simp_all
  ultimately have "xberepair context xbe xbefile crom = Some (Inr (slice 0 (0x3000 + sz) x7))"
    unfolding xberepair_def Let_def by (simp only: bind.bind_lunit if_False assms(8) [symmetric])
  moreover have "slice q k (slice 0 (0x3000 + sz) x7) = slice q k x7" if "q + k \<le> 0x3000 + sz" for q k
    using slice_slice [OF that, of 0 x7] by simp
  moreover have "length (slice 0 (0x3000 + sz) x7) = 0x3000 + sz" using l7 sz(3) by simp
  moreover have "slice 0x3000 ?n x7 = crom"
  proof -
    have "slice 0x3000 ?n x7 = slice 0x3000 ?n x6" using assms(5,10) by (intro s7(2)) (simp_all add: dig_def)
    also have "\<dots> = slice 0x3000 ?n x5" using assms(5,10) by (intro s6(2)) simp_all
    also have "\<dots> = slice 0x3000 ?n x4" using assms(5,10) by (intro s5(2)) simp_all
    also have "\<dots> = slice 0x3000 ?n x3" using assms(5) by (intro s4(2)) simp_all
    also have "\<dots> = slice 0x3000 ?n x2" using assms(5) by (intro s3(2)) simp_all
    also have "\<dots> = crom" using assms(5) by (intro s2(3)) simp_all
    finally show ?thesis .
  qed
  moreover have "slice 0x1084 4 x7 = le32_bytes (of_nat ?n)"
  proof -
    have "slice 0x1084 4 x7 = slice 0x1084 4 x6" using assms(10) by (intro s7(2)) (simp_all add: dig_def)
    also have "\<dots> = slice 0x1084 4 x5" using assms(10) by (intro s6(2)) simp_all
    also have "\<dots> = slice 0x1084 4 x4" using assms(10) by (intro s5(2)) simp_all
    also have "\<dots> = slice 0x1084 4 x3" by (intro s4(2)) simp_all
    also have "\<dots> = le32_bytes (of_nat ?n)" by (intro s3(3)) simp_all
    finally show ?thesis .
  qed
  moreover have "slice 0x10C 4 x7 = le32_bytes (of_nat (0x3000 + sz))"
  proof -
    have "slice 0x10C 4 x7 = slice 0x10C 4 x6" using assms(9,10) by (intro s7(2)) (simp_all add: dig_def)
    also have "\<dots> = slice 0x10C 4 x5" using assms(9,10) by (intro s6(2)) simp_all
    also have "\<dots> = slice 0x10C 4 x4" using assms(9,10) by (intro s5(2)) simp_all
    also have "\<dots> = le32_bytes (of_nat (0x3000 + sz))" by (intro s4(3)) simp_all
    finally show ?thesis .
  qed
  moreover have "slice (sec + 0x10) 4 x7 = ?w" "slice (sec + 8) 4 x7 = ?w"
  proof -
    have "slice (sec + 0x10) 4 x7 = slice (sec + 0x10) 4 x6" using assms(10) by (intro s7(2)) (simp_all add: dig_def)
    also have "\<dots> = slice (sec + 0x10) 4 x5" using assms(10) by (intro s6(2)) simp_all
    also have "\<dots> = ?w" using assms(10) by (intro s5(3)) simp_all
    finally show "slice (sec + 0x10) 4 x7 = ?w" .
    have "slice (sec + 8) 4 x7 = slice (sec + 8) 4 x6" using assms(10) by (intro s7(2)) (simp_all add: dig_def)
    also have "\<dots> = ?w" using assms(10) by (intro s6(3)) simp_all
    finally show "slice (sec + 8) 4 x7 = ?w" .
  qed
  moreover have "slice (sec + 0x24) 20 x7 = dig" using assms(10) by (intro s7(3)) (simp_all add: dig_def)
  moreover have "slice 0x1000 (0x2000 + sz) x7 = slice 0x1000 (0x2000 + sz) x6"
    using assms(10) sz(3) by (intro s7(2)) (simp_all add: dig_def)
  ultimately show ?thesis using sz(2) assms(10) by (simp add: dig_def)
qed

text \<open>A template with the section header at 0x200 and its section at 0x1000.\<close>

definition small_template :: bytes where
  "small_template = replicate 0x104 0 @ le32_bytes 0x10000 @ replicate 0x18 0 @ le32_bytes 0x10200 @ replicate 0xE8 0
     @ le32_bytes 0x1000 @ replicate 0x30 0"

lemma small_template_words:
  "length small_template = 0x240" "slice 0x104 4 small_template = le32_bytes 0x10000"
  "slice 0x120 4 small_template = le32_bytes 0x10200" "slice 0x20C 4 small_template = le32_bytes 0x1000"
  by (simp_all add: small_template_def slice_def)

lemma xberepair_signs_witness:
  "\<exists>out. xberepair blank_context (replicate 0x103000 0) small_template [9] = Some (Inr out)
    \<and> length out = 0x3020 \<and> slice 0x3000 1 out = [9]
    \<and> slice 0x224 20 out = fips_sha1 (le32_bytes 0x2020 @ slice 0x1000 0x2020 out)"
proof -
  have "length (Message_Block blank_context) = 64" "length (replicate 0x103000 0 :: bytes) = 0x103000"
    by (simp_all add: blank_context_def)
  from xberepair_signs [OF this, of small_template "[9]" "0x10000" "0x10200" "0x200" 32] show ?thesis
    by (simp add: small_template_words) blast
qed

end
