(* ===== verification/Parser.thy ===== *)
theory Parser
  imports CString
begin

text \<open>
  The parser of \<open>linuxboot.cfg\<close>, \<open>lib/misc/BootParser.c\<close>. The text is cut into lines and words in
  place; the pointers are offsets into the buffer. The list of entries is a list, the current one is
  its last. \<open>None\<close> is an access outside the buffer or outside a field of an entry.
\<close>

section \<open>Code\<close>

record CONFIGENTRY =
  drive :: u32
  partition :: u32
  isDefault :: u32
  bootType :: u32
  title :: bytes
  szPath :: bytes
  szKernel :: bytes
  szInitrd :: bytes
  szAppend :: bytes

definition MAX_LINE :: nat where "MAX_LINE = 2048"

definition cleared_entry :: CONFIGENTRY where
  "cleared_entry = \<lparr>drive = 0, partition = 0, isDefault = 0, bootType = 0, title = replicate 15 0,
     szPath = replicate MAX_LINE 0, szKernel = replicate MAX_LINE 0, szInitrd = replicate MAX_LINE 0,
     szAppend = replicate MAX_LINE 0\<rparr>"

text \<open>The words of the file format.\<close>

definition kw_title :: bytes where "kw_title = [0x74, 0x69, 0x74, 0x6c, 0x65]"
definition kw_kernel :: bytes where "kw_kernel = [0x6b, 0x65, 0x72, 0x6e, 0x65, 0x6c]"
definition kw_initrd :: bytes where "kw_initrd = [0x69, 0x6e, 0x69, 0x74, 0x72, 0x64]"
definition kw_append :: bytes where "kw_append = [0x61, 0x70, 0x70, 0x65, 0x6e, 0x64]"
definition kw_default :: bytes where "kw_default = [0x64, 0x65, 0x66, 0x61, 0x75, 0x6c, 0x74]"
definition kw_no :: bytes where "kw_no = [0x6e, 0x6f]"

definition starts :: "bytes \<Rightarrow> nat \<Rightarrow> bytes \<Rightarrow> bool option" where
  "starts buf p kw = map_option (\<lambda>r. r = 0) (strncmp (drop p buf) (kw @ [0]) (length kw))"

text \<open>The two loops over white space.\<close>

function skip_space :: "bytes \<Rightarrow> nat \<Rightarrow> nat option" where
  "skip_space buf p =
     (if length buf \<le> p then None else if isspace (scast (buf ! p)) then skip_space buf (Suc p) else Some p)"
  by pat_completeness auto

termination by (relation "measure (\<lambda>(buf, p). length buf - p)") auto

fun back_space :: "bytes \<Rightarrow> nat \<Rightarrow> nat \<Rightarrow> nat option" where
  "back_space buf paramdata 0 =
     (if paramdata = 0 then Some 0 else if buf = [] then None else if isspace (scast (buf ! 0)) then None else Some 0)"
| "back_space buf paramdata (Suc p) =
     (if paramdata = Suc p then Some (Suc p)
      else if length buf \<le> Suc p then None
      else if isspace (scast (buf ! Suc p)) then back_space buf paramdata p else Some (Suc p))"

declare skip_space.simps [simp del] back_space.simps [simp del]

text \<open>The argument of a line whose first word starts at \<open>param\<close>: its place, and the buffer with the white space behind it cut off.\<close>

definition line_argument :: "bytes \<Rightarrow> nat \<Rightarrow> (nat \<times> bytes) option" where
  "line_argument buf param = do {
     n \<leftarrow> strlen (drop param buf);
     paramdata \<leftarrow> skip_space buf (param + n + 1);
     k \<leftarrow> strlen (drop paramdata buf);
     p \<leftarrow> back_space buf paramdata (paramdata + k - 1);
     buf \<leftarrow> put_bytes buf (p + 1) [0];
     Some (paramdata, buf) }"

definition change_last :: "('a \<Rightarrow> 'a) \<Rightarrow> 'a list \<Rightarrow> 'a list" where
  "change_last f xs = butlast xs @ [f (last xs)]"

definition cstr :: "bytes \<Rightarrow> nat \<Rightarrow> bytes option" where
  "cstr buf p = do { n \<leftarrow> strlen (drop p buf); Some (take n (drop p buf)) }"

text \<open>\<open>chrreplace\<close> of the back slashes in the argument, with fuel enough.\<close>

definition slash_argument :: "bytes \<Rightarrow> nat \<Rightarrow> bytes option" where
  "slash_argument buf paramdata = chrreplace_loop (2 * length buf + 1) buf paramdata 0x5c 0x2f"

text \<open>\<open>sprintf\<close> with \<open>"%s/%s"\<close>, \<open>"%s"\<close> or \<open>"/%s"\<close>: the path of the kernel or the initial RAM disk.\<close>

definition store_path :: "bytes option \<Rightarrow> bytes \<Rightarrow> nat \<Rightarrow> bytes \<Rightarrow> bytes option" where
  "store_path path buf paramdata field = do {
     arg \<leftarrow> cstr buf paramdata;
     (case path of
        Some p \<Rightarrow> do { dir \<leftarrow> cstr p 0; put_bytes field 0 (dir @ [0x2f] @ arg @ [0]) }
      | None \<Rightarrow> if buf ! paramdata = 0x2f then put_bytes field 0 (arg @ [0]) else put_bytes field 0 ([0x2f] @ arg @ [0])) }"

definition copy_argument :: "bytes \<Rightarrow> nat \<Rightarrow> bytes \<Rightarrow> bytes option" where
  "copy_argument buf paramdata field = do {
     n \<leftarrow> strlen (drop paramdata buf);
     strncpy field (drop paramdata buf) n }"

type_synonym parser = "bytes \<times> CONFIGENTRY list \<times> nat option"

definition set_title :: "bytes \<Rightarrow> nat \<Rightarrow> CONFIGENTRY list \<Rightarrow> CONFIGENTRY list option" where
  "set_title buf paramdata es = do {
     n \<leftarrow> strlen (title (last es));
     let es = (if n = 0 then es else es @ [cleared_entry]);
     t \<leftarrow> copy_argument buf paramdata (title (last es));
     Some (change_last (title_update (\<lambda>_. t)) es) }"

definition parse_line :: "bytes option \<Rightarrow> nat \<Rightarrow> parser \<Rightarrow> parser option" where
  "parse_line path linePtr st = do {
     let (buf, es, defaultTitle) = st;
     (param, _, buf) \<leftarrow> strsep buf (Some linePtr) [0x20, 0x09, 0];
     let param = the param;
     (paramdata, buf) \<leftarrow> line_argument buf param;
     is_title \<leftarrow> starts buf param kw_title;
     if is_title then do {
       es \<leftarrow> set_title buf paramdata es;
       Some (buf, es, defaultTitle) }
     else do {
       is_kernel \<leftarrow> starts buf param kw_kernel;
       if is_kernel then do {
         buf \<leftarrow> slash_argument buf paramdata;
         f \<leftarrow> store_path path buf paramdata (szKernel (last es));
         Some (buf, change_last (szKernel_update (\<lambda>_. f)) es, defaultTitle) }
       else do {
         is_initrd \<leftarrow> starts buf param kw_initrd;
         if is_initrd then do {
           buf \<leftarrow> slash_argument buf paramdata;
           no \<leftarrow> starts buf paramdata kw_no;
           if no then Some (buf, es, defaultTitle)
           else do {
             f \<leftarrow> store_path path buf paramdata (szInitrd (last es));
             Some (buf, change_last (szInitrd_update (\<lambda>_. f)) es, defaultTitle) } }
         else do {
           is_append \<leftarrow> starts buf param kw_append;
           if is_append then do {
             f \<leftarrow> copy_argument buf paramdata (szAppend (last es));
             Some (buf, change_last (szAppend_update (\<lambda>_. f)) es, defaultTitle) }
           else do {
             is_default \<leftarrow> starts buf param kw_default;
             Some (buf, es, if is_default then Some paramdata else defaultTitle) } } } } }"

text \<open>The loop over the lines. Each line moves \<open>currentPos\<close> on, so the length of the buffer is fuel enough.\<close>

fun parse_lines :: "nat \<Rightarrow> bytes option \<Rightarrow> nat option \<Rightarrow> parser \<Rightarrow> parser option" where
  "parse_lines 0 path currentPos st = None"
| "parse_lines (Suc fuel) path currentPos (buf, es, defaultTitle) = do {
     (linePtr, currentPos, buf) \<leftarrow> strsep buf currentPos [0x0a, 0];
     case linePtr of
       None \<Rightarrow> Some (buf, es, defaultTitle)
     | Some l \<Rightarrow> do {
         st \<leftarrow> parse_line path l (buf, es, defaultTitle);
         parse_lines fuel path currentPos st } }"

fun mark_default :: "bytes \<Rightarrow> nat \<Rightarrow> nat \<Rightarrow> CONFIGENTRY list \<Rightarrow> CONFIGENTRY list option" where
  "mark_default buf dt n [] = Some []"
| "mark_default buf dt n (e # es) = do {
     r \<leftarrow> strncmp (title e) (drop dt buf) n;
     if r = 0 then Some (e\<lparr>isDefault := 1\<rparr> # es) else map_option ((#) e) (mark_default buf dt n es) }"

definition ParseConfig :: "bytes \<Rightarrow> nat \<Rightarrow> bytes option \<Rightarrow> (CONFIGENTRY list \<times> bytes) option" where
  "ParseConfig szBuffer fileLen path = do {
     buf \<leftarrow> put_bytes szBuffer fileLen [0];
     (buf, es, defaultTitle) \<leftarrow> parse_lines (length buf + 2) path (Some 0) (buf, [cleared_entry], None);
     case defaultTitle of
       None \<Rightarrow> Some (es, buf)
     | Some dt \<Rightarrow> do {
         n \<leftarrow> strlen (drop dt buf);
         es \<leftarrow> mark_default buf dt n es;
         Some (es, buf) } }"

end
