(* ===== verification/ParserCorrect.thy ===== *)
theory ParserCorrect
  imports Parser
begin

text \<open>
  The parser against a reading of the file as a list of lines, a word and an argument each: the
  entries it makes, in what the pointers and the overwritten separators play no part.
\<close>

section \<open>The meaning of a file\<close>

record boot_entry =
  e_title :: bytes
  e_kernel :: bytes
  e_initrd :: bytes
  e_append :: bytes
  e_default :: bool

definition empty_entry :: boot_entry where
  "empty_entry = \<lparr>e_title = [], e_kernel = [], e_initrd = [], e_append = [], e_default = False\<rparr>"

definition is_kw :: "bytes \<Rightarrow> bytes \<Rightarrow> bool" where
  "is_kw kw s \<longleftrightarrow> take (length kw) s = kw"

definition slashed :: "bytes \<Rightarrow> bytes" where
  "slashed arg = map (\<lambda>c. if c = 0x5c then 0x2f else c) arg"

definition path_of :: "bytes option \<Rightarrow> bytes \<Rightarrow> bytes" where
  "path_of dir arg = (case dir of Some d \<Rightarrow> d @ 0x2f # arg | None \<Rightarrow> if take 1 arg = [0x2f] then arg else 0x2f # arg)"

text \<open>A second \<open>append\<close> line is laid over the first.\<close>

definition overlay :: "bytes \<Rightarrow> bytes \<Rightarrow> bytes" where
  "overlay new old = new @ drop (length new) old"

definition read_line :: "bytes option \<Rightarrow> bytes \<times> bytes \<Rightarrow> boot_entry list \<Rightarrow> boot_entry list" where
  "read_line dir line es = (case line of (w, arg) \<Rightarrow>
     if is_kw kw_title w
     then (if e_title (last es) = [] then change_last (e_title_update (\<lambda>_. arg)) es
           else es @ [empty_entry\<lparr>e_title := arg\<rparr>])
     else if is_kw kw_kernel w then change_last (e_kernel_update (\<lambda>_. path_of dir (slashed arg))) es
     else if is_kw kw_initrd w
     then (if is_kw kw_no (slashed arg) then es
           else change_last (e_initrd_update (\<lambda>_. path_of dir (slashed arg))) es)
     else if is_kw kw_append w then change_last (e_append_update (overlay arg)) es
     else es)"

definition read_default :: "bytes \<times> bytes \<Rightarrow> bytes option \<Rightarrow> bytes option" where
  "read_default line d = (if is_kw kw_default (fst line) then Some (snd line) else d)"

text \<open>The first entry whose title begins with the default one.\<close>

fun choose_default :: "bytes \<Rightarrow> boot_entry list \<Rightarrow> boot_entry list" where
  "choose_default d [] = []"
| "choose_default d (e # es) =
     (if is_kw d (e_title e) then e\<lparr>e_default := True\<rparr> # es else e # choose_default d es)"

definition boot_entries :: "bytes option \<Rightarrow> (bytes \<times> bytes) list \<Rightarrow> boot_entry list" where
  "boot_entries dir lines =
     (let es = fold (read_line dir) lines [empty_entry]
      in case fold read_default lines None of None \<Rightarrow> es | Some d \<Rightarrow> choose_default d es)"

text \<open>The text of a line, and the lines that fit the buffers.\<close>

definition line_text :: "bytes \<times> bytes \<Rightarrow> bytes" where
  "line_text line = fst line @ 0x20 # snd line @ [0x0a]"

definition file_text :: "(bytes \<times> bytes) list \<Rightarrow> bytes" where
  "file_text lines = concat (map line_text lines)"

definition good_line :: "bytes option \<Rightarrow> bytes \<times> bytes \<Rightarrow> bool" where
  "good_line dir line \<longleftrightarrow> (case line of (w, arg) \<Rightarrow>
     set w \<inter> {0, 0x0a, 0x20, 0x09} = {} \<and> set arg \<inter> {0, 0x0a} = {} \<and> arg \<noteq> []
     \<and> \<not> isspace (scast (hd arg)) \<and> \<not> isspace (scast (last arg))
     \<and> (is_kw kw_title w \<longrightarrow> length arg \<le> 14)
     \<and> length arg + (case dir of Some d \<Rightarrow> length d | None \<Rightarrow> 0) \<le> 2046)"

section \<open>Entries\<close>

definition entry_holds :: "boot_entry \<Rightarrow> CONFIGENTRY \<Rightarrow> bool" where
  "entry_holds e c \<longleftrightarrow>
     title c = e_title e @ replicate (15 - length (e_title e)) 0 \<and> length (e_title e) \<le> 14 \<and> 0 \<notin> set (e_title e)
     \<and> (\<exists>r. szKernel c = e_kernel e @ 0 # r) \<and> length (szKernel c) = 2048 \<and> 0 \<notin> set (e_kernel e)
     \<and> (\<exists>r. szInitrd c = e_initrd e @ 0 # r) \<and> length (szInitrd c) = 2048 \<and> 0 \<notin> set (e_initrd e)
     \<and> szAppend c = e_append e @ replicate (2048 - length (e_append e)) 0 \<and> length (e_append e) \<le> 2047
     \<and> 0 \<notin> set (e_append e)
     \<and> isDefault c = (if e_default e then 1 else 0)"

lemma entry_holds_empty: "entry_holds empty_entry cleared_entry"
  by (simp add: entry_holds_def empty_entry_def cleared_entry_def MAX_LINE_def)
    (rule exI [of _ "replicate 2047 0"], simp add: replicate_Suc [symmetric] del: replicate_Suc)

lemma list_all2_snoc: "list_all2 P (xs @ [x]) (ys @ [y]) \<longleftrightarrow> list_all2 P xs ys \<and> P x y"
  by (auto simp: list_all2_conv_all_nth nth_append less_Suc_eq split: if_splits)

lemma change_last_holds:
  assumes "list_all2 P xs ys" and "xs \<noteq> []" and "P (last xs) (last ys) \<Longrightarrow> P (f (last xs)) (g (last ys))"
  shows "list_all2 P (change_last f xs) (change_last g ys)"
proof -
  have ys: "ys \<noteq> []" using assms(1,2) by auto
  have "list_all2 P (butlast xs @ [last xs]) (butlast ys @ [last ys])" using assms(1,2) ys by simp
  then show ?thesis using assms(3) unfolding list_all2_snoc change_last_def by simp
qed

lemma last_holds: "list_all2 P xs ys \<Longrightarrow> xs \<noteq> [] \<Longrightarrow> P (last xs) (last ys)"
  by (metis append_butlast_last_id list_all2_Nil2 list_all2_snoc)

section \<open>Words\<close>

lemma strncmp_kw:
  assumes "0 \<notin> set s" and "0 \<notin> set kw"
  shows "\<exists>v. strncmp (s @ 0 # r) (kw @ r') (length kw) = Some v \<and> (v = 0 \<longleftrightarrow> is_kw kw s)"
  using assms
proof (induction kw arbitrary: s)
  case (Cons k kw)
  show ?case
  proof (cases s)
    case Nil
    then show ?thesis using Cons.prems(2) by (auto simp: is_kw_def)
  next
    case s: (Cons c s')
    have "\<exists>v. strncmp (s' @ 0 # r) (kw @ r') (length kw) = Some v \<and> (v = 0 \<longleftrightarrow> is_kw kw s')"
      using Cons.prems s by (intro Cons.IH) auto
    moreover have "is_kw (k # kw) s \<longleftrightarrow> k = c \<and> is_kw kw s'" by (auto simp: is_kw_def s)
    ultimately show ?thesis using Cons.prems(1) s by (cases "c = k") auto
  qed
qed (simp add: is_kw_def)

lemma starts_kw:
  assumes "drop p buf = s @ 0 # r" and "0 \<notin> set s" and "0 \<notin> set kw"
  shows "starts buf p kw = Some (is_kw kw s)"
  using strncmp_kw [OF assms(2,3), of r "[0]"] by (auto simp: starts_def assms(1))

lemmas kw_defs = kw_title_def kw_kernel_def kw_initrd_def kw_append_def kw_default_def kw_no_def

lemma no_zero_kw: "0 \<notin> set kw_title" "0 \<notin> set kw_kernel" "0 \<notin> set kw_initrd" "0 \<notin> set kw_append"
  "0 \<notin> set kw_default" "0 \<notin> set kw_no"
  by (simp_all add: kw_defs)

lemma other_kw: "\<not> is_kw kw_title []" "\<not> is_kw kw_kernel []" "\<not> is_kw kw_initrd []" "\<not> is_kw kw_append []"
  "\<not> is_kw kw_default []"
  by (simp_all add: is_kw_def kw_defs)

text \<open>The first letters keep the words apart.\<close>

lemma kw_apart:
  assumes "is_kw kw_default w"
  shows "\<not> is_kw kw_title w" "\<not> is_kw kw_kernel w" "\<not> is_kw kw_initrd w" "\<not> is_kw kw_append w"
  using assms by (cases w; simp add: is_kw_def kw_defs)+

section \<open>The argument of a line\<close>

lemma line_argument_eq:
  assumes b: "buf = pre @ w @ 0 # arg @ 0 # r" and w: "0 \<notin> set w" and arg: "0 \<notin> set arg" "arg \<noteq> []"
    and sp: "\<not> isspace (scast (hd arg))" "\<not> isspace (scast (last arg))"
  shows "line_argument buf (length pre) = Some (length pre + length w + 1, buf)"
proof -
  let ?p = "length pre + length w + 1"
  have n: "strlen (drop (length pre) buf) = Some (length w)" using w by (simp add: b)
  have d: "drop ?p buf = arg @ 0 # r" by (simp add: b)
  have len: "length buf = ?p + length arg + 1 + length r" by (simp add: b)
  have nth: "buf ! (?p + i) = (arg @ 0 # r) ! i" for i
    using nth_drop [of ?p buf i] len by (simp add: d [symmetric])
  have "buf ! ?p = hd arg" using nth [of 0] arg(2) by (simp add: nth_append hd_conv_nth)
  then have s: "skip_space buf ?p = Some ?p" using sp(1) len by (subst skip_space.simps) simp
  have k: "strlen (drop ?p buf) = Some (length arg)" unfolding d using arg(1) by simp
  have last: "buf ! (?p + (length arg - 1)) = last arg" using nth [of "length arg - 1"] arg(2) by (simp add: nth_append last_conv_nth)
  have bk: "back_space buf ?p (?p + length arg - 1) = Some (?p + length arg - 1)"
  proof (cases "?p + length arg - 1")
    case (Suc q)
    then show ?thesis using sp(2) last len arg(2) by (simp add: back_space.simps Suc_le_eq)
  qed (use arg(2) in simp)
  have "put_bytes buf (?p + length arg - 1 + 1) [0] = Some buf"
  proof -
    have "buf = (pre @ w @ 0 # arg) @ 0 # r" by (simp add: b)
    moreover have "?p + length arg - 1 + 1 = length (pre @ w @ 0 # arg)" using arg(2) by simp
    ultimately show ?thesis by (simp add: put_bytes_def)
  qed
  then show ?thesis using n s k bk by (simp add: line_argument_def)
qed

section \<open>One line\<close>

lemma cstr_eq: "drop p buf = s @ 0 # r \<Longrightarrow> 0 \<notin> set s \<Longrightarrow> cstr buf p = Some s"
  by (simp add: cstr_def)

lemma store_path_eq:
  assumes d: "drop p buf = arg @ 0 # r" and arg: "0 \<notin> set arg" and f: "length field = 2048"
    and path: "path = map_option (\<lambda>d. d @ [0]) dir" "\<And>d. dir = Some d \<Longrightarrow> 0 \<notin> set d"
    and len: "length arg + (case dir of Some d \<Rightarrow> length d | None \<Rightarrow> 0) \<le> 2046"
  shows "\<exists>f' r. store_path path buf p field = Some f' \<and> f' = path_of dir arg @ 0 # r \<and> length f' = 2048"
proof -
  have a: "cstr buf p = Some arg" by (rule cstr_eq [OF d arg])
  have hd: "buf ! p = 0x2f \<longleftrightarrow> take 1 arg = [0x2f]"
  proof -
    have "p < length buf" using d by (metis append_is_Nil_conv drop_all list.distinct(1) not_le_imp_less)
    then have "buf ! p = (arg @ 0 # r) ! 0" by (metis d hd_drop_conv_nth hd_conv_nth drop_eq_Nil not_le)
    then show ?thesis by (cases arg) auto
  qed
  show ?thesis
  proof (cases dir)
    case None
    then show ?thesis using a hd len f path(1) by (auto simp: store_path_def path_of_def put_bytes_def)
  next
    case (Some x)
    then have "cstr (x @ [0]) 0 = Some x" using path(2) by (simp add: cstr_def)
    then show ?thesis using a len f path(1) Some by (simp add: store_path_def path_of_def put_bytes_def)
  qed
qed

lemma copy_argument_eq:
  assumes "drop p buf = arg @ 0 # r" and "0 \<notin> set arg" and "length arg \<le> length field"
  shows "copy_argument buf p field = Some (arg @ drop (length arg) field)"
  using assms strncpy_bytes_full [of "length arg" "arg @ 0 # r"]
  by (simp add: copy_argument_def strncpy_def put_bytes_def)

text \<open>What a line does to the entries, with its separators already cut.\<close>

lemma title_line:
  assumes h: "list_all2 entry_holds es cs" "es \<noteq> []" and d: "drop p buf = arg @ 0 # r" and arg: "0 \<notin> set arg" "length arg \<le> 14"
  shows "\<exists>cs'. set_title buf p cs = Some cs' \<and> list_all2 entry_holds
    (if e_title (last es) = [] then change_last (e_title_update (\<lambda>_. arg)) es else es @ [empty_entry\<lparr>e_title := arg\<rparr>]) cs'"
proof -
  have l: "entry_holds (last es) (last cs)" by (rule last_holds [OF h])
  define t where "t = e_title (last es)"
  have tl: "title (last cs) = t @ replicate (15 - length t) 0" "length t \<le> 14" "0 \<notin> set t"
    using l by (simp_all add: entry_holds_def t_def)
  then have n: "strlen (title (last cs)) = Some (length t)"
    by (cases "15 - length t") auto
  have cp: "copy_argument buf p (replicate 15 0) = Some (arg @ replicate (15 - length arg) 0)"
    using copy_argument_eq [OF d arg(1), of "replicate 15 0"] arg(2) by simp
  show ?thesis
  proof (cases "t = []")
    case True
    then have "title (last cs) = replicate 15 0" using tl by simp
    then have "set_title buf p cs = Some (change_last (title_update (\<lambda>_. arg @ replicate (15 - length arg) 0)) cs)"
      using n True cp by (simp add: set_title_def)
    moreover have "list_all2 entry_holds (change_last (e_title_update (\<lambda>_. arg)) es)
        (change_last (title_update (\<lambda>_. arg @ replicate (15 - length arg) 0)) cs)"
      using arg by (intro change_last_holds [OF h]) (simp add: entry_holds_def)
    ultimately show ?thesis using True by (simp add: t_def)
  next
    case False
    have "title cleared_entry = replicate 15 0" by (simp add: cleared_entry_def)
    then have "set_title buf p cs = Some (cs @ [cleared_entry\<lparr>title := arg @ replicate (15 - length arg) 0\<rparr>])"
      using n False cp by (simp add: set_title_def change_last_def)
    moreover have "entry_holds (empty_entry\<lparr>e_title := arg\<rparr>) (cleared_entry\<lparr>title := arg @ replicate (15 - length arg) 0\<rparr>)"
      using entry_holds_empty arg by (simp add: entry_holds_def)
    ultimately show ?thesis using False h(1) by (simp add: t_def list_all2_snoc)
  qed
qed

lemma overlay_holds:
  assumes "entry_holds e c" and "0 \<notin> set arg" and "length arg \<le> 2046"
  shows "entry_holds (e_append_update (overlay arg) e) (c\<lparr>szAppend := arg @ drop (length arg) (szAppend c)\<rparr>)"
  using assms by (auto simp: entry_holds_def overlay_def dest: in_set_dropD)

text \<open>What is left of the argument in the buffer.\<close>

definition left_argument :: "bytes \<times> bytes \<Rightarrow> bytes" where
  "left_argument line =
     (if \<not> is_kw kw_title (fst line) \<and> (is_kw kw_kernel (fst line) \<or> is_kw kw_initrd (fst line))
      then slashed (snd line) else snd line)"

lemma length_slashed [simp]: "length (slashed arg) = length arg"
  by (simp add: slashed_def)

lemma zero_slashed [simp]: "0 \<in> set (slashed arg) \<longleftrightarrow> 0 \<in> set arg"
  by (auto simp: slashed_def)

lemma read_line_ne: "es \<noteq> [] \<Longrightarrow> read_line dir line es \<noteq> []"
  by (simp add: read_line_def change_last_def split: prod.split)

lemma path_holds:
  assumes "0 \<notin> set arg" and "\<And>d. dir = Some d \<Longrightarrow> 0 \<notin> set d"
  shows "0 \<notin> set (path_of dir arg)"
  using assms by (auto simp: path_of_def split: option.split)

lemma parse_line_eq:
  assumes g: "good_line dir (w, arg)" and h: "list_all2 entry_holds es cs" "es \<noteq> []"
    and path: "path = map_option (\<lambda>d. d @ [0]) dir" "\<And>d. dir = Some d \<Longrightarrow> 0 \<notin> set d"
  shows "\<exists>cs'. parse_line path (length pre) (pre @ w @ 0x20 # arg @ 0 # r, cs, dt)
      = Some (pre @ w @ 0 # left_argument (w, arg) @ 0 # r, cs',
              if is_kw kw_default w then Some (length pre + length w + 1) else dt)
    \<and> list_all2 entry_holds (read_line dir (w, arg) es) cs'"
proof -
  let ?p = "length pre + length w + 1"
  let ?buf = "pre @ w @ 0 # arg @ 0 # r" and ?buf' = "pre @ w @ 0 # slashed arg @ 0 # r"
  have w: "0 \<notin> set w" "0x20 \<notin> set w" "0x09 \<notin> set w" and arg: "0 \<notin> set arg" "arg \<noteq> []"
    "\<not> isspace (scast (hd arg))" "\<not> isspace (scast (last arg))" "is_kw kw_title w \<Longrightarrow> length arg \<le> 14"
    "length arg + (case dir of Some d \<Rightarrow> length d | None \<Rightarrow> 0) \<le> 2046"
    using g by (auto simp: good_line_def)
  then have len: "length arg \<le> 2046" by (cases dir) auto
  have cut: "strsep (pre @ w @ 0x20 # arg @ 0 # r) (Some (length pre)) [0x20, 0x09, 0] = Some (Some (length pre), Some ?p, ?buf)"
    using strsep_cut [of w "[0x20, 0x09]" "0x20" arg pre r "[]"] w arg(1) by simp
  have la: "line_argument ?buf (length pre) = Some (?p, ?buf)"
    by (rule line_argument_eq [OF refl w(1) arg(1-4)])
  have st: "starts b (length pre) kw = Some (is_kw kw w)" if "0 \<notin> set kw" "b = ?buf \<or> b = ?buf'" for kw b
    using that(2) by (elim disjE) (rule starts_kw [OF _ w(1) that(1)], simp)+
  have d: "drop ?p ?buf = arg @ 0 # r" "drop ?p ?buf' = slashed arg @ 0 # r" by simp_all
  have repl: "slash_argument ?buf ?p = Some ?buf'"
    using chrreplace_loop_returns [of "0x5c" "0x2f" arg "2 * length ?buf + 1" "pre @ w @ [0]" r] arg(1)
    by (simp add: slashed_def slash_argument_def)
  note run = parse_line_def Let_def prod.case cut bind.bind_lunit option.sel la
  have l: "entry_holds (last es) (last cs)" by (rule last_holds [OF h])
  have sp: "\<exists>f' r'. store_path path ?buf' ?p f = Some f' \<and> f' = path_of dir (slashed arg) @ 0 # r' \<and> length f' = 2048"
    if "length f = 2048" for f
    using arg(6) by (intro store_path_eq [OF d(2) _ that path]) (simp_all add: arg(1))
  have np: "0 \<notin> set (path_of dir (slashed arg))" using path_holds [OF _ path(2)] arg(1) by simp
  consider (t) "is_kw kw_title w" | (k) "\<not> is_kw kw_title w" "is_kw kw_kernel w"
    | (i) "\<not> is_kw kw_title w" "\<not> is_kw kw_kernel w" "is_kw kw_initrd w"
    | (a) "\<not> is_kw kw_title w" "\<not> is_kw kw_kernel w" "\<not> is_kw kw_initrd w" "is_kw kw_append w"
    | (o) "\<not> is_kw kw_title w" "\<not> is_kw kw_kernel w" "\<not> is_kw kw_initrd w" "\<not> is_kw kw_append w"
    by blast
  then show ?thesis
  proof cases
    case t
    obtain cs' where "set_title ?buf ?p cs = Some cs'" "list_all2 entry_holds
      (if e_title (last es) = [] then change_last (e_title_update (\<lambda>_. arg)) es else es @ [empty_entry\<lparr>e_title := arg\<rparr>]) cs'"
      using title_line [OF h d(1) arg(1) arg(5)] t by blast
    moreover have "\<not> is_kw kw_default w" using t kw_apart(1) by blast
    ultimately show ?thesis
      using t by (intro exI [of _ cs']) (simp add: run st no_zero_kw read_line_def left_argument_def)
  next
    case k
    obtain f' r' where f: "store_path path ?buf' ?p (szKernel (last cs)) = Some f'"
      "f' = path_of dir (slashed arg) @ 0 # r'" "length f' = 2048"
      using sp [of "szKernel (last cs)"] l by (auto simp: entry_holds_def)
    have "list_all2 entry_holds (change_last (e_kernel_update (\<lambda>_. path_of dir (slashed arg))) es)
        (change_last (szKernel_update (\<lambda>_. f')) cs)"
      using f(2,3) np by (intro change_last_holds [OF h]) (simp add: entry_holds_def)
    moreover have "\<not> is_kw kw_default w" using k kw_apart(2) by blast
    ultimately show ?thesis
      using k f(1) repl by (simp add: run st no_zero_kw read_line_def left_argument_def)
  next
    case i
    have no: "starts ?buf' ?p kw_no = Some (is_kw kw_no (slashed arg))"
      using arg(1) by (intro starts_kw [OF d(2)]) (simp_all add: no_zero_kw)
    obtain f' r' where f: "store_path path ?buf' ?p (szInitrd (last cs)) = Some f'"
      "f' = path_of dir (slashed arg) @ 0 # r'" "length f' = 2048"
      using sp [of "szInitrd (last cs)"] l by (auto simp: entry_holds_def)
    have "list_all2 entry_holds (change_last (e_initrd_update (\<lambda>_. path_of dir (slashed arg))) es)
        (change_last (szInitrd_update (\<lambda>_. f')) cs)"
      using f(2,3) np by (intro change_last_holds [OF h]) (simp add: entry_holds_def)
    moreover have "\<not> is_kw kw_default w" using i kw_apart(3) by blast
    ultimately show ?thesis
      using i f(1) h(1) no repl by (simp add: run st no_zero_kw read_line_def left_argument_def)
  next
    case a
    have "copy_argument ?buf ?p (szAppend (last cs)) = Some (arg @ drop (length arg) (szAppend (last cs)))"
      using l len by (intro copy_argument_eq [OF d(1) arg(1)]) (auto simp: entry_holds_def)
    moreover have "list_all2 entry_holds (change_last (e_append_update (overlay arg)) es)
        (change_last (szAppend_update (\<lambda>_. arg @ drop (length arg) (szAppend (last cs)))) cs)"
      using overlay_holds [OF _ arg(1) len] by (intro change_last_holds [OF h]) blast
    moreover have "\<not> is_kw kw_default w" using a kw_apart(4) by blast
    ultimately show ?thesis
      using a by (simp add: run st no_zero_kw read_line_def left_argument_def)
  next
    case o
    then show ?thesis using h(1) by (simp add: run st no_zero_kw read_line_def left_argument_def)
  qed
qed

section \<open>The file\<close>

text \<open>The pointer of the default title into the part of the buffer that is done.\<close>

definition default_at :: "bytes option \<Rightarrow> nat option \<Rightarrow> bytes \<Rightarrow> bool" where
  "default_at d dt pre \<longleftrightarrow> (case d of None \<Rightarrow> dt = None
     | Some s \<Rightarrow> 0 \<notin> set s \<and> (\<exists>q t. dt = Some q \<and> drop q pre = s @ 0 # t))"

lemma default_at_append: "default_at d dt pre \<Longrightarrow> default_at d dt (pre @ mr)"
proof (cases d)
  case (Some s)
  assume "default_at d dt pre"
  then obtain q t where q: "dt = Some q" "drop q pre = s @ 0 # t" "0 \<notin> set s" using Some by (auto simp: default_at_def)
  then have "q < length pre" by (metis append_is_Nil_conv drop_all list.distinct(1) not_le_imp_less)
  then have "drop q (pre @ mr) = s @ 0 # t @ mr" using q(2) by simp
  then show ?thesis using q Some by (simp add: default_at_def)
qed (simp add: default_at_def)

lemma last_line:
  assumes "es \<noteq> []"
  shows "parse_line path (length pre) (pre @ 0 # 0 # r, cs, dt) = Some (pre @ 0 # 0 # r, cs, dt)"
proof -
  let ?buf = "pre @ 0 # 0 # r"
  have cut: "strsep ?buf (Some (length pre)) [0x20, 0x09, 0] = Some (Some (length pre), None, ?buf)"
    using strsep_last [of "[]" "[0x20, 0x09]" pre "0 # r" "[]"] by simp
  have "?buf ! Suc (length pre) = 0" "?buf ! length pre = 0" by (simp_all add: nth_append)
  then have sk: "skip_space ?buf (Suc (length pre)) = Some (Suc (length pre))"
    by (subst skip_space.simps) (simp add: isspace_def)
  have "back_space ?buf (Suc (length pre)) (length pre) = Some (length pre)"
  proof (cases pre)
    case (Cons a p)
    then have "?buf ! Suc (length p) = 0" by (simp add: nth_append)
    then show ?thesis using Cons by (simp add: back_space.simps isspace_def)
  qed (simp add: back_space.simps isspace_def)
  moreover note sk
  moreover have "put_bytes ?buf (Suc (length pre)) [0] = Some ?buf" by (simp add: put_bytes_def)
  ultimately have la: "line_argument ?buf (length pre) = Some (Suc (length pre), ?buf)"
    by (simp add: line_argument_def)
  have st: "starts ?buf (length pre) kw = Some (is_kw kw [])" if "0 \<notin> set kw" for kw
    by (rule starts_kw [of _ _ "[]" "0 # r"]) (simp_all add: that)
  show ?thesis by (simp add: parse_line_def cut la st no_zero_kw other_kw)
qed

lemma file_end:
  "parse_lines (Suc (Suc fuel)) path (Some (length pre)) (pre @ 0 # 0 # r, cs, dt) = Some (pre @ 0 # 0 # r, cs, dt)"
proof -
  have "strsep (pre @ 0 # 0 # r) (Some (length pre)) [0x0a, 0] = Some (Some (length pre), None, pre @ 0 # 0 # r)"
    using strsep_last [of "[]" "[0x0a]" pre "0 # r" "[]"] by simp
  then show ?thesis using last_line [of "[0]"] by (simp add: strsep_def [of _ None])
qed

lemma line_text_no_zero: "good_line dir l \<Longrightarrow> 0 \<notin> set (line_text l)"
  by (auto simp: good_line_def line_text_def split: prod.splits)

lemma file_text_no_zero: "\<forall>l\<in>set ls. good_line dir l \<Longrightarrow> 0 \<notin> set (file_text ls)"
  using line_text_no_zero by (auto simp: file_text_def)

lemma parse_lines_eq:
  assumes "\<forall>l\<in>set ls. good_line dir l"
    and "list_all2 entry_holds es cs" "es \<noteq> []" and "default_at d dt pre"
    and path: "path = map_option (\<lambda>d. d @ [0]) dir" "\<And>d. dir = Some d \<Longrightarrow> 0 \<notin> set d"
  shows "\<exists>pre' cs' dt'. parse_lines (length ls + fuel) path (Some (length pre)) (pre @ file_text ls @ 0 # r, cs, dt)
      = parse_lines fuel path (Some (length pre')) (pre' @ 0 # r, cs', dt')
    \<and> list_all2 entry_holds (fold (read_line dir) ls es) cs' \<and> default_at (fold read_default ls d) dt' pre'"
  using assms(1-4)
proof (induction ls arbitrary: pre es cs d dt)
  case Nil
  then show ?case by (auto simp: file_text_def)
next
  case (Cons l ls)
  obtain w arg where l: "l = (w, arg)" by (cases l)
  have g: "good_line dir (w, arg)" using Cons.prems(1) l by simp
  have zf: "0 \<notin> set (file_text ls)" using Cons.prems(1) file_text_no_zero by auto
  let ?rest = "file_text ls @ 0 # r"
  have cut: "strsep (pre @ file_text (l # ls) @ 0 # r) (Some (length pre)) [0x0a, 0]
      = Some (Some (length pre), Some (length pre + length w + length arg + 2), pre @ w @ 0x20 # arg @ 0 # ?rest)"
    using strsep_cut [of "w @ 0x20 # arg" "[0x0a]" "0x0a" "file_text ls" pre r "[]"] g zf
    by (auto simp: good_line_def file_text_def line_text_def l)
  obtain cs1 where p: "parse_line path (length pre) (pre @ w @ 0x20 # arg @ 0 # ?rest, cs, dt)
      = Some (pre @ w @ 0 # left_argument (w, arg) @ 0 # ?rest, cs1,
              if is_kw kw_default w then Some (length pre + length w + 1) else dt)"
    "list_all2 entry_holds (read_line dir (w, arg) es) cs1"
    using parse_line_eq [OF g Cons.prems(2,3) path] by blast
  let ?pre = "pre @ w @ 0 # left_argument (w, arg) @ [0]"
  have len: "length ?pre = length pre + length w + length arg + 2" by (simp add: left_argument_def)
  have df: "default_at (read_default l d) (if is_kw kw_default w then Some (length pre + length w + 1) else dt) ?pre"
  proof (cases "is_kw kw_default w")
    case True
    then have "left_argument (w, arg) = arg" using kw_apart by (simp add: left_argument_def)
    moreover have "0 \<notin> set arg" using g by (simp add: good_line_def)
    ultimately show ?thesis using True by (simp add: default_at_def read_default_def l)
  next
    case False
    then show ?thesis using default_at_append [OF Cons.prems(4)] by (simp add: read_default_def l)
  qed
  have "\<forall>l\<in>set ls. good_line dir l" using Cons.prems(1) by simp
  moreover have "parse_lines (length (l # ls) + fuel) path (Some (length pre)) (pre @ file_text (l # ls) @ 0 # r, cs, dt)
      = parse_lines (length ls + fuel) path (Some (length ?pre)) (?pre @ ?rest, cs1,
          if is_kw kw_default w then Some (length pre + length w + 1) else dt)"
  proof -
    have e: "?pre @ ?rest = pre @ w @ 0 # left_argument (w, arg) @ 0 # ?rest" by simp
    show ?thesis unfolding e len by (simp only: list.size add_Suc_right add_Suc add_0_right parse_lines.simps cut bind.bind_lunit prod.case option.case p(1))
  qed
  ultimately show ?case
    using Cons.IH [OF _ p(2) read_line_ne [OF Cons.prems(3)] df] by (simp only: fold_simps l)
qed

lemma mark_default_eq:
  assumes "list_all2 entry_holds es cs" and "0 \<notin> set d" and "drop dt buf = d @ 0 # r"
  shows "\<exists>cs'. mark_default buf dt (length d) cs = Some cs' \<and> list_all2 entry_holds (choose_default d es) cs'"
  using assms(1)
proof (induction es cs rule: list_all2_induct)
  case (Cons e es c cs)
  have t: "title c = e_title e @ 0 # replicate (14 - length (e_title e)) 0" "0 \<notin> set (e_title e)"
    using Cons(1) by (auto simp: entry_holds_def Suc_diff_le replicate_Suc [symmetric] simp del: replicate_Suc)
  obtain v where v: "strncmp (title c) (drop dt buf) (length d) = Some v" "v = 0 \<longleftrightarrow> is_kw d (e_title e)"
    using strncmp_kw [OF t(2) assms(2), of _ "0 # r"] unfolding assms(3) t(1) by blast
  have "entry_holds (e\<lparr>e_default := True\<rparr>) (c\<lparr>isDefault := 1\<rparr>)" using Cons(1) by (simp add: entry_holds_def)
  then show ?case using Cons v by auto
qed simp

lemma length_lines: "length ls \<le> length (file_text ls)"
  by (induction ls) (auto simp: file_text_def line_text_def)

lemma parse_file:
  assumes "\<forall>l\<in>set ls. good_line dir l" and "\<And>d. dir = Some d \<Longrightarrow> 0 \<notin> set d"
  shows "\<exists>pre cs dt. parse_lines (length ls + fuel) (map_option (\<lambda>d. d @ [0]) dir) (Some 0)
        (file_text ls @ 0 # r, [cleared_entry], None)
      = parse_lines fuel (map_option (\<lambda>d. d @ [0]) dir) (Some (length pre)) (pre @ 0 # r, cs, dt)
    \<and> list_all2 entry_holds (fold (read_line dir) ls [empty_entry]) cs \<and> default_at (fold read_default ls None) dt pre"
proof -
  have "list_all2 entry_holds [empty_entry] [cleared_entry]" "default_at None None []"
    by (simp_all add: entry_holds_empty default_at_def)
  from parse_lines_eq [OF assms(1) this(1) _ this(2) refl assms(2), of fuel r] show ?thesis by simp
qed

lemma parse_config_entries:
  assumes "\<forall>l\<in>set lines. good_line dir l" and "\<And>d. dir = Some d \<Longrightarrow> 0 \<notin> set d"
  shows "\<exists>es buf. ParseConfig (file_text lines @ c # 0 # r) (length (file_text lines)) (map_option (\<lambda>d. d @ [0]) dir)
      = Some (es, buf) \<and> list_all2 entry_holds (boot_entries dir lines) es"
proof -
  let ?path = "map_option (\<lambda>d. d @ [0]) dir" and ?buf = "file_text lines @ 0 # 0 # r"
  have b: "put_bytes (file_text lines @ c # 0 # r) (length (file_text lines)) [0] = Some ?buf"
    by (simp add: put_bytes_def)
  define k where "k = length ?buf - length lines"
  have k: "length ?buf + 2 = length lines + Suc (Suc k)" using length_lines [of lines] by (simp add: k_def)
  from parse_file [OF assms, of "Suc (Suc k)" "0 # r", unfolded file_end]
  obtain pre' cs dt where p: "parse_lines (length ?buf + 2) ?path (Some 0) (?buf, [cleared_entry], None)
      = Some (pre' @ 0 # 0 # r, cs, dt)"
    "list_all2 entry_holds (fold (read_line dir) lines [empty_entry]) cs"
    "default_at (fold read_default lines None) dt pre'"
    unfolding k by blast
  show ?thesis
  proof (cases "fold read_default lines None")
    case None
    then have "dt = None" using p(3) by (simp add: default_at_def)
    then have "ParseConfig (file_text lines @ c # 0 # r) (length (file_text lines)) ?path = Some (cs, pre' @ 0 # 0 # r)"
      unfolding ParseConfig_def b bind.bind_lunit p(1) by simp
    then show ?thesis using p(2) None by (simp add: boot_entries_def)
  next
    case (Some d)
    then obtain q t where q: "dt = Some q" "drop q pre' = d @ 0 # t" "0 \<notin> set d" using p(3) by (auto simp: default_at_def)
    then have "q < length pre'" by (metis append_is_Nil_conv drop_all list.distinct(1) not_le_imp_less)
    then have d: "drop q (pre' @ 0 # 0 # r) = d @ 0 # t @ 0 # 0 # r" using q(2) by simp
    obtain cs' where m: "mark_default (pre' @ 0 # 0 # r) q (length d) cs = Some cs'"
      "list_all2 entry_holds (choose_default d (fold (read_line dir) lines [empty_entry])) cs'"
      using mark_default_eq [OF p(2) q(3) d] by blast
    have "strlen (drop q (pre' @ 0 # 0 # r)) = Some (length d)" unfolding d using q(3) by simp
    then have "ParseConfig (file_text lines @ c # 0 # r) (length (file_text lines)) ?path = Some (cs', pre' @ 0 # 0 # r)"
      unfolding ParseConfig_def b bind.bind_lunit p(1) using q(1) m(1) by simp
    then show ?thesis using m(2) Some by (simp add: boot_entries_def)
  qed
qed

lemma boot_entries_ne: "boot_entries dir lines \<noteq> []"
proof -
  have "read_line dir l es \<noteq> []" if "es \<noteq> []" for l es
    using that by (auto simp: read_line_def change_last_def split: prod.split)
  then have "fold (read_line dir) lines es \<noteq> []" if "es \<noteq> []" for es
    using that by (induction lines arbitrary: es) auto
  moreover have "choose_default d es \<noteq> []" if "es \<noteq> []" for d es
    using that by (cases es) auto
  ultimately show ?thesis by (auto simp: boot_entries_def Let_def split: option.split)
qed

text \<open>An entry as it leaves the parser.\<close>

lemma entry_strings:
  assumes "entry_holds e c"
  obtains kr ir r where "szKernel c = e_kernel e @ 0 # kr" "0 \<notin> set (e_kernel e)" "szInitrd c = e_initrd e @ 0 # ir"
    "0 \<notin> set (e_initrd e)" "szAppend c = e_append e @ 0 # r" "0 \<notin> set (e_append e)"
proof -
  have h: "\<exists>r. szKernel c = e_kernel e @ 0 # r" "0 \<notin> set (e_kernel e)" "\<exists>r. szInitrd c = e_initrd e @ 0 # r"
    "0 \<notin> set (e_initrd e)" "0 \<notin> set (e_append e)"
    "szAppend c = e_append e @ replicate (2048 - length (e_append e)) 0" "length (e_append e) \<le> 2047"
    using assms by (simp_all add: entry_holds_def)
  obtain k where "2048 - length (e_append e) = Suc k" using h(7) by (intro that [of "2047 - length (e_append e)"]) simp
  then have "szAppend c = e_append e @ 0 # replicate k 0" using h(6) by simp
  with h(1-5) that show thesis by blast
qed

text \<open>C22. A file of lines, each a word, a blank and an argument, that ends with a newline: the parser makes
  the entries the lines mean, whatever is in the byte it overwrites; with a byte 0 behind that one it has
  a defined result. In particular a line \<open>title\<close> opens a new entry when the current one has a title,
  back slashes in paths become slashes, \<open>initrd no\<close> is skipped, and the first entry whose title
  begins with the default title is the default one.\<close>

theorem ParseConfig_reads:
  assumes "\<forall>l\<in>set lines. good_line dir l" and "\<And>d. dir = Some d \<Longrightarrow> 0 \<notin> set d"
  shows "\<exists>es buf. ParseConfig (file_text lines @ c # 0 # r) (length (file_text lines)) (map_option (\<lambda>d. d @ [0]) dir)
      = Some (es, buf) \<and> list_all2 entry_holds (boot_entries dir lines) es"
  by (rule parse_config_entries [OF assms])

text \<open>The lines
  title a / kernel \k / append x=1
  title b / kernel /m / initrd no / default b\<close>

definition sample_lines :: "(bytes \<times> bytes) list" where
  "sample_lines = [(kw_title, [0x61]), (kw_kernel, [0x5c, 0x6b]), (kw_append, [0x78, 0x3d, 0x31]),
     (kw_title, [0x62]), (kw_kernel, [0x2f, 0x6d]), (kw_initrd, kw_no), (kw_default, [0x62])]"

lemma sample_lines_good: "\<forall>l\<in>set sample_lines. good_line None l"
  by (simp add: sample_lines_def good_line_def kw_defs isspace_def is_kw_def)

lemma sample_lines_entries: "boot_entries None sample_lines =
  [\<lparr>e_title = [0x61], e_kernel = [0x2f, 0x6b], e_initrd = [], e_append = [0x78, 0x3d, 0x31], e_default = False\<rparr>,
   \<lparr>e_title = [0x62], e_kernel = [0x2f, 0x6d], e_initrd = [], e_append = [], e_default = True\<rparr>]"
  by code_simp

theorem ParseConfig_reads_witness:
  "\<exists>es buf. ParseConfig (file_text sample_lines @ [7, 0]) (length (file_text sample_lines)) None = Some (es, buf)
    \<and> length es = 2 \<and> map isDefault es = [0, 1]"
proof -
  obtain es buf where "ParseConfig (file_text sample_lines @ [7, 0]) (length (file_text sample_lines)) None = Some (es, buf)"
    "list_all2 entry_holds (boot_entries None sample_lines) es"
    using ParseConfig_reads [OF sample_lines_good, of 7 "[]"] by auto
  then show ?thesis
    by (auto simp: sample_lines_entries list_all2_Cons1 entry_holds_def)
qed

text \<open>C33. One byte behind the text, as the comment of the parser asks for, is not enough: on a buffer that ends
  there every file of good lines makes the parser read behind the buffer, for the empty line behind the
  last newline.\<close>

theorem ParseConfig_overreads:
  assumes "\<forall>l\<in>set lines. good_line dir l" and "\<And>d. dir = Some d \<Longrightarrow> 0 \<notin> set d"
  shows "ParseConfig (file_text lines @ [c]) (length (file_text lines)) (map_option (\<lambda>d. d @ [0]) dir) = None"
proof -
  let ?path = "map_option (\<lambda>d. d @ [0]) dir" and ?buf = "file_text lines @ [0]"
  have b: "put_bytes (file_text lines @ [c]) (length (file_text lines)) [0] = Some ?buf"
    by (simp add: put_bytes_def)
  define k where "k = Suc (length ?buf) - length lines"
  have k: "length ?buf + 2 = length lines + Suc k" using length_lines [of lines] by (simp add: k_def)
  from parse_file [OF assms, of "Suc k" "[]"]
  obtain pre' cs dt where p: "parse_lines (length ?buf + 2) ?path (Some 0) (?buf, [cleared_entry], None)
      = parse_lines (Suc k) ?path (Some (length pre')) (pre' @ [0], cs, dt)"
    unfolding k by blast
  have "strsep (pre' @ [0]) (Some (length pre')) [0x0a, 0] = Some (Some (length pre'), None, pre' @ [0])"
    "strsep (pre' @ [0]) (Some (length pre')) [0x20, 0x09, 0] = Some (Some (length pre'), None, pre' @ [0])"
    using strsep_last [of "[]" "[0x0a]" pre' "[]" "[]"] strsep_last [of "[]" "[0x20, 0x09]" pre' "[]" "[]"] by simp_all
  moreover have "line_argument (pre' @ [0]) (length pre') = None"
    by (simp add: line_argument_def skip_space.simps)
  ultimately have "parse_lines (Suc k) ?path (Some (length pre')) (pre' @ [0], cs, dt) = None"
    by (simp add: parse_line_def)
  then show ?thesis unfolding ParseConfig_def b bind.bind_lunit p by simp
qed

theorem ParseConfig_overreads_witness: "ParseConfig (file_text sample_lines @ [7]) (length (file_text sample_lines)) None = None"
  using ParseConfig_overreads [OF sample_lines_good] by simp

end
