(* ===== verification/Pci.thy ===== *)
theory Pci
  imports BootRom
begin

text \<open>
  The PCI configuration space, the CMOS memory, the set-up of the chip set and the detection of
  the memory size, \<open>drivers/pci/pci.c\<close>. The ports are those of \<open>PortIO\<close>; the memory the detection
  probes is a parameter as well, because what is behind an address depends on the console.
\<close>

section \<open>Configuration space\<close>

definition pci_base :: "u32 \<Rightarrow> u32 \<Rightarrow> u32 \<Rightarrow> u32" where
  "pci_base bus dev func =
     0x80000000 OR push_bit 16 (bus AND 0xFF) OR push_bit 11 (dev AND 0x1F) OR push_bit 8 (func AND 0x07)"

definition PciReadByte :: "'d ports \<Rightarrow> u32 \<Rightarrow> u32 \<Rightarrow> u32 \<Rightarrow> u32 \<Rightarrow> 'd \<Rightarrow> u8 \<times> 'd" where
  "PciReadByte io bus dev func reg_off d =
     IoInputByte io (0xcfc + ucast (reg_off AND 3))
       (IoOutputDword io 0xcf8 (pci_base bus dev func + (reg_off AND 0xfc)) d)"

definition PciWriteByte :: "'d ports \<Rightarrow> u32 \<Rightarrow> u32 \<Rightarrow> u32 \<Rightarrow> u32 \<Rightarrow> u8 \<Rightarrow> 'd \<Rightarrow> 'd" where
  "PciWriteByte io bus dev func reg_off byteval d =
     IoOutputByte io (0xcfc + ucast (reg_off AND 3)) byteval
       (IoOutputDword io 0xcf8 (pci_base bus dev func + (reg_off AND 0xfc)) d)"

text \<open>The words take only bit 0 of the offset to the data port; the two addresses are cut differently.\<close>

definition PciReadWord :: "'d ports \<Rightarrow> u32 \<Rightarrow> u32 \<Rightarrow> u32 \<Rightarrow> u32 \<Rightarrow> 'd \<Rightarrow> u16 \<times> 'd" where
  "PciReadWord io bus dev func reg_off d =
     IoInputWord io (0xcfc + ucast (reg_off AND 1))
       (IoOutputDword io 0xcf8 (pci_base bus dev func + (reg_off AND 0xfe)) d)"

definition PciWriteWord :: "'d ports \<Rightarrow> u32 \<Rightarrow> u32 \<Rightarrow> u32 \<Rightarrow> u32 \<Rightarrow> u16 \<Rightarrow> 'd \<Rightarrow> 'd" where
  "PciWriteWord io bus dev func reg_off w d =
     IoOutputWord io (0xcfc + ucast (reg_off AND 1)) w
       (IoOutputDword io 0xcf8 (pci_base bus dev func + (reg_off AND 0xfc)) d)"

definition PciReadDword :: "'d ports \<Rightarrow> u32 \<Rightarrow> u32 \<Rightarrow> u32 \<Rightarrow> u32 \<Rightarrow> 'd \<Rightarrow> u32 \<times> 'd" where
  "PciReadDword io bus dev func reg_off d =
     IoInputDword io 0xcfc
       (IoOutputDword io 0xcf8 (pci_base bus dev func OR push_bit 8 (func AND 0x07) OR (reg_off AND 0xff)) d)"

definition PciWriteDword :: "'d ports \<Rightarrow> u32 \<Rightarrow> u32 \<Rightarrow> u32 \<Rightarrow> u32 \<Rightarrow> u32 \<Rightarrow> 'd \<Rightarrow> 'd" where
  "PciWriteDword io bus dev func reg_off dw d =
     IoOutputDword io 0xcfc dw (IoOutputDword io 0xcf8 (pci_base bus dev func OR (reg_off AND 0xff)) d)"

text \<open>\<open>PciWriteDword(..., (PciReadDword(...) & keep) | bits)\<close>.\<close>

definition PciModify :: "'d ports \<Rightarrow> u32 \<Rightarrow> u32 \<Rightarrow> u32 \<Rightarrow> u32 \<Rightarrow> u32 \<Rightarrow> u32 \<Rightarrow> 'd \<Rightarrow> 'd" where
  "PciModify io bus dev func reg_off keep bits d =
     (let (v, d) = PciReadDword io bus dev func reg_off d
      in PciWriteDword io bus dev func reg_off ((v AND keep) OR bits) d)"

definition main_BootAGPBUSInitialization :: "'d ports \<Rightarrow> 'd \<Rightarrow> 'd" where
  "main_BootAGPBUSInitialization io d =
     (let d = PciModify io 0 1 0 0x54 0xffffffff 0x88000000 d;
          d = PciModify io 0 0 0 0x64 0xffffffff 0x88000000 d;
          (temp, d) = PciReadDword io 0 0 0 0x6C d;
          d = IoOutputDword io 0xcfc (temp AND 0xFFFFFFFE) d;
          d = IoOutputDword io 0xcfc temp d
      in PciWriteDword io 0 0 0 0x80 0x00000100 d)"

section \<open>CMOS memory\<close>

definition CMOS_READ :: "'d ports \<Rightarrow> u8 \<Rightarrow> 'd \<Rightarrow> u8 \<times> 'd" where
  "CMOS_READ io addr d = IoInputByte io 0x71 (IoOutputByte io 0x70 addr d)"

definition CMOS_WRITE :: "'d ports \<Rightarrow> u8 \<Rightarrow> u8 \<Rightarrow> 'd \<Rightarrow> 'd" where
  "CMOS_WRITE io v addr d = IoOutputByte io 0x71 v (IoOutputByte io 0x70 addr d)"

definition BiosCmosWrite :: "'d ports \<Rightarrow> u8 \<Rightarrow> u8 \<Rightarrow> 'd \<Rightarrow> 'd" where
  "BiosCmosWrite io bAds bData d =
     IoOutputByte io 0x73 bData (IoOutputByte io 0x72 bAds (IoOutputByte io 0x71 bData (IoOutputByte io 0x70 bAds d)))"

definition BiosCmosRead :: "'d ports \<Rightarrow> u8 \<Rightarrow> 'd \<Rightarrow> u8 \<times> 'd" where
  "BiosCmosRead io bAds d = IoInputByte io 0x73 (IoOutputByte io 0x72 bAds d)"

text \<open>The sum over \<open>n\<close> bytes from \<open>i\<close> on.\<close>

fun rtc_sum :: "'d ports \<Rightarrow> nat \<Rightarrow> u32 \<Rightarrow> u32 \<Rightarrow> 'd \<Rightarrow> u32 \<times> 'd" where
  "rtc_sum io 0 i s d = (s, d)"
| "rtc_sum io (Suc n) i s d =
     (let (b, d) = CMOS_READ io (ucast i) d in rtc_sum io n (i + 1) (s + ucast b) d)"

definition range_length :: "u32 \<Rightarrow> u32 \<Rightarrow> nat" where
  "range_length a b = (if b <s a then 0 else unat (b - a) + 1)"

definition rtc_checksum_valid :: "'d ports \<Rightarrow> u32 \<Rightarrow> u32 \<Rightarrow> u32 \<Rightarrow> 'd \<Rightarrow> bool \<times> 'd" where
  "rtc_checksum_valid io range_start range_end cks_loc d =
     (let (s, d) = rtc_sum io (range_length range_start range_end) range_start 0 d;
          s = NOT s AND 0x0ffff;
          (hi, d) = CMOS_READ io (ucast cks_loc) d;
          (lo, d) = CMOS_READ io (ucast (cks_loc + 1)) d;
          old_sum = (push_bit 8 (ucast hi) OR ucast lo) AND 0x0ffff
      in (s = old_sum, d))"

definition rtc_set_checksum :: "'d ports \<Rightarrow> u32 \<Rightarrow> u32 \<Rightarrow> u32 \<Rightarrow> 'd \<Rightarrow> 'd" where
  "rtc_set_checksum io range_start range_end cks_loc d =
     (let (s, d) = rtc_sum io (range_length range_start range_end) range_start 0 d;
          s = NOT (s AND 0x0ffff);
          d = CMOS_WRITE io (ucast (drop_bit 8 s AND 0x0ff)) (ucast cks_loc) d
      in CMOS_WRITE io (ucast (s AND 0x0ff)) (ucast (cks_loc + 1)) d)"

section \<open>The size of the memory\<close>

text \<open>The memory as the probe sees it: a store and a load on the state of the hardware.\<close>

record 'd probed =
  mem_store :: "u32 \<Rightarrow> bytes \<Rightarrow> 'd \<Rightarrow> 'd"
  mem_load :: "u32 \<Rightarrow> nat \<Rightarrow> 'd \<Rightarrow> bytes"

abbreviation (input) "membasetop \<equiv> 0x04000000 :: u32"

definition probe :: "'d probed \<Rightarrow> u32 \<Rightarrow> u8 \<Rightarrow> 'd \<Rightarrow> bool" where
  "probe mm a c d \<longleftrightarrow> memcmp (mem_load mm a 0x200 d) (replicate 0x200 c) 0x200 = Some 0"

definition BootDetectMemorySize :: "'d ports \<Rightarrow> 'd probed \<Rightarrow> 'd \<Rightarrow> u32 \<times> 'd" where
  "BootDetectMemorySize io mm d =
     (let d = mem_store mm (0xFD000000 + 0x100200) (le32_bytes 0x03070103) d;
          d = mem_store mm (0xFD000000 + 0x100204) (le32_bytes 0x11448000) d;
          d = PciWriteDword io 0 0 0 0x84 0x7FFFFFF d;
          d = mem_store mm membasetop (replicate 0x200 0xAA) d;
          (xbox_ram, d) =
            (if probe mm membasetop 0xAA d
             then (let d = mem_store mm membasetop (replicate 0x200 0x55) d
                   in if probe mm membasetop 0x55 d
                      then (if probe mm 0 0x55 d then (64, d) else (128, d))
                      else (64, d))
             else (64, d));
          d = PciWriteDword io 0 0 0 0x84 (if xbox_ram = 64 then 0x3FFFFFF else 0x7FFFFFF) d
      in (xbox_ram, d))"

section \<open>Set-up of the chip set\<close>

text \<open>Accesses in order.\<close>

definition run_steps :: "('d \<Rightarrow> 'd) list \<Rightarrow> 'd \<Rightarrow> 'd" where
  "run_steps fs d = fold (\<lambda>f. f) fs d"

definition port_or_b :: "'d ports \<Rightarrow> u16 \<Rightarrow> u8 \<Rightarrow> 'd \<Rightarrow> 'd" where
  "port_or_b io p bits d = (let (b, d) = IoInputByte io p d in IoOutputByte io p (b OR bits) d)"

definition port_or_wb :: "'d ports \<Rightarrow> u16 \<Rightarrow> u8 \<Rightarrow> 'd \<Rightarrow> 'd" where
  "port_or_wb io p bits d = (let (b, d) = IoInputByte io p d in IoOutputWord io p (ucast (b OR bits)) d)"

definition port_or_w :: "'d ports \<Rightarrow> u16 \<Rightarrow> u16 \<Rightarrow> 'd \<Rightarrow> 'd" where
  "port_or_w io p bits d = (let (w, d) = IoInputWord io p d in IoOutputWord io p (w OR bits) d)"

text \<open>The bridge, the timers and the DMA controllers.\<close>

definition legacy_steps :: "'d ports \<Rightarrow> ('d \<Rightarrow> 'd) list" where
  "legacy_steps io =
     [PciWriteDword io 0 0 0 0x48 0x114,
      PciWriteDword io 0 0 0 0x44 0x80000000,
      PciWriteByte io 0 0 0 0x87 3,
      PciWriteByte io 0 0 8 0 0x42,
      IoOutputByte io 0x2e 0x55,
      IoOutputByte io 0x2e 0x26,
      IoOutputByte io 0x61 0xff,
      IoOutputByte io 0x92 0x1,
      IoOutputByte io 0xcf9 0,
      IoOutputByte io 0x43 0x36,
      IoOutputByte io 0x40 0xFF,
      IoOutputByte io 0x40 0xFF,
      IoOutputByte io 0x43 0x54,
      IoOutputByte io 0x41 18,
      IoOutputByte io 0 0,
      IoOutputByte io 0 0,
      IoOutputByte io 0x1 0,
      IoOutputByte io 0x1 0,
      IoOutputByte io 0x2 0,
      IoOutputByte io 0x2 0,
      IoOutputByte io 0x3 0,
      IoOutputByte io 0x3 0,
      IoOutputByte io 0x4 0,
      IoOutputByte io 0x4 0,
      IoOutputByte io 0x5 0,
      IoOutputByte io 0x5 0,
      IoOutputByte io 0x6 0,
      IoOutputByte io 0x6 0,
      IoOutputByte io 0x7 0,
      IoOutputByte io 0x7 0,
      IoOutputByte io 0xB 0x40,
      IoOutputByte io 0xB 0x41,
      IoOutputByte io 0xB 0x42,
      IoOutputByte io 0xB 0x43,
      IoOutputByte io 0x8 0,
      IoOutputByte io 0xC0 0,
      IoOutputByte io 0xC0 0,
      IoOutputByte io 0xC2 0,
      IoOutputByte io 0xC2 0,
      IoOutputByte io 0xC4 0,
      IoOutputByte io 0xC4 0,
      IoOutputByte io 0xC6 0,
      IoOutputByte io 0xC6 0,
      IoOutputByte io 0xC8 0,
      IoOutputByte io 0xC8 0,
      IoOutputByte io 0xCA 0,
      IoOutputByte io 0xCA 0,
      IoOutputByte io 0xCC 0,
      IoOutputByte io 0xCC 0,
      IoOutputByte io 0xCE 0,
      IoOutputByte io 0xCE 0,
      IoOutputByte io 0xD6 0xC0,
      IoOutputByte io 0xD6 0xC1,
      IoOutputByte io 0xD6 0xC2,
      IoOutputByte io 0xD6 0xC3,
      IoOutputByte io 0xD0 0,
      IoOutputByte io 0xE 0,
      IoOutputByte io 0xD4 0]"

text \<open>The clock and the power management.\<close>

definition clock_steps :: "'d ports \<Rightarrow> ('d \<Rightarrow> 'd) list" where
  "clock_steps io =
     [CMOS_WRITE io 0x02 11,
      CMOS_WRITE io (0x20 OR 0x06) 10,
      (\<lambda>d. snd (CMOS_READ io 12 d)),
      IoOutputByte io 0x80ce 0x8,
      IoOutputByte io 0x80c0 0x8,
      port_or_b io 0x8004 1,
      port_or_wb io 0x8022 2,
      port_or_wb io 0x8023 2,
      port_or_b io 0x8002 1,
      port_or_wb io 0x8028 1]"

text \<open>The devices of the south bridge.\<close>

definition device_steps :: "'d ports \<Rightarrow> ('d \<Rightarrow> 'd) list" where
  "device_steps io =
     [PciWriteDword io 0 1 0 0x6c 0xe065491,
      PciWriteByte io 0 1 0 0x6a 0x3,
      PciWriteDword io 0 1 0 0x64 0xb0c,
      (\<lambda>d. let (b, d) = PciReadByte io 0 1 0 0x81 d in PciWriteByte io 0 1 0 0x81 (b OR 8) d),
      PciWriteDword io 0 1 0 0x4c 0xf0000,
      PciWriteDword io 0 9 0 0x20 0xff61,
      PciModify io 0 9 0 4 0xffffffff 5,
      PciModify io 0 9 0 8 0xfffffeff 0,
      PciWriteDword io 0 9 0 0x58 0x20202020,
      PciWriteDword io 0 9 0 0x60 0,
      PciWriteDword io 0 9 0 0x50 0x2,
      PciWriteDword io 0 9 0 0x2c 0,
      PciWriteDword io 0 9 0 0x40 0,
      PciWriteDword io 0 9 0 0x60 0xC0C0C0C0,
      PciModify io 0 4 0 4 0xffffffff 7,
      PciWriteDword io 0 4 0 0x10 0xfef00000,
      PciWriteDword io 0 4 0 0x14 0xe001,
      PciModify io 0 4 0 0x3c 0xffff0000 0x4,
      PciModify io 0 2 0 4 0xffffffff 7,
      PciWriteDword io 0 2 0 0x10 0xfed00000,
      PciModify io 0 2 0 0x3c 0xffff0000 0x1,
      PciWriteDword io 0 2 0 0x50 0xf,
      PciModify io 0 3 0 4 0xffffffff 7,
      PciWriteDword io 0 3 0 0x10 0xfed08000,
      PciModify io 0 3 0 0x3c 0xffff0000 0x9,
      PciWriteDword io 0 3 0 0x50 0x30,
      PciModify io 0 6 0 4 0xffffffff 7,
      PciModify io 0 6 0 0x10 0xffff0000 0xd001,
      PciModify io 0 6 0 0x14 0xffff0000 0xd201,
      PciWriteDword io 0 6 0 0x18 0xfec00000,
      PciWriteDword io 0 6 0 8 0x40100b1,
      PciWriteDword io 0 6 0 0xc 0x800000,
      PciWriteDword io 0 6 0 0x3c 0x5020106,
      PciWriteDword io 0 6 0 0x44 0x20001,
      PciWriteDword io 0 6 0 0x4c 0x107,
      PciModify io 0 5 0 4 0xffffffff 7,
      PciModify io 0 5 0 0x3c 0xffff0000 0x5,
      PciWriteDword io 0 5 0 0x10 0xfe800000,
      PciModify io 0 1 0 0x8c 0xfbffffff 0x8000000]"

text \<open>The AGP bridge and the video chip.\<close>

definition video_steps :: "'d ports \<Rightarrow> ('d \<Rightarrow> 'd) list" where
  "video_steps io =
     [IoOutputDword io 0x80b4 0xffff,
      IoOutputByte io 0x80cc 0x8,
      IoOutputByte io 0x80cd 0x8,
      IoOutputByte io 0x80cf 0x8,
      port_or_w io 0x8020 0x200,
      PciModify io 0 0x1e 0 4 0xffffffff 7,
      PciModify io 0 0x1e 0 0x18 0xffffff00 0,
      PciWriteDword io 0 0x1e 0 0x3c 7,
      PciWriteDword io 0 0x1e 0 0xc 0xff019ee7,
      PciWriteDword io 0 0x1e 0 0x10 0xbcfaf7e7,
      PciWriteDword io 0 0x1e 0 0x14 0x101fafa,
      PciWriteDword io 0 0x1e 0 0x1c 0x2a000f0,
      PciWriteDword io 0 0x1e 0 0x20 0xfdf0fd00,
      PciWriteDword io 0 0x1e 0 0x24 0xf7f0f000,
      PciWriteDword io 0 0x1e 0 0x28 0x8e7ffcff,
      PciWriteDword io 0 0x1e 0 0x2c 0xf8bfef87,
      PciWriteDword io 0 0x1e 0 0x30 0xdf758fa3,
      PciWriteDword io 0 0x1e 0 0x38 0xb785fccc,
      PciModify io 1 0 0 4 0xffffffff 7,
      PciModify io 1 0 0 0x3c 0xffff0000 0x103,
      PciWriteDword io 1 0 0 0x4c 0x114,
      PciWriteDword io 1 0 0 0xc 0,
      PciWriteDword io 1 0 0 0x18 0x8]"

definition BootPciPeripheralInitialization :: "'d ports \<Rightarrow> nat \<Rightarrow> 'd \<Rightarrow> 'd option" where
  "BootPciPeripheralInitialization io n d = do {
     let d = PciWriteDword io 0 1 0 0x80 2 d;
     let (rev, d) = PciReadByte io 0 1 0 0x8 d;
     let d = (if 0xd1 \<le> rev then PciWriteDword io 0 1 0 0xc8 0x8f00 d else d);
     let d = run_steps (legacy_steps io) d;
     let d = run_steps (clock_steps io) d;
     (_, d) \<leftarrow> I2CTransmitWord io n 0x10 0x0b00 d;
     let d = run_steps (device_steps io) d;
     Some (run_steps (video_steps io) d) }"

end
