(* ===== verification/PciCorrect.thy ===== *)
theory PciCorrect
  imports Pci
begin

text \<open>
  The chip set code on a reference console: a configuration space behind an address latch, a CMOS
  memory behind an index, and memory that ends at 64 MByte or at 128 MByte.
\<close>

section \<open>A reference console\<close>

record console =
  latch :: u32
  conf :: "u32 \<Rightarrow> u32"
  cindex :: u8
  cmos :: "u8 \<Rightarrow> u8"
  ram :: memory

definition lane :: "u16 \<Rightarrow> nat" where "lane p = unat (p - 0xcfc)"

definition put_lane :: "nat \<Rightarrow> u8 \<Rightarrow> u32 \<Rightarrow> u32" where
  "put_lane k b w = (w AND NOT (push_bit (8 * k) 0xff)) OR push_bit (8 * k) (ucast b)"

definition dword_of :: "u32 \<Rightarrow> u32" where "dword_of a = a AND NOT 3"

definition console_ports :: "console ports" where
  "console_ports = \<lparr>
     IoInputByte = (\<lambda>p d. (if lane p < 4 then ucast (drop_bit (8 * lane p) (conf d (dword_of (latch d))))
                           else if p = 0x71 then cmos d (cindex d) else 0, d)),
     IoInputWord = (\<lambda>p d. (0, d)),
     IoInputDword = (\<lambda>p d. (if p = 0xcfc then conf d (dword_of (latch d)) else 0, d)),
     IoOutputByte = (\<lambda>p b d.
        if lane p < 4 then d\<lparr>conf := (conf d)(dword_of (latch d) := put_lane (lane p) b (conf d (dword_of (latch d))))\<rparr>
        else if p = 0x70 then d\<lparr>cindex := b\<rparr>
        else if p = 0x71 then d\<lparr>cmos := (cmos d)(cindex d := b)\<rparr> else d),
     IoOutputWord = (\<lambda>p w d. d),
     IoOutputDword = (\<lambda>p w d. if p = 0xcf8 then d\<lparr>latch := w\<rparr>
                      else if p = 0xcfc then d\<lparr>conf := (conf d)(dword_of (latch d) := w)\<rparr> else d),
     delay_us = (\<lambda>t d. d)\<rparr>"

definition pci_reg :: "u32 \<Rightarrow> u32 \<Rightarrow> u32 \<Rightarrow> u32 \<Rightarrow> u32" where
  "pci_reg bus dev func r = dword_of (pci_base bus dev func OR (r AND 0xff))"

lemma PciWriteDword_console:
  "PciWriteDword console_ports b v f r w d
    = d\<lparr>latch := pci_base b v f OR (r AND 0xff), conf := (conf d)(pci_reg b v f r := w)\<rparr>"
  by (simp add: PciWriteDword_def console_ports_def pci_reg_def)

lemma func_twice: "pci_base b v f OR push_bit 8 (f AND 7) OR x = pci_base b v f OR x"
  by (simp add: pci_base_def or.assoc or.left_commute [of "push_bit 8 (f AND 7)"])

lemma PciReadDword_console:
  "PciReadDword console_ports b v f r d = (conf d (pci_reg b v f r), d\<lparr>latch := pci_base b v f OR (r AND 0xff)\<rparr>)"
  unfolding PciReadDword_def func_twice by (simp add: console_ports_def pci_reg_def)

lemma PciModify_console:
  "PciModify console_ports b v f r kp bt d
    = d\<lparr>latch := pci_base b v f OR (r AND 0xff), conf := (conf d)(pci_reg b v f r := (conf d (pci_reg b v f r) AND kp) OR bt)\<rparr>"
  by (simp add: PciModify_def PciReadDword_console PciWriteDword_console)

lemma CMOS_console:
  "CMOS_READ console_ports a d = (cmos d a, d\<lparr>cindex := a\<rparr>)"
  "CMOS_WRITE console_ports v a d = d\<lparr>cindex := a, cmos := (cmos d)(a := v)\<rparr>"
proof -
  have "lane 0x70 = 62324 \<or> \<not> lane 0x70 < 4" "\<not> lane 0x71 < 4" "\<not> lane 0x70 < 4" by (simp_all add: lane_def)
  then show "CMOS_READ console_ports a d = (cmos d a, d\<lparr>cindex := a\<rparr>)"
    "CMOS_WRITE console_ports v a d = d\<lparr>cindex := a, cmos := (cmos d)(a := v)\<rparr>"
    by (simp_all add: CMOS_READ_def CMOS_WRITE_def console_ports_def)
qed

section \<open>The checksum of the CMOS memory\<close>

text \<open>The bytes of a range, summed.\<close>

definition cmos_sum :: "console \<Rightarrow> u32 \<Rightarrow> nat \<Rightarrow> u32" where
  "cmos_sum d i n = (\<Sum>j<n. ucast (cmos d (ucast (i + of_nat j))))"

lemma rtc_sum_console:
  "\<exists>x. rtc_sum console_ports n i s d = (s + cmos_sum d i n, d\<lparr>cindex := x\<rparr>)"
proof (induction n arbitrary: i s d)
  case 0
  show ?case by (rule exI [of _ "cindex d"]) (simp add: cmos_sum_def)
next
  case (Suc n)
  obtain x where x: "rtc_sum console_ports n (i + 1) (s + ucast (cmos d (ucast i))) (d\<lparr>cindex := ucast i\<rparr>)
      = (s + ucast (cmos d (ucast i)) + cmos_sum (d\<lparr>cindex := ucast i\<rparr>) (i + 1) n, d\<lparr>cindex := ucast i, cindex := x\<rparr>)"
    using Suc.IH [of "i + 1" "s + ucast (cmos d (ucast i))" "d\<lparr>cindex := ucast i\<rparr>"] by auto
  have "cmos_sum d i (Suc n) = ucast (cmos d (ucast i)) + cmos_sum (d\<lparr>cindex := ucast i\<rparr>) (i + 1) n"
    unfolding cmos_sum_def by (subst sum.lessThan_Suc_shift) (simp add: algebra_simps)
  then show ?case using x by (auto simp: CMOS_console add.assoc)
qed

lemma checksum_bytes:
  fixes s :: u32
  shows "(push_bit 8 (ucast (ucast (drop_bit 8 (NOT (s AND 0xffff)) AND 0xff) :: u8))
     OR ucast (ucast (NOT (s AND 0xffff) AND 0xff) :: u8)) AND 0xffff = NOT s AND 0xffff"
proof -
  have m: "(0xffff :: u32) = mask 16" "(0xff :: u32) = mask 8" by (simp_all add: mask_eq_exp_minus_1)
  show ?thesis unfolding m by (rule bit_word_eqI) (auto simp: bit_simps)
qed

text \<open>C34. A checksum that was just set is valid, and setting it changes nothing but its two bytes.\<close>

theorem rtc_checksum_set_valid:
  assumes "\<And>j. j < range_length range_start range_end \<Longrightarrow>
      (ucast (range_start + of_nat j) :: u8) \<notin> {ucast cks_loc, ucast (cks_loc + 1)}"
  shows "fst (rtc_checksum_valid console_ports range_start range_end cks_loc
        (rtc_set_checksum console_ports range_start range_end cks_loc d))
    \<and> (\<forall>a. a \<noteq> ucast cks_loc \<longrightarrow> a \<noteq> ucast (cks_loc + 1) \<longrightarrow>
         cmos (rtc_set_checksum console_ports range_start range_end cks_loc d) a = cmos d a)"
proof -
  let ?n = "range_length range_start range_end"
  let ?s = "cmos_sum d range_start ?n"
  let ?lo = "ucast (NOT (?s AND 0xffff) AND 0xff) :: u8" and ?hi = "ucast (drop_bit 8 (NOT (?s AND 0xffff)) AND 0xff) :: u8"
  obtain x where x: "rtc_sum console_ports ?n range_start 0 d = (?s, d\<lparr>cindex := x\<rparr>)"
    using rtc_sum_console [of ?n range_start 0 d] by auto
  define e where "e = rtc_set_checksum console_ports range_start range_end cks_loc d"
  have e: "cmos e = (cmos d)(ucast cks_loc := ?hi, ucast (cks_loc + 1) := ?lo)"
    by (simp add: e_def rtc_set_checksum_def x CMOS_console)
  have apart: "ucast (cks_loc + 1) \<noteq> (ucast cks_loc :: u8)"
    by (simp add: ucast_Suc)
  have "cmos_sum e range_start ?n = ?s"
    unfolding cmos_sum_def e using assms by (intro sum.cong refl) auto
  moreover obtain y where "rtc_sum console_ports ?n range_start 0 e = (0 + cmos_sum e range_start ?n, e\<lparr>cindex := y\<rparr>)"
    using rtc_sum_console by blast
  ultimately have "fst (rtc_checksum_valid console_ports range_start range_end cks_loc e)"
    using checksum_bytes [of ?s] apart by (simp add: rtc_checksum_valid_def CMOS_console e)
  then show ?thesis unfolding e_def [symmetric] by (simp add: e)
qed

theorem rtc_checksum_set_valid_witness:
  "fst (rtc_checksum_valid console_ports 16 45 46 (rtc_set_checksum console_ports 16 45 46
     \<lparr>latch = 0, conf = \<lambda>_. 0, cindex = 0, cmos = \<lambda>_. 7, ram = \<lambda>_. 0\<rparr>))"
proof -
  have n: "range_length 16 45 = 30" by (simp add: range_length_def word_sless_alt)
  have "(ucast (16 + of_nat j :: u32) :: u8) \<notin> {ucast (46 :: u32), ucast (46 + 1 :: u32)}" if "j < range_length 16 45" for j
  proof -
    have "j \<in> set [0..<30]" using that n by simp
    moreover have "\<forall>j\<in>set [0..<30]. (ucast (16 + of_nat j :: u32) :: u8) \<notin> {ucast (46 :: u32), ucast (46 + 1 :: u32)}"
      by code_simp
    ultimately show ?thesis by blast
  qed
  from rtc_checksum_set_valid [OF this] show ?thesis by blast
qed

section \<open>The size of the memory\<close>

text \<open>What is behind the first 64 MByte: more memory, the first 64 MByte again, or nothing, where loads give
  a constant byte and stores are lost.\<close>

datatype upper = More_ram | Mirror | Nothing u8

definition cell :: "upper \<Rightarrow> u32 \<Rightarrow> u32 option" where
  "cell kind x =
     (if 0x4000000 \<le> x \<and> x < 0x8000000
      then (case kind of More_ram \<Rightarrow> Some x | Mirror \<Rightarrow> Some (x - 0x4000000) | Nothing c \<Rightarrow> None) else Some x)"

definition open_bus :: "upper \<Rightarrow> u8" where
  "open_bus kind = (case kind of Nothing c \<Rightarrow> c | _ \<Rightarrow> 0)"

definition console_memory :: "upper \<Rightarrow> console probed" where
  "console_memory kind = \<lparr>
     mem_store = (\<lambda>a bs d. d\<lparr>ram := fold (\<lambda>i m. case cell kind (a + of_nat i) of Some y \<Rightarrow> m(y := bs ! i) | None \<Rightarrow> m)
                                     [0..<length bs] (ram d)\<rparr>),
     mem_load = (\<lambda>a n d. map (\<lambda>i. case cell kind (a + of_nat i) of Some y \<Rightarrow> ram d y | None \<Rightarrow> open_bus kind) [0..<n])\<rparr>"

text \<open>A store of one byte over and over.\<close>

lemma fill_fold:
  "fold (\<lambda>i m. case cell kind (a + of_nat i) of Some y \<Rightarrow> m(y := replicate n c ! i) | None \<Rightarrow> m) [0..<k] m0
    = (\<lambda>y. if \<exists>i<k. cell kind (a + of_nat i) = Some y then c else m0 y)" if "k \<le> n"
  using that
proof (induction k)
  case (Suc k)
  then show ?case by (cases "cell kind (a + of_nat k)") (auto simp: fun_eq_iff less_Suc_eq)
qed simp

lemma load_filled:
  assumes "ram d = (\<lambda>y. if \<exists>i<n. cell kind (a + of_nat i) = Some y then c else m0 y)"
    and "\<forall>i<n. cell kind (b + of_nat i) \<noteq> None" and "\<forall>i<n. \<exists>j<n. cell kind (a + of_nat j) = cell kind (b + of_nat i)"
  shows "mem_load (console_memory kind) b n d = replicate n c"
  by (rule nth_equalityI)
    (use assms in \<open>auto simp: console_memory_def split: option.split\<close>)

lemma memcmp_replicate: "length xs = n \<Longrightarrow> memcmp xs (replicate n c) n = Some 0 \<longleftrightarrow> xs = replicate n c"
  using memcmp_eq [of xs n "replicate n c"] by auto

lemma probe_iff: "probe (console_memory kind) a c d \<longleftrightarrow> mem_load (console_memory kind) a 0x200 d = replicate 0x200 c"
  unfolding probe_def by (rule memcmp_replicate) (simp add: console_memory_def)

lemma top_cells:
  assumes "i < 0x200"
  shows "cell More_ram (membasetop + of_nat i) = Some (membasetop + of_nat i)"
    and "cell Mirror (membasetop + of_nat i) = Some (of_nat i)"
    and "cell (Nothing x) (membasetop + of_nat i) = None"
    and "cell kind (of_nat i) = Some (of_nat i)"
proof -
  have u: "unat (of_nat i :: u32) = i" "unat (membasetop + of_nat i) = 0x4000000 + i"
    using assms by (simp_all add: unat_of_nat_u32 unat_word_ariths)
  have "0x4000000 \<le> membasetop + of_nat i" "membasetop + of_nat i < 0x8000000" "\<not> 0x4000000 \<le> (of_nat i :: u32)"
    using assms u by (simp_all add: word_le_nat_alt word_less_nat_alt)
  then show "cell More_ram (membasetop + of_nat i) = Some (membasetop + of_nat i)"
    "cell Mirror (membasetop + of_nat i) = Some (of_nat i)" "cell (Nothing x) (membasetop + of_nat i) = None"
    "cell kind (of_nat i) = Some (of_nat i)"
    by (simp_all add: cell_def)
qed

lemma store_fill:
  "mem_store (console_memory kind) a (replicate n c) d
    = d\<lparr>ram := \<lambda>y. if \<exists>i<n. cell kind (a + of_nat i) = Some y then c else ram d y\<rparr>"
  using fill_fold [where k = n and n = n and kind = kind and a = a and c = c and ?m0.0 = "ram d"] by (simp add: console_memory_def)

text \<open>A fill of the top, as the probes of the top and of address 0 see it.\<close>

lemma probe_top:
  "probe (console_memory More_ram) membasetop c' (mem_store (console_memory More_ram) membasetop (replicate 0x200 c) d) \<longleftrightarrow> c = c'"
  "probe (console_memory Mirror) membasetop c' (mem_store (console_memory Mirror) membasetop (replicate 0x200 c) d) \<longleftrightarrow> c = c'"
  "probe (console_memory Mirror) 0 c' (mem_store (console_memory Mirror) membasetop (replicate 0x200 c) d) \<longleftrightarrow> c = c'"
  "probe (console_memory (Nothing x)) membasetop c' e \<longleftrightarrow> x = c'"
proof -
  have l: "mem_load (console_memory k) b 0x200 (mem_store (console_memory k) membasetop (replicate 0x200 c) d) = replicate 0x200 c"
    if "\<forall>i<0x200. cell k (b + of_nat i) \<noteq> None"
      "\<forall>i<0x200. cell k (b + of_nat i) = cell k (membasetop + of_nat i)" for k b
    by (rule load_filled [where a = membasetop and ?m0.0 = "ram d"]) (use that in \<open>auto simp: store_fill\<close>)
  show "probe (console_memory More_ram) membasetop c' (mem_store (console_memory More_ram) membasetop (replicate 0x200 c) d) \<longleftrightarrow> c = c'"
    unfolding probe_iff by (subst l) (simp_all add: top_cells)
  show "probe (console_memory Mirror) membasetop c' (mem_store (console_memory Mirror) membasetop (replicate 0x200 c) d) \<longleftrightarrow> c = c'"
    unfolding probe_iff by (subst l) (simp_all add: top_cells)
  show "probe (console_memory Mirror) 0 c' (mem_store (console_memory Mirror) membasetop (replicate 0x200 c) d) \<longleftrightarrow> c = c'"
    unfolding probe_iff by (subst l) (simp_all add: top_cells)
  have "mem_load (console_memory (Nothing x)) membasetop 0x200 e = replicate 0x200 x"
    by (rule nth_equalityI) (simp_all add: console_memory_def top_cells open_bus_def)
  then show "probe (console_memory (Nothing x)) membasetop c' e \<longleftrightarrow> x = c'" by (simp add: probe_iff)
qed

text \<open>The first 512 bytes, when stores go elsewhere.\<close>

lemma load_low:
  assumes "\<forall>i<0x200. ram e (of_nat i) = ram d (of_nat i)"
  shows "mem_load (console_memory kind) 0 0x200 e = mem_load (console_memory kind) 0 0x200 d"
  by (rule nth_equalityI) (use assms in \<open>simp_all add: console_memory_def top_cells(4)\<close>)

lemma store_high:
  assumes "\<forall>i<length bs. cell kind (a + of_nat i) = Some (a + of_nat i)" and "0x4000000 \<le> unat a" "unat a + length bs \<le> 2 ^ 32" and "j < 0x200"
  shows "ram (mem_store (console_memory kind) a bs d) (of_nat j) = ram d (of_nat j)"
proof -
  have "fold (\<lambda>i m. case cell kind (a + of_nat i) of Some y \<Rightarrow> m(y := bs ! i) | None \<Rightarrow> m) [0..<k] m0 (of_nat j) = m0 (of_nat j)"
    if "k \<le> length bs" for k and m0 :: memory
    using that
  proof (induction k)
    case (Suc k)
    have "unat (a + of_nat k) = unat a + k" using Suc.prems assms(2,3) by (simp add: unat_word_ariths unat_of_nat_u32)
    moreover have "unat (of_nat j :: u32) = j" using assms(4) by (intro unat_of_nat_u32) simp
    ultimately have "a + of_nat k \<noteq> (of_nat j :: u32)" using assms(2,4) by auto
    then show ?case using Suc assms(1) by auto
  qed simp
  then show ?thesis by (simp add: console_memory_def)
qed

lemma register_cells: "i < 4 \<Longrightarrow> cell kind (0xFD100200 + of_nat i) = Some (0xFD100200 + of_nat i)"
  "i < 4 \<Longrightarrow> cell kind (0xFD100204 + of_nat i) = Some (0xFD100204 + of_nat i)"
proof -
  have "\<not> w < 0x8000000" if "0x8000000 \<le> unat w" for w :: u32 using that by (simp add: word_less_nat_alt)
  then show "i < 4 \<Longrightarrow> cell kind (0xFD100200 + of_nat i) = Some (0xFD100200 + of_nat i)"
    "i < 4 \<Longrightarrow> cell kind (0xFD100204 + of_nat i) = Some (0xFD100204 + of_nat i)"
    by (simp_all add: cell_def unat_word_ariths unat_of_nat_u32)
qed

text \<open>C24. The detection finds 128 MByte exactly when the upper half is there, and sets the memory controller
  for what it found: a mirror of the lower half and an open bus of any value are both seen through.
  Only first 512 bytes that happen to be all 0x55 before the probe make it take 128 MByte for 64.\<close>

theorem BootDetectMemorySize_finds:
  "fst (BootDetectMemorySize console_ports (console_memory kind) d)
     = (if kind = More_ram \<and> mem_load (console_memory kind) 0 0x200 d \<noteq> replicate 0x200 0x55 then 128 else 64)
   \<and> conf (snd (BootDetectMemorySize console_ports (console_memory kind) d)) (pci_reg 0 0 0 0x84)
     = (if kind = More_ram \<and> mem_load (console_memory kind) 0 0x200 d \<noteq> replicate 0x200 0x55 then 0x7FFFFFF else 0x3FFFFFF)"
proof -
  define e where "e = PciWriteDword console_ports 0 0 0 0x84 0x7FFFFFF
    (mem_store (console_memory kind) 0xFD100204 (le32_bytes 0x11448000)
      (mem_store (console_memory kind) 0xFD100200 (le32_bytes 0x03070103) d))"
  define f where "f c x = mem_store (console_memory kind) membasetop (replicate 0x200 c) x" for c and x :: console
  have run: "BootDetectMemorySize console_ports (console_memory kind) d =
     (let (xbox_ram, d) =
            (if probe (console_memory kind) membasetop 0xAA (f 0xAA e)
             then (if probe (console_memory kind) membasetop 0x55 (f 0x55 (f 0xAA e))
                   then (if probe (console_memory kind) 0 0x55 (f 0x55 (f 0xAA e)) then (64, f 0x55 (f 0xAA e)) else (128, f 0x55 (f 0xAA e)))
                   else (64, f 0x55 (f 0xAA e)))
             else (64, f 0xAA e));
          d = PciWriteDword console_ports 0 0 0 0x84 (if xbox_ram = 64 then 0x3FFFFFF else 0x7FFFFFF) d
      in (xbox_ram, d))"
    by (simp add: BootDetectMemorySize_def Let_def e_def f_def)
  show ?thesis
  proof (cases kind)
    case More_ram
    have "ram (f 0x55 (f 0xAA e)) (of_nat j) = ram d (of_nat j)" if "j < 0x200" for j
      using that unfolding f_def e_def PciWriteDword_console More_ram
      by (simp add: store_high top_cells register_cells)
    then have "probe (console_memory More_ram) 0 0x55 (f 0x55 (f 0xAA e))
        \<longleftrightarrow> mem_load (console_memory More_ram) 0 0x200 d = replicate 0x200 0x55"
      unfolding probe_iff by (subst load_low [of _ d]) auto
    then show ?thesis
      unfolding run using More_ram by (simp add: f_def probe_top(1) PciWriteDword_console Let_def)
  next
    case Mirror
    then show ?thesis unfolding run by (simp add: f_def probe_top(2,3) PciWriteDword_console Let_def)
  next
    case (Nothing c)
    then show ?thesis unfolding run by (simp add: f_def probe_top(4) PciWriteDword_console Let_def)
  qed
qed

end
