(* ===== verification/Interrupts.thy ===== *)
theory Interrupts
  imports I2c
begin

text \<open>
  The interrupts, \<open>drivers/pci/BootInterrupts.c\<close>: the table of the vectors and the handlers. The
  handler of the system controller asks it, over the SMBus, what happened and works through the
  reasons it gives. The initialisation of the video chip, which follows a new AV cable, is a parameter.
\<close>

section \<open>State\<close>

datatype tray = ETS_OPEN_OR_OPENING | ETS_CLOSING | ETS_CLOSED

datatype dvd_tray = DVD_CLOSED | DVD_CLOSING | DVD_OPEN | DVD_OPENING

record intr_state =
  nCountI2cinterrupts :: u32
  nCountUnusedInterrupts :: u32
  nCountUnusedInterruptsPic2 :: u32
  nCountInterruptsSmc :: u32
  nCountInterruptsIde :: u32
  fSeenPowerdown :: bool
  traystate :: tray
  DVD_TRAY_STATE :: dvd_tray
  VIDEO_AV_MODE :: u8
  BIOS_TICK_COUNT :: u32
  nInteruptable :: bool

section \<open>The vectors\<close>

text \<open>A vector has one of the assembler stubs of \<open>boot/BootStartup.S\<close>, named after its handler.\<close>

datatype stub =
    Int_Timer0 | Int_N nat | Int_I2C | Int_Smc | Int_Ide | Int_Unused | Int_Exception nat

definition isrprep :: "(u8 \<times> stub) list" where
  "isrprep =
    [(0x00, Int_Exception 0x0), (0x01, Int_Exception 0x1), (0x02, Int_Exception 0x2), (0x03, Int_Exception 0x3),
     (0x04, Int_Exception 0x4), (0x05, Int_Exception 0x5), (0x06, Int_Exception 0x6), (0x07, Int_Exception 0x7),
     (0x08, Int_Exception 0x8), (0x09, Int_Exception 0x9), (0x0a, Int_Exception 0xA), (0x0b, Int_Exception 0xB),
     (0x0c, Int_Exception 0xC), (0x0d, Int_Exception 0xD), (0x0e, Int_Exception 0xE), (0x0f, Int_Exception 0xF),
     (0x10, Int_Exception 0x10),
     (0x20, Int_Timer0), (0x21, Int_N 1), (0x22, Int_N 2), (0x23, Int_N 3), (0x24, Int_N 4), (0x25, Int_N 5), (0x26, Int_N 6),
     (0x27, Int_N 7),
     (0x70, Int_N 8), (0x71, Int_N 9), (0x72, Int_N 10), (0x73, Int_I2C), (0x74, Int_Smc), (0x75, Int_N 13), (0x76, Int_Ide),
     (0x77, Int_N 15)]"

record ts_pm_interrupt =
  m_wHandlerHighAddressLow16 :: u16
  m_wSelector :: u16
  m_wType :: u16
  m_wHandlerLinearAddressHigh16 :: u16

text \<open>\<open>address\<close> is where the linker put a stub. Behind the list is an entry for the vector 0.\<close>

definition vector_of :: "(stub \<Rightarrow> u32) \<Rightarrow> stub \<Rightarrow> ts_pm_interrupt" where
  "vector_of address h = \<lparr>m_wHandlerHighAddressLow16 = ucast (address h), m_wSelector = 0x10, m_wType = 0x8e00,
     m_wHandlerLinearAddressHigh16 = ucast (drop_bit 16 (address h))\<rparr>"

fun write_vectors :: "(stub \<Rightarrow> u32) \<Rightarrow> (u8 \<times> stub) list \<Rightarrow> nat list \<Rightarrow> ts_pm_interrupt list" where
  "write_vectors address prep [] = []"
| "write_vectors address prep (n # ns) =
     (case prep of
        [] \<Rightarrow> vector_of address Int_Unused # write_vectors address [] ns
      | (v, h) # prep' \<Rightarrow>
          if n = unat v then vector_of address h # write_vectors address prep' ns
          else vector_of address Int_Unused # write_vectors address prep ns)"

definition BootInterruptsWriteIdt ::
  "'d ports \<Rightarrow> (stub \<Rightarrow> u32) \<Rightarrow> bool \<Rightarrow> intr_state \<Rightarrow> 'd \<Rightarrow> ts_pm_interrupt list \<times> intr_state \<times> 'd" where
  "BootInterruptsWriteIdt io address cromwell s d =
     (let s = s\<lparr>BIOS_TICK_COUNT := 0, nCountI2cinterrupts := 0, nCountUnusedInterrupts := 0,
                nCountUnusedInterruptsPic2 := 0, nCountInterruptsSmc := 0, nCountInterruptsIde := 0,
                fSeenPowerdown := False, traystate := ETS_OPEN_OR_OPENING\<rparr>;
          idt = write_vectors address isrprep [0..<0x100];
          d = outb_all io
            [(0x20, 0x15), (0x21, 0x20), (0x21, 0x04), (0x21, 0x01), (0x21, 0x00),
             (0xa0, 0x15), (0xa1, 0x70), (0xa1, 0x02), (0xa1, 0x01),
             (0xa1, if cromwell then 0x00 else 0xaf)] d
      in (idt, s, d))"

section \<open>The system controller\<close>

fun send_words :: "'d ports \<Rightarrow> nat \<Rightarrow> u16 list \<Rightarrow> 'd \<Rightarrow> 'd option" where
  "send_words io n [] d = Some d"
| "send_words io n (w # ws) d = do { (_, d) \<leftarrow> I2CTransmitWord io n 0x10 w d; send_words io n ws d }"

text \<open>What follows a new AV cable: \<open>vga\<close> initialises the video chip for the mode it is given.\<close>

definition av_cable :: "'d ports \<Rightarrow> nat \<Rightarrow> (u8 \<Rightarrow> 'd \<Rightarrow> 'd) \<Rightarrow> intr_state \<Rightarrow> 'd \<Rightarrow> (intr_state \<times> 'd) option" where
  "av_cable io n vga s d = do {
     (t, d) \<leftarrow> I2CTransmitByteGetReturn io n 0x10 0x04 d;
     let temp_AV_mode = (ucast t :: u8);
     if VIDEO_AV_MODE s \<noteq> temp_AV_mode then do {
       let s = s\<lparr>VIDEO_AV_MODE := 0xff\<rparr>;
       let d = delay_us io 30000 d;
       let s = s\<lparr>VIDEO_AV_MODE := temp_AV_mode\<rparr>;
       let d = vga (VIDEO_AV_MODE s) d;
       let d = delay_us io 200000 d;
       let d = vga (VIDEO_AV_MODE s) d;
       Some (s, d) }
     else Some (s, d) }"

text \<open>One reason, by its bit. The button takes back the report that the tray is closing, which is next but one.\<close>

definition smc_reason ::
  "'d ports \<Rightarrow> nat \<Rightarrow> (u8 \<Rightarrow> 'd \<Rightarrow> 'd) \<Rightarrow> nat \<Rightarrow> u8 \<times> intr_state \<times> 'd \<Rightarrow> (u8 \<times> intr_state \<times> 'd) option" where
  "smc_reason io n vga nBit st = (case st of (bStatus, s, d) \<Rightarrow>
     if nBit = 0 then do {
       let b = 0x04;
       d \<leftarrow> send_words io n
         [0x0200, 0x0100 OR b, 0x0500 OR b, 0x0600 OR b, 0x0900 OR b, 0x0a00 OR b, 0x0b00 OR b, 0x0d00 OR b,
          0x0e00 OR b, 0x0f00 OR b, 0x1000 OR b, 0x1200 OR b, 0x1300 OR b, 0x1400 OR b, 0x1500 OR b, 0x1600 OR b,
          0x1700 OR b, 0x1800 OR b] d;
       Some (bStatus, s\<lparr>fSeenPowerdown := True\<rparr>, d) }
     else if nBit = 1 then Some (bStatus, s\<lparr>traystate := ETS_CLOSED, DVD_TRAY_STATE := DVD_CLOSED\<rparr>, d)
     else if nBit = 2 then do {
       let s = s\<lparr>traystate := ETS_OPEN_OR_OPENING, DVD_TRAY_STATE := DVD_OPENING\<rparr>;
       d \<leftarrow> send_words io n [0x0d02] d;
       Some (bStatus, s, d) }
     else if nBit = 3 then do {
       (s, d) \<leftarrow> av_cable io n vga s d;
       Some (bStatus, s, d) }
     else if nBit = 4 then Some (bStatus, s\<lparr>VIDEO_AV_MODE := 0xff\<rparr>, d)
     else if nBit = 5 then do {
       let s = s\<lparr>traystate := ETS_OPEN_OR_OPENING\<rparr>;
       d \<leftarrow> send_words io n [0x0d04, 0x0c00] d;
       Some (bStatus AND NOT 0x02, s, d) }
     else if nBit = 6 then Some (bStatus, s\<lparr>traystate := ETS_CLOSING, DVD_TRAY_STATE := DVD_CLOSING\<rparr>, d)
     else Some (bStatus, s, d))"

text \<open>\<open>k\<close> of the 7 turns are left.\<close>

fun smc_bits ::
  "'d ports \<Rightarrow> nat \<Rightarrow> (u8 \<Rightarrow> 'd \<Rightarrow> 'd) \<Rightarrow> nat \<Rightarrow> u8 \<times> intr_state \<times> 'd \<Rightarrow> (intr_state \<times> 'd) option" where
  "smc_bits io n vga 0 st = (case st of (bStatus, s, d) \<Rightarrow> Some (s, d))"
| "smc_bits io n vga (Suc k) st = do {
     (bStatus, s, d) \<leftarrow> (if fst st AND 1 \<noteq> 0 then smc_reason io n vga (6 - k) st else Some st);
     smc_bits io n vga k (drop_bit 1 bStatus, s, d) }"

definition IntHandlerCSmc :: "'d ports \<Rightarrow> nat \<Rightarrow> (u8 \<Rightarrow> 'd \<Rightarrow> 'd) \<Rightarrow> intr_state \<Rightarrow> 'd \<Rightarrow> (intr_state \<times> 'd) option" where
  "IntHandlerCSmc io n vga s d = do {
     let s = s\<lparr>nCountInterruptsSmc := nCountInterruptsSmc s + 1\<rparr>;
     let (temp, d) = IoInputWord io 0x8000 d;
     let d = (if temp \<noteq> 0 then IoOutputWord io 0x8000 temp d else d);
     (t, d) \<leftarrow> I2CTransmitByteGetReturn io n 0x10 0x11 d;
     let bStatus = (ucast t :: u8);
     if bStatus = 0 then Some (s, d) else smc_bits io n vga 7 (bStatus, s, d) }"

text \<open>The wait for the tray of \<open>LoadConfigCD\<close> and \<open>BootLoadFlashCD\<close> (\<open>boot/LoadLinux.c\<close>): \<open>button\<close> and \<open>state\<close> are what
  the turns see. The result is the turn in which the loop ends and whether it closes the tray.\<close>

fun tray_wait :: "nat \<Rightarrow> (nat \<Rightarrow> bool) \<Rightarrow> (nat \<Rightarrow> dvd_tray) \<Rightarrow> nat \<Rightarrow> (nat \<times> bool) option" where
  "tray_wait 0 button state k = None"
| "tray_wait (Suc fuel) button state k =
     (if button k then Some (k, True)
      else if state k = DVD_CLOSING then Some (k, False)
      else tray_wait fuel button state (Suc k))"

section \<open>The other handlers\<close>

definition IntHandlerCIde :: "'d ports \<Rightarrow> intr_state \<Rightarrow> 'd \<Rightarrow> intr_state \<times> 'd" where
  "IntHandlerCIde io s d =
     (if \<not> nInteruptable s then (s, d)
      else (s\<lparr>nCountInterruptsIde := nCountInterruptsIde s + 1\<rparr>, snd (IoInputByte io 0x1f7 d)))"

definition IntHandlerCI2C :: "intr_state \<Rightarrow> intr_state" where
  "IntHandlerCI2C s = (if \<not> nInteruptable s then s else s\<lparr>nCountI2cinterrupts := nCountI2cinterrupts s + 1\<rparr>)"

definition IntHandlerUnusedC :: "intr_state \<Rightarrow> intr_state" where
  "IntHandlerUnusedC s = (if \<not> nInteruptable s then s else s\<lparr>nCountUnusedInterrupts := nCountUnusedInterrupts s + 1\<rparr>)"

definition IntHandlerUnusedC2 :: "intr_state \<Rightarrow> intr_state" where
  "IntHandlerUnusedC2 s = (if \<not> nInteruptable s then s else s\<lparr>nCountUnusedInterruptsPic2 := nCountUnusedInterruptsPic2 s + 1\<rparr>)"

definition IntHandlerCTimer0 :: "intr_state \<Rightarrow> intr_state" where
  "IntHandlerCTimer0 s = s\<lparr>BIOS_TICK_COUNT := BIOS_TICK_COUNT s + 1\<rparr>"

end
