(* ===== verification/InterruptsCorrect.thy ===== *)
theory InterruptsCorrect
  imports Interrupts
begin

text \<open>
  What the interrupt handlers promise: the table of vectors is the list of the stubs by number, the
  report of the system controller has the effect of its bits, the two records of the tray agree in every
  state the handlers can reach, and the wait for the tray ends when it is closed.
\<close>

section \<open>The table\<close>

lemma write_vectors_nth:
  assumes "sorted_wrt (<) (map (unat \<circ> fst) prep)" and "\<forall>p\<in>set prep. a \<le> unat (fst p)" and "k < b - a"
  shows "write_vectors address prep [a..<b] ! k =
    vector_of address (case map_of (map (\<lambda>(v, h). (unat v, h)) prep) (a + k) of Some h \<Rightarrow> h | None \<Rightarrow> Int_Unused)"
  using assms
proof (induction "b - a" arbitrary: a k prep)
  case (Suc m)
  have up: "[a..<b] = a # [Suc a..<b]" using Suc.hyps(2) by (simp add: upt_conv_Cons)
  have ih: "write_vectors address prep' [Suc a..<b] ! j = vector_of address
      (case map_of (map (\<lambda>(v, h). (unat v, h)) prep') (Suc a + j) of Some h \<Rightarrow> h | None \<Rightarrow> Int_Unused)"
    if "sorted_wrt (<) (map (unat \<circ> fst) prep')" "\<forall>p\<in>set prep'. Suc a \<le> unat (fst p)" "j < b - Suc a" for prep' j
    using Suc.hyps(1) [of "Suc a" prep' j] Suc.hyps(2) that by simp
  show ?case
  proof (cases prep)
    case Nil
    then show ?thesis using ih [of "[]" "k - 1"] Suc.prems(3) by (cases k) (simp_all add: up)
  next
    case (Cons q prep')
    obtain v h where q: "q = (v, h)" by fastforce
    have above: "\<forall>p\<in>set prep'. unat v < unat (fst p)" using Suc.prems(1) by (auto simp: Cons q)
    show ?thesis
    proof (cases "a = unat v")
      case True
      then have "write_vectors address prep [a..<b] = vector_of address h # write_vectors address prep' [Suc a..<b]"
        unfolding up Cons q using True by simp
      then show ?thesis
        using True ih [of prep' "k - 1"] above Suc.prems by (cases k) (auto simp: Cons q Suc_le_eq split: option.splits)
    next
      case False
      then have lt: "a < unat v" using Suc.prems(2) by (auto simp: Cons q)
      then have "map_of (map (\<lambda>(v, h). (unat v, h)) prep) a = None"
        using above by (force simp: Cons q map_of_eq_None_iff)
      moreover have "\<forall>p\<in>set prep. Suc a \<le> unat (fst p)" using lt above by (auto simp: Cons q)
      ultimately show ?thesis
        using False ih [of prep "k - 1"] Suc.prems by (cases k) (auto simp: up Cons q split del: if_split)
    qed
  qed
qed simp

text \<open>The interrupt table \<open>BootInterruptsWriteIdt\<close> fills in one pass over its sorted list is the same
  table as looking every vector up in the list: each of the 256 gates is a 32-bit interrupt gate of
  the code segment, and its two address halves make up the address of the stub listed for the
  vector, or that of the stub for unused vectors.\<close>

lemma BootInterruptsWriteIdt_table:
  assumes "BootInterruptsWriteIdt io address cromwell s d = (idt, s', d')" and "k < 256"
  shows "m_wSelector (idt ! k) = 0x10 \<and> m_wType (idt ! k) = 0x8e00
    \<and> push_bit 16 (ucast (m_wHandlerLinearAddressHigh16 (idt ! k))) OR ucast (m_wHandlerHighAddressLow16 (idt ! k))
      = address (case map_of isrprep (of_nat k) of Some h \<Rightarrow> h | None \<Rightarrow> Int_Unused)"
proof -
  have m: "map_of (map (\<lambda>(v, h). (unat v, h)) isrprep) k = map_of isrprep (of_nat k)"
  proof -
    have "map_of (map (\<lambda>(v, h). (unat v, h)) l) k = map_of l (of_nat k)" for l :: "(u8 \<times> stub) list"
      using assms(2) by (induction l) (auto simp: unat_of_nat take_bit_nat_eq_self)
    then show ?thesis .
  qed
  have s: "sorted_wrt (<) (map (unat \<circ> fst) isrprep)" by (simp add: isrprep_def)
  have join: "push_bit 16 (ucast (ucast (drop_bit 16 a) :: u16)) OR ucast (ucast a :: u16) = a" for a :: u32
    by (rule bit_word_eqI) (auto simp: bit_simps)
  have "idt = write_vectors address isrprep [0..<0x100]"
    using assms(1) by (simp add: BootInterruptsWriteIdt_def Let_def)
  then have "idt ! k = vector_of address (case map_of isrprep (of_nat k) of Some h \<Rightarrow> h | None \<Rightarrow> Int_Unused)"
    using write_vectors_nth [OF s, of 0 k 256 address] assms(2) m by simp
  then show ?thesis by (simp add: vector_of_def join)
qed

definition idle_intr :: intr_state where
  "idle_intr = \<lparr>nCountI2cinterrupts = 0, nCountUnusedInterrupts = 0, nCountUnusedInterruptsPic2 = 0,
     nCountInterruptsSmc = 0, nCountInterruptsIde = 0, fSeenPowerdown = False, traystate = ETS_CLOSED,
     DVD_TRAY_STATE = DVD_CLOSED, VIDEO_AV_MODE = 0xff, BIOS_TICK_COUNT = 0, nInteruptable = False\<rparr>"

lemma BootInterruptsWriteIdt_table_witness:
  "\<exists>idt s' d'. BootInterruptsWriteIdt smb_ports (\<lambda>h. if h = Int_Smc then 0x12345678 else 0x100000) True
      idle_intr (blank_smb 0) = (idt, s', d')
    \<and> push_bit 16 (ucast (m_wHandlerLinearAddressHigh16 (idt ! 0x74))) OR ucast (m_wHandlerHighAddressLow16 (idt ! 0x74))
      = (0x12345678 :: u32)
    \<and> push_bit 16 (ucast (m_wHandlerLinearAddressHigh16 (idt ! 0x80))) OR ucast (m_wHandlerHighAddressLow16 (idt ! 0x80))
      = (0x100000 :: u32)"
proof -
  obtain idt s' d' where r: "BootInterruptsWriteIdt smb_ports (\<lambda>h. if h = Int_Smc then 0x12345678 else 0x100000) True
      idle_intr (blank_smb 0) = (idt, s', d')" by (metis prod_cases3)
  show ?thesis
    using r BootInterruptsWriteIdt_table [OF r, of "0x74"] BootInterruptsWriteIdt_table [OF r, of "0x80"]
    by (simp add: isrprep_def)
qed

section \<open>The report of the system controller\<close>

text \<open>The effect of a status byte \<open>b\<close>, given the AV pack \<open>av\<close> that is plugged in.\<close>

definition smc_report :: "u8 \<Rightarrow> u8 \<Rightarrow> intr_state \<Rightarrow> intr_state" where
  "smc_report b av s = s\<lparr>
     nCountInterruptsSmc := nCountInterruptsSmc s + 1,
     fSeenPowerdown := fSeenPowerdown s \<or> bit b 0,
     traystate := (if bit b 5 then ETS_OPEN_OR_OPENING else if bit b 6 then ETS_CLOSING
                   else if bit b 2 then ETS_OPEN_OR_OPENING else if bit b 1 then ETS_CLOSED else traystate s),
     DVD_TRAY_STATE := (if bit b 6 \<and> \<not> bit b 5 then DVD_CLOSING
                   else if bit b 2 then DVD_OPENING else if bit b 1 then DVD_CLOSED else DVD_TRAY_STATE s),
     VIDEO_AV_MODE := (if bit b 4 then 0xff else if bit b 3 then av else VIDEO_AV_MODE s)\<rparr>"

text \<open>The same, one bit at a time.\<close>

definition smc_effect :: "u8 \<Rightarrow> nat \<Rightarrow> intr_state \<Rightarrow> intr_state" where
  "smc_effect av k s =
     (if k = 0 then s\<lparr>fSeenPowerdown := True\<rparr>
      else if k = 1 then s\<lparr>traystate := ETS_CLOSED, DVD_TRAY_STATE := DVD_CLOSED\<rparr>
      else if k = 2 then s\<lparr>traystate := ETS_OPEN_OR_OPENING, DVD_TRAY_STATE := DVD_OPENING\<rparr>
      else if k = 3 then s\<lparr>VIDEO_AV_MODE := av\<rparr>
      else if k = 4 then s\<lparr>VIDEO_AV_MODE := 0xff\<rparr>
      else if k = 5 then s\<lparr>traystate := ETS_OPEN_OR_OPENING\<rparr>
      else if k = 6 then s\<lparr>traystate := ETS_CLOSING, DVD_TRAY_STATE := DVD_CLOSING\<rparr>
      else s)"

text \<open>The turns of the loop on the bits.\<close>

fun smc_effects :: "u8 \<Rightarrow> nat \<Rightarrow> u8 \<Rightarrow> intr_state \<Rightarrow> intr_state" where
  "smc_effects av 0 b s = s"
| "smc_effects av (Suc k) b s =
     (if bit b 0 then smc_effects av k (drop_bit 1 (if 6 - k = 5 then b AND NOT 0x02 else b)) (smc_effect av (6 - k) s)
      else smc_effects av k (drop_bit 1 b) s)"

lemma smc_effects_step:
  assumes "j < 5"
  shows "smc_effects av (7 - j) (drop_bit j b) s =
    smc_effects av (6 - j) (drop_bit (Suc j) b) (if bit b j then smc_effect av j s else s)"
proof -
  have "7 - j = Suc (6 - j)" "6 - (6 - j) = j" using assms by simp_all
  then show ?thesis using assms by (simp add: bit_drop_bit_eq drop_bit_drop_bit del: drop_bit_Suc)
qed

text \<open>The button's turn clears the bit of the turn after it.\<close>

lemma smc_effects_button:
  "smc_effects av 2 (drop_bit 5 b) s =
    (if bit b 5 then smc_effect av 5 s else if bit b 6 then smc_effect av 6 s else s)"
proof -
  have "2 = Suc (Suc 0)" by simp
  moreover have "bit (drop_bit 5 b) 0 = bit b 5" "bit (drop_bit 1 (drop_bit 5 b)) 0 = bit b 6"
    "\<not> bit (drop_bit 1 (drop_bit 5 b AND NOT 0x02)) 0" by (simp_all add: bit_simps del: drop_bit_Suc)
  ultimately show ?thesis by (simp only: smc_effects.simps if_False if_True if_cancel refl) (simp del: drop_bit_Suc)
qed

lemma smc_effects_7:
  "smc_effects av 7 b s = smc_report b av s\<lparr>nCountInterruptsSmc := nCountInterruptsSmc s\<rparr>"
proof -
  define f where "f j s = (if bit b j then smc_effect av j s else s)" for j s
  have step: "smc_effects av (7 - j) (drop_bit j b) s = smc_effects av (6 - j) (drop_bit (Suc j) b) (f j s)"
    if "j < 5" for j s using smc_effects_step [OF that] by (simp only: f_def)
  have "smc_effects av 7 b s = smc_effects av 6 (drop_bit 1 b) (f 0 s)" for s using step [of 0 s] by simp
  moreover have "smc_effects av 6 (drop_bit 1 b) s = smc_effects av 5 (drop_bit 2 b) (f 1 s)" for s
    using step [of 1 s] by (simp del: drop_bit_Suc add: numeral_2_eq_2)
  moreover have "smc_effects av 5 (drop_bit 2 b) s = smc_effects av 4 (drop_bit 3 b) (f 2 s)" for s
    using step [of 2 s] by simp
  moreover have "smc_effects av 4 (drop_bit 3 b) s = smc_effects av 3 (drop_bit 4 b) (f 3 s)" for s
    using step [of 3 s] by simp
  moreover have "smc_effects av 3 (drop_bit 4 b) s = smc_effects av 2 (drop_bit 5 b) (f 4 s)" for s
    using step [of 4 s] by simp
  ultimately have "smc_effects av 7 b s = smc_effects av 2 (drop_bit 5 b) (f 4 (f 3 (f 2 (f 1 (f 0 s)))))"
    by (simp only:)
  then show ?thesis
    by (simp only: smc_effects_button) (auto simp: f_def smc_effect_def smc_report_def)
qed

text \<open>What the handler relies on, besides the bus: the acknowledgement of the timer, the waits and the
  initialisation of the video chip leave the bus usable and the registers of the system controller alone.\<close>

locale smc_bus = smbus +
  fixes vga :: "u8 \<Rightarrow> 'a \<Rightarrow> 'a"
  assumes word_in: "ready d \<Longrightarrow> ready (snd (IoInputWord io 0x8000 d)) \<and> chip (snd (IoInputWord io 0x8000 d)) = chip d"
    and word_out: "ready d \<Longrightarrow> ready (IoOutputWord io 0x8000 w d) \<and> chip (IoOutputWord io 0x8000 w d) = chip d"
    and wait_us: "ready d \<Longrightarrow> ready (delay_us io t d) \<and> chip (delay_us io t d) = chip d"
    and video: "ready d \<Longrightarrow> ready (vga m d) \<and> chip (vga m d) 0x10 = chip d 0x10"
begin

lemma send:
  assumes "ready d" and "\<forall>w\<in>set ws. ucast (drop_bit 8 w AND 0xff) \<noteq> (0x04 :: u8)"
  obtains d' where "send_words io n ws d = Some d'" "ready d'" "chip d' 0x10 0x04 = chip d 0x10 0x04"
  using assms
proof (induction ws arbitrary: d thesis)
  case (Cons w ws)
  have "(0x10 :: u8) < 0x80" by simp
  from transmit_word [OF Cons.prems(2) this, of w] obtain d1 where 1: "I2CTransmitWord io n 0x10 w d = Some (ERR_SUCCESS, d1)"
    "ready d1" "chip d1 = (chip d)(0x10 := (chip d 0x10)(ucast (drop_bit 8 w AND 0xff) := ucast (w AND 0xff)))" .
  then obtain d2 where "send_words io n ws d1 = Some d2" "ready d2" "chip d2 0x10 0x04 = chip d1 0x10 0x04"
    using Cons.IH Cons.prems(3) by (metis list.set_intros(2))
  with 1 Cons.prems show ?case by simp
qed simp

lemma cable:
  assumes "ready d"
  obtains d' where "av_cable io n vga s d = Some (s\<lparr>VIDEO_AV_MODE := chip d 0x10 0x04\<rparr>, d')" "ready d'"
    "chip d' 0x10 0x04 = chip d 0x10 0x04"
proof -
  have "(0x10 :: u8) < 0x80" by simp
  from get_return [OF assms this, of "0x04"] obtain d1 where 1:
    "I2CTransmitByteGetReturn io n 0x10 0x04 d = Some (ucast (chip d 0x10 0x04), d1)" "ready d1" "chip d1 = chip d" .
  have c: "ucast (ucast (chip d 0x10 0x04) :: u32) = chip d 0x10 0x04" by (rule bit_word_eqI) (auto simp: bit_simps)
  let ?v = "chip d 0x10 0x04"
  let ?d = "vga ?v (delay_us io 200000 (vga ?v (delay_us io 30000 d1)))"
  have "ready ?d \<and> chip ?d 0x10 = chip d 0x10" using 1(2,3) wait_us video by metis
  with that [of ?d] that [of d1] 1 show thesis
    by (cases "VIDEO_AV_MODE s = ?v") (simp_all add: av_cable_def c Let_def)
qed

lemma reason:
  assumes "ready d"
  obtains d' where "smc_reason io n vga k (b, s, d) =
      Some (if k = 5 then b AND NOT 0x02 else b, smc_effect (chip d 0x10 0x04) k s, d')"
    "ready d'" "chip d' 0x10 0x04 = chip d 0x10 0x04"
proof -
  consider "k = 0" | "k = 2" | "k = 3" | "k = 5" | "k \<notin> {0, 2, 3, 5}" by blast
  then show thesis
  proof cases
    case 1
    let ?ws = "[0x0200, 0x0100 OR 4, 0x0500 OR 4, 0x0600 OR 4, 0x0900 OR 4, 0x0a00 OR 4, 0x0b00 OR 4,
        0x0d00 OR 4, 0x0e00 OR 4, 0x0f00 OR 4, 0x1000 OR 4, 0x1200 OR 4, 0x1300 OR 4, 0x1400 OR 4, 0x1500 OR 4,
        0x1600 OR 4, 0x1700 OR 4, 0x1800 OR 4]"
    obtain d' where "send_words io n ?ws d = Some d'" "ready d'" "chip d' 0x10 0x04 = chip d 0x10 0x04"
      by (rule send [OF assms, of ?ws]) (simp_all del: send_words.simps)
    with 1 that show thesis by (simp add: smc_reason_def smc_effect_def del: send_words.simps)
  next
    case 2
    obtain d' where "send_words io n [0x0d02] d = Some d'" "ready d'" "chip d' 0x10 0x04 = chip d 0x10 0x04"
      by (rule send [OF assms, of "[0x0d02]"]) (simp_all del: send_words.simps)
    with 2 that show thesis by (simp add: smc_reason_def smc_effect_def del: send_words.simps)
  next
    case 3
    obtain d' where "av_cable io n vga s d = Some (s\<lparr>VIDEO_AV_MODE := chip d 0x10 0x04\<rparr>, d')" "ready d'"
      "chip d' 0x10 0x04 = chip d 0x10 0x04" by (rule cable [OF assms])
    with 3 that show thesis by (simp add: smc_reason_def smc_effect_def)
  next
    case 4
    obtain d' where "send_words io n [0x0d04, 0x0c00] d = Some d'" "ready d'" "chip d' 0x10 0x04 = chip d 0x10 0x04"
      by (rule send [OF assms, of "[0x0d04, 0x0c00]"]) (simp_all del: send_words.simps)
    with 4 that show thesis by (simp add: smc_reason_def smc_effect_def del: send_words.simps)
  next
    case 5
    then show thesis using that [of d] assms by (simp add: smc_reason_def smc_effect_def)
  qed
qed

lemma bits:
  assumes "ready d"
  obtains d' where "smc_bits io n vga k (b, s, d) = Some (smc_effects (chip d 0x10 0x04) k b s, d')" "ready d'"
  using assms
proof (induction k arbitrary: b s d thesis)
  case (Suc k)
  have one: "b AND 1 \<noteq> 0 \<longleftrightarrow> bit b 0" by (simp add: and_one_eq bit_0 odd_iff_mod_2_eq_one)
  show ?case
  proof (cases "bit b 0")
    case True
    obtain d1 where 1: "smc_reason io n vga (6 - k) (b, s, d) =
        Some (if 6 - k = 5 then b AND NOT 0x02 else b, smc_effect (chip d 0x10 0x04) (6 - k) s, d1)"
      "ready d1" "chip d1 0x10 0x04 = chip d 0x10 0x04" by (rule reason [OF Suc.prems(2)])
    obtain d2 where 2: "smc_bits io n vga k (drop_bit 1 (if 6 - k = 5 then b AND NOT 0x02 else b),
        smc_effect (chip d 0x10 0x04) (6 - k) s, d1) =
        Some (smc_effects (chip d1 0x10 0x04) k (drop_bit 1 (if 6 - k = 5 then b AND NOT 0x02 else b))
          (smc_effect (chip d 0x10 0x04) (6 - k) s), d2)" "ready d2" by (rule Suc.IH [OF _ 1(2)])
    show ?thesis by (rule Suc.prems(1) [of d2]) (use True one 1 2 in \<open>simp_all del: drop_bit_Suc\<close>)
  next
    case False
    obtain d2 where 2: "smc_bits io n vga k (drop_bit 1 b, s, d) =
        Some (smc_effects (chip d 0x10 0x04) k (drop_bit 1 b) s, d2)" "ready d2" by (rule Suc.IH [OF _ Suc.prems(2)])
    show ?thesis by (rule Suc.prems(1) [of d2]) (use False one 2 in \<open>simp_all del: drop_bit_Suc\<close>)
  qed
qed simp

lemma handler:
  assumes "ready d"
  obtains d' where "IntHandlerCSmc io n vga s d = Some (smc_report (chip d 0x10 0x11) (chip d 0x10 0x04) s, d')" "ready d'"
proof -
  obtain temp d1 where i: "IoInputWord io 0x8000 d = (temp, d1)" by fastforce
  define d2 where "d2 = (if temp \<noteq> 0 then IoOutputWord io 0x8000 temp d1 else d1)"
  have 2: "ready d2" "chip d2 = chip d"
    using word_in [OF assms] word_out [of d1 temp] by (auto simp: i d2_def)
  have "(0x10 :: u8) < 0x80" by simp
  from get_return [OF 2(1) this, of "0x11"] obtain d3 where 3:
    "I2CTransmitByteGetReturn io n 0x10 0x11 d2 = Some (ucast (chip d 0x10 0x11), d3)" "ready d3" "chip d3 = chip d"
    by (auto simp: 2(2))
  have c: "ucast (ucast (chip d 0x10 0x11) :: u32) = chip d 0x10 0x11" by (rule bit_word_eqI) (auto simp: bit_simps)
  let ?s = "s\<lparr>nCountInterruptsSmc := nCountInterruptsSmc s + 1\<rparr>"
  show thesis
  proof (cases "chip d 0x10 0x11 = 0")
    case True
    show ?thesis
      by (rule that [of d3]) (use i 3 c True in \<open>simp_all add: IntHandlerCSmc_def d2_def [symmetric] smc_report_def\<close>)
  next
    case False
    obtain d4 where 4: "smc_bits io n vga 7 (chip d 0x10 0x11, ?s, d3) =
        Some (smc_effects (chip d3 0x10 0x04) 7 (chip d 0x10 0x11) ?s, d4)" "ready d4" by (rule bits [OF 3(2)])
    show ?thesis
      by (rule that [of d4])
        (use i 3 c False 4 smc_effects_7 [of "chip d 0x10 0x04" "chip d 0x10 0x11" ?s] in
          \<open>simp_all add: IntHandlerCSmc_def d2_def [symmetric] smc_report_def\<close>)
  qed
qed

end

text \<open>The controller of \<open>I2c\<close> has nothing at the timer's port and lets no time pass. The video chip is
  written through the same bus.\<close>

lemma smc_bus_smb:
  assumes "\<And>m d. smb_ready n d \<Longrightarrow> smb_ready n (vga m d) \<and> s_chip (vga m d) 0x10 = s_chip d 0x10"
  shows "smc_bus smb_ports n s_chip (smb_ready n) vga"
  by unfold_locales (use assms in \<open>auto simp: smb_ports_def\<close>)

definition encoder_mode :: "nat \<Rightarrow> u8 \<Rightarrow> smb_dev \<Rightarrow> smb_dev" where
  "encoder_mode n m d = (case WriteToSMBus smb_ports n 0x45 0xb8 1 (ucast m) d of Some (_, d) \<Rightarrow> d | None \<Rightarrow> d)"

lemma encoder_mode_smb:
  assumes "smb_ready n d"
  shows "smb_ready n (encoder_mode n m d) \<and> s_chip (encoder_mode n m d) 0x10 = s_chip d 0x10"
  using smb.write_byte [OF assms, of "0x45" "0xb8" "ucast m"] by (auto simp: encoder_mode_def)

interpretation smc: smc_bus smb_ports n s_chip "smb_ready n" "encoder_mode n" for n
  by (rule smc_bus_smb) (rule encoder_mode_smb)

text \<open>C20. The handler of the system controller's interrupt always returns, whatever the state of the
  loader and of the bus, and has the effect of the status byte it reads: each bit sets its flags, a later
  bit overrides an earlier one, and the report that the tray closes counts only without the button.
  The AV mode becomes the pack the controller names. The video initialisation is any that leaves the
  bus usable and the controller's registers alone.\<close>

theorem IntHandlerCSmc_reports:
  assumes "smb_ready n d"
    and "\<And>m d. smb_ready n d \<Longrightarrow> smb_ready n (vga m d) \<and> s_chip (vga m d) 0x10 = s_chip d 0x10"
  shows "\<exists>d'. IntHandlerCSmc smb_ports n vga s d
      = Some (smc_report (s_chip d 0x10 0x11) (s_chip d 0x10 0x04) s, d') \<and> smb_ready n d'"
proof -
  obtain d' where "IntHandlerCSmc smb_ports n vga s d
      = Some (smc_report (s_chip d 0x10 0x11) (s_chip d 0x10 0x04) s, d')" "smb_ready n d'"
    by (rule smc_bus.handler [OF smc_bus_smb [OF assms(2)] assms(1)])
  then show ?thesis by blast
qed

text \<open>The controller with a report in its status register.\<close>

definition report :: "u8 \<Rightarrow> smb_dev \<Rightarrow> smb_dev" where
  "report b d = d\<lparr>s_chip := (s_chip d)(0x10 := (s_chip d 0x10)(0x11 := b))\<rparr>"

lemma report_simps [simp]:
  "s_chip (report b d) 0x10 0x11 = b" "smb_ready n (report b d) \<longleftrightarrow> smb_ready n d"
  by (simp_all add: report_def smb_ready_def)

lemma blank_smb_ready: "k < 50 \<Longrightarrow> smb_ready 4 (blank_smb k)"
  by (simp add: blank_smb_def smb_ready_def)

theorem IntHandlerCSmc_reports_witness:
  "\<exists>d s. IntHandlerCSmc smb_ports 4 (encoder_mode 4) idle_intr (report 0x64 (blank_smb 3)) = Some (s, d)
    \<and> traystate s = ETS_OPEN_OR_OPENING \<and> DVD_TRAY_STATE s = DVD_OPENING"
proof -
  have "smb_ready 4 (report 0x64 (blank_smb 3))" by (simp add: blank_smb_ready)
  from IntHandlerCSmc_reports [where vga = "encoder_mode 4", OF this encoder_mode_smb] obtain d' where
    "IntHandlerCSmc smb_ports 4 (encoder_mode 4) idle_intr (report 0x64 (blank_smb 3))
      = Some (smc_report 0x64 (s_chip (report 0x64 (blank_smb 3)) 0x10 0x04) idle_intr, d')" by auto
  then show ?thesis by (simp add: smc_report_def)
qed

section \<open>What the handlers can reach\<close>

text \<open>
  One interrupt after the other, from the initialisation on. Between two interrupts the hardware may do
  what leaves the bus usable, and the loader opens or shuts the gate \<open>nInteruptable\<close> of the handlers
  (\<open>boot/BootResetAction.c\<close>).
\<close>

inductive reachable :: "nat \<Rightarrow> (u8 \<Rightarrow> smb_dev \<Rightarrow> smb_dev) \<Rightarrow> intr_state \<Rightarrow> smb_dev \<Rightarrow> bool" for n vga where
  start: "BootInterruptsWriteIdt smb_ports address cromwell s0 d0 = (idt, s, d) \<Longrightarrow> smb_ready n d \<Longrightarrow> reachable n vga s d"
| hardware: "reachable n vga s d \<Longrightarrow> smb_ready n d' \<Longrightarrow> reachable n vga s d'"
| gate: "reachable n vga s d \<Longrightarrow> reachable n vga (s\<lparr>nInteruptable := open\<rparr>) d"
| smc: "reachable n vga s d \<Longrightarrow> IntHandlerCSmc smb_ports n vga s d = Some (s', d') \<Longrightarrow> reachable n vga s' d'"
| ide: "reachable n vga s d \<Longrightarrow> IntHandlerCIde smb_ports s d = (s', d') \<Longrightarrow> reachable n vga s' d'"
| i2c: "reachable n vga s d \<Longrightarrow> reachable n vga (IntHandlerCI2C s) d"
| unused: "reachable n vga s d \<Longrightarrow> reachable n vga (IntHandlerUnusedC s) d"
| unused2: "reachable n vga s d \<Longrightarrow> reachable n vga (IntHandlerUnusedC2 s) d"
| timer: "reachable n vga s d \<Longrightarrow> reachable n vga (IntHandlerCTimer0 s) d"

text \<open>The two records of the tray: when one says it is closed or closing, so does the other.\<close>

definition tray_ok :: "intr_state \<Rightarrow> bool" where
  "tray_ok s \<longleftrightarrow> (case traystate s of
       ETS_OPEN_OR_OPENING \<Rightarrow> True
     | ETS_CLOSING \<Rightarrow> DVD_TRAY_STATE s = DVD_CLOSING
     | ETS_CLOSED \<Rightarrow> DVD_TRAY_STATE s = DVD_CLOSED)"

lemma tray_ok_report: "tray_ok s \<Longrightarrow> tray_ok (smc_report b av s)"
  by (auto simp: tray_ok_def smc_report_def split: tray.splits)

lemma tray_ok_others:
  "tray_ok s \<Longrightarrow> tray_ok (s\<lparr>nInteruptable := g\<rparr>)"
  "tray_ok s \<Longrightarrow> tray_ok (IntHandlerCI2C s)"
  "tray_ok s \<Longrightarrow> tray_ok (IntHandlerUnusedC s)"
  "tray_ok s \<Longrightarrow> tray_ok (IntHandlerUnusedC2 s)"
  "tray_ok s \<Longrightarrow> tray_ok (IntHandlerCTimer0 s)"
  "tray_ok s \<Longrightarrow> tray_ok (fst (IntHandlerCIde io s d))"
  by (auto simp: tray_ok_def IntHandlerCI2C_def IntHandlerUnusedC_def IntHandlerUnusedC2_def
      IntHandlerCTimer0_def IntHandlerCIde_def split: tray.splits)

lemma boot_ready:
  "BootInterruptsWriteIdt io address cromwell s0 d0 = (idt, s, d) \<Longrightarrow> traystate s = ETS_OPEN_OR_OPENING"
  by (auto simp: BootInterruptsWriteIdt_def Let_def)

lemma ide_ready: "smb_ready n d \<Longrightarrow> IntHandlerCIde smb_ports s d = (s', d') \<Longrightarrow> smb_ready n d'"
  by (auto simp: IntHandlerCIde_def smb_ports_def split: if_splits)



section \<open>The wait for the tray\<close>

text \<open>Status bytes that come one after the other, each served at once.\<close>

fun serve :: "nat \<Rightarrow> u8 list \<Rightarrow> intr_state \<Rightarrow> smb_dev \<Rightarrow> (intr_state \<times> smb_dev) option" where
  "serve n [] s d = Some (s, d)"
| "serve n (b # bs) s d = do {
     (s, d) \<leftarrow> IntHandlerCSmc smb_ports n (encoder_mode n) s (report b d);
     serve n bs s d }"

text \<open>The tray as the \<open>k\<close>-th turn of the wait sees it, when \<open>r j\<close> are the reports before the turn \<open>j\<close>.\<close>

definition tray_seen :: "nat \<Rightarrow> (nat \<Rightarrow> u8 list) \<Rightarrow> intr_state \<Rightarrow> smb_dev \<Rightarrow> nat \<Rightarrow> dvd_tray" where
  "tray_seen n r s d k = (case serve n (concat (map r [0..<Suc k])) s d of
     Some (s, d) \<Rightarrow> DVD_TRAY_STATE s | None \<Rightarrow> DVD_TRAY_STATE s)"

lemma report_at_4 [simp]: "s_chip (report b d) 0x10 0x04 = s_chip d 0x10 0x04"
  by (simp add: report_def)

lemma serve_append:
  "serve n (bs @ cs) s d = (case serve n bs s d of None \<Rightarrow> None | Some (s, d) \<Rightarrow> serve n cs s d)"
  by (induction bs arbitrary: s d) (auto simp: Option.bind_eq_None_conv split: option.splits bind_splits)

lemma serve_returns:
  assumes "smb_ready n d"
  obtains s' d' where "serve n bs s d = Some (s', d')" "smb_ready n d'"
  using assms
proof (induction bs arbitrary: s d thesis)
  case (Cons b bs)
  obtain d1 where "IntHandlerCSmc smb_ports n (encoder_mode n) s (report b d) = Some (smc_report b (s_chip d 0x10 0x04) s, d1)"
    "smb_ready n d1"
    by (rule smc.handler [of n "report b d" s]) (use Cons.prems in auto)
  moreover from this obtain s' d' where "serve n bs (smc_report b (s_chip d 0x10 0x04) s) d1 = Some (s', d')" "smb_ready n d'"
    using Cons.IH by blast
  ultimately show ?case using Cons.prems(1) by simp
qed simp

lemma tray_seen_last:
  assumes "smb_ready n d" and "r k = bs @ [b]" and "bit b 6" and "\<not> bit b 5"
  shows "tray_seen n r s d k = DVD_CLOSING"
proof -
  obtain s1 d1 where 1: "serve n (concat (map r [0..<k]) @ bs) s d = Some (s1, d1)" "smb_ready n d1"
    by (rule serve_returns [OF assms(1)])
  obtain d2 where "IntHandlerCSmc smb_ports n (encoder_mode n) s1 (report b d1) = Some (smc_report b (s_chip d1 0x10 0x04) s1, d2)"
    by (rule smc.handler [of n "report b d1" s1]) (use 1 in auto)
  moreover have "concat (map r [0..<Suc k]) = (concat (map r [0..<k]) @ bs) @ [b]" using assms(2) by simp
  ultimately have "\<exists>d'. serve n (concat (map r [0..<Suc k])) s d = Some (smc_report b (s_chip d1 0x10 0x04) s1, d')"
    using 1 by (simp only: serve_append) simp
  then show ?thesis using assms(3,4) by (auto simp: tray_seen_def smc_report_def simp del: upt_Suc)
qed

lemma tray_wait_ends:
  assumes "button (j + k) \<or> state (j + k) = DVD_CLOSING"
  shows "\<exists>i c. tray_wait (Suc k) button state j = Some (i, c) \<and> i \<le> j + k \<and> (if c then button i else state i = DVD_CLOSING)"
  using assms
proof (induction k arbitrary: j)
  case (Suc k)
  show ?case
  proof (cases "button j \<or> state j = DVD_CLOSING")
    case False
    then show ?thesis using Suc.IH [of "Suc j"] Suc.prems by auto
  qed auto
qed auto

text \<open>C21. The wait for the tray ends: once the button is down in a turn, or the last report before a turn
  is that the tray closes, the loop has ended by that turn, with the tray closed by the button or
  reported as closing; whatever else is reported, before or in between.\<close>

theorem tray_wait_returns:
  assumes "smb_ready n d"
    and "button k \<or> (r k \<noteq> [] \<and> bit (last (r k)) 6 \<and> \<not> bit (last (r k)) 5)"
  shows "\<exists>i c. tray_wait (Suc k) button (tray_seen n r s d) 0 = Some (i, c) \<and> i \<le> k
    \<and> (if c then button i else tray_seen n r s d i = DVD_CLOSING)"
proof -
  have "button (0 + k) \<or> tray_seen n r s d (0 + k) = DVD_CLOSING"
    using assms tray_seen_last [OF assms(1), of r k "butlast (r k)" "last (r k)" s] by auto
  then show ?thesis
    using tray_wait_ends [where button = button and state = "tray_seen n r s d" and j = 0 and k = k] by simp
qed

theorem tray_wait_returns_witness:
  "\<exists>i c. tray_wait 6 (\<lambda>_. False) (tray_seen 4 (\<lambda>k. if k = 2 then [0x20, 0x60] else if k = 5 then [0x02, 0x42] else [])
      idle_intr (blank_smb 1)) 0 = Some (i, c) \<and> i \<le> 5"
  using tray_wait_returns [OF blank_smb_ready [of 1], of "\<lambda>_. False" 5
      "\<lambda>k. if k = 2 then [0x20, 0x60] else if k = 5 then [0x02, 0x42] else []" idle_intr] by auto

end
