(* ===== verification/LinuxSetup.thy ===== *)
theory LinuxSetup
  imports Memory
begin

text \<open>
  What Linux is given, \<open>lib/misc/setup.c\<close>, \<open>include/memory_layout.h\<close> and \<open>memPlaceKernel\<close> of
  \<open>boot/LoadLinux.c\<close>: where the kernel is put, the page of boot parameters with the map of the memory,
  and the command line. A structure of the code is the list of its stores at the offsets of the fields.
\<close>

section \<open>The layout of the memory\<close>

abbreviation (input) "KERNEL_SETUP \<equiv> 0x90000 :: u32"
abbreviation (input) "CMD_LINE_LOC \<equiv> 0x90800 :: u32"
abbreviation (input) "IDT_LOC \<equiv> 0xB0000 :: u32"
abbreviation (input) "KERNEL_PM_CODE \<equiv> 0x00100000 :: u32"
abbreviation (input) "INITRD_START \<equiv> 0x00900000 :: u32"
abbreviation (input) "MAX_KERNEL_SIZE \<equiv> 0x00800000 :: u32"
abbreviation (input) "MAX_INITRD_SIZE \<equiv> 0x02100000 :: u32"
abbreviation (input) "FB_SIZE \<equiv> 0x00400000 :: u32"
abbreviation (input) "RAMSIZE_USE \<equiv> 0x03C00000 :: u32"

section \<open>The kernel\<close>

definition kernel_header_size :: "u8 \<Rightarrow> u32" where
  "kernel_header_size setup_sects = (ucast setup_sects + 1) * 512"

definition memPlaceKernel :: "u32 \<Rightarrow> u32 \<Rightarrow> memory \<Rightarrow> memory option" where
  "memPlaceKernel kernelOrg kernelSize m = do {
     let nSizeHeader = kernel_header_size (m (kernelOrg + 0x01f1));
     m \<leftarrow> mem_copy KERNEL_SETUP kernelOrg nSizeHeader m;
     mem_copy KERNEL_PM_CODE (kernelOrg + nSizeHeader) (kernelSize - nSizeHeader) m }"

section \<open>The parameters\<close>

definition le16_bytes :: "u16 \<Rightarrow> bytes" where
  "le16_bytes w = [ucast w, ucast (drop_bit 8 w)]"

definition le64_bytes :: "u64 \<Rightarrow> bytes" where
  "le64_bytes w = le32_bytes (ucast w) @ le32_bytes (ucast (drop_bit 32 w))"

text \<open>The fields before the RAM disk, those of the RAM disk, and those behind; in the order of the stores.\<close>

definition setup_fields_1 :: "u32 \<Rightarrow> (nat \<times> bytes) list" where
  "setup_fields_1 xbox_ram =
     [(0x34, replicate 436 0), (0x1e9, replicate 8 0), (0x226, replicate 2 0), (0x230, replicate 160 0),
      (0x08, le16_bytes 0), (0x0c, le16_bytes 0),
      (0x210, [0xff]), (0x224, le16_bytes 0xffff), (0x211, [0x81]), (0x214, le32_bytes KERNEL_PM_CODE),
      (0x02, le16_bytes (ucast (((xbox_ram - 1) * 1024 - FB_SIZE div 1024) AND 0xffff)))]"

definition setup_ramdisk :: "u32 \<Rightarrow> u32 \<Rightarrow> (nat \<times> bytes) list" where
  "setup_ramdisk PhysInitrdPos InitrdSize =
     (if InitrdSize \<noteq> 0
      then [(0x218, le32_bytes PhysInitrdPos), (0x21c, le32_bytes InitrdSize), (0x22c, le32_bytes (RAMSIZE_USE - 1))]
      else [])"

definition setup_video :: "u32 \<Rightarrow> u32 \<Rightarrow> u32 \<Rightarrow> (nat \<times> bytes) list" where
  "setup_video xbox_ram width height =
     (let vid_mode = (if width = 640 then 0x312 else 0x315) :: u16
      in [(0x0f, [0x23]), (0x00, [0]), (0x01, [0]), (0x1fa, le16_bytes vid_mode),
          (0x06, [ucast (vid_mode - 0x300)]), (0x07, [ucast (width div 8)]), (0x0e, [ucast (height div 16)]),
          (0x0a, le16_bytes 0), (0x10, le16_bytes 16), (0x16, le16_bytes 32), (0x12, le16_bytes (ucast width)),
          (0x14, le16_bytes (ucast height)),
          (0x18, le32_bytes (0xf0000000 OR (xbox_ram * 0x100000 - FB_SIZE))),
          (0x1c, le32_bytes (FB_SIZE div 0x10000)), (0x24, le16_bytes (ucast (width * 4))),
          (0x32, le16_bytes 1), (0x2e, le16_bytes 0), (0x30, le16_bytes 0),
          (0x2a, [8]), (0x2b, [0]), (0x28, [8]), (0x29, [8]), (0x26, [8]), (0x27, [16]), (0x2c, [8]), (0x2d, [24])])"

definition setup_fields_2 :: "u32 \<Rightarrow> (nat \<times> bytes) list" where
  "setup_fields_2 xbox_ram =
     [(0x1fc, le16_bytes 0x0301), (0x208, le32_bytes 0), (0x20c, le16_bytes 0), (0x212, le16_bytes 0),
      (0x220, le16_bytes 0), (0x222, le16_bytes 0), (0x1f2, le16_bytes 0),
      (0x1e8, [4]),
      (0x2d0, le64_bytes 0), (0x2d8, le64_bytes 0x9f000), (0x2e0, le32_bytes 1),
      (0x2e4, le64_bytes 0x9f000), (0x2ec, le64_bytes 0x61000), (0x2f4, le32_bytes 2),
      (0x2f8, le64_bytes 0x100000), (0x300, le64_bytes (ucast ((xbox_ram - 1) * 1024 * 1024 - FB_SIZE))),
      (0x308, le32_bytes 1),
      (0x30c, le64_bytes (ucast (xbox_ram * 1024 * 1024 - FB_SIZE))), (0x314, le64_bytes (ucast FB_SIZE)),
      (0x31c, le32_bytes 2),
      (0x22, le16_bytes 0), (0x20, le16_bytes 0xA33F), (0x228, le32_bytes CMD_LINE_LOC)]"

definition setup_fields :: "u32 \<Rightarrow> u32 \<Rightarrow> u32 \<Rightarrow> u32 \<Rightarrow> u32 \<Rightarrow> (nat \<times> bytes) list" where
  "setup_fields xbox_ram width height PhysInitrdPos InitrdSize =
     setup_fields_1 xbox_ram @ setup_ramdisk PhysInitrdPos InitrdSize @ setup_video xbox_ram width height
     @ setup_fields_2 xbox_ram"

text \<open>\<open>setup\<close>: the fields, then the command line with its last byte. \<open>None\<close>: the string ends nowhere.\<close>

definition setup_kernel :: "u32 \<Rightarrow> u32 \<Rightarrow> u32 \<Rightarrow> u32 \<Rightarrow> u32 \<Rightarrow> u32 \<Rightarrow> bytes \<Rightarrow> memory \<Rightarrow> memory option" where
  "setup_kernel xbox_ram width height KernelPos PhysInitrdPos InitrdSize kernel_cmdline m = do {
     let m = patch KernelPos (rev (setup_fields xbox_ram width height PhysInitrdPos InitrdSize)) m;
     w \<leftarrow> strncpy_bytes kernel_cmdline 512;
     let m = store_bytes CMD_LINE_LOC w m;
     Some (store_bytes (CMD_LINE_LOC + 511) [0] m) }"

end
