(* ===== verification/LoadLinux.thy ===== *)
theory LoadLinux
  imports LinuxSetup Parser Fatx Iso9660 Ide Flash Sha1
begin

text \<open>
  Booting Linux, \<open>boot/LoadLinux.c\<close>, and the choice of what to boot, \<open>menu/actions/MenuActions.c\<close>: the
  configuration and the kernel are loaded from the FATX partition E, from a disc, or through the file
  systems of GRUB; then the hardware is left as Linux expects it and the kernel is entered.

  The machine is what the code reaches besides the memory: the ports, the sector reader of the drives
  (\<open>BootIdeReadSector\<close>), the contents of uninitialised arrays, the game pad and the tray in a turn of the
  wait for a disc, the file systems of GRUB (\<open>fs/grub\<close>), and the stop of the USB controllers. Messages on
  the screen are left out, their LED patterns and waits are not. \<open>None\<close> is no defined outcome;
  \<open>Stopped\<close> is one of the endless loops after an error.
\<close>

section \<open>The machine\<close>

record 'd grub =
  grub_open :: "u32 \<Rightarrow> bytes \<Rightarrow> 'd \<Rightarrow> (bool \<times> bool \<times> u32) \<times> 'd"
  grub_read :: "u32 \<Rightarrow> 'd \<Rightarrow> bytes \<times> 'd"
  grub_close :: "'d \<Rightarrow> 'd"

record 'd machine =
  mc_ports :: "'d ports"
  mc_fuel :: nat
  mc_read :: "'d reader"
  mc_stack :: bytes
  mc_uninit :: "nat \<Rightarrow> bytes"
  mc_slack :: bytes
  mc_turn :: "'d \<Rightarrow> (bool \<times> bool) \<times> 'd"
  mc_grub :: "'d grub"
  mc_stop_usb :: "'d \<Rightarrow> 'd"

text \<open>The statics of the file, with the memory.\<close>

record boot_state =
  mem :: memory
  dwKernelSize :: u32
  dwInitrdSize :: u32

datatype load_end = Loaded bool | Stopped

definition led :: "'d machine \<Rightarrow> bytes \<Rightarrow> 'd \<Rightarrow> 'd option" where
  "led mc pattern d = setLED (mc_ports mc) (mc_fuel mc) pattern d"

fun led_times :: "'d machine \<Rightarrow> nat \<Rightarrow> bytes \<Rightarrow> 'd \<Rightarrow> 'd option" where
  "led_times mc 0 pattern d = Some d"
| "led_times mc (Suc k) pattern d = do { d \<leftarrow> led mc pattern d; led_times mc k pattern d }"

definition wait_ms :: "'d machine \<Rightarrow> nat \<Rightarrow> 'd \<Rightarrow> 'd" where
  "wait_ms mc t d = delay_us (mc_ports mc) (1000 * t) d"

definition dots :: "'d machine \<Rightarrow> 'd \<Rightarrow> 'd" where
  "dots mc d = wait_ms mc 100 (wait_ms mc 100 (wait_ms mc 100 (wait_ms mc 100 d)))"

definition pic_word :: "'d machine \<Rightarrow> u16 \<Rightarrow> 'd \<Rightarrow> 'd option" where
  "pic_word mc w d = map_option snd (I2CTransmitWord (mc_ports mc) (mc_fuel mc) 0x10 w d)"

text \<open>A string in an array.\<close>

definition c_string :: "bytes \<Rightarrow> bytes option" where
  "c_string bs = map_option (\<lambda>n. take n bs) (strlen bs)"

definition no_file :: FATXFILEINFO where
  "no_file = \<lparr>fi_filename = replicate 44 0, fi_clusterId = 0, fi_fileSize = 0, fi_fileRead = 0, fi_buffer = []\<rparr>"

abbreviation (input) "SECTOR_STORE \<equiv> 0x0055F400 :: u32"
abbreviation (input) "STORE_SIZE \<equiv> 0x131F00000 :: u64"
abbreviation (input) "BOOT_CDROM \<equiv> 0 :: u32"
abbreviation (input) "BOOT_FATX \<equiv> 1 :: u32"
abbreviation (input) "BOOT_NATIVE \<equiv> 2 :: u32"

section \<open>From the FATX partition\<close>

text \<open>The configuration. Behind the file's buffer is what the heap block holds more, \<open>mc_slack\<close>.\<close>

definition path_E :: bytes where
  "path_E = [0x2f, 0x6c, 0x69, 0x6e, 0x75, 0x78, 0x62, 0x6f, 0x6f, 0x74, 0x2e, 0x63, 0x66, 0x67, 0]"

definition dir_debian :: bytes where
  "dir_debian = [0x2f, 0x64, 0x65, 0x62, 0x69, 0x61, 0x6e]"

definition LoadConfigFatX :: "'d machine \<Rightarrow> FATXFILEINFO \<Rightarrow> 'd \<Rightarrow> (CONFIGENTRY list \<times> 'd) option" where
  "LoadConfigFatX mc fileinfo d = do {
     d \<leftarrow> led mc busyLED d;
     (part, d) \<leftarrow> OpenFATXPartition (mc_read mc) (mc_uninit mc) 0 SECTOR_STORE STORE_SIZE d;
     if part = None then Some ([], d)
     else do {
       (ok, fi, d) \<leftarrow> LoadFATXFile (mc_read mc) part (mc_fuel mc) (mc_stack mc) path_E fileinfo d;
       (config, d) \<leftarrow>
         (if ok then do {
            (es, _) \<leftarrow> ParseConfig (fi_buffer fi @ mc_slack mc) (unat (fi_fileSize fi)) None;
            Some (es, d) }
          else do {
            (ok, fi, d) \<leftarrow> LoadFATXFile (mc_read mc) part (mc_fuel mc) (mc_stack mc) (dir_debian @ path_E) fi d;
            if ok then do {
              (es, _) \<leftarrow> ParseConfig (fi_buffer fi @ mc_slack mc) (unat (fi_fileSize fi)) (Some (dir_debian @ [0]));
              Some (es, d) }
            else Some ([], d) });
       Some (map (\<lambda>e. e\<lparr>bootType := BOOT_FATX\<rparr>) config, d) } }"

text \<open>A file into the area of the RAM disk.\<close>

definition load_fixed :: "'d machine \<Rightarrow> FATXPartition \<Rightarrow> bytes \<Rightarrow> memory \<Rightarrow> 'd \<Rightarrow> (bool \<times> u32 \<times> memory \<times> 'd) option" where
  "load_fixed mc p filename m d = do {
     (ok, fi, d) \<leftarrow> LoadFATXFilefixed (mc_read mc) (Some p) (mc_fuel mc) (mc_stack mc) filename no_file
                     (load_bytes m INITRD_START (unat MAX_INITRD_SIZE)) d;
     Some (ok, fi_fileSize fi, store_bytes INITRD_START (fi_buffer fi) m, d) }"

definition LoadKernelFatX :: "'d machine \<Rightarrow> CONFIGENTRY \<Rightarrow> boot_state \<Rightarrow> 'd \<Rightarrow> (load_end \<times> boot_state \<times> 'd) option" where
  "LoadKernelFatX mc config s d = do {
     d \<leftarrow> led mc busyLED d;
     let m = store_bytes KERNEL_SETUP (replicate 4096 0) (mem s);
     d \<leftarrow> pic_word mc 0x0c01 d;
     let d = dots mc d;
     (part, d) \<leftarrow> OpenFATXPartition (mc_read mc) (mc_uninit mc) 0 SECTOR_STORE STORE_SIZE d;
     case part of
       None \<Rightarrow> Some (Loaded False, s\<lparr>mem := m\<rparr>, d)
     | Some p \<Rightarrow> do {
         let d = dots mc d;
         (ok, sz, m, d) \<leftarrow> load_fixed mc p (szKernel config) m d;
         if \<not> ok then do { d \<leftarrow> led mc errorLED d; Some (Stopped, s\<lparr>mem := m\<rparr>, d) }
         else do {
           m \<leftarrow> memPlaceKernel INITRD_START sz m;
           let s = s\<lparr>dwKernelSize := sz\<rparr>;
           len \<leftarrow> strlen (szInitrd config);
           if len \<noteq> 0 then do {
             let d = wait_ms mc 50 (dots mc d);
             (ok, sz, m, d) \<leftarrow> load_fixed mc p (szInitrd config) m d;
             if \<not> ok then do { d \<leftarrow> led mc errorLED d; Some (Stopped, s\<lparr>mem := m\<rparr>, d) }
             else Some (Loaded True, s\<lparr>mem := m, dwInitrdSize := sz\<rparr>, d) }
           else Some (Loaded True, s\<lparr>mem := m, dwInitrdSize := 0\<rparr>, dots mc d) } } }"

section \<open>From a disc\<close>

text \<open>A file of the disc into memory; \<open>area\<close> is what there is room for.\<close>

definition disc_file ::
  "'d machine \<Rightarrow> u32 \<Rightarrow> bytes \<Rightarrow> u32 \<Rightarrow> nat \<Rightarrow> u32 \<Rightarrow> memory \<Rightarrow> 'd \<Rightarrow> (u32 \<times> memory \<times> 'd) option" where
  "disc_file mc drv path a area max_bytes m d = do {
     (n, buf, d) \<leftarrow> BootIso9660GetFile (mc_read mc) (mc_uninit mc) drv path (load_bytes m a area) max_bytes d;
     Some (n, store_bytes a buf m, d) }"

text \<open>Up to \<open>k\<close> tries, a quarter of a second apart.\<close>

fun disc_tries ::
  "'d machine \<Rightarrow> u32 \<Rightarrow> bytes \<Rightarrow> u32 \<Rightarrow> nat \<Rightarrow> u32 \<Rightarrow> nat \<Rightarrow> u32 \<Rightarrow> memory \<Rightarrow> 'd \<Rightarrow> (bool \<times> u32 \<times> memory \<times> 'd) option" where
  "disc_tries mc drv path a area max_bytes 0 sz m d = Some (False, sz, m, d)"
| "disc_tries mc drv path a area max_bytes (Suc k) sz m d = do {
     (n, m, d) \<leftarrow> disc_file mc drv path a area max_bytes m d;
     if 0 <s n then Some (True, n, m, d)
     else disc_tries mc drv path a area max_bytes k n m (wait_ms mc 250 d) }"

text \<open>The wait for a disc: the button closes the tray, and then \<open>pressed\<close> is done, or it is closing.\<close>

fun await_disc :: "'d machine \<Rightarrow> ('d \<Rightarrow> 'd option) \<Rightarrow> nat \<Rightarrow> 'd \<Rightarrow> 'd option" where
  "await_disc mc pressed 0 d = None"
| "await_disc mc pressed (Suc k) d =
     (let ((button, closing), d) = mc_turn mc d
      in if button then do { d \<leftarrow> pic_word mc 0x0c01 d; pressed (wait_ms mc 500 d) }
         else if closing then Some (wait_ms mc 500 d)
         else await_disc mc pressed k (wait_ms mc 10 d))"

definition path_linuxboo :: bytes where
  "path_linuxboo = [0x2f, 0x6c, 0x69, 0x6e, 0x75, 0x78, 0x62, 0x6f, 0x6f, 0x2e, 0x63, 0x66, 0x67]"

definition title_CD :: bytes where
  "title_CD = [0x43, 0x44, 0x2f, 0x44, 0x56, 0x44, 0]"

definition LoadConfigCD :: "'d machine \<Rightarrow> u32 \<Rightarrow> memory \<Rightarrow> 'd \<Rightarrow> (CONFIGENTRY list \<times> memory \<times> 'd) option" where
  "LoadConfigCD mc cdromId m d = do {
     d \<leftarrow> led mc busyLED d;
     let m = store_bytes KERNEL_SETUP (replicate 4096 0) m;
     d \<leftarrow> pic_word mc 0x0c01 d;
     let d = dots mc d;
     (found, sz, m, d) \<leftarrow> disc_tries mc cdromId path_linuxboo KERNEL_SETUP 4096 0x800 16 0 m d;
     (found, sz, m, d) \<leftarrow>
       (if found then Some (found, sz, m, d)
        else do {
          d \<leftarrow> led mc errorLED d;
          d \<leftarrow> pic_word mc 0x0c00 d;
          let d = wait_ms mc 1000 (dots mc d);
          d \<leftarrow> await_disc mc Some (mc_fuel mc) d;
          d \<leftarrow> led mc busyLED d;
          disc_tries mc cdromId path_linuxboo KERNEL_SETUP 4096 0x800 48 sz m d });
     if \<not> found then do { d \<leftarrow> led mc errorLED d; Some ([], m, d) }
     else do {
       let d = dots mc d;
       (config, buf) \<leftarrow> ParseConfig (load_bytes m KERNEL_SETUP 4096) (unat sz) None;
       let config = map (\<lambda>e. e\<lparr>drive := cdromId, bootType := BOOT_CDROM\<rparr>) config;
       t \<leftarrow> strcpy (title (hd config)) title_CD;
       Some ((hd config)\<lparr>title := t\<rparr> # tl config, store_bytes KERNEL_SETUP buf m, d) } }"

definition LoadKernelCdrom :: "'d machine \<Rightarrow> CONFIGENTRY \<Rightarrow> boot_state \<Rightarrow> 'd \<Rightarrow> (load_end \<times> boot_state \<times> 'd) option" where
  "LoadKernelCdrom mc config s d = do {
     d \<leftarrow> led mc busyLED d;
     let d = dots mc d;
     path \<leftarrow> c_string (szKernel config);
     (sz, m, d) \<leftarrow> disc_file mc (drive config) path INITRD_START (unat MAX_INITRD_SIZE) MAX_KERNEL_SIZE (mem s) d;
     let s = s\<lparr>mem := m, dwKernelSize := sz\<rparr>;
     if dwKernelSize s < 0 then do { d \<leftarrow> led mc errorLED d; Some (Stopped, s, d) }
     else do {
       m \<leftarrow> memPlaceKernel INITRD_START (dwKernelSize s) m;
       let s = s\<lparr>mem := m\<rparr>;
       path \<leftarrow> c_string (szInitrd config);
       if path \<noteq> [] then do {
         let d = dots mc d;
         (sz, m, d) \<leftarrow> disc_file mc (drive config) path INITRD_START (unat MAX_INITRD_SIZE) MAX_INITRD_SIZE m d;
         let s = s\<lparr>mem := m, dwInitrdSize := sz\<rparr>;
         if dwInitrdSize s < 0 then do { d \<leftarrow> led mc errorLED d; Some (Stopped, s, d) }
         else Some (Loaded True, s, d) }
       else do { d \<leftarrow> led mc errorLED d; Some (Stopped, s\<lparr>dwInitrdSize := 0\<rparr>, d) } } }"

section \<open>Reflashing from a disc\<close>

datatype flash_cd_end = Returned u32 | Flashing reflash_end | Rebooting

definition path_image :: bytes where
  "path_image = [0x2f, 0x69, 0x6d, 0x61, 0x67, 0x65, 0x2e, 0x62, 0x69, 0x6e]"

fun read_chip :: "'d flash_port \<Rightarrow> nat \<Rightarrow> nat \<Rightarrow> 'd \<Rightarrow> bytes \<times> 'd" where
  "read_chip fl a 0 d = ([], d)"
| "read_chip fl a (Suc n) d =
     (let (b, d) = fl_read fl (of_nat a) d; (bs, d) = read_chip fl (Suc a) n d in (b # bs, d))"

definition flash_failed :: "'d machine \<Rightarrow> 'd \<Rightarrow> (flash_cd_end \<times> 'd) option" where
  "flash_failed mc d = map_option (\<lambda>d. (Returned 0, d)) (led mc inputLED (wait_ms mc 2000 d))"

text \<open>What is done with an image of \<open>imageSize\<close> bytes at \<open>KERNEL_PM_CODE\<close>.\<close>

definition flash_image ::
  "'d machine \<Rightarrow> 'd flash_port \<Rightarrow> (u32 \<Rightarrow> u32 \<Rightarrow> u32 \<Rightarrow> 'd \<Rightarrow> 'd) \<Rightarrow> 'd OBJECT_FLASH \<Rightarrow> SHA1Context \<Rightarrow> bytes
     \<Rightarrow> u32 \<Rightarrow> memory \<Rightarrow> 'd \<Rightarrow> (flash_cd_end \<times> 'd) option" where
  "flash_image mc fl bar pof context SHA1_result imageSize m d = do {
     let image = load_bytes m KERNEL_PM_CODE (unat imageSize);
     let (SHA1_result, context) = sha1_buffer image SHA1_result context;
     let checksum = SHA1_result;
     (e, d) \<leftarrow> BootReflashAndReset fl (mc_ports mc) bar (mc_fuel mc) pof image 0 imageSize d;
     case e of
       Refused _ \<Rightarrow> do {
         let (chip, d) = read_chip fl 0 (unat imageSize) d;
         let (SHA1_result, context) = sha1_buffer chip SHA1_result context;
         r \<leftarrow> memcmp checksum SHA1_result 20;
         if r = 0 then do {
           d \<leftarrow> I2CRebootSlow (mc_ports mc) (mc_fuel mc) (wait_ms mc 2000 d);
           Some (Rebooting, d) }
         else flash_failed mc d }
     | _ \<Rightarrow> Some (Flashing e, d) }"

definition BootLoadFlashCD ::
  "'d machine \<Rightarrow> 'd flash_port \<Rightarrow> (u32 \<Rightarrow> u32 \<Rightarrow> u32 \<Rightarrow> 'd \<Rightarrow> 'd) \<Rightarrow> 'd OBJECT_FLASH \<Rightarrow> SHA1Context \<Rightarrow> bytes
     \<Rightarrow> u32 \<Rightarrow> memory \<Rightarrow> 'd \<Rightarrow> (flash_cd_end \<times> 'd) option" where
  "BootLoadFlashCD mc fl bar pof context SHA1_result cdromId m d = do {
     d \<leftarrow> led mc busyLED d;
     let m = store_bytes KERNEL_SETUP (replicate 4096 0) m;
     d \<leftarrow> pic_word mc 0x0c01 d;
     let d = dots mc d;
     (found, sz, m, d) \<leftarrow> disc_tries mc cdromId path_image KERNEL_PM_CODE (unat MAX_KERNEL_SIZE) 0x10 16 0 m d;
     (found, sz, m, d) \<leftarrow>
       (if found then Some (found, sz, m, d)
        else do {
          d \<leftarrow> pic_word mc 0x0c00 d;
          d \<leftarrow> led mc errorLED d;
          d \<leftarrow> led mc inputLED (dots mc d);
          d \<leftarrow> await_disc mc (led mc busyLED) (mc_fuel mc) (wait_ms mc 1000 d);
          d \<leftarrow> led_times mc 13 busyLED d;
          disc_tries mc cdromId path_image KERNEL_PM_CODE (unat MAX_KERNEL_SIZE) 0x10 48 sz m d });
     if \<not> found then do { d \<leftarrow> led mc errorLED d; flash_failed mc d }
     else do {
       let d = dots mc d;
       (imageSize, m, d) \<leftarrow> disc_file mc cdromId path_image KERNEL_PM_CODE (unat MAX_KERNEL_SIZE) (4 * 256 * 1024) m d;
       if imageSize <s 0 then do { d \<leftarrow> led mc errorLED d; flash_failed mc d }
       else if 0 <s imageSize \<and> imageSize \<le>s 4 * 256 * 1024 \<and> imageSize mod 256 = 0
       then flash_image mc fl bar pof context SHA1_result imageSize m d
       else do { d \<leftarrow> led mc errorLED d; flash_failed mc d } } }"

section \<open>Through GRUB\<close>

text \<open>The name GRUB is given, in a block of the heap with 269 bytes and what it holds more.\<close>

definition grub_name :: "'d machine \<Rightarrow> u32 \<Rightarrow> bytes" where
  "grub_name mc part = [0xff, 0xff, ucast part, 0] @ replicate 256 0 @ replicate 9 0 @ mc_slack mc"

definition path_boot :: bytes where
  "path_boot = [0x2f, 0x62, 0x6f, 0x6f, 0x74]"

definition path_linuxboot :: bytes where
  "path_linuxboot = [0x2f, 0x6c, 0x69, 0x6e, 0x75, 0x78, 0x62, 0x6f, 0x6f, 0x74, 0x2e, 0x63, 0x66, 0x67]"

definition LoadConfigNative ::
  "'d machine \<Rightarrow> u32 \<Rightarrow> u32 \<Rightarrow> memory \<Rightarrow> 'd \<Rightarrow> (CONFIGENTRY list \<times> memory \<times> 'd) option" where
  "LoadConfigNative mc drv part m d = do {
     d \<leftarrow> led mc busyLED d;
     let m = store_bytes KERNEL_SETUP (replicate 2048 0) m;
     name \<leftarrow> put_bytes (grub_name mc part) 4 (path_boot @ path_linuxboot @ [0]);
     let ((ret, errnum, filemax), d) = grub_open (mc_grub mc) drv name d;
     ((ret, errnum, filemax), d) \<leftarrow>
       (if \<not> ret \<or> errnum then do {
          name \<leftarrow> put_bytes name 4 (path_linuxboot @ [0]);
          Some (grub_open (mc_grub mc) drv name d) }
        else Some ((ret, errnum, filemax), d));
     if \<not> ret \<or> errnum then Some ([], m, d)
     else do {
       let (text, d) = grub_read (mc_grub mc) filemax d;
       let m = store_bytes KERNEL_SETUP text m;
       let nLen = (min (of_nat (length text)) (1024 * 256) :: u32);
       (config, buf) \<leftarrow> ParseConfig (load_bytes m KERNEL_SETUP (length text + 2048)) (unat nLen) None;
       let config = map (\<lambda>e. e\<lparr>bootType := BOOT_NATIVE, drive := drv, partition := part\<rparr>) config;
       Some (config, store_bytes KERNEL_SETUP buf m, grub_close (mc_grub mc) d) } }"

definition LoadKernelNative :: "'d machine \<Rightarrow> CONFIGENTRY \<Rightarrow> boot_state \<Rightarrow> 'd \<Rightarrow> (load_end \<times> boot_state \<times> 'd) option" where
  "LoadKernelNative mc config s d = do {
     d \<leftarrow> led mc busyLED d;
     let d = dots mc d;
     let m = store_bytes KERNEL_SETUP (replicate 2048 0) (mem s);
     d \<leftarrow> pic_word mc 0x0c01 d;
     let d = dots mc d;
     path \<leftarrow> c_string (szKernel config);
     name \<leftarrow> put_bytes (grub_name mc (partition config)) 4 path;
     let ((ret, errnum, filemax), d) = grub_open (mc_grub mc) (drive config) name d;
     if \<not> ret then do { d \<leftarrow> led mc errorLED d; Some (Stopped, s\<lparr>mem := m\<rparr>, d) }
     else do {
       let (kernel, d) = grub_read (mc_grub mc) MAX_KERNEL_SIZE d;
       let m = store_bytes INITRD_START kernel m;
       let s = s\<lparr>dwKernelSize := of_nat (length kernel)\<rparr>;
       m \<leftarrow> memPlaceKernel INITRD_START (dwKernelSize s) m;
       let d = grub_close (mc_grub mc) d;
       path \<leftarrow> c_string (szInitrd config);
       if path \<noteq> [] then do {
         let d = dots mc d;
         w \<leftarrow> strncpy_bytes (szInitrd config) MAX_LINE;
         name \<leftarrow> put_bytes name 4 w;
         let ((ret, errnum, filemax), d) = grub_open (mc_grub mc) (drive config) name d;
         if filemax = 0 then do { d \<leftarrow> led mc errorLED d; Some (Stopped, s\<lparr>mem := m\<rparr>, d) }
         else if \<not> ret \<or> errnum then do { d \<leftarrow> led mc errorLED d; Some (Stopped, s\<lparr>mem := m\<rparr>, d) }
         else do {
           let (initrd, d) = grub_read (mc_grub mc) MAX_INITRD_SIZE d;
           let m = store_bytes INITRD_START initrd m;
           Some (Loaded True, s\<lparr>mem := m, dwInitrdSize := of_nat (length initrd)\<rparr>, grub_close (mc_grub mc) d) } }
       else Some (Loaded True, s\<lparr>mem := m, dwInitrdSize := 0\<rparr>, d) } }"

section \<open>The start\<close>

text \<open>The registers with which the kernel is entered.\<close>

record entry =
  eip :: u32
  esi :: u32
  esp :: u32
  ebx :: u32
  ecx :: u32
  edx :: u32
  edi :: u32

definition kernel_entry :: entry where
  "kernel_entry = \<lparr>eip = 0x100000, esi = 0x90000, esp = 0x03BFFFFC, ebx = 0, ecx = 0, edx = 0, edi = 0\<rparr>"

text \<open>The transfer mode of the disk, by the cable and the modes the disk knows.\<close>

definition transfer_mode :: "tsHarddiskInfo \<Rightarrow> u32" where
  "transfer_mode h =
     (if m_bCableConductors h = 80
      then (let nAta = 0;
                nAta = (if m_wAtaRevisionSupported h AND 2 \<noteq> 0 then 1 else nAta);
                nAta = (if m_wAtaRevisionSupported h AND 4 \<noteq> 0 then 2 else nAta);
                nAta = (if m_wAtaRevisionSupported h AND 8 \<noteq> 0 then 3 else nAta);
                nAta = (if m_wAtaRevisionSupported h AND 16 \<noteq> 0 then 4 else nAta)
            in if m_wAtaRevisionSupported h AND 32 \<noteq> 0 then 5 else nAta)
      else 2)"

record screen =
  xbox_ram :: u32
  width :: u32
  height :: u32

definition startLinux ::
  "'d machine \<Rightarrow> tsHarddiskInfo list \<Rightarrow> screen \<Rightarrow> u32 \<Rightarrow> u32 \<Rightarrow> bytes \<Rightarrow> memory \<Rightarrow> 'd \<Rightarrow> (entry \<times> memory \<times> 'd) option" where
  "startLinux mc info vmode initrdStart initrdSize appendLine m d = do {
     let d = mc_stop_usb mc d;
     m \<leftarrow> setup_kernel (xbox_ram vmode) (width vmode) (height vmode) KERNEL_SETUP initrdStart initrdSize appendLine m;
     h \<leftarrow> drive_info info 0;
     let nAta = transfer_mode h;
     (_, d) \<leftarrow> BootIdeSetTransferMode (mc_ports mc) (mc_fuel mc) info 0 (0x40 OR nAta) d;
     (_, d) \<leftarrow> BootIdeSetTransferMode (mc_ports mc) (mc_fuel mc) info 1 (0x40 OR nAta) d;
     d \<leftarrow> led mc goodLED d;
     let m = store32 0xFD600800 (0xf0000000 OR (xbox_ram vmode * 0x100000 - FB_SIZE)) m;
     let m = store_bytes IDT_LOC (replicate (1024 * 8) 0) m;
     Some (kernel_entry, m, d) }"

definition ExittoLinux ::
  "'d machine \<Rightarrow> tsHarddiskInfo list \<Rightarrow> screen \<Rightarrow> CONFIGENTRY \<Rightarrow> boot_state \<Rightarrow> 'd \<Rightarrow> (entry \<times> memory \<times> 'd) option" where
  "ExittoLinux mc info vmode config s d = do {
     d \<leftarrow> led mc busyLED d;
     d \<leftarrow> led mc highLED d;
     startLinux mc info vmode INITRD_START (dwInitrdSize s) (szAppend config) (mem s) d }"

definition ExittoLinuxFromNet ::
  "'d machine \<Rightarrow> tsHarddiskInfo list \<Rightarrow> screen \<Rightarrow> u32 \<Rightarrow> bytes \<Rightarrow> memory \<Rightarrow> 'd \<Rightarrow> (entry \<times> memory \<times> 'd) option" where
  "ExittoLinuxFromNet mc info vmode initrdSize appendLine m d = do {
     d \<leftarrow> led mc busyLED d;
     d \<leftarrow> led mc highLED d;
     startLinux mc info vmode INITRD_START initrdSize appendLine m d }"

section \<open>The entry to boot\<close>

datatype boot_end = Entered entry memory | Boot_stopped

text \<open>The outcome of the loading is looked at only by its endless loops.\<close>

definition BootMenuEntry ::
  "'d machine \<Rightarrow> tsHarddiskInfo list \<Rightarrow> screen \<Rightarrow> CONFIGENTRY \<Rightarrow> boot_state \<Rightarrow> 'd \<Rightarrow> (boot_end \<times> 'd) option" where
  "BootMenuEntry mc info vmode config s d = do {
     (e, s, d) \<leftarrow>
       (if bootType config = BOOT_CDROM then LoadKernelCdrom mc config s d
        else if bootType config = BOOT_FATX then LoadKernelFatX mc config s d
        else if bootType config = BOOT_NATIVE then LoadKernelNative mc config s d
        else Some (Loaded False, s, d));
     if e = Stopped then Some (Boot_stopped, d)
     else do {
       (r, m, d) \<leftarrow> ExittoLinux mc info vmode config s d;
       Some (Entered r m, d) } }"

text \<open>The choice of \<open>DrawBootMenu\<close> without the user: the only entry, or after a time-out the first that is
  marked, or the first. \<open>None\<close>: the menu is shown.\<close>

definition boot_choice :: "bool \<Rightarrow> CONFIGENTRY list \<Rightarrow> CONFIGENTRY option" where
  "boot_choice timedOut es =
     (if tl es = [] then Some (hd es)
      else if timedOut then (case find (\<lambda>e. isDefault e \<noteq> 0) es of Some e \<Rightarrow> Some e | None \<Rightarrow> Some (hd es))
      else None)"

end
