(* ===== verification/FatxFiles.thy ===== *)
theory FatxFiles
  imports FatxCorrect
begin

text \<open>
  FATX as its callers see it: what \<open>OpenFATXPartition\<close> makes of a disk with the FATX letters
  (\<open>opened_partition\<close>), when a path names a file with a given content (\<open>file_on\<close>), and that the two
  loaders of \<open>fs/fatx/BootFATX.c\<close> then give this content. The start of Linux rests on these facts only.
\<close>

definition opened_partition :: "u32 \<Rightarrow> u32 \<Rightarrow> u64 \<Rightarrow> (u32 \<Rightarrow> bytes) \<Rightarrow> FATXPartition" where
  "opened_partition drv offset sz f =
     (let count = ucast (sz div 0x4000); tableSize = chain_table_size count
      in \<lparr>nDriveIndex = drv, partitionStart = ucast offset, partitionSize = sz, clusterSize = 0x4000, clusterCount = count,
          chainMapEntrySize = chain_entry_size count, clusterChainMap = sectors f (offset + 8) (unat tableSize),
          cluster1Address = ucast (of_nat FATX_PARTITION_HEADERSIZE + tableSize)\<rparr>)"

definition file_on :: "FATXPartition \<Rightarrow> nat \<Rightarrow> (u32 \<Rightarrow> bytes) \<Rightarrow> bytes \<Rightarrow> bytes \<Rightarrow> bool" where
  "file_on p n f path content \<longleftrightarrow>
     (case resolve p n f (path_components path) FATX_ROOT_FAT_CLUSTER of
        Some (Some (c, sz)) \<Rightarrow>
          (case chain p n c of
             Some cs \<Rightarrow> unat sz \<le> length (chain_bytes p f cs) \<and> content = take (unat sz) (chain_bytes p f cs)
           | None \<Rightarrow> False)
      | _ \<Rightarrow> False)"

lemma wf_opened: "wf_partition (opened_partition drv offset sz f)"
  using cluster1_aligned by (simp add: opened_partition_def wf_partition_def Let_def chain_entry_size_def)

context sector_source
begin

lemma OpenFATXPartition_eq:
  assumes "ready d" and "\<And>k. length (uninit k) = k" and "take 4 (img d offset) = [0x46, 0x41, 0x54, 0x58]"
  shows "\<exists>d'. OpenFATXPartition rd uninit drv offset sz d = Some (Some (opened_partition drv offset sz (img d)), d')
    \<and> ready d' \<and> img d' = img d"
proof -
  let ?count = "ucast (sz div 0x4000) :: u32" and ?ts = "chain_table_size (ucast (sz div 0x4000))"
  obtain d1 where r1: "FATXRawRead rd drv offset 0 FATX_PARTITION_HEADERSIZE (uninit FATX_PARTITION_HEADERSIZE) d =
      Some (FATX_PARTITION_HEADERSIZE, sectors (img d) offset FATX_PARTITION_HEADERSIZE, d1)"
    and d1: "ready d1" "img d1 = img d"
    using FATXRawRead_reads [OF assms(1), of FATX_PARTITION_HEADERSIZE "uninit FATX_PARTITION_HEADERSIZE" 0 offset]
      assms(2) by auto
  have "sectors (img d) offset FATX_PARTITION_HEADERSIZE =
      img d offset @ sectors (img d) (offset + 1) (FATX_PARTITION_HEADERSIZE - 512)"
    using sector_length [OF assms(1)] by (subst sectors.simps) simp
  moreover have "img d offset = [0x46, 0x41, 0x54, 0x58] @ drop 4 (img d offset)"
    using assms(3) append_take_drop_id [of 4 "img d offset"] by simp
  ultimately have "le32_at (sectors (img d) offset FATX_PARTITION_HEADERSIZE) 0 = Some FATX_PARTITION_MAGIC"
    by (metis append.assoc append_Cons le32_at_magic append_Nil)
  moreover have "of_nat FATX_PARTITION_HEADERSIZE mod 512 = (0 :: u64)" by simp
  then obtain d2 where "FATXRawRead rd drv offset (of_nat FATX_PARTITION_HEADERSIZE) (unat ?ts) (uninit (unat ?ts)) d1 =
      Some (unat ?ts, sectors (img d) (offset + 8) (unat ?ts), d2)" "ready d2" "img d2 = img d"
    using FATXRawRead_reads [OF d1(1), of "unat ?ts" "uninit (unat ?ts)" "of_nat FATX_PARTITION_HEADERSIZE" offset]
      assms(2) d1(2) by auto
  ultimately show ?thesis
    using r1 by (auto simp: OpenFATXPartition_def opened_partition_def Let_def)
qed

lemma FATXLoadFromDisk_fills:
  assumes "ready d" and "wf_partition p" and "nDriveIndex p = drv" and "length buf = clusterSize p"
    and "chain p n (fi_clusterId fi) = Some cs" and "unat (fi_fileSize fi) \<le> length (fi_buffer fi)"
  shows "\<exists>got d'. FATXLoadFromDisk rd p n buf fi d =
      Some (unat (fi_fileSize fi) \<le> length (chain_bytes p (img d) cs),
        fi\<lparr>fi_fileRead := got, fi_buffer := take (unat (fi_fileSize fi)) (chain_bytes p (img d) cs)
            @ drop (min (unat (fi_fileSize fi)) (length (chain_bytes p (img d) cs))) (fi_buffer fi)\<rparr>, d')
    \<and> ready d' \<and> img d' = img d"
proof -
  let ?w = "min (unat (fi_fileSize fi)) (length (chain_bytes p (img d) cs))"
  have "unat (0 :: u32) + unat (fi_fileSize fi) < 2 ^ 32" using unat_lt_u32 [of "fi_fileSize fi"] by simp
  from load_chain_reads [OF assms(1-5), of 0 "fi_fileSize fi" "fi_buffer fi", OF _ this] assms(6)
  obtain left got d' where "load_chain rd p n (fi_clusterId fi) (fi_fileSize fi) 0 (fi_buffer fi) buf d =
      Some (left, got, take ?w (chain_bytes p (img d) cs) @ drop ?w (fi_buffer fi), d')"
    and left: "unat left = unat (fi_fileSize fi) - ?w" and d': "ready d'" "img d' = img d"
    by auto
  moreover have "left = 0 \<longleftrightarrow> unat left = 0" by (simp add: unat_eq_zero)
  then have "left = 0 \<longleftrightarrow> unat (fi_fileSize fi) \<le> length (chain_bytes p (img d) cs)"
    using left by auto
  ultimately show ?thesis
    using d' by (auto simp: FATXLoadFromDisk_def min_def)
qed

lemma LoadFATXFilefixed_loads:
  assumes "ready d" and "wf_partition p" and "nDriveIndex p = drv" and "length stk = clusterSize p"
    and "0 \<notin> set s" and "length (fi_filename fi) = 44" and "file_on p n (img d) s content"
    and "length content \<le> length Position"
  shows "\<exists>fi' d'. LoadFATXFilefixed rd (Some p) n stk (s @ 0 # r) fi Position d = Some (True, fi', d')
    \<and> fi_buffer fi' = content @ drop (length content) Position \<and> unat (fi_fileSize fi') = length content
    \<and> ready d' \<and> img d' = img d"
proof -
  obtain c sz cs where f: "resolve p n (img d) (path_components s) FATX_ROOT_FAT_CLUSTER = Some (Some (c, sz))"
    "chain p n c = Some cs" "unat sz \<le> length (chain_bytes p (img d) cs)"
    and content: "content = take (unat sz) (chain_bytes p (img d) cs)"
    using assms(7) by (auto simp: file_on_def split: option.splits)
  have sz: "unat sz = length content" using f(3) by (simp add: content)
  obtain fi1 d1 where find: "FATXFindFile rd p n stk (s @ 0 # r) FATX_ROOT_FAT_CLUSTER fi d =
      Some (True, map slash s @ 0 # r, fi1, d1)"
    and fi1: "fi_clusterId fi1 = c" "fi_fileSize fi1 = sz" and d1: "ready d1" "img d1 = img d"
    using FATXFindFile_resolves [OF assms(1-6) f(1), of r] by (auto simp: found_file_def)
  let ?buf = "replicate (unat sz) 0xff @ drop (unat sz) Position"
  have buf: "memset Position 0xff (unat sz) = Some ?buf"
    using assms(8) by (simp add: memset_def put_bytes_def sz)
  let ?fi = "fi1\<lparr>fi_buffer := ?buf\<rparr>"
  have "unat (fi_fileSize ?fi) \<le> length (fi_buffer ?fi)" by (simp add: fi1)
  from FATXLoadFromDisk_fills [OF d1(1) assms(2-4) _ this, of n cs] f(2) obtain got d2 where
    "FATXLoadFromDisk rd p n stk ?fi d1 = Some (unat sz \<le> length (chain_bytes p (img d1) cs),
        ?fi\<lparr>fi_fileRead := got, fi_buffer := take (unat sz) (chain_bytes p (img d1) cs)
            @ drop (min (unat sz) (length (chain_bytes p (img d1) cs))) ?buf\<rparr>, d2)"
    "ready d2" "img d2 = img d1"
    by (auto simp: fi1)
  then show ?thesis
    using find fi1 buf d1 f(3) assms(8) by (auto simp: LoadFATXFilefixed_def content min_def)
qed

end

end
