(* ===== verification/LinuxCorrect.thy ===== *)
theory LinuxCorrect
  imports LoadLinux FatxFiles
begin

text \<open>
  What Linux finds: the kernel where it is entered, the RAM disk and the command line where the boot
  parameters say, and a map of the memory without holes or overlaps.
\<close>

section \<open>The kernel in place\<close>

lemma load_store_bytes:
  assumes "load_bytes m a N = f" and "i + n \<le> N" and "j = of_nat i"
  shows "load_bytes m (a + j) n = slice i n f"
  unfolding assms(3) by (rule load_slice [OF assms(1,2)])

lemma kernel_header_size_unat: "unat (kernel_header_size b) = (unat b + 1) * 512"
proof -
  define x where "x = (ucast b + 1 :: u32)"
  have x: "unat x = unat b + 1"
    using unat_lt_u8 [of b] by (simp add: x_def unat_word_ariths unsigned_ucast_eq take_bit_nat_eq_self)
  have "unat (x * 512) = unat x * 512" using unat_lt_u8 [of b] by (simp add: unat_word_ariths x)
  then show ?thesis by (simp only: kernel_header_size_def x_def [symmetric] x)
qed

lemma memPlaceKernel_places:
  assumes "load_bytes m INITRD_START (length K) = K" and "0x1f1 < length K"
    and "hdr = (unat (K ! 0x1f1) + 1) * 512" and "hdr \<le> length K" and "length K \<le> 0x2100000"
    and "unat sz = length K"
  shows "\<exists>m'. memPlaceKernel INITRD_START sz m = Some m'
    \<and> load_bytes m' KERNEL_SETUP hdr = take hdr K \<and> load_bytes m' KERNEL_PM_CODE (length K - hdr) = drop hdr K
    \<and> (\<forall>a n. unat a + n \<le> 0x90000 \<or> 0x100000 + (length K - hdr) \<le> unat a \<and> unat a + n \<le> 2 ^ 32
         \<longrightarrow> load_bytes m' a n = load_bytes m a n)"
proof -
  have hdr: "hdr \<le> 0x20000" using unat_lt_u8 [of "K ! 0x1f1"] by (simp add: assms(3))
  have "m (INITRD_START + 0x1f1) = load_bytes m INITRD_START (length K) ! 0x1f1"
    using assms(2) by (simp add: nth_load)
  then have byte: "m (INITRD_START + 0x1f1) = K ! 0x1f1" by (simp only: assms(1))
  define h where "h = kernel_header_size (K ! 0x1f1)"
  have h: "unat h = hdr" by (simp add: h_def kernel_header_size_unat assms(3))
  have h_nat: "h = of_nat hdr" unfolding h [symmetric] by simp
  have rest: "unat (sz - h) = length K - hdr"
    using assms(4,6) h by (simp add: unat_sub word_le_nat_alt)
  have start: "load_bytes m INITRD_START hdr = take hdr K"
    using load_slice [OF assms(1), of 0 hdr] assms(4) by (simp add: slice_def)
  let ?m1 = "store_bytes KERNEL_SETUP (take hdr K) m"
  have c1: "mem_copy KERNEL_SETUP INITRD_START h m = Some ?m1"
  proof -
    have "h \<le> KERNEL_SETUP - INITRD_START" using hdr h by (simp add: word_le_nat_alt)
    then show ?thesis by (simp add: mem_copy_def h start)
  qed
  have K1: "load_bytes ?m1 INITRD_START (length K) = K"
    using assms(1,5) hdr by (subst load_store_apart) auto
  have u: "unat (INITRD_START + h) = 0x900000 + hdr" using hdr h by (simp add: unat_word_ariths)
  have src: "load_bytes ?m1 (INITRD_START + h) (length K - hdr) = drop hdr K"
    using load_slice [OF K1, of hdr "length K - hdr"] assms(4) by (simp add: h_nat slice_def)
  let ?m2 = "store_bytes KERNEL_PM_CODE (drop hdr K) ?m1"
  have c2: "mem_copy KERNEL_PM_CODE (INITRD_START + h) (sz - h) ?m1 = Some ?m2"
  proof -
    have "unat (KERNEL_PM_CODE - (INITRD_START + h)) = 2 ^ 32 - 0x800000 - hdr"
      using u hdr h by (simp add: unat_sub_if_size word_size)
    then have "sz - h \<le> KERNEL_PM_CODE - (INITRD_START + h)"
      using rest assms(5) hdr by (simp add: word_le_nat_alt)
    then show ?thesis by (simp add: mem_copy_def rest src)
  qed
  have "memPlaceKernel INITRD_START sz m = Some ?m2"
    using c1 c2 byte by (simp add: memPlaceKernel_def Let_def flip: h_def)
  moreover have "load_bytes ?m2 KERNEL_SETUP hdr = take hdr K"
    using load_store_same [of "take hdr K" KERNEL_SETUP m] hdr assms(4,5) by (subst load_store_apart) auto
  moreover have "load_bytes ?m2 KERNEL_PM_CODE (length K - hdr) = drop hdr K"
    using load_store_same [of "drop hdr K" KERNEL_PM_CODE ?m1] assms(5) by simp
  moreover have "load_bytes ?m2 a n = load_bytes m a n"
    if "unat a + n \<le> 0x90000 \<or> 0x100000 + (length K - hdr) \<le> unat a \<and> unat a + n \<le> 2 ^ 32" for a n
  proof -
    have len: "length (take hdr K) = hdr" "length (drop hdr K) = length K - hdr" using assms(4) by simp_all
    have ends: "unat a + n \<le> 2 ^ 32" "unat a + n \<le> 0x90000 \<or> 0x100000 \<le> unat a"
      using that by auto
    have "load_bytes ?m2 a n = load_bytes ?m1 a n"
      using that assms(4,5) by (intro load_store_apart [OF ends(1)]) (auto simp: len)
    also have "\<dots> = load_bytes m a n"
      using ends hdr assms(4) by (intro load_store_apart [OF ends(1)]) (auto simp: len)
    finally show ?thesis .
  qed
  ultimately show ?thesis by blast
qed

text \<open>A size of -1, which is what a file that is not there counts as: the copy of the kernel overruns
  itself.\<close>

lemma memPlaceKernel_huge: "memPlaceKernel INITRD_START (- 1) m = None"
proof (cases "mem_copy KERNEL_SETUP INITRD_START (kernel_header_size (m 0x9001f1)) m")
  case (Some m1)
  define h where "h = kernel_header_size (m 0x9001f1)"
  have h: "unat h \<le> 0x20000" "0 < unat h"
    using unat_lt_u8 [of "m 0x9001f1"] by (simp_all add: h_def kernel_header_size_unat)
  have u: "unat (INITRD_START + h) = 0x900000 + unat h" using h by (simp add: unat_word_ariths)
  have gap: "unat (KERNEL_PM_CODE - (INITRD_START + h)) = 2 ^ 32 - 0x800000 - unat h"
    using u h by (simp add: unat_sub_if_size word_size)
  have "unat (- 1 - h) = 2 ^ 32 - 1 - unat h"
    using h by (simp add: unat_sub_if_size word_size unsigned_minus_1_eq_mask mask_eq_exp_minus_1)
  then have "\<not> - 1 - h \<le> KERNEL_PM_CODE - (INITRD_START + h)"
    using gap h by (simp add: word_le_nat_alt)
  moreover have "unat KERNEL_PM_CODE \<noteq> unat (INITRD_START + h)" using u by simp
  then have "KERNEL_PM_CODE \<noteq> INITRD_START + h" by (rule contrapos_nn) (rule arg_cong)
  ultimately have "mem_copy KERNEL_PM_CODE (INITRD_START + h) (- 1 - h) m1 = None"
    by (simp add: mem_copy_def)
  then show ?thesis using Some by (simp add: memPlaceKernel_def Let_def flip: h_def)
qed (simp add: memPlaceKernel_def Let_def)

section \<open>The parameters\<close>

definition load64 :: "memory \<Rightarrow> u32 \<Rightarrow> u64" where
  "load64 m a = ucast (load32 m a) OR push_bit 32 (ucast (load32 m (a + 4)))"

text \<open>The map of the memory as the kernel reads it: so many entries of a start, a length and a type.\<close>

definition e820_map :: "memory \<Rightarrow> (u64 \<times> u64 \<times> u32) list" where
  "e820_map m = map (\<lambda>i. let a = KERNEL_SETUP + 0x2d0 + of_nat (20 * i) in (load64 m a, load64 m (a + 8), load32 m (a + 16)))
     [0..<unat (m (KERNEL_SETUP + 0x1e8))]"

text \<open>Regions that follow each other without a hole or an overlap.\<close>

fun seamless :: "u64 \<Rightarrow> (u64 \<times> u64 \<times> u32) list \<Rightarrow> u64 \<Rightarrow> bool" where
  "seamless a [] b \<longleftrightarrow> a = b"
| "seamless a ((s, n, t) # r) b \<longleftrightarrow> a = s \<and> s \<le> s + n \<and> seamless (s + n) r b"

lemma load64_bytes:
  assumes "load_bytes m a 8 = le64_bytes w"
  shows "load64 m a = w"
proof -
  have "load_bytes m a 4 = slice 0 4 (le64_bytes w)" "load_bytes m (a + 4) 4 = slice 4 4 (le64_bytes w)"
    using load_slice [OF assms, of 0 4] load_slice [OF assms, of 4 4] by simp_all
  then have "load32 m a = ucast w" "load32 m (a + 4) = ucast (drop_bit 32 w)"
    by (auto intro!: load32_bytes simp: le64_bytes_def slice_def)
  then show ?thesis by (auto simp: load64_def intro!: bit_word_eqI simp: bit_simps dest: bit_imp_le_length)
qed

text \<open>What the stores of \<open>setup\<close> leave in the fields.\<close>

lemma length_le64_bytes [simp]: "length (le64_bytes w) = 8" "length (le16_bytes v) = 2"
  by (simp_all add: le64_bytes_def le16_bytes_def)

lemma setup_range:
  "\<forall>(p, bs)\<in>set (rev (setup_fields ram w h pos sz)). p + length bs \<le> 0x320 \<and> bs \<noteq> []"
  by (auto simp: setup_fields_def setup_fields_1_def setup_fields_2_def setup_ramdisk_def setup_video_def Let_def
      le16_bytes_def le32_bytes_def le64_bytes_def)

lemma setup_written:
  "last_write (rev (setup_fields ram w h pos sz)) 0x1e8 1 = Some [4]"
  "last_write (rev (setup_fields ram w h pos sz)) 0x2d0 8 = Some (le64_bytes 0)"
  "last_write (rev (setup_fields ram w h pos sz)) 0x2d8 8 = Some (le64_bytes 0x9f000)"
  "last_write (rev (setup_fields ram w h pos sz)) 0x2e0 4 = Some (le32_bytes 1)"
  "last_write (rev (setup_fields ram w h pos sz)) 0x2e4 8 = Some (le64_bytes 0x9f000)"
  "last_write (rev (setup_fields ram w h pos sz)) 0x2ec 8 = Some (le64_bytes 0x61000)"
  "last_write (rev (setup_fields ram w h pos sz)) 0x2f4 4 = Some (le32_bytes 2)"
  "last_write (rev (setup_fields ram w h pos sz)) 0x2f8 8 = Some (le64_bytes 0x100000)"
  "last_write (rev (setup_fields ram w h pos sz)) 0x300 8 = Some (le64_bytes (ucast ((ram - 1) * 1024 * 1024 - FB_SIZE)))"
  "last_write (rev (setup_fields ram w h pos sz)) 0x308 4 = Some (le32_bytes 1)"
  "last_write (rev (setup_fields ram w h pos sz)) 0x30c 8 = Some (le64_bytes (ucast (ram * 1024 * 1024 - FB_SIZE)))"
  "last_write (rev (setup_fields ram w h pos sz)) 0x314 8 = Some (le64_bytes (ucast FB_SIZE))"
  "last_write (rev (setup_fields ram w h pos sz)) 0x31c 4 = Some (le32_bytes 2)"
  "last_write (rev (setup_fields ram w h pos sz)) 0x214 4 = Some (le32_bytes KERNEL_PM_CODE)"
  "last_write (rev (setup_fields ram w h pos sz)) 0x228 4 = Some (le32_bytes CMD_LINE_LOC)"
  "sz \<noteq> 0 \<Longrightarrow> last_write (rev (setup_fields ram w h pos sz)) 0x218 4 = Some (le32_bytes pos)"
  "sz \<noteq> 0 \<Longrightarrow> last_write (rev (setup_fields ram w h pos sz)) 0x21c 4 = Some (le32_bytes sz)"
  by (simp_all add: setup_fields_def setup_fields_1_def setup_fields_2_def setup_ramdisk_def setup_video_def Let_def slice_def)


lemma strncpy_bytes_string:
  "0 \<notin> set s \<Longrightarrow> strncpy_bytes (s @ 0 # r) n = Some (take n s @ replicate (n - length s) 0)"
proof (induction s arbitrary: n)
  case Nil
  then show ?case by (cases n) auto
next
  case (Cons b s)
  then show ?case by (cases n) auto
qed

lemma load_append: "load_bytes m a (n + k) = load_bytes m a n @ load_bytes m (a + of_nat n) k"
  by (rule nth_equalityI) (auto simp: load_bytes_def nth_append add.assoc)

definition e820_regions :: "u32 \<Rightarrow> (u64 \<times> u64 \<times> u32) list" where
  "e820_regions ram =
     [(0, 0x9f000, 1), (0x9f000, 0x61000, 2), (0x100000, ucast ((ram - 1) * 1024 * 1024 - FB_SIZE), 1),
      (ucast (ram * 1024 * 1024 - FB_SIZE), ucast FB_SIZE, 2)]"

definition setup_patched :: "u32 \<Rightarrow> u32 \<Rightarrow> u32 \<Rightarrow> u32 \<Rightarrow> u32 \<Rightarrow> memory \<Rightarrow> memory" where
  "setup_patched ram w h pos sz m = patch KERNEL_SETUP (rev (setup_fields ram w h pos sz)) m"

lemma setup_field:
  assumes "last_write (rev (setup_fields ram w h pos sz)) off n = Some v" and "off + n \<le> 0x320" and "0 < n"
    and "length line = 512"
  shows "load_bytes (store_bytes (CMD_LINE_LOC + 511) [0] (store_bytes CMD_LINE_LOC line (setup_patched ram w h pos sz m)))
    (KERNEL_SETUP + of_nat off) n = v"
proof -
  let ?m = "setup_patched ram w h pos sz m" and ?a = "KERNEL_SETUP + of_nat off"
  have u: "unat ?a = 0x90000 + off"
    using unat_base_offset [of KERNEL_SETUP "0x320" off] assms(2,3) by simp
  have "load_bytes (store_bytes (CMD_LINE_LOC + 511) [0] (store_bytes CMD_LINE_LOC line ?m)) ?a n = load_bytes ?m ?a n"
    using assms(2-4) u by (simp add: load_store_apart)
  also have "\<dots> = v"
    unfolding setup_patched_def
    by (rule load_patch [OF setup_range _ assms(2,3,1)]) simp
  finally show ?thesis .
qed

lemma setup_kernel_parameters:
  assumes "0 \<notin> set s" and "ram = 64 \<or> ram = 128"
  shows "\<exists>m'. setup_kernel ram w h KERNEL_SETUP pos sz (s @ 0 # r) m = Some m'
    \<and> e820_map m' = e820_regions ram \<and> seamless 0 (e820_map m') (ucast (ram * 1024 * 1024))
    \<and> load32 m' (KERNEL_SETUP + 0x214) = KERNEL_PM_CODE
    \<and> (sz \<noteq> 0 \<longrightarrow> load32 m' (KERNEL_SETUP + 0x218) = pos \<and> load32 m' (KERNEL_SETUP + 0x21c) = sz)
    \<and> load32 m' (KERNEL_SETUP + 0x228) = CMD_LINE_LOC \<and> load_bytes m' CMD_LINE_LOC (min 511 (length s) + 1) = take 511 s @ [0]
    \<and> (\<forall>a n. unat a + n \<le> 0x90000 \<or> 0x90a00 \<le> unat a \<and> unat a + n \<le> 2 ^ 32
         \<longrightarrow> load_bytes m' a n = load_bytes m a n)"
proof -
  let ?line = "take 512 s @ replicate (512 - length s) 0"
  let ?m1 = "setup_patched ram w h pos sz m"
  let ?m2 = "store_bytes CMD_LINE_LOC ?line ?m1"
  let ?m' = "store_bytes (CMD_LINE_LOC + 511) [0] ?m2"
  have len: "length ?line = 512" by simp
  have run: "setup_kernel ram w h KERNEL_SETUP pos sz (s @ 0 # r) m = Some ?m'"
    using strncpy_bytes_string [OF assms(1), of r 512] by (simp add: setup_kernel_def setup_patched_def)
  note field = setup_field [OF _ _ _ len, where ram = ram and w = w and h = h and pos = pos and sz = sz and m = m]
  have count: "?m' (KERNEL_SETUP + 0x1e8) = 4"
    using field [OF setup_written(1)] by (simp add: load_bytes_def)
  have f64: "last_write (rev (setup_fields ram w h pos sz)) off 8 = Some (le64_bytes v) \<Longrightarrow> off + 8 \<le> 0x320 \<Longrightarrow>
      load64 ?m' (KERNEL_SETUP + of_nat off) = v" for off v
    by (rule load64_bytes) (rule field, simp_all)
  have f32: "last_write (rev (setup_fields ram w h pos sz)) off 4 = Some (le32_bytes v) \<Longrightarrow> off + 4 \<le> 0x320 \<Longrightarrow>
      load32 ?m' (KERNEL_SETUP + of_nat off) = v" for off v
    by (rule load32_bytes) (rule field, simp_all)
  have map: "e820_map ?m' = e820_regions ram"
    using f64 [OF setup_written(2)] f64 [OF setup_written(3)] f32 [OF setup_written(4)]
      f64 [OF setup_written(5)] f64 [OF setup_written(6)] f32 [OF setup_written(7)]
      f64 [OF setup_written(8)] f64 [OF setup_written(9)] f32 [OF setup_written(10)]
      f64 [OF setup_written(11)] f64 [OF setup_written(12)] f32 [OF setup_written(13)] count
    by (simp add: e820_map_def e820_regions_def upt_rec Let_def)
  have cmd: "load32 ?m' (KERNEL_SETUP + 0x228) = CMD_LINE_LOC"
    using f32 [OF setup_written(15)] by simp
  have line: "load_bytes ?m' CMD_LINE_LOC (min 511 (length s) + 1) = take 511 s @ [0]"
  proof -
    have "load_bytes ?m' CMD_LINE_LOC 511 = take 511 ?line"
      using load_store_inside [of CMD_LINE_LOC ?line 0 511 ?m1] by (simp add: load_store_apart slice_def)
    moreover have "load_bytes ?m' (CMD_LINE_LOC + 511) 1 = [0]"
      using load_store_same [of "[0]" "CMD_LINE_LOC + 511" ?m2] by simp
    ultimately have "load_bytes ?m' CMD_LINE_LOC 512 = take 511 ?line @ [0]"
      using load_append [of ?m' CMD_LINE_LOC 511 1] by simp
    then have "load_bytes ?m' CMD_LINE_LOC 512 = take 511 s @ 0 # replicate (511 - length s) 0"
      by (simp add: min_def replicate_append_same)
    from load_slice [OF this, of 0 "min 511 (length s) + 1"] show ?thesis
      by (simp add: slice_def min_def)
  qed
  have else_: "load_bytes ?m' a n = load_bytes m a n"
    if "unat a + n \<le> 0x90000 \<or> 0x90a00 \<le> unat a \<and> unat a + n \<le> 2 ^ 32" for a n
  proof -
    have "load_bytes ?m' a n = load_bytes ?m1 a n"
      using that by (auto simp: load_store_apart)
    also have "\<dots> = load_bytes m a n"
      unfolding setup_patched_def
      by (rule load_patch_apart [where k = "0x320"]) (use setup_range [of ram w h pos sz] that in auto)
    finally show ?thesis .
  qed
  have "seamless 0 (e820_map ?m') (ucast (ram * 1024 * 1024))"
    using assms(2) unfolding map by (auto simp: e820_regions_def)
  moreover have "load32 ?m' (KERNEL_SETUP + 0x214) = KERNEL_PM_CODE" using f32 [OF setup_written(14)] by simp
  moreover have "sz \<noteq> 0 \<longrightarrow> load32 ?m' (KERNEL_SETUP + 0x218) = pos \<and> load32 ?m' (KERNEL_SETUP + 0x21c) = sz"
    using f32 [OF setup_written(16)] f32 [OF setup_written(17)] by simp
  ultimately show ?thesis using run map cmd line else_ by (intro exI [of _ ?m']) simp
qed

text \<open>C26. The parameters are within bounds: \<open>setup\<close> writes nothing outside its page, from the parameters at
  \<open>KERNEL_SETUP\<close> to the end of the command line, which holds at most 511 characters and their zero; and
  the regions it declares cover the memory of the machine from 0 up, without a hole and without an
  overlap, the frame buffer and the area of the BIOS reserved.\<close>

theorem setup_kernel_bounds:
  assumes "0 \<notin> set s" and "ram = 64 \<or> ram = 128"
  shows "\<exists>m'. setup_kernel ram w h KERNEL_SETUP pos sz (s @ 0 # r) m = Some m'
    \<and> (\<forall>a n. unat a + n \<le> 0x90000 \<or> 0x90a00 \<le> unat a \<and> unat a + n \<le> 2 ^ 32
         \<longrightarrow> load_bytes m' a n = load_bytes m a n)
    \<and> load_bytes m' CMD_LINE_LOC (min 511 (length s) + 1) = take 511 s @ [0]
    \<and> e820_map m' = e820_regions ram \<and> seamless 0 (e820_map m') (ucast (ram * 1024 * 1024))"
  using setup_kernel_parameters [OF assms, of w h pos sz r m] by blast

theorem setup_kernel_bounds_witness:
  "\<exists>m'. setup_kernel 64 640 480 KERNEL_SETUP INITRD_START 4 ([0x72, 0x6f] @ 0 # []) (\<lambda>_. 0) = Some m'
    \<and> load_bytes m' CMD_LINE_LOC (min 511 (length [0x72, 0x6f :: u8]) + 1) = take 511 [0x72, 0x6f] @ [0]
    \<and> seamless 0 (e820_map m') (ucast ((64 :: u32) * 1024 * 1024))"
proof -
  have "0 \<notin> set [0x72, 0x6f :: u8]" "(64 :: u32) = 64 \<or> (64 :: u32) = 128" by simp_all
  from setup_kernel_bounds [OF this, of 640 480 INITRD_START 4 "[]" "\<lambda>_. 0"] show ?thesis by blast
qed

lemma e820_map_cong:
  assumes "\<And>a. unat a < 0xB0000 \<Longrightarrow> m a = m' a"
  shows "e820_map m = e820_map m'"
proof -
  have near: "m (KERNEL_SETUP + of_nat k) = m' (KERNEL_SETUP + of_nat k)" if "k < 0x2000" for k
    using that by (intro assms) (simp add: unat_word_ariths unat_of_nat_u32)
  have word: "load32 m (KERNEL_SETUP + of_nat k) = load32 m' (KERNEL_SETUP + of_nat k)" if "k < 0x1ff0" for k
    using that near [of k] near [of "k + 1"] near [of "k + 2"] near [of "k + 3"]
    by (simp add: load32_def add.assoc)
  have long: "load64 m (KERNEL_SETUP + of_nat k) = load64 m' (KERNEL_SETUP + of_nat k)" if "k < 0x1fe0" for k
    using that word [of k] word [of "k + 4"] by (simp add: load64_def add.assoc)
  have n: "m (KERNEL_SETUP + 0x1e8) = m' (KERNEL_SETUP + 0x1e8)" by (rule assms) simp
  show ?thesis
    unfolding e820_map_def n Let_def
  proof (rule map_cong [OF refl])
    fix i assume "i \<in> set [0..<unat (m' (KERNEL_SETUP + 0x1e8))]"
    then have i: "i < 256" using unat_lt_u8 [of "m' (KERNEL_SETUP + 0x1e8)"] by simp
    show "(load64 m (KERNEL_SETUP + 0x2d0 + of_nat (20 * i)), load64 m (KERNEL_SETUP + 0x2d0 + of_nat (20 * i) + 8),
          load32 m (KERNEL_SETUP + 0x2d0 + of_nat (20 * i) + 16))
        = (load64 m' (KERNEL_SETUP + 0x2d0 + of_nat (20 * i)), load64 m' (KERNEL_SETUP + 0x2d0 + of_nat (20 * i) + 8),
          load32 m' (KERNEL_SETUP + 0x2d0 + of_nat (20 * i) + 16))"
      using i long [of "0x2d0 + 20 * i"] long [of "0x2d8 + 20 * i"] word [of "0x2e0 + 20 * i"]
      by (simp add: algebra_simps)
  qed
qed

end
