(* ===== verification/LinuxBoot.thy ===== *)
theory LinuxBoot
  imports LinuxCorrect ParserCorrect
begin

text \<open>
  Booting from the FATX partition. The locale \<open>boot_machine\<close> states what the loader relies on: services
  that return (front LED, PIC, waits), a sector reader that gives the sectors of the disk, and drives that
  take a transfer mode. Under it the configuration is read, the kernel and the RAM disk are loaded where
  Linux expects them, and the kernel is entered as \<open>starts_linux\<close> says.
\<close>

abbreviation "disk_E f \<equiv> opened_partition 0 SECTOR_STORE STORE_SIZE f"

text \<open>What a kernel finds when it is entered with the registers \<open>r\<close>: its code, that is the file behind the
  header of \<open>hdr\<close> bytes; in the parameters the RAM disk, the command line and the map of the memory.\<close>

definition starts_linux :: "entry \<Rightarrow> memory \<Rightarrow> nat \<Rightarrow> bytes \<Rightarrow> bytes \<Rightarrow> bytes \<Rightarrow> u32 \<Rightarrow> bool" where
  "starts_linux r m hdr K I line ram \<longleftrightarrow>
     load_bytes m (eip r) (length K - hdr) = drop hdr K
     \<and> load_bytes m (load32 m (esi r + 0x218)) (length I) = I
     \<and> load32 m (esi r + 0x21c) = of_nat (length I)
     \<and> load_bytes m (load32 m (esi r + 0x228)) (min 511 (length line) + 1) = take 511 line @ [0]
     \<and> e820_map m = e820_regions ram"

text \<open>The configuration of the partition: the entries of \<open>linuxboot.cfg\<close>, if the block behind the file's
  buffer holds a zero in its second byte.\<close>

definition linuxboot_cfg :: bytes where
  "linuxboot_cfg = butlast path_E"

lemma linuxboot_path: "path_E = linuxboot_cfg @ [0]" "0 \<notin> set linuxboot_cfg"
  by (simp_all add: path_E_def linuxboot_cfg_def)

locale services =
  fixes mc :: "'d machine" and img :: "'d \<Rightarrow> 'i" and ready :: "'d \<Rightarrow> bool"
  assumes led_set: "ready d \<Longrightarrow> pattern \<in> {busyLED, errorLED, goodLED, highLED} \<Longrightarrow>
      \<exists>d'. led mc pattern d = Some d' \<and> ready d' \<and> img d' = img d"
    and pic_told: "ready d \<Longrightarrow> \<exists>d'. pic_word mc w d = Some d' \<and> ready d' \<and> img d' = img d"
    and waited: "ready d \<Longrightarrow> ready (wait_ms mc t d) \<and> img (wait_ms mc t d) = img d"
begin

lemma dots_waited: "ready d \<Longrightarrow> ready (dots mc d) \<and> img (dots mc d) = img d"
  using waited by (simp add: dots_def)

end

locale leaving = services +
  fixes info :: "tsHarddiskInfo list"
  assumes usb_stopped: "ready d \<Longrightarrow> ready (mc_stop_usb mc d) \<and> img (mc_stop_usb mc d) = img d"
    and disk_known: "drive_info info 0 \<noteq> None"
    and mode_set: "ready d \<Longrightarrow> drv = 0 \<or> drv = 1 \<Longrightarrow>
      \<exists>e d'. BootIdeSetTransferMode (mc_ports mc) (mc_fuel mc) info drv mode d = Some (e, d') \<and> ready d' \<and> img d' = img d"
begin

lemma ExittoLinux_enters:
  assumes "ready d" and "0 \<notin> set line" and "szAppend config = line @ 0 # r"
    and "xbox_ram vmode = 64 \<or> xbox_ram vmode = 128"
  obtains m' d' where "ExittoLinux mc info vmode config s d = Some (kernel_entry, m', d')"
    and "e820_map m' = e820_regions (xbox_ram vmode)"
    and "dwInitrdSize s \<noteq> 0 \<Longrightarrow> load32 m' (KERNEL_SETUP + 0x218) = INITRD_START
      \<and> load32 m' (KERNEL_SETUP + 0x21c) = dwInitrdSize s"
    and "load_bytes m' (load32 m' (KERNEL_SETUP + 0x228)) (min 511 (length line) + 1) = take 511 line @ [0]"
    and "\<And>a n. 0x100000 \<le> unat a \<and> unat a + n \<le> 0x4000000 \<Longrightarrow> load_bytes m' a n = load_bytes (mem s) a n"
proof -
  obtain d1 where l1: "led mc busyLED d = Some d1" and d1: "ready d1"
    using led_set [OF assms(1), of busyLED] by auto
  obtain d2 where l2: "led mc highLED d1 = Some d2" and d2: "ready d2"
    using led_set [OF d1, of highLED] by auto
  obtain m1 where set_up: "setup_kernel (xbox_ram vmode) (width vmode) (height vmode) KERNEL_SETUP INITRD_START
      (dwInitrdSize s) (szAppend config) (mem s) = Some m1"
    and map: "e820_map m1 = e820_regions (xbox_ram vmode)"
    and disk: "dwInitrdSize s \<noteq> 0 \<Longrightarrow> load32 m1 (KERNEL_SETUP + 0x218) = INITRD_START
        \<and> load32 m1 (KERNEL_SETUP + 0x21c) = dwInitrdSize s"
    and ptr: "load32 m1 (KERNEL_SETUP + 0x228) = CMD_LINE_LOC"
    and line: "load_bytes m1 CMD_LINE_LOC (min 511 (length line) + 1) = take 511 line @ [0]"
    and rest: "\<And>a n. 0x90a00 \<le> unat a \<and> unat a + n \<le> 2 ^ 32 \<Longrightarrow> load_bytes m1 a n = load_bytes (mem s) a n"
    using setup_kernel_parameters [OF assms(2,4), of "width vmode" "height vmode" INITRD_START "dwInitrdSize s" r "mem s"]
    unfolding assms(3) by auto
  obtain h where h: "drive_info info 0 = Some h" using disk_known by auto
  have u: "ready (mc_stop_usb mc d2)" using usb_stopped [OF d2] by simp
  obtain e3 d3 where t3: "BootIdeSetTransferMode (mc_ports mc) (mc_fuel mc) info 0 (0x40 OR transfer_mode h)
      (mc_stop_usb mc d2) = Some (e3, d3)" and d3: "ready d3"
    using mode_set [OF u, of 0 "0x40 OR transfer_mode h"] by auto
  obtain e4 d4 where t4: "BootIdeSetTransferMode (mc_ports mc) (mc_fuel mc) info 1 (0x40 OR transfer_mode h) d3
      = Some (e4, d4)" and d4: "ready d4"
    using mode_set [OF d3, of 1 "0x40 OR transfer_mode h"] by auto
  obtain d5 where l5: "led mc goodLED d4 = Some d5"
    using led_set [OF d4, of goodLED] by auto
  let ?m = "store_bytes IDT_LOC (replicate (1024 * 8) 0)
      (store32 0xFD600800 (0xf0000000 OR (xbox_ram vmode * 0x100000 - FB_SIZE)) m1)"
  have below: "load_bytes ?m a n = load_bytes m1 a n" if "unat a + n \<le> 0xB0000" for a n
    using that by (simp add: load_store_apart store32_def)
  have above: "load_bytes ?m a n = load_bytes m1 a n" if "0x100000 \<le> unat a" "unat a + n \<le> 0x4000000" for a n
    using that by (simp add: load_store_apart store32_def)
  have cell: "?m a = m1 a" if "unat a < 0xB0000" for a
    using below [of a 1] that by (simp add: load_bytes_def)
  have word: "load32 ?m a = load32 m1 a" if "unat a < 0x91000" for a
  proof -
    have "unat a < 0xB0000" "unat (a + 1) < 0xB0000" "unat (a + 2) < 0xB0000" "unat (a + 3) < 0xB0000"
      using that by (simp_all add: unat_word_ariths)
    then show ?thesis by (simp only: load32_def cell)
  qed
  show thesis
  proof (rule that [of ?m d5])
    show "ExittoLinux mc info vmode config s d = Some (kernel_entry, ?m, d5)"
      using l1 l2 set_up h t3 t4 l5 by (simp add: ExittoLinux_def startLinux_def Let_def)
    show "e820_map ?m = e820_regions (xbox_ram vmode)"
      unfolding map [symmetric] by (rule e820_map_cong) (rule cell)
  qed (use disk ptr line rest above below word in simp_all)
qed

lemma ExittoLinux_starts:
  assumes "ready d" and "0 \<notin> set line" and "szAppend config = line @ 0 # r"
    and "xbox_ram vmode = 64 \<or> xbox_ram vmode = 128"
    and "dwInitrdSize s = of_nat (length I)" and "I \<noteq> []" and "length I \<le> 0x2100000"
    and "load_bytes (mem s) KERNEL_PM_CODE (length K - hdr) = drop hdr K" and "length K - hdr \<le> 0x800000"
    and "load_bytes (mem s) INITRD_START (length I) = I"
  shows "\<exists>m d'. ExittoLinux mc info vmode config s d = Some (kernel_entry, m, d')
    \<and> starts_linux kernel_entry m hdr K I line (xbox_ram vmode)"
proof -
  have "unat (dwInitrdSize s) = length I" using assms(7) by (simp add: assms(5) unat_of_nat_u32)
  then have "dwInitrdSize s \<noteq> 0" using assms(6) by auto
  then show ?thesis
    using assms(5-10)
    by (rule_tac ExittoLinux_enters [OF assms(1-4), of s]) (auto simp: kernel_entry_def starts_linux_def)
qed

end

locale boot_machine = leaving mc img ready info + sector_source "mc_read mc" 0 img ready
  for mc :: "'d machine" and img and ready and info +
  assumes stack: "length (mc_stack mc) = 0x4000" "length (mc_uninit mc k) = k"
begin

lemma load_fixed_loads:
  assumes "ready d" and "wf_partition p" and "nDriveIndex p = 0" and "clusterSize p = 0x4000"
    and "0 \<notin> set s" and "file_on p (mc_fuel mc) (img d) s content" and "length content \<le> 0x2100000"
  obtains m' d' where "load_fixed mc p (s @ 0 # r) m d = Some (True, of_nat (length content), m', d')"
    and "load_bytes m' INITRD_START (length content) = content"
    and "\<And>a n. unat a + n \<le> 0x900000 \<or> 0x2a00000 \<le> unat a \<and> unat a + n \<le> 2 ^ 32 \<Longrightarrow> load_bytes m' a n = load_bytes m a n"
    and "ready d'" and "img d' = img d"
proof -
  let ?area = "load_bytes m INITRD_START (unat MAX_INITRD_SIZE)"
  have "length (fi_filename no_file) = 44" by (simp add: no_file_def)
  moreover have "length (mc_stack mc) = clusterSize p" using stack by (simp add: assms(4))
  moreover have "length content \<le> length ?area" using assms(7) by simp
  ultimately obtain fi d' where run: "LoadFATXFilefixed (mc_read mc) (Some p) (mc_fuel mc) (mc_stack mc) (s @ 0 # r) no_file ?area d
      = Some (True, fi, d')"
    and buf: "fi_buffer fi = content @ drop (length content) ?area" and sz: "unat (fi_fileSize fi) = length content"
    and d': "ready d'" "img d' = img d"
    using LoadFATXFilefixed_loads [OF assms(1-3) _ assms(5) _ assms(6)] by blast
  have "fi_fileSize fi = of_nat (length content)" unfolding sz [symmetric] by simp
  then have load: "load_fixed mc p (s @ 0 # r) m d = Some (True, of_nat (length content), store_bytes INITRD_START (fi_buffer fi) m, d')"
    using run by (simp add: load_fixed_def)
  have len: "length (fi_buffer fi) = 0x2100000" using assms(7) by (simp add: buf)
  show thesis
  proof (rule that [OF load _ _ d'])
    have "load_bytes (store_bytes INITRD_START (fi_buffer fi) m) INITRD_START 0x2100000 = fi_buffer fi"
      using load_store_same [of "fi_buffer fi" INITRD_START m] by (simp add: len)
    from load_slice [OF this, of 0 "length content"] show
      "load_bytes (store_bytes INITRD_START (fi_buffer fi) m) INITRD_START (length content) = content"
      using assms(7) by (simp add: slice_def buf)
    show "load_bytes (store_bytes INITRD_START (fi_buffer fi) m) a n = load_bytes m a n"
      if "unat a + n \<le> 0x900000 \<or> 0x2a00000 \<le> unat a \<and> unat a + n \<le> 2 ^ 32" for a n
      using that by (intro load_store_apart) (auto simp: len)
  qed
qed

lemma LoadKernelFatX_loads:
  assumes "ready d" and "take 4 (img d SECTOR_STORE) = [0x46, 0x41, 0x54, 0x58]"
    and "szKernel config = kp @ 0 # kr" and "0 \<notin> set kp" and "file_on (disk_E (img d)) (mc_fuel mc) (img d) kp K"
    and "szInitrd config = ip @ 0 # ir" and "0 \<notin> set ip" and "ip \<noteq> []"
    and "file_on (disk_E (img d)) (mc_fuel mc) (img d) ip I"
    and "0x1f1 < length K" and "hdr = (unat (K ! 0x1f1) + 1) * 512" and "hdr \<le> length K"
    and "length K \<le> 0x2100000" and "length K - hdr \<le> 0x800000" and "length I \<le> 0x2100000"
  obtains s' d' where "LoadKernelFatX mc config s d = Some (Loaded True, s', d')"
    and "dwInitrdSize s' = of_nat (length I)"
    and "load_bytes (mem s') KERNEL_PM_CODE (length K - hdr) = drop hdr K"
    and "load_bytes (mem s') INITRD_START (length I) = I"
    and "load_bytes (mem s') KERNEL_SETUP hdr = take hdr K"
    and "ready d'" and "img d' = img d"
proof -
  let ?p = "disk_E (img d)"
  obtain d1 where l1: "led mc busyLED d = Some d1" and d1: "ready d1" "img d1 = img d"
    using led_set [OF assms(1), of busyLED] by auto
  obtain d2 where l2: "pic_word mc 0x0c01 d1 = Some d2" and d2: "ready d2" "img d2 = img d"
    using pic_told [OF d1(1), of "0x0c01"] d1 by auto
  obtain d3 where open3: "OpenFATXPartition (mc_read mc) (mc_uninit mc) 0 SECTOR_STORE STORE_SIZE (dots mc d2)
      = Some (Some ?p, d3)" and d3: "ready d3" "img d3 = img d"
    using OpenFATXPartition_eq [of "dots mc d2" "mc_uninit mc" SECTOR_STORE STORE_SIZE] dots_waited [OF d2(1)] d2 stack assms(2)
    by auto
  let ?m1 = "store_bytes KERNEL_SETUP (replicate 4096 0) (mem s)"
  have p: "wf_partition ?p" "nDriveIndex ?p = 0" "clusterSize ?p = 0x4000"
    by (rule wf_opened) (simp_all add: opened_partition_def Let_def)
  have "ready (dots mc d3)" "file_on ?p (mc_fuel mc) (img (dots mc d3)) kp K"
    using dots_waited [OF d3(1)] d3 assms(5) by auto
  from load_fixed_loads [OF this(1) p assms(4) this(2) assms(13), of kr ?m1]
  obtain m2 d4 where load4: "load_fixed mc ?p (szKernel config) ?m1 (dots mc d3) = Some (True, of_nat (length K), m2, d4)"
    and K: "load_bytes m2 INITRD_START (length K) = K" and d4: "ready d4" "img d4 = img d"
    using dots_waited [OF d3(1)] d3 assms(3) by metis
  have "unat (of_nat (length K) :: u32) = length K" using assms(13) by (simp add: unat_of_nat_u32)
  from memPlaceKernel_places [OF K assms(10-13) this] obtain m3 where
    place: "memPlaceKernel INITRD_START (of_nat (length K)) m2 = Some m3"
    and m3: "load_bytes m3 KERNEL_SETUP hdr = take hdr K" "load_bytes m3 KERNEL_PM_CODE (length K - hdr) = drop hdr K"
    by blast
  have "hdr \<le> 0x20000" using unat_lt_u8 [of "K ! 0x1f1"] by (simp add: assms(11))
  have len: "strlen (szInitrd config) = Some (length ip)"
    using strlen_cstring [OF assms(7)] by (simp add: assms(6))
  let ?d5 = "wait_ms mc 50 (dots mc d4)"
  have d5: "ready ?d5" "img ?d5 = img d" using waited dots_waited d4 by auto
  have "file_on ?p (mc_fuel mc) (img ?d5) ip I" using d5 assms(9) by simp
  from load_fixed_loads [OF d5(1) p assms(7) this assms(15), of ir m3]
  obtain m4 d6 where load6: "load_fixed mc ?p (szInitrd config) m3 ?d5 = Some (True, of_nat (length I), m4, d6)"
    and I: "load_bytes m4 INITRD_START (length I) = I" and d6: "ready d6" "img d6 = img d"
    and low: "\<And>a n. unat a + n \<le> 0x900000 \<Longrightarrow> load_bytes m4 a n = load_bytes m3 a n"
    using d5 assms(6) by metis
  show thesis
  proof (rule that [of "s\<lparr>dwKernelSize := of_nat (length K), mem := m4, dwInitrdSize := of_nat (length I)\<rparr>" d6])
    show "LoadKernelFatX mc config s d = Some (Loaded True,
        s\<lparr>dwKernelSize := of_nat (length K), mem := m4, dwInitrdSize := of_nat (length I)\<rparr>, d6)"
      using l1 l2 open3 load4 place len load6 assms(8) by (simp add: LoadKernelFatX_def Let_def)
  qed (use m3 I d6 low [of KERNEL_PM_CODE "length K - hdr"] low [of KERNEL_SETUP hdr] \<open>hdr \<le> 0x20000\<close> assms(14) in simp_all)
qed

lemma BootMenuEntry_enters:
  assumes "ready d" and "take 4 (img d SECTOR_STORE) = [0x46, 0x41, 0x54, 0x58]" and "bootType config = BOOT_FATX"
    and "szKernel config = kp @ 0 # kr" and "0 \<notin> set kp" and "file_on (disk_E (img d)) (mc_fuel mc) (img d) kp K"
    and "szInitrd config = ip @ 0 # ir" and "0 \<notin> set ip" and "ip \<noteq> []"
    and "file_on (disk_E (img d)) (mc_fuel mc) (img d) ip I"
    and "0x1f1 < length K" and "hdr = (unat (K ! 0x1f1) + 1) * 512" and "hdr \<le> length K"
    and "length K \<le> 0x2100000" and "length K - hdr \<le> 0x800000" and "length I \<le> 0x2100000" and "I \<noteq> []"
    and "0 \<notin> set line" and "szAppend config = line @ 0 # r"
    and "xbox_ram vmode = 64 \<or> xbox_ram vmode = 128"
  shows "\<exists>m d'. BootMenuEntry mc info vmode config s d = Some (Entered kernel_entry m, d')
    \<and> starts_linux kernel_entry m hdr K I line (xbox_ram vmode)"
proof -
  obtain s1 d1 where load: "LoadKernelFatX mc config s d = Some (Loaded True, s1, d1)"
    and s1: "dwInitrdSize s1 = of_nat (length I)"
      "load_bytes (mem s1) KERNEL_PM_CODE (length K - hdr) = drop hdr K"
      "load_bytes (mem s1) INITRD_START (length I) = I" and d1: "ready d1"
    by (rule LoadKernelFatX_loads [OF assms(1,2,4-16)])
  show ?thesis
    using ExittoLinux_starts [OF d1 assms(18-20) s1(1) assms(17,16) s1(2) assms(15) s1(3)] load assms(3)
    by (auto simp: BootMenuEntry_def)
qed

lemma LoadConfigFatX_parses:
  assumes "ready d" and "take 4 (img d SECTOR_STORE) = [0x46, 0x41, 0x54, 0x58]"
    and "file_on (disk_E (img d)) (mc_fuel mc) (img d) linuxboot_cfg (file_text lines)"
    and "\<forall>l\<in>set lines. good_line None l" and "mc_slack mc = c # 0 # r" and "length (fi_filename fi) = 44"
  shows "\<exists>es d'. list_all2 entry_holds (boot_entries None lines) es
    \<and> LoadConfigFatX mc fi d = Some (map (\<lambda>e. e\<lparr>bootType := BOOT_FATX\<rparr>) es, d') \<and> ready d' \<and> img d' = img d"
proof -
  let ?p = "disk_E (img d)"
  obtain d1 where l1: "led mc busyLED d = Some d1" and d1: "ready d1" "img d1 = img d"
    using led_set [OF assms(1), of busyLED] by auto
  obtain d2 where open2: "OpenFATXPartition (mc_read mc) (mc_uninit mc) 0 SECTOR_STORE STORE_SIZE d1
      = Some (Some ?p, d2)" and d2: "ready d2" "img d2 = img d"
    using OpenFATXPartition_eq [of d1 "mc_uninit mc" SECTOR_STORE STORE_SIZE] d1 stack assms(2) by auto
  have p: "wf_partition ?p" "nDriveIndex ?p = 0" "length (mc_stack mc) = clusterSize ?p"
    by (rule wf_opened) (simp_all add: opened_partition_def Let_def stack)
  obtain cl sz cs where f: "resolve ?p (mc_fuel mc) (img d) (path_components linuxboot_cfg) FATX_ROOT_FAT_CLUSTER = Some (Some (cl, sz))"
    "chain ?p (mc_fuel mc) cl = Some cs" "unat sz \<le> length (chain_bytes ?p (img d) cs)"
    and content: "file_text lines = take (unat sz) (chain_bytes ?p (img d) cs)"
    using assms(3) by (auto simp: file_on_def split: option.splits)
  obtain fi' d3 where load: "LoadFATXFile (mc_read mc) (Some ?p) (mc_fuel mc) (mc_stack mc) path_E fi d2 = Some (True, fi', d3)"
    and fi': "fi_buffer fi' = file_text lines" "fi_fileSize fi' = sz" and d3: "ready d3" "img d3 = img d"
    using LoadFATXFile_loads [OF d2(1) p linuxboot_path(2) assms(6), of "mc_fuel mc" cl sz cs "[]"] f d2(2)
    by (auto simp: linuxboot_path(1) content)
  have sz: "unat sz = length (file_text lines)" using f(3) by (simp add: content)
  obtain es buf where parse: "ParseConfig (file_text lines @ c # 0 # r) (length (file_text lines)) None = Some (es, buf)"
    and es: "list_all2 entry_holds (boot_entries None lines) es"
    using parse_config_entries [OF assms(4), of c r] by auto
  have "LoadConfigFatX mc fi d = Some (map (\<lambda>e. e\<lparr>bootType := BOOT_FATX\<rparr>) es, d3)"
    using l1 open2 load parse by (simp add: LoadConfigFatX_def fi' sz assms(5))
  then show ?thesis using es d3 by blast
qed

lemma fatx_starts:
  assumes "ready d" and "take 4 (img d SECTOR_STORE) = [0x46, 0x41, 0x54, 0x58]"
    and "file_on (disk_E (img d)) (mc_fuel mc) (img d) linuxboot_cfg (file_text lines)"
    and "\<forall>l\<in>set lines. good_line None l" and "mc_slack mc = c # 0 # r" and "length (fi_filename fi) = 44"
    and "i < length (boot_entries None lines)" and "e = boot_entries None lines ! i"
    and "file_on (disk_E (img d)) (mc_fuel mc) (img d) (e_kernel e) K"
    and "e_initrd e \<noteq> []" and "file_on (disk_E (img d)) (mc_fuel mc) (img d) (e_initrd e) I"
    and "0x1f1 < length K" and "hdr = (unat (K ! 0x1f1) + 1) * 512" and "hdr \<le> length K"
    and "length K \<le> 0x2100000" and "length K - hdr \<le> 0x800000" and "length I \<le> 0x2100000" and "I \<noteq> []"
    and "xbox_ram vmode = 64 \<or> xbox_ram vmode = 128"
  shows "\<exists>es d1 m d2. LoadConfigFatX mc fi d = Some (es, d1) \<and> length es = length (boot_entries None lines)
    \<and> BootMenuEntry mc info vmode (es ! i) s d1 = Some (Entered kernel_entry m, d2)
    \<and> starts_linux kernel_entry m hdr K I (e_append e) (xbox_ram vmode)"
proof -
  obtain es d1 where es: "list_all2 entry_holds (boot_entries None lines) es"
    and load: "LoadConfigFatX mc fi d = Some (map (\<lambda>e. e\<lparr>bootType := BOOT_FATX\<rparr>) es, d1)" and d1: "ready d1" "img d1 = img d"
    using LoadConfigFatX_parses [OF assms(1-6)] by blast
  let ?c = "(es ! i)\<lparr>bootType := BOOT_FATX\<rparr>"
  have i: "i < length es" using es assms(7) by (simp add: list_all2_lengthD)
  have "entry_holds e (es ! i)" using es assms(7,8) by (simp add: list_all2_conv_all_nth)
  then have "entry_holds e ?c" by (simp add: entry_holds_def)
  then obtain kr ir r where c: "szKernel ?c = e_kernel e @ 0 # kr" "0 \<notin> set (e_kernel e)" "szInitrd ?c = e_initrd e @ 0 # ir"
    "0 \<notin> set (e_initrd e)" "szAppend ?c = e_append e @ 0 # r" "0 \<notin> set (e_append e)"
    by (rule entry_strings)
  have "take 4 (img d1 SECTOR_STORE) = [0x46, 0x41, 0x54, 0x58]" "bootType ?c = BOOT_FATX" using assms(2) d1 by simp_all
  from BootMenuEntry_enters [OF d1(1) this c(1,2) _ c(3,4) assms(10) _ assms(12-18) c(6,5) assms(19), of s] assms(9,11) d1(2)
  obtain m d2 where "BootMenuEntry mc info vmode ?c s d1 = Some (Entered kernel_entry m, d2)"
    "starts_linux kernel_entry m hdr K I (e_append e) (xbox_ram vmode)"
    by auto
  then show ?thesis using load i es by (auto simp: list_all2_lengthD)
qed

end

end
