(* ===== verification/LinuxDisc.thy ===== *)
theory LinuxDisc
  imports LinuxBoot IsoCorrect ParserCorrect
begin

text \<open>
  Booting from a disc. The locale \<open>disc_machine\<close> extends the services by a drive with a disc; the
  loading of configuration, kernel and RAM disk through \<open>fs/cdrom/iso9660.c\<close> is related to the walk over
  the directory tree, with a disc that lacks the kernel as the case that goes wrong.
\<close>

text \<open>A file on a disc: what the walk along its path finds, unless it is at block 0.\<close>

definition root_walk :: "(u32 \<Rightarrow> bytes) \<Rightarrow> bytes list \<Rightarrow> bytes option option" where
  "root_walk f cs = (let root = drop 156 (f 16) in iso_walk f (rec_extent root) (rec_size root) cs)"

definition path_ok :: "bytes list \<Rightarrow> bool" where
  "path_ok cs \<longleftrightarrow> (\<forall>c\<in>set cs. 0x2f \<notin> set c) \<and> length (iso_path cs) \<le> 768"

definition on_disc :: "(u32 \<Rightarrow> bytes) \<Rightarrow> bytes list \<Rightarrow> bytes \<Rightarrow> bool" where
  "on_disc f cs content \<longleftrightarrow> path_ok cs \<and>
     (case root_walk f cs of
        Some (Some r) \<Rightarrow> rec_extent r \<noteq> 0 \<and> unat (rec_size r) < 2 ^ 32 - 2048
          \<and> content = take (unat (rec_size r)) (blocks f (rec_extent r) (unat (round_up (rec_size r)) div 2048))
      | _ \<Rightarrow> False)"

text \<open>The same with the last block filled up with zeros, as a disc has it.\<close>

definition padded_on_disc :: "(u32 \<Rightarrow> bytes) \<Rightarrow> bytes list \<Rightarrow> bytes \<Rightarrow> bool" where
  "padded_on_disc f cs content \<longleftrightarrow> on_disc f cs content \<and>
     (case root_walk f cs of
        Some (Some r) \<Rightarrow> (\<exists>k. blocks f (rec_extent r) (unat (round_up (rec_size r)) div 2048) = content @ replicate k 0)
      | _ \<Rightarrow> False)"

definition not_on_disc :: "(u32 \<Rightarrow> bytes) \<Rightarrow> bytes list \<Rightarrow> bool" where
  "not_on_disc f cs \<longleftrightarrow> path_ok cs \<and> root_walk f cs = Some None"

lemma c_string_cstring: "0 \<notin> set s \<Longrightarrow> c_string (s @ 0 # r) = Some s"
  by (simp add: c_string_def strlen_cstring)

text \<open>The configuration of a disc.\<close>

definition linuxboo_cfg :: "bytes list" where
  "linuxboo_cfg = [tl path_linuxboo]"

lemma linuxboo_path: "path_linuxboo = iso_path linuxboo_cfg"
  by (simp add: path_linuxboo_def linuxboo_cfg_def)

lemma positive_u32: "0 < k \<Longrightarrow> k < 0x80000000 \<Longrightarrow> 0 <s (of_nat k :: u32)"
proof -
  assume k: "0 < k" "k < (0x80000000 :: nat)"
  have u: "unat (of_nat k :: u32) = k" using k(2) by (simp add: unat_of_nat_u32)
  then have "(of_nat k :: u32) < 0x80000000" using k(2) by (simp add: word_less_nat_alt)
  then have "\<not> (of_nat k :: u32) <s 0" by (rule not_negative)
  moreover have "(of_nat k :: u32) \<noteq> 0" using u k(1) by auto
  ultimately show ?thesis by (simp add: signed.not_less_iff_gr_or_eq)
qed

locale disc_machine = leaving mc blk ready info + block_source "mc_read mc" drv blk ready
  for mc :: "'d machine" and drv and blk and ready and info +
  assumes uninit: "length (mc_uninit mc k) = k"
begin

lemma disc_file_gets:
  assumes "ready d" and "on_disc (blk d) cs content" and "of_nat (length content) < max_bytes"
    and "length content + 2048 \<le> area"
  obtains r out d' where "disc_file mc drv (iso_path cs) a area max_bytes m d = Some (of_nat (length content), store_bytes a out m, d')"
    and "root_walk (blk d) cs = Some (Some r)"
    and "out = blocks (blk d) (rec_extent r) (unat (round_up (rec_size r)) div 2048)
           @ drop (unat (round_up (rec_size r))) (load_bytes m a area)"
    and "length out = area" and "take (length content) out = content"
    and "ready d'" and "blk d' = blk d"
proof -
  let ?buf = "load_bytes m a area"
  obtain r where r: "root_walk (blk d) cs = Some (Some r)" "rec_extent r \<noteq> 0" "unat (rec_size r) < 2 ^ 32 - 2048"
    and content: "content = take (unat (rec_size r)) (blocks (blk d) (rec_extent r) (unat (round_up (rec_size r)) div 2048))"
    and path: "path_ok cs"
    using assms(2) by (auto simp: on_disc_def split: option.splits)
  note up = round_up_spec [OF r(3)]
  have len: "length content = unat (rec_size r)"
    using up block_length [OF assms(1)] by (simp add: content length_blocks)
  then have sz: "rec_size r = of_nat (length content)" by simp
  have fits: "unat (round_up (rec_size r)) \<le> length ?buf" using up(3) assms(4) len by simp
  define root where "root = drop 156 (blk d 16)"
  have walk: "iso_walk (blk d) (rec_extent root) (rec_size root) cs = Some (Some r)"
    using r(1) by (simp add: root_walk_def root_def Let_def)
  have "rec_size r' < max_bytes \<and> unat (rec_size r') < 2 ^ 32 - 2048 \<and> unat (round_up (rec_size r')) \<le> length ?buf"
    if "Some r = Some r'" for r'
    using that assms(3) r(3) fits unfolding sz [symmetric] by simp
  from BootIso9660GetFile_gets [OF assms(1) uninit _ _ root_def walk this] path
  obtain d' where get: "BootIso9660GetFile (mc_read mc) (mc_uninit mc) drv (iso_path cs) ?buf max_bytes d =
      Some (fst (get_result (blk d) (Some r) ?buf), snd (get_result (blk d) (Some r) ?buf), d')"
    and d': "ready d'" "blk d' = blk d"
    by (auto simp: path_ok_def)
  define out where "out = snd (get_result (blk d) (Some r) ?buf)"
  show thesis
  proof (rule that [OF _ r(1) _ _ _ d'])
    show "disc_file mc drv (iso_path cs) a area max_bytes m d = Some (of_nat (length content), store_bytes a out m, d')"
      using get r(2) sz by (simp add: disc_file_def out_def get_result_def)
  qed (use up fits r(2) block_length [OF assms(1)] in \<open>simp_all add: out_def get_result_def content length_blocks min_def\<close>)
qed

lemma disc_file_loads:
  assumes "ready d" and "on_disc (blk d) cs content" and "of_nat (length content) < max_bytes"
    and "length content + 2048 \<le> area" and "unat a + area \<le> 2 ^ 32"
  obtains m' d' where "disc_file mc drv (iso_path cs) a area max_bytes m d = Some (of_nat (length content), m', d')"
    and "load_bytes m' a (length content) = content"
    and "\<And>b n. unat b + n \<le> unat a \<or> unat a + area \<le> unat b \<and> unat b + n \<le> 2 ^ 32 \<Longrightarrow> load_bytes m' b n = load_bytes m b n"
    and "ready d'" and "blk d' = blk d"
proof -
  obtain r out d' where
    get: "disc_file mc drv (iso_path cs) a area max_bytes m d = Some (of_nat (length content), store_bytes a out m, d')"
    and out: "length out = area" "take (length content) out = content" and d': "ready d'" "blk d' = blk d"
    by (rule disc_file_gets [OF assms(1-4)])
  show thesis
  proof (rule that [OF get _ _ d'])
    show "load_bytes (store_bytes a out m) a (length content) = content"
    proof (cases "content = []")
      case False
      then show ?thesis
        using load_store_inside [of a out 0 "length content" m] assms(4,5) out by (simp add: slice_def)
    qed (simp add: load_bytes_def)
    show "load_bytes (store_bytes a out m) b n = load_bytes m b n"
      if "unat b + n \<le> unat a \<or> unat a + area \<le> unat b \<and> unat b + n \<le> 2 ^ 32" for b n
      using that assms(5) unat_lt_u32 [of a] by (intro load_store_apart) (auto simp: out)
  qed
qed

lemma disc_file_missing:
  assumes "ready d" and "not_on_disc (blk d) cs"
  obtains d' where "disc_file mc drv (iso_path cs) a area max_bytes m d = Some (- 1, store_bytes a (load_bytes m a area) m, d')"
    and "ready d'" and "blk d' = blk d"
proof -
  define root where "root = drop 156 (blk d 16)"
  have walk: "iso_walk (blk d) (rec_extent root) (rec_size root) cs = Some None"
    using assms(2) by (simp add: not_on_disc_def root_walk_def root_def Let_def)
  have path: "\<And>c. c \<in> set cs \<Longrightarrow> 0x2f \<notin> set c" "length (iso_path cs) \<le> 768"
    using assms(2) by (auto simp: not_on_disc_def path_ok_def)
  from BootIso9660GetFile_gets [OF assms(1) uninit path root_def walk, of max_bytes "load_bytes m a area"]
  show thesis using that by (auto simp: disc_file_def get_result_def)
qed

lemma LoadKernelCdrom_loads:
  assumes "ready d" and "drive config = drv"
    and "szKernel config = iso_path kcs @ 0 # kr" and "0 \<notin> set (iso_path kcs)" and "on_disc (blk d) kcs K"
    and "szInitrd config = iso_path ics @ 0 # ir" and "0 \<notin> set (iso_path ics)" and "ics \<noteq> []"
    and "on_disc (blk d) ics I"
    and "0x1f1 < length K" and "hdr = (unat (K ! 0x1f1) + 1) * 512" and "hdr \<le> length K"
    and "length K < 0x800000" and "length I + 2048 \<le> 0x2100000"
  obtains s' d' where "LoadKernelCdrom mc config s d = Some (Loaded True, s', d')"
    and "dwInitrdSize s' = of_nat (length I)"
    and "load_bytes (mem s') KERNEL_PM_CODE (length K - hdr) = drop hdr K"
    and "load_bytes (mem s') INITRD_START (length I) = I"
    and "load_bytes (mem s') KERNEL_SETUP hdr = take hdr K"
    and "ready d'" and "blk d' = blk d"
proof -
  obtain d1 where l1: "led mc busyLED d = Some d1" and d1: "ready d1" "blk d1 = blk d"
    using led_set [OF assms(1), of busyLED] by auto
  have d2: "ready (dots mc d1)" "blk (dots mc d1) = blk d" using dots_waited d1 by auto
  have u: "unat (of_nat (length K) :: u32) = length K" "unat (of_nat (length I) :: u32) = length I"
    using assms(13,14) by (simp_all add: unat_of_nat_u32)
  have "on_disc (blk (dots mc d1)) kcs K" "(of_nat (length K) :: u32) < 0x800000"
    using assms(5,13) d2 by (simp_all add: word_less_nat_alt u)
  moreover have "length K + 2048 \<le> unat MAX_INITRD_SIZE" "unat INITRD_START + unat MAX_INITRD_SIZE \<le> 2 ^ 32"
    using assms(13) by simp_all
  ultimately
  obtain m3 d3 where get3: "disc_file mc drv (iso_path kcs) INITRD_START (unat MAX_INITRD_SIZE) MAX_KERNEL_SIZE (mem s) (dots mc d1)
      = Some (of_nat (length K), m3, d3)" and K: "load_bytes m3 INITRD_START (length K) = K"
    and d3: "ready d3" "blk d3 = blk d"
    using disc_file_loads [OF d2(1)] d2(2) by metis
  from memPlaceKernel_places [OF K assms(10-12) _ u(1)] assms(13) obtain m4 where
    place: "memPlaceKernel INITRD_START (of_nat (length K)) m3 = Some m4"
    and m4: "load_bytes m4 KERNEL_SETUP hdr = take hdr K" "load_bytes m4 KERNEL_PM_CODE (length K - hdr) = drop hdr K"
    by auto
  have hdr: "hdr \<le> 0x20000" using unat_lt_u8 [of "K ! 0x1f1"] by (simp add: assms(11))
  have d5: "ready (dots mc d3)" "blk (dots mc d3) = blk d" using dots_waited d3 by auto
  have "on_disc (blk (dots mc d3)) ics I" "(of_nat (length I) :: u32) < 0x2100000"
    using assms(9,14) d5 by (simp_all add: word_less_nat_alt u)
  moreover have "length I + 2048 \<le> unat MAX_INITRD_SIZE" "unat INITRD_START + unat MAX_INITRD_SIZE \<le> 2 ^ 32"
    using assms(14) by simp_all
  ultimately
  obtain m6 d6 where get6: "disc_file mc drv (iso_path ics) INITRD_START (unat MAX_INITRD_SIZE) MAX_INITRD_SIZE m4 (dots mc d3)
      = Some (of_nat (length I), m6, d6)" and I: "load_bytes m6 INITRD_START (length I) = I"
    and low: "\<And>a n. unat a + n \<le> unat INITRD_START \<Longrightarrow> load_bytes m6 a n = load_bytes m4 a n"
    and d6: "ready d6" "blk d6 = blk d"
    using disc_file_loads [OF d5(1)] d5(2) by metis
  have "iso_path ics \<noteq> []" using assms(8) by (cases ics) simp_all
  then have "LoadKernelCdrom mc config s d = Some (Loaded True,
      s\<lparr>dwKernelSize := of_nat (length K), mem := m6, dwInitrdSize := of_nat (length I)\<rparr>, d6)"
    using l1 get3 place get6
    by (simp add: LoadKernelCdrom_def c_string_cstring assms(2-4,6,7) Let_def)
  then show thesis
    by (rule that)
      (use m4 I d6 low [of KERNEL_PM_CODE "length K - hdr"] low [of KERNEL_SETUP hdr] hdr assms(13) in simp_all)
qed

lemma LoadKernelCdrom_no_kernel:
  assumes "ready d" and "drive config = drv"
    and "szKernel config = iso_path kcs @ 0 # kr" and "0 \<notin> set (iso_path kcs)" and "not_on_disc (blk d) kcs"
  shows "LoadKernelCdrom mc config s d = None"
proof -
  obtain d1 where l1: "led mc busyLED d = Some d1" and d1: "ready d1" "blk d1 = blk d"
    using led_set [OF assms(1), of busyLED] by auto
  have d2: "ready (dots mc d1)" "not_on_disc (blk (dots mc d1)) kcs" using dots_waited d1 assms(5) by auto
  obtain m d3 where get: "disc_file mc drv (iso_path kcs) INITRD_START (unat MAX_INITRD_SIZE) MAX_KERNEL_SIZE (mem s) (dots mc d1)
      = Some (- 1, m, d3)"
    by (rule disc_file_missing [OF d2])
  have "memPlaceKernel INITRD_START (- 1) m = None"
    by (rule memPlaceKernel_huge)
  then show ?thesis
    using l1 get by (simp add: LoadKernelCdrom_def c_string_cstring assms(2-4) Let_def)
qed

lemma LoadConfigCD_parses:
  assumes "ready d" and "padded_on_disc (blk d) linuxboo_cfg (file_text lines)"
    and "lines \<noteq> []" and "\<forall>l\<in>set lines. good_line None l" and "length (file_text lines) < 0x800"
  shows "\<exists>e es m' d'. list_all2 entry_holds (boot_entries None lines) (e # es)
    \<and> LoadConfigCD mc drv m d = Some (e\<lparr>drive := drv, bootType := BOOT_CDROM, title := title_CD @ drop 7 (title e)\<rparr>
        # map (\<lambda>e. e\<lparr>drive := drv, bootType := BOOT_CDROM\<rparr>) es, m', d')
    \<and> ready d' \<and> blk d' = blk d"
proof -
  let ?text = "file_text lines" and ?m = "store_bytes KERNEL_SETUP (replicate 4096 0) m"
  have some: "0 < length ?text" using assms(3) by (cases lines) (simp_all add: file_text_def line_text_def split: prod.split)
  obtain d1 where l1: "led mc busyLED d = Some d1" and d1: "ready d1" "blk d1 = blk d"
    using led_set [OF assms(1), of busyLED] by auto
  obtain d2 where l2: "pic_word mc 0x0c01 d1 = Some d2" and d2: "ready d2" "blk d2 = blk d"
    using pic_told [OF d1(1), of "0x0c01"] d1 by auto
  have d3: "ready (dots mc d2)" "blk (dots mc d2) = blk d" using dots_waited d2 by auto
  have small: "(of_nat (length ?text) :: u32) < 0x800"
    using assms(5) by (simp add: word_less_nat_alt unat_of_nat_u32)
  have on: "on_disc (blk (dots mc d2)) linuxboo_cfg ?text" using assms(2) d3 by (simp add: padded_on_disc_def)
  have "length ?text + 2048 \<le> 4096" using assms(5) by simp
  note gets = disc_file_gets [OF d3(1) on small this, of KERNEL_SETUP ?m, folded linuxboo_path, unfolded d3(2)]
  obtain r out d4 where
    get: "disc_file mc drv path_linuxboo KERNEL_SETUP 4096 0x800 ?m (dots mc d2)
      = Some (of_nat (length ?text), store_bytes KERNEL_SETUP out ?m, d4)"
    and r: "root_walk (blk d) linuxboo_cfg = Some (Some r)"
    and out: "out = blocks (blk d) (rec_extent r) (unat (round_up (rec_size r)) div 2048)
           @ drop (unat (round_up (rec_size r))) (load_bytes ?m KERNEL_SETUP 4096)" "length out = 4096"
      "take (length ?text) out = ?text"
    and d4: "ready d4" "blk d4 = blk d"
    by (rule gets)
  obtain k where k: "blocks (blk d) (rec_extent r) (unat (round_up (rec_size r)) div 2048) = ?text @ replicate k 0"
    using assms(2) r by (auto simp: padded_on_disc_def)
  have "load_bytes ?m KERNEL_SETUP 4096 = replicate 4096 0"
    using load_store_same [of "replicate 4096 0" KERNEL_SETUP m] by simp
  then have "out = ?text @ replicate (k + (4096 - unat (round_up (rec_size r)))) 0"
    using out(1) k by (simp add: replicate_add)
  then have "out = ?text @ replicate (4096 - length ?text) 0" using out(2) by simp
  moreover obtain j where "4096 - length ?text = Suc (Suc j)"
    using assms(5) by (intro that [of "4094 - length ?text"]) simp
  ultimately have buf: "out = ?text @ 0 # 0 # replicate j 0" by simp
  have mem: "load_bytes (store_bytes KERNEL_SETUP out ?m) KERNEL_SETUP 4096 = out"
    using load_store_same [of out KERNEL_SETUP ?m] out(2) by simp
  have sz: "unat (of_nat (length ?text) :: u32) = length ?text" using assms(5) by (simp add: unat_of_nat_u32)
  obtain es buf' where parse: "ParseConfig out (length ?text) None = Some (es, buf')"
    and es: "list_all2 entry_holds (boot_entries None lines) es"
    using parse_config_entries [OF assms(4), of 0 "replicate j 0"] unfolding buf by auto
  obtain e es' where ee: "es = e # es'" using es boot_entries_ne by (cases es) auto
  have "length (title e) = 15" using es by (auto simp: ee entry_holds_def list_all2_Cons2)
  moreover have "length title_CD = 7" "strlen title_CD = Some 6" "take 6 title_CD @ [0] = title_CD"
    by (simp_all add: title_CD_def)
  ultimately have t: "strcpy (title e) title_CD = Some (title_CD @ drop 7 (title e))"
    by (simp add: strcpy_def put_bytes_def)
  have pos: "0 <s (of_nat (length ?text) :: u32)" by (rule positive_u32) (use some assms(5) in simp_all)
  have "(16 :: nat) = Suc 15" by simp
  then have tries: "disc_tries mc drv path_linuxboo KERNEL_SETUP 4096 0x800 16 0 ?m (dots mc d2)
      = Some (True, of_nat (length ?text), store_bytes KERNEL_SETUP out ?m, d4)"
    by (simp only: disc_tries.simps get bind.bind_lunit) (simp add: pos)
  have "LoadConfigCD mc drv m d = Some (e\<lparr>drive := drv, bootType := BOOT_CDROM, title := title_CD @ drop 7 (title e)\<rparr>
        # map (\<lambda>e. e\<lparr>drive := drv, bootType := BOOT_CDROM\<rparr>) es',
      store_bytes KERNEL_SETUP buf' (store_bytes KERNEL_SETUP out ?m), dots mc d4)"
    using l1 l2 tries mem sz parse t by (simp add: LoadConfigCD_def Let_def ee)
  then show ?thesis using es dots_waited [OF d4(1)] d4(2) by (auto simp: ee)
qed

lemma BootMenuEntry_starts:
  assumes "ready d" and "bootType config = BOOT_CDROM" and "drive config = drv"
    and "szKernel config = iso_path kcs @ 0 # kr" and "0 \<notin> set (iso_path kcs)" and "on_disc (blk d) kcs K"
    and "szInitrd config = iso_path ics @ 0 # ir" and "0 \<notin> set (iso_path ics)" and "ics \<noteq> []"
    and "on_disc (blk d) ics I"
    and "0x1f1 < length K" and "hdr = (unat (K ! 0x1f1) + 1) * 512" and "hdr \<le> length K"
    and "length K < 0x800000" and "length I + 2048 \<le> 0x2100000" and "I \<noteq> []"
    and "0 \<notin> set line" and "szAppend config = line @ 0 # r"
    and "xbox_ram vmode = 64 \<or> xbox_ram vmode = 128"
  shows "\<exists>m d'. BootMenuEntry mc info vmode config s d = Some (Entered kernel_entry m, d')
    \<and> starts_linux kernel_entry m hdr K I line (xbox_ram vmode)"
proof -
  obtain s1 d1 where load: "LoadKernelCdrom mc config s d = Some (Loaded True, s1, d1)"
    and s1: "dwInitrdSize s1 = of_nat (length I)"
      "load_bytes (mem s1) KERNEL_PM_CODE (length K - hdr) = drop hdr K"
      "load_bytes (mem s1) INITRD_START (length I) = I" and d1: "ready d1"
    by (rule LoadKernelCdrom_loads [OF assms(1,3-15)])
  have "length I \<le> 0x2100000" "length K - hdr \<le> 0x800000" using assms(14,15) by simp_all
  then show ?thesis
    using ExittoLinux_starts [OF d1 assms(17-19) s1(1) assms(16) _ s1(2) _ s1(3)] load assms(2)
    by (auto simp: BootMenuEntry_def)
qed

lemma BootMenuEntry_no_kernel:
  assumes "ready d" and "bootType config = BOOT_CDROM" and "drive config = drv"
    and "szKernel config = iso_path kcs @ 0 # kr" and "0 \<notin> set (iso_path kcs)" and "not_on_disc (blk d) kcs"
  shows "BootMenuEntry mc info vmode config s d = None"
  using LoadKernelCdrom_no_kernel [OF assms(1,3-6)] assms(2) by (simp add: BootMenuEntry_def)

lemma disc_starts:
  assumes "ready d" and "padded_on_disc (blk d) linuxboo_cfg (file_text lines)"
    and "lines \<noteq> []" and "\<forall>l\<in>set lines. good_line None l" and "length (file_text lines) < 0x800"
    and "i < length (boot_entries None lines)" and "e = boot_entries None lines ! i"
    and "e_kernel e = iso_path kcs" and "on_disc (blk d) kcs K"
    and "e_initrd e = iso_path ics" and "ics \<noteq> []" and "on_disc (blk d) ics I"
    and "0x1f1 < length K" and "hdr = (unat (K ! 0x1f1) + 1) * 512" and "hdr \<le> length K"
    and "length K < 0x800000" and "length I + 2048 \<le> 0x2100000" and "I \<noteq> []"
    and "xbox_ram vmode = 64 \<or> xbox_ram vmode = 128"
  shows "\<exists>es m1 d1 m d2. LoadConfigCD mc drv (mem s) d = Some (es, m1, d1) \<and> length es = length (boot_entries None lines)
    \<and> BootMenuEntry mc info vmode (es ! i) (s\<lparr>mem := m1\<rparr>) d1 = Some (Entered kernel_entry m, d2)
    \<and> starts_linux kernel_entry m hdr K I (e_append e) (xbox_ram vmode)"
proof -
  obtain e0 es m1 d1 where es: "list_all2 entry_holds (boot_entries None lines) (e0 # es)"
    and load: "LoadConfigCD mc drv (mem s) d = Some (e0\<lparr>drive := drv, bootType := BOOT_CDROM, title := title_CD @ drop 7 (title e0)\<rparr>
        # map (\<lambda>e. e\<lparr>drive := drv, bootType := BOOT_CDROM\<rparr>) es, m1, d1)" and d1: "ready d1" "blk d1 = blk d"
    using LoadConfigCD_parses [OF assms(1-5), of "mem s"] by blast
  let ?es = "e0\<lparr>drive := drv, bootType := BOOT_CDROM, title := title_CD @ drop 7 (title e0)\<rparr>
        # map (\<lambda>e. e\<lparr>drive := drv, bootType := BOOT_CDROM\<rparr>) es"
  have n: "length ?es = length (boot_entries None lines)" using es by (simp add: list_all2_lengthD)
  have "entry_holds e ((e0 # es) ! i)" using es assms(6,7) by (simp add: list_all2_conv_all_nth)
  then obtain kr ir r where "szKernel ((e0 # es) ! i) = e_kernel e @ 0 # kr" "0 \<notin> set (e_kernel e)"
    "szInitrd ((e0 # es) ! i) = e_initrd e @ 0 # ir" "0 \<notin> set (e_initrd e)"
    "szAppend ((e0 # es) ! i) = e_append e @ 0 # r" "0 \<notin> set (e_append e)"
    by (rule entry_strings)
  moreover have "szKernel (?es ! i) = szKernel ((e0 # es) ! i)" "szInitrd (?es ! i) = szInitrd ((e0 # es) ! i)"
    "szAppend (?es ! i) = szAppend ((e0 # es) ! i)" "bootType (?es ! i) = BOOT_CDROM" "drive (?es ! i) = drv"
    using n assms(6) by (cases i; simp)+
  ultimately have c: "szKernel (?es ! i) = iso_path kcs @ 0 # kr" "0 \<notin> set (iso_path kcs)"
    "szInitrd (?es ! i) = iso_path ics @ 0 # ir" "0 \<notin> set (iso_path ics)"
    "szAppend (?es ! i) = e_append e @ 0 # r" "0 \<notin> set (e_append e)"
    and b: "bootType (?es ! i) = BOOT_CDROM" "drive (?es ! i) = drv"
    by (simp_all only: assms(8,10) not_False_eq_True)
  have "on_disc (blk d1) kcs K" "on_disc (blk d1) ics I" using assms(9,12) d1 by simp_all
  from BootMenuEntry_starts [OF d1(1) b c(1,2) this(1) c(3,4) assms(11) this(2) assms(13-18) c(6,5) assms(19), of "s\<lparr>mem := m1\<rparr>"]
  show ?thesis using load n by auto
qed

end

end
