(* ===== verification/Console.thy ===== *)
theory Console
  imports I2c IdeInit
begin

text \<open>
  Several devices behind one set of ports: a device that answers at the ports of \<open>P\<close> as it would alone,
  whatever stands beside it. What the drivers of the SMBus and of the disk do there, they do alone; so
  what was proved of them with one device holds in the console.
\<close>

locale port_map =
  fixes io :: "'d ports" and io' :: "'e ports" and e :: "'d \<Rightarrow> 'e" and P :: "u16 \<Rightarrow> bool"
  assumes in_byte: "P p \<Longrightarrow> IoInputByte io' p (e d) = apsnd e (IoInputByte io p d)"
    and in_word: "P p \<Longrightarrow> IoInputWord io' p (e d) = apsnd e (IoInputWord io p d)"
    and out_byte: "P p \<Longrightarrow> IoOutputByte io' p b (e d) = e (IoOutputByte io p b d)"
    and out_word: "P p \<Longrightarrow> IoOutputWord io' p w (e d) = e (IoOutputWord io p w d)"
    and pause: "delay_us io' t (e d) = e (delay_us io t d)"
begin

lemmas accesses = in_byte in_word out_byte out_word pause

lemma poll_byte_map: "P p \<Longrightarrow> poll_byte io' p ok n (e d) = map_option (apsnd e) (poll_byte io p ok n d)"
  by (induction n arbitrary: d) (auto simp: accesses split: prod.splits)

lemma poll_word_map: "P p \<Longrightarrow> poll_word io' p ok n (e d) = map_option (apsnd e) (poll_word io p ok n d)"
  by (induction n arbitrary: d) (auto simp: accesses split: prod.splits)

lemma outb_all_map: "\<forall>(p, b)\<in>set ws. P p \<Longrightarrow> outb_all io' ws (e d) = e (outb_all io ws d)"
  by (induction ws arbitrary: d) (auto simp: accesses)

end

section \<open>The SMBus\<close>

locale smbus_map = port_map +
  assumes smbus_ports: "P I2C_IO_BASE" "P (I2C_IO_BASE + 2)" "P (I2C_IO_BASE + 4)" "P (I2C_IO_BASE + 6)"
    "P (I2C_IO_BASE + 8)" "P (I2C_IO_BASE + 9)"
begin

lemma ports_simps: "P 0xC000" "P 0xC002" "P 0xC004" "P 0xC006" "P 0xC008" "P 0xC009"
  using smbus_ports by simp_all

lemma put_data_map: "put_data io' sz v (e d) = e (put_data io sz v d)"
  by (simp add: put_data_def accesses ports_simps)

lemma clear_errors_map: "clear_errors io' (e d) = e (clear_errors io d)"
  by (simp add: clear_errors_def accesses ports_simps split: prod.split)

lemma get_data_map: "get_data io' sz (e d) = apsnd e (get_data io sz d)"
  by (simp add: get_data_def accesses ports_simps split: prod.split)

lemma write_attempts_map:
  "write_attempts io' n a r sz v k (e d) = map_option (apsnd e) (write_attempts io n a r sz v k d)"
  by (induction k arbitrary: d)
    (auto simp: write_attempts.simps Let_def accesses ports_simps put_data_map clear_errors_map poll_byte_map split: option.split prod.split)

lemma read_attempts_map:
  "read_attempts io' n a r sz k (e d) = map_option (apsnd (apsnd e)) (read_attempts io n a r sz k d)"
  by (induction k arbitrary: d)
    (auto simp: read_attempts.simps Let_def accesses ports_simps get_data_map clear_errors_map poll_byte_map split: option.split prod.split)

lemma WriteToSMBus_map: "WriteToSMBus io' n a r sz v (e d) = map_option (apsnd e) (WriteToSMBus io n a r sz v d)"
  by (auto simp: WriteToSMBus_def poll_word_map ports_simps write_attempts_map split: Option.bind_splits)

lemma ReadfromSMBus_map:
  "ReadfromSMBus io' n a r sz (e d) = map_option (apsnd (apsnd e)) (ReadfromSMBus io n a r sz d)"
  by (auto simp: ReadfromSMBus_def poll_word_map ports_simps read_attempts_map split: Option.bind_splits)

lemma TransmitWord_map: "I2CTransmitWord io' n a w (e d) = map_option (apsnd e) (I2CTransmitWord io n a w d)"
  by (simp add: I2CTransmitWord_def WriteToSMBus_map)

lemma setLED_map: "setLED io' n pattern (e d) = map_option e (setLED io n pattern d)"
  by (simp add: setLED_def I2cSetFrontpanelLed_def TransmitWord_map bind_map_option map_option_bind o_def split_def)

end

section \<open>The disk\<close>

locale disk_map = port_map +
  assumes disk_ports: "p < 0xC000 \<Longrightarrow> P p" "P 0xff62"
begin

lemma ports_simps: "P 0x1F0" "P 0x1F1" "P 0x1F2" "P 0x1F3" "P 0x1F4" "P 0x1F5" "P 0x1F6" "P 0x1F7" "P 0x3F6"
  by (rule disk_ports, simp)+

lemma WaitNotBusy_map: "BootIdeWaitNotBusy io' n 0x1F0 (e d) = map_option (apsnd e) (BootIdeWaitNotBusy io n 0x1F0 d)"
  by (auto simp: BootIdeWaitNotBusy_def poll_byte_map ports_simps split: Option.bind_splits)

lemma drq_loop_map: "drq_loop io' 0x1F0 i (e d) = apsnd e (drq_loop io 0x1F0 i d)"
  by (induction i arbitrary: d) (auto simp: accesses ports_simps split: prod.split)

lemma WaitDataReady_map: "BootIdeWaitDataReady io' 0x1F0 (e d) = apsnd e (BootIdeWaitDataReady io 0x1F0 d)"
  by (simp add: BootIdeWaitDataReady_def wait_smalldelay_def drq_loop_map accesses)

lemma registers_map: "outb_all io' (command_registers 0x1F0 p) (e d) = e (outb_all io (command_registers 0x1F0 p) d)"
  by (rule outb_all_map) (simp add: command_registers_def ports_simps)

lemma IssueAtaCommand_map:
  "BootIdeIssueAtaCommand io' n 0x1F0 c p (e d) = map_option (apsnd e) (BootIdeIssueAtaCommand io n 0x1F0 c p d)"
  by (auto simp: BootIdeIssueAtaCommand_def accesses ports_simps WaitNotBusy_map registers_map wait_smalldelay_def Let_def
      split: Option.bind_splits prod.split)

lemma in_words_map: "in_words io' 0x1F0 k (e d) = apsnd e (in_words io 0x1F0 k d)"
  by (induction k arbitrary: d) (auto simp: accesses ports_simps split: prod.split)

lemma ReadData_map:
  "BootIdeReadData io' 0x1F0 buf sz (e d) = map_option (apsnd (apsnd e)) (BootIdeReadData io 0x1F0 buf sz d)"
  by (auto simp: BootIdeReadData_def WaitDataReady_map in_words_map accesses ports_simps split: prod.split Option.bind_splits)

lemma read_retry_map:
  "read_retry io' n 0x1F0 buf sz (e d) = map_option (apsnd e) (read_retry io n 0x1F0 buf sz d)"
  by (induction n arbitrary: buf d) (auto simp: ReadData_map accesses split: Option.bind_splits prod.split)

lemma read_until_ok_map:
  "read_until_ok io' n 0x1F0 buf sz (e d) = map_option (apsnd e) (read_until_ok io n 0x1F0 buf sz d)"
  by (auto simp: read_until_ok_def ReadData_map read_retry_map split: Option.bind_splits)

lemma ReadSector_map:
  assumes "has_master info h"
  shows "BootIdeReadSector io' n info 0 block off buf (e d) = map_option (apsnd (apsnd e)) (BootIdeReadSector io n info 0 block off buf d)"
proof -
  have h: "drive_info info 0 = Some h" "m_fDriveExists h" "\<not> m_fAtapi h" "m_fwPortBase h = 0x1F0"
    using assms by (simp_all add: has_master_def)
  show ?thesis
    by (simp add: BootIdeReadSector_def h accesses ports_simps IssueAtaCommand_map read_until_ok_map Let_def
        bind_map_option map_option_bind o_def split_def if_distrib [of "map_option f" for f] cong: if_cong)
qed

lemma out_words_map: "out_words io' 0x1F0 bs (e d) = e (out_words io 0x1F0 bs d)"
  by (induction bs arbitrary: d rule: induct_list012) (auto simp: accesses ports_simps)

lemmas driver_map = accesses ports_simps WaitNotBusy_map WaitDataReady_map IssueAtaCommand_map ReadData_map
  read_until_ok_map out_words_map wait_smalldelay_def Let_def

lemmas result_map = bind_map_option map_option_bind o_def split_def if_distrib [of "map_option f" for f]

lemma WriteAtapiData_map:
  "BootIdeWriteAtapiData io' n 0x1F0 buf sz (e d) = map_option (apsnd e) (BootIdeWriteAtapiData io n 0x1F0 buf sz d)"
  by (simp add: BootIdeWriteAtapiData_def driver_map result_map cong: if_cong)

lemma atapi_count_map: "atapi_count io' 0x1F0 k (e d) = apsnd e (atapi_count io 0x1F0 k d)"
  by (simp add: atapi_count_def driver_map split_def)

lemma slave_info:
  assumes "has_slave info h"
  shows "drive_info info 1 = Some h" "m_fDriveExists h" "m_fAtapi h" "m_fwPortBase h = 0x1F0"
  using assms by (simp_all add: has_slave_def)

lemma Packet_map:
  assumes "has_slave info h"
  shows "BootIdeIssueAtapiPacketCommandAndPacket io' n info 1 pkt (e d)
    = map_option (apsnd e) (BootIdeIssueAtapiPacketCommandAndPacket io n info 1 pkt d)"
  by (simp add: BootIdeIssueAtapiPacketCommandAndPacket_def slave_info [OF assms] driver_map WriteAtapiData_map
      result_map if_distrib [of "case_prod f" for f] if_distrib [of fst] if_distrib [of snd] cong: if_cong)

lemma atapi_query_map:
  assumes "has_slave info h"
  shows "atapi_query io' n info 1 pkt buf k (e d) = map_option (apsnd (apsnd e)) (atapi_query io n info 1 pkt buf k d)"
  by (simp add: atapi_query_def slave_info [OF assms] driver_map Packet_map [OF assms] atapi_count_map result_map
      cong: if_cong)

lemma sticky_error_map:
  assumes "has_slave info h"
  shows "sticky_error io' n info 1 ba (e d) = map_option e (sticky_error io n info 1 ba d)"
proof -
  have "P (0x1F1 AND 0x20)" "P (0x1F7 AND 1)" by (simp_all add: disk_ports)
  then show ?thesis
    by (simp add: sticky_error_def slave_info [OF assms] driver_map BootIdeAtapiAdditionalSenseCode_def
        atapi_query_map [OF assms] result_map cong: if_cong)
qed

lemma ReadSector_slave_map:
  assumes "has_slave info h"
  shows "BootIdeReadSector io' n info 1 block off buf (e d) = map_option (apsnd (apsnd e)) (BootIdeReadSector io n info 1 block off buf d)"
  by (simp add: BootIdeReadSector_def read_atapi_def slave_info [OF assms] driver_map Packet_map [OF assms]
      sticky_error_map [OF assms] atapi_count_map result_map word_sless_alt word_sle_eq cong: if_cong)

lemma SetTransferMode_map:
  assumes "drive_info info drv = Some h" and "m_fwPortBase h = 0x1F0"
  shows "BootIdeSetTransferMode io' n info drv mode (e d) = map_option (apsnd e) (BootIdeSetTransferMode io n info drv mode d)"
proof -
  have "outb_all io' [(0x1F6, b), (0xff62, 0x62), (0x3F6, 8), (0x1F1, 1)] (e d)
      = e (outb_all io [(0x1F6, b), (0xff62, 0x62), (0x3F6, 8), (0x1F1, 1)] d)" for b d
    by (rule outb_all_map) (simp add: ports_simps disk_ports)
  then show ?thesis
    by (auto simp del: outb_all.simps simp: BootIdeSetTransferMode_def assms accesses ports_simps WaitNotBusy_map
        IssueAtaCommand_map Let_def split: Option.bind_splits)
qed

end

section \<open>The console\<close>

text \<open>The bus with the system controller and the LED, and the channel with the two drives.\<close>

definition on_bus :: "u16 \<Rightarrow> bool" where
  "on_bus p \<longleftrightarrow> I2C_IO_BASE \<le> p \<and> p < I2C_IO_BASE + 0x10"

definition console_ports :: "(smb_dev \<times> ata_dev) ports" where
  "console_ports = \<lparr>
     IoInputByte = (\<lambda>p (s, a). if on_bus p then apsnd (\<lambda>s. (s, a)) (IoInputByte smb_ports p s)
                     else apsnd (Pair s) (IoInputByte ata_ports p a)),
     IoInputWord = (\<lambda>p (s, a). if on_bus p then apsnd (\<lambda>s. (s, a)) (IoInputWord smb_ports p s)
                     else apsnd (Pair s) (IoInputWord ata_ports p a)),
     IoInputDword = (\<lambda>p d. (0, d)),
     IoOutputByte = (\<lambda>p b (s, a). if on_bus p then (IoOutputByte smb_ports p b s, a) else (s, IoOutputByte ata_ports p b a)),
     IoOutputWord = (\<lambda>p w (s, a). if on_bus p then (IoOutputWord smb_ports p w s, a) else (s, IoOutputWord ata_ports p w a)),
     IoOutputDword = (\<lambda>p w d. d),
     delay_us = (\<lambda>t (s, a). (delay_us smb_ports t s, delay_us ata_ports t a))\<rparr>"

interpretation bus_of: smbus_map smb_ports console_ports "\<lambda>s. (s, a)" on_bus for a
  by unfold_locales (simp_all add: console_ports_def on_bus_def ata_ports_simps)

interpretation disk_of: disk_map ata_ports console_ports "Pair s" "\<lambda>p. \<not> on_bus p" for s
  by unfold_locales (auto simp: console_ports_def on_bus_def smb_ports_simps)

definition console_ready :: "nat \<Rightarrow> smb_dev \<times> ata_dev \<Rightarrow> bool" where
  "console_ready n d \<longleftrightarrow> smb_ready n (fst d) \<and> ide_ready n (snd d)"

lemma SetTransferMode_ata:
  assumes "ide_ready n d" and "drive_info info drv = Some h" and "m_fwPortBase h = 0x1F0"
  shows "\<exists>e d'. BootIdeSetTransferMode ata_ports n info drv mode d = Some (e, d')
    \<and> ide_ready n d' \<and> t_disk d' = t_disk d \<and> t_disc d' = t_disc d"
proof -
  let ?d = "d\<lparr>t_sel := drive_select drv\<rparr>"
  have sel: "outb_all ata_ports [(0x1F6, drive_select drv), (0xff62, 0x62), (0x3F6, 8), (0x1F1, 1)] d = ?d"
    "IoOutputByte ata_ports 0x1F1 3 ?d = ?d"
    by (simp_all add: ata_ports_def)
  have d: "t_busy ?d = 0" "t_lag ?d < n" using assms(1) by (simp_all add: ide_ready_def)
  have wait: "BootIdeWaitNotBusy ata_ports n 0x1F0 ?d = Some (t_err ?d, ?d)"
    using ata_not_busy [of ?d n] d by simp
  have media: "t_disk (ata_command 0xEF x) = t_disk x" "t_disc (ata_command 0xEF x) = t_disc x" for x
    by (simp_all add: ata_command_def Let_def)
  show ?thesis
    using assms(1) ata_issue [OF d, of "0xEF"]
    by (auto simp del: outb_all.simps simp: BootIdeSetTransferMode_def assms(2,3) sel wait media ide_ready_def Let_def
        load_registers_def)
qed

end
