(* ===== verification/LinuxFatx.thy ===== *)
theory LinuxFatx
  imports LinuxBoot LinuxDisc Console
begin

text \<open>
  The start from a FATX disk on the machine of the earlier components: the SMBus of \<open>I2c\<close> and the drives of
  \<open>IdeInit\<close> behind one set of ports are a \<open>boot_machine\<close>, so the facts of \<open>LinuxBoot\<close> hold from the ports up.
\<close>

section \<open>A disk that boots\<close>

text \<open>
  A disk with the partition E: its header, the chain table 8 sectors behind, the root directory in
  cluster 1, a kernel \<open>k\<close> of 0x600 bytes in cluster 2, a RAM disk \<open>i\<close> of four bytes in cluster 3 and the
  configuration in cluster 4.
\<close>

definition boot_lines :: "bytes \<Rightarrow> bytes \<Rightarrow> (bytes \<times> bytes) list" where
  "boot_lines k i = [(kw_title, [0x61]), (kw_kernel, k), (kw_initrd, i), (kw_append, [0x72, 0x6f])]"

definition store_entry :: "bytes \<Rightarrow> u8 \<Rightarrow> u32 \<Rightarrow> bytes" where
  "store_entry nm c sz = [of_nat (length nm), 0] @ (nm @ replicate (42 - length nm) 0xff) @ [c, 0, 0, 0] @ le32_bytes sz
     @ replicate 12 0"

definition store_text :: bytes where
  "store_text = file_text (boot_lines [0x2f, 0x6b] [0x2f, 0x69])"

definition store_dir :: "bytes list" where
  "store_dir = [store_entry [0x6b] 2 0x600, store_entry [0x69] 3 4, store_entry (tl linuxboot_cfg) 4 (of_nat (length store_text))]"

definition store_image :: "u32 \<Rightarrow> bytes" where
  "store_image s =
     (if s = SECTOR_STORE then [0x46, 0x41, 0x54, 0x58] @ replicate 508 0
      else if s = SECTOR_STORE + 8 then [0xf8, 0xff, 0xff, 0xff] @ replicate 16 0xff @ replicate 492 0
      else if s = SECTOR_STORE + 0x998 then concat store_dir @ replicate 320 0xff
      else if s = SECTOR_STORE + 0x9f8 then store_text @ replicate (512 - length store_text) 0
      else replicate 512 1)"

lemma store_text_eq: "store_text = [0x74, 0x69, 0x74, 0x6c, 0x65, 0x20, 0x61, 0x0a,
    0x6b, 0x65, 0x72, 0x6e, 0x65, 0x6c, 0x20, 0x2f, 0x6b, 0x0a, 0x69, 0x6e, 0x69, 0x74, 0x72, 0x64, 0x20, 0x2f, 0x69, 0x0a,
    0x61, 0x70, 0x70, 0x65, 0x6e, 0x64, 0x20, 0x72, 0x6f, 0x0a]"
  by (simp add: store_text_def boot_lines_def file_text_def line_text_def kw_defs)

lemma cfg_name: "tl linuxboot_cfg = [0x6c, 0x69, 0x6e, 0x75, 0x78, 0x62, 0x6f, 0x6f, 0x74, 0x2e, 0x63, 0x66, 0x67]"
  by (simp add: linuxboot_cfg_def path_E_def)

lemma length_store_entry: "length nm \<le> 42 \<Longrightarrow> length (store_entry nm c sz) = 64"
  by (simp add: store_entry_def)

lemma store_good: "length (store_image s) = 512"
  by (simp add: store_image_def store_dir_def store_text_eq cfg_name length_store_entry)

abbreviation "store_E \<equiv> disk_E store_image"

lemma store_next: "c \<in> {1, 2, 3, 4} \<Longrightarrow> getNextClusterInChain store_E c = Some (- 1)"
proof -
  have map: "clusterChainMap store_E = store_image 0x55F408 @ sectors store_image 0x55F409 (0x132000 - 512)"
    by (simp add: opened_partition_def Let_def chain_table_size_def chain_entry_size_def
        sectors.simps [of store_image "0x55F408"] store_good)
  have at: "le32_at (clusterChainMap store_E) i = Some 0xffffffff" if "i \<in> {4, 8, 12, 16}" for i
    unfolding map using that
    by (auto simp: le32_at_def store_good nth_append store_image_def le32_def nth_Cons')
  have size: "chainMapEntrySize store_E = 4"
    by (simp add: opened_partition_def Let_def chain_entry_size_def)
  show "c \<in> {1, 2, 3, 4} \<Longrightarrow> getNextClusterInChain store_E c = Some (- 1)"
    using at [of 4] at [of 8] at [of 12] at [of 16] by (auto simp: getNextClusterInChain_def size word_sless_alt)
qed

lemma store_chain: "c \<in> {1, 2, 3, 4} \<Longrightarrow> chain store_E 9 c = Some [c]"
proof -
  assume c: "c \<in> {1, 2, 3, 4}"
  have "(9 :: nat) = Suc (Suc 7)" by simp
  moreover have "c \<noteq> - 1" using c by auto
  ultimately show ?thesis by (simp only: chain.simps store_next [OF c] bind.bind_lunit) simp
qed

lemma store_cluster:
  "cluster_bytes store_E store_image c = sectors store_image (0x55FD98 + ucast (scast (c - 1) * 0x4000 div 512 :: u64)) 0x4000"
  if "c \<in> {1, 2, 3, 4}"
  using that by (auto simp: cluster_bytes_def opened_partition_def Let_def chain_table_size_def chain_entry_size_def)

lemma store_root: "\<exists>r. dir_entries store_E store_image [1] = store_dir @ r"
proof -
  let ?cl = "cluster_bytes store_E store_image 1"
  have cl: "?cl = store_image 0x55FD98 @ sectors store_image 0x55FD99 (0x4000 - 512)"
    by (simp add: store_cluster sectors.simps [of store_image "0x55FD98"] store_good)
  have "[0..<256] = 0 # 1 # 2 # [3..<256 :: nat]" by (simp add: upt_conv_Cons)
  moreover define r where "r = map (\<lambda>i. slice (i * 64) 64 ?cl) [3..<256]"
  ultimately have "entries 0x4000 ?cl = [slice 0 64 ?cl, slice 64 64 ?cl, slice 128 64 ?cl] @ r"
    by (simp add: entries_def del: upt_rec_numeral)
  moreover have "[slice 0 64 ?cl, slice 64 64 ?cl, slice 128 64 ?cl] = store_dir"
    by (simp add: cl slice_def store_image_def store_dir_def length_store_entry cfg_name)
  moreover have "clusterSize store_E = 0x4000" by (simp add: opened_partition_def Let_def)
  ultimately show ?thesis by simp
qed

lemma store_entry_fields:
  assumes "0 < length nm" and "length nm \<le> 42" and "0 \<notin> set nm"
  shows "\<not> checkForLastDirectoryEntry (store_entry nm c sz)" "\<not> is_deleted (store_entry nm c sz)"
    "valid_size (store_entry nm c sz)" "entry_name (store_entry nm c sz) = nm"
    "entry_flags (store_entry nm c sz) = 0" "entry_cluster (store_entry nm c sz) = ucast c"
    "entry_fileSize (store_entry nm c sz) = sz"
proof -
  let ?e = "store_entry nm c sz"
  have body: "length (nm @ replicate (42 - length nm) 0xff) = 42" using assms(2) by simp
  have nth: "?e ! 0 = of_nat (length nm)" "?e ! Suc 0 = 0" by (simp_all add: store_entry_def)
  have tail: "drop 44 ?e = [c, 0, 0, 0] @ le32_bytes sz @ replicate 12 0" using body by (simp add: store_entry_def)
  then have at: "?e ! (44 + i) = ([c, 0, 0, 0] @ le32_bytes sz @ replicate 12 0) ! i" if "i < 20" for i
  proof -
    have "drop 44 ?e ! i = ?e ! (44 + i)" by (rule nth_drop) (simp add: length_store_entry assms(2))
    then show ?thesis by (simp only: tail)
  qed
  have u: "unat (of_nat (length nm) :: u8) = length nm" using assms(2) by (simp add: unat_of_nat take_bit_nat_eq_self)
  have n: "(of_nat (length nm) :: u8) \<noteq> 0" "(of_nat (length nm) :: u8) \<noteq> 0xff" "(of_nat (length nm) :: u8) \<noteq> 0xE5"
    using u assms(1,2) by (auto dest: arg_cong [of _ _ unat])
  show "\<not> checkForLastDirectoryEntry ?e" "\<not> is_deleted ?e" "valid_size ?e"
    using n u assms
    by (simp_all add: checkForLastDirectoryEntry_def is_deleted_def valid_size_def name_size_def nth Suc_le_eq)
  have "takeWhile (\<lambda>c. c \<noteq> 0) nm = nm" using assms(3) by (auto simp: takeWhile_eq_all_conv)
  then show "entry_name ?e = nm"
    by (simp add: entry_name_def name_size_def nth u) (simp add: store_entry_def)
  show "entry_flags ?e = 0" by (simp add: entry_flags_def nth)
  show "entry_cluster ?e = ucast c"
    using at [of 0] at [of 1] at [of 2] at [of 3] by (simp add: entry_cluster_def le32_def)
  show "entry_fileSize ?e = sz"
    using at [of 4] at [of 5] at [of 6] at [of 7]
    by (simp add: entry_fileSize_def le32_bytes_def le32_of_bytes)
qed

lemma store_lookup:
  "lookup_hit [0x6b] False (store_dir @ r) = File 2 0x600"
  "lookup_hit [0x69] False (store_dir @ r) = File 3 4"
  "lookup_hit (tl linuxboot_cfg) False (store_dir @ r) = File 4 (of_nat (length store_text))"
  by (simp_all add: store_dir_def lookup_hit_def live_Cons store_entry_fields name_matches_def hit_of_def lower8_def cfg_name)

lemma store_ones: "take 0x600 (sectors store_image s 0x4000) = replicate 0x600 1" if "s \<in> {0x55FDB8, 0x55FDD8}" for s
proof -
  have "sectors store_image s 0x4000 = replicate 512 1 @ replicate 512 1 @ replicate 512 1
      @ sectors store_image (s + 3) (0x4000 - 0x600)"
    using that
    by (auto simp: sectors.simps [of store_image "0x55FDB8"] sectors.simps [of store_image "0x55FDB9"]
        sectors.simps [of store_image "0x55FDBA"] sectors.simps [of store_image "0x55FDD8"]
        sectors.simps [of store_image "0x55FDD9"] sectors.simps [of store_image "0x55FDDA"] store_good)
       (simp_all add: store_image_def)
  also have "\<dots> = replicate 0x600 1 @ sectors store_image (s + 3) (0x4000 - 0x600)"
    by (simp flip: append_assoc replicate_add)
  finally show ?thesis by simp
qed

lemma store_files:
  "file_on store_E 9 store_image [0x2f, 0x6b] (replicate 0x600 1)"
  "file_on store_E 9 store_image [0x2f, 0x69] (replicate 4 1)"
  "file_on store_E 9 store_image linuxboot_cfg store_text"
proof -
  obtain r where root: "dir_entries store_E store_image [1] = store_dir @ r"
    using store_root by blast
  have names: "path_components [0x2f, 0x6b] = [[0x6b]]" "path_components [0x2f, 0x69] = [[0x69]]"
    "path_components linuxboot_cfg = [tl linuxboot_cfg]"
    by (simp_all add: path_components_def slash_def linuxboot_cfg_def path_E_def)
  have res: "resolve store_E 9 store_image [[0x6b]] 1 = Some (Some (2, 0x600))"
    "resolve store_E 9 store_image [[0x69]] 1 = Some (Some (3, 4))"
    "resolve store_E 9 store_image [tl linuxboot_cfg] 1 = Some (Some (4, of_nat (length store_text)))"
    by (simp_all add: store_chain root store_lookup store_lookup(3) [unfolded cfg_name] cfg_name del: dir_entries_simps)
  have cl: "cluster_bytes store_E store_image 2 = sectors store_image 0x55FDB8 0x4000"
    "cluster_bytes store_E store_image 3 = sectors store_image 0x55FDD8 0x4000"
    "cluster_bytes store_E store_image 4 = sectors store_image 0x55FDF8 0x4000"
    by (simp_all add: store_cluster)
  have len: "length (sectors store_image s 0x4000) = 0x4000" for s
    by (rule length_sectors) (rule store_good)
  show "file_on store_E 9 store_image [0x2f, 0x6b] (replicate 0x600 1)"
    by (simp add: file_on_def names res store_chain cl len store_ones del: resolve.simps)
  have "take 4 (sectors store_image 0x55FDD8 0x4000) = take 4 (take 0x600 (sectors store_image 0x55FDD8 0x4000))" by simp
  also have "\<dots> = replicate 4 1" by (subst store_ones) simp_all
  finally show "file_on store_E 9 store_image [0x2f, 0x69] (replicate 4 1)"
    by (simp add: file_on_def names res store_chain cl len del: resolve.simps)
  have "sectors store_image 0x55FDF8 0x4000 = store_text @ replicate (512 - length store_text) 0
      @ sectors store_image 0x55FDF9 (0x4000 - 512)"
    by (simp add: sectors.simps [of store_image "0x55FDF8"] store_good) (simp add: store_image_def)
  moreover have "length store_text = 38" by (simp add: store_text_eq)
  ultimately show "file_on store_E 9 store_image linuxboot_cfg store_text"
    by (simp add: file_on_def names res store_chain cl len del: resolve.simps)
qed

section \<open>The machine\<close>

definition console_machine :: "(smb_dev \<times> ata_dev) machine" where
  "console_machine = \<lparr>mc_ports = console_ports, mc_fuel = 9, mc_read = BootIdeReadSector console_ports 9 xbox_drives,
     mc_stack = replicate 0x4000 0, mc_uninit = (\<lambda>k. replicate k 0), mc_slack = [0, 0], mc_turn = (\<lambda>d. ((False, True), d)),
     mc_grub = \<lparr>grub_open = (\<lambda>_ _ d. ((False, True, 0), d)), grub_read = (\<lambda>_ d. ([], d)), grub_close = (\<lambda>d. d)\<rparr>,
     mc_stop_usb = (\<lambda>d. d)\<rparr>"

lemma console_led:
  assumes "smb_ready 9 b" and "pattern \<in> {busyLED, errorLED, goodLED, highLED}"
  shows "\<exists>b'. led console_machine pattern (b, a) = Some (b', a) \<and> smb_ready 9 b'"
proof -
  obtain x y z u where "pattern = [x, y, z, u]"
    using assms(2) by (auto simp: busyLED_def errorLED_def goodLED_def highLED_def)
  then obtain b' where "setLED smb_ports 9 pattern b = Some b'" "smb_ready 9 b'"
    using setLED_pattern [OF smb.smbus_axioms assms(1), of x y z u] by auto
  then show ?thesis by (simp add: led_def console_machine_def bus_of.setLED_map)
qed

lemma console_pic:
  assumes "smb_ready 9 b"
  shows "\<exists>b'. pic_word console_machine w (b, a) = Some (b', a) \<and> smb_ready 9 b'"
proof -
  have "(0x10 :: u8) < 0x80" by simp
  from smb.transmit_word [OF assms this, of w] obtain b' where
    "I2CTransmitWord smb_ports 9 0x10 w b = Some (ERR_SUCCESS, b')" "smb_ready 9 b'" by blast
  then show ?thesis by (simp add: pic_word_def console_machine_def bus_of.TransmitWord_map)
qed

lemma console_read:
  assumes "ide_ready 9 a" and "length old \<le> 512"
  shows "\<exists>a'. mc_read console_machine 0 s 0 old (b, a) = Some (0, take (length old) (t_disk a (unat s)), (b, a'))
    \<and> ide_ready 9 a' \<and> t_disk a' = t_disk a"
proof -
  obtain a' where "BootIdeReadSector ata_ports 9 xbox_drives 0 s 0 old a = Some (0, take (length old) (t_disk a (unat s)), a')"
    "ide_ready 9 a'" "(\<lambda>s :: u32. t_disk a' (unat s)) = (\<lambda>s. t_disk a (unat s))"
    "t_disk a' = t_disk a"
    using BootIdeReadSector_master [OF assms(1) xbox_master(1), of s 0 old] assms(2) xbox_master(2)
    by (auto simp: reaches_def slice_def)
  then show ?thesis by (simp add: console_machine_def disk_of.ReadSector_map [OF xbox_master(1)])
qed

lemma console_mode:
  assumes "ide_ready 9 a" and "drv = 0 \<or> drv = 1"
  shows "\<exists>e a'. BootIdeSetTransferMode (mc_ports console_machine) (mc_fuel console_machine) xbox_drives drv mode (b, a)
    = Some (e, (b, a')) \<and> ide_ready 9 a' \<and> t_disk a' = t_disk a \<and> t_disc a' = t_disc a"
proof -
  obtain h where h: "drive_info xbox_drives drv = Some h" "m_fwPortBase h = 0x1F0"
    using assms(2) by (auto simp: drive_info_def xbox_drives_def)
  from SetTransferMode_ata [OF assms(1) h, of mode] show ?thesis
    by (auto simp: console_machine_def disk_of.SetTransferMode_map [OF h])
qed

lemma console_disc_read:
  assumes "ide_ready 9 a" and "length old = 2048"
  shows "\<exists>a'. mc_read console_machine 1 s 0 old (b, a) = Some (0, t_disc a s, (b, a')) \<and> ide_ready 9 a' \<and> t_disc a' = t_disc a"
  using dvd.block_read [OF assms, of s] by (auto simp: console_machine_def disk_of.ReadSector_slave_map [OF xbox_slave])

lemma console_leaving:
  assumes "\<And>b a b' a'. t_disk a' = t_disk a \<Longrightarrow> t_disc a' = t_disc a \<Longrightarrow> img (b', a') = img (b, a)"
  shows "leaving console_machine img (console_ready 9) xbox_drives"
proof
  fix d :: "smb_dev \<times> ata_dev" and drv mode :: u32 and pattern :: bytes and w :: u16 and t :: nat
  obtain b a where d: "d = (b, a)" by (cases d)
  have same: "img (b', a) = img d" for b' unfolding d by (rule assms) simp_all
  show "console_ready 9 d \<Longrightarrow> pattern \<in> {busyLED, errorLED, goodLED, highLED} \<Longrightarrow>
      \<exists>d'. led console_machine pattern d = Some d' \<and> console_ready 9 d' \<and> img d' = img d"
    using console_led [of b pattern a] same by (auto simp: d console_ready_def)
  show "console_ready 9 d \<Longrightarrow> \<exists>d'. pic_word console_machine w d = Some d' \<and> console_ready 9 d' \<and> img d' = img d"
    using console_pic [of b w a] same by (auto simp: d console_ready_def)
  show "console_ready 9 d \<Longrightarrow> console_ready 9 (wait_ms console_machine t d) \<and> img (wait_ms console_machine t d) = img d"
    by (simp add: d wait_ms_def console_machine_def console_ports_def ata_ports_simps smb_ports_simps)
  show "console_ready 9 d \<Longrightarrow> console_ready 9 (mc_stop_usb console_machine d) \<and> img (mc_stop_usb console_machine d) = img d"
    by (simp add: console_machine_def)
  show "drive_info xbox_drives 0 \<noteq> None" by (simp add: drive_info_def xbox_drives_def)
  assume "console_ready 9 d" "drv = 0 \<or> drv = 1"
  then obtain e a' where "BootIdeSetTransferMode (mc_ports console_machine) (mc_fuel console_machine) xbox_drives drv mode d
      = Some (e, (b, a'))" "ide_ready 9 a'" "t_disk a' = t_disk a" "t_disc a' = t_disc a" "smb_ready 9 b"
    using console_mode [of a drv mode b] by (auto simp: d console_ready_def)
  then show "\<exists>e d'. BootIdeSetTransferMode (mc_ports console_machine) (mc_fuel console_machine) xbox_drives drv mode d
      = Some (e, d') \<and> console_ready 9 d' \<and> img d' = img d"
    using assms [of a' a b b] by (auto simp: d console_ready_def)
qed

lemma console_sectors:
  "sector_source (mc_read console_machine) 0 (\<lambda>d s. t_disk (snd d) (unat s)) (console_ready 9)"
proof
  fix d :: "smb_dev \<times> ata_dev" and s :: u32 and old :: bytes
  obtain b a where d: "d = (b, a)" by (cases d)
  show "console_ready 9 d \<Longrightarrow> length (t_disk (snd d) (unat s)) = 512" by (simp add: console_ready_def ide_ready_def)
  show "console_ready 9 d \<Longrightarrow> length old \<le> 512 \<Longrightarrow> \<exists>d'. mc_read console_machine 0 s 0 old d =
      Some (0, take (length old) (t_disk (snd d) (unat s)), d') \<and> console_ready 9 d'
      \<and> (\<lambda>s. t_disk (snd d') (unat s)) = (\<lambda>s :: u32. t_disk (snd d) (unat s))"
    using console_read [of a old s b] by (auto simp: d console_ready_def)
qed

lemma console_blocks:
  "block_source (mc_read console_machine) 1 (\<lambda>d. t_disc (snd d)) (console_ready 9)"
proof
  fix d :: "smb_dev \<times> ata_dev" and s :: u32 and old :: bytes
  obtain b a where d: "d = (b, a)" by (cases d)
  show "console_ready 9 d \<Longrightarrow> length (t_disc (snd d) s) = 2048" by (simp add: console_ready_def ide_ready_def)
  show "console_ready 9 d \<Longrightarrow> length old = 2048 \<Longrightarrow> \<exists>d'. mc_read console_machine 1 s 0 old d =
      Some (0, t_disc (snd d) s, d') \<and> console_ready 9 d' \<and> t_disc (snd d') = t_disc (snd d)"
    using console_disc_read [of a old s b] by (auto simp: d console_ready_def)
qed

interpretation console: boot_machine console_machine "\<lambda>d s. t_disk (snd d) (unat s)" "console_ready 9" xbox_drives
  by (intro boot_machine.intro boot_machine_axioms.intro console_leaving console_sectors)
    (simp_all add: console_machine_def)

interpretation console_disc: disc_machine console_machine 1 "\<lambda>d. t_disc (snd d)" "console_ready 9" xbox_drives
  by (intro disc_machine.intro disc_machine_axioms.intro console_leaving console_blocks)
    (simp_all add: console_machine_def)

section \<open>Properties\<close>

text \<open>C1. From the partition E: of the configuration \<open>linuxboot.cfg\<close> any entry whose kernel and RAM disk are
  on the partition boots. The kernel is entered at its code, which is all of the file behind its header;
  the parameters say where the RAM disk is and how long, where the command line is (at most 511
  characters of it) and what memory there is.\<close>

theorem fatx_boots:
  assumes "boot_machine mc img ready info" and "ready d"
    and "take 4 (img d SECTOR_STORE) = [0x46, 0x41, 0x54, 0x58]"
    and "file_on (disk_E (img d)) (mc_fuel mc) (img d) linuxboot_cfg (file_text lines)"
    and "\<forall>l\<in>set lines. good_line None l" and "mc_slack mc = c # 0 # r" and "length (fi_filename fi) = 44"
    and "i < length (boot_entries None lines)" and "e = boot_entries None lines ! i"
    and "file_on (disk_E (img d)) (mc_fuel mc) (img d) (e_kernel e) K"
    and "e_initrd e \<noteq> []" and "file_on (disk_E (img d)) (mc_fuel mc) (img d) (e_initrd e) I"
    and "0x1f1 < length K" and "hdr = (unat (K ! 0x1f1) + 1) * 512" and "hdr \<le> length K"
    and "length K \<le> 0x2100000" and "length K - hdr \<le> 0x800000" and "length I \<le> 0x2100000" and "I \<noteq> []"
    and "xbox_ram vmode = 64 \<or> xbox_ram vmode = 128"
  shows "\<exists>es d1 m d2. LoadConfigFatX mc fi d = Some (es, d1) \<and> length es = length (boot_entries None lines)
    \<and> BootMenuEntry mc info vmode (es ! i) s d1 = Some (Entered kernel_entry m, d2)
    \<and> starts_linux kernel_entry m hdr K I (e_append e) (xbox_ram vmode)"
  by (rule boot_machine.fatx_starts [OF assms])

definition store_ata :: ata_dev where
  "store_ata = blank_ata\<lparr>t_disk := (\<lambda>s. store_image (of_nat s))\<rparr>"

lemma demo_lines_good:
  "\<forall>l\<in>set (boot_lines [0x2f, 0x6b] [0x2f, 0x69]). good_line None l"
  "\<forall>l\<in>set (boot_lines [0x2f, 0x6b, 0x6e] [0x2f, 0x69, 0x64]). good_line None l"
  by (simp_all add: boot_lines_def good_line_def kw_defs isspace_def is_kw_def)

lemma demo_lines_entries:
  "boot_entries None (boot_lines [0x2f, 0x6b] [0x2f, 0x69]) =
    [\<lparr>e_title = [0x61], e_kernel = [0x2f, 0x6b], e_initrd = [0x2f, 0x69], e_append = [0x72, 0x6f], e_default = False\<rparr>]"
  "boot_entries None (boot_lines [0x2f, 0x6b, 0x6e] [0x2f, 0x69, 0x64]) =
    [\<lparr>e_title = [0x61], e_kernel = [0x2f, 0x6b, 0x6e], e_initrd = [0x2f, 0x69, 0x64], e_append = [0x72, 0x6f], e_default = False\<rparr>]"
  by code_simp+

definition demo_screen :: screen where
  "demo_screen = \<lparr>xbox_ram = 64, width = 640, height = 480\<rparr>"

definition demo_boot :: boot_state where
  "demo_boot = \<lparr>mem = (\<lambda>_. 0), dwKernelSize = 0, dwInitrdSize = 0\<rparr>"

theorem fatx_boots_witness:
  "\<exists>es d1 m d2. LoadConfigFatX console_machine blank_fileinfo (blank_smb 0, store_ata) = Some (es, d1)
    \<and> BootMenuEntry console_machine xbox_drives demo_screen (es ! 0) demo_boot d1 = Some (Entered kernel_entry m, d2)
    \<and> starts_linux kernel_entry m 1024 (replicate 0x600 1) (replicate 4 1) [0x72, 0x6f] 64"
proof -
  have img: "(\<lambda>s :: u32. t_disk (snd (blank_smb 0, store_ata)) (unat s)) = store_image"
    by (simp add: store_ata_def)
  have ready: "console_ready 9 (blank_smb 0, store_ata)"
    using blank_ready(1) store_good
    by (simp add: console_ready_def store_ata_def ide_ready_def smb_ready_def blank_smb_def)
  have mc: "mc_fuel console_machine = 9" "mc_slack console_machine = 0 # 0 # []" by (simp_all add: console_machine_def)
  have magic: "take 4 (t_disk (snd (blank_smb 0, store_ata)) (unat SECTOR_STORE)) = [0x46, 0x41, 0x54, 0x58]"
    by (simp add: store_ata_def store_image_def)
  from fatx_boots [OF console.boot_machine_axioms ready, unfolded img mc(1), OF magic store_files(3) [unfolded store_text_def]
      demo_lines_good(1) mc(2), where i = 0 and e = "boot_entries None (boot_lines [0x2f, 0x6b] [0x2f, 0x69]) ! 0"
        and K = "replicate 0x600 1" and I = "replicate 4 1" and hdr = 1024 and fi = blank_fileinfo
        and vmode = demo_screen and s = demo_boot]
  show ?thesis using store_files(1,2) by (auto simp: demo_lines_entries demo_screen_def blank_fileinfo_def)
qed

end
