(* ===== verification/LinuxCdrom.thy ===== *)
theory LinuxCdrom
  imports LinuxFatx
begin

text \<open>
  The start from a disc on the same machine, and a disc on which the kernel is missing.
\<close>

section \<open>A disc that boots\<close>

definition boot_record :: "u8 \<Rightarrow> u32 \<Rightarrow> bytes \<Rightarrow> bytes" where
  "boot_record extent sz name =
     [33 + of_nat (length name), 0, extent, 0, 0, 0, 0, 0, 0, 0] @ le32_bytes sz
     @ [0, 0, 0, 0, 0, 0, 0, 0, 0, 0, 0, 0, 0, 0, 0, 0, 0, 0, of_nat (length name)] @ name"

definition disc_text :: bytes where
  "disc_text = file_text (boot_lines [0x2f, 0x6b, 0x6e] [0x2f, 0x69, 0x64])"

text \<open>The root directory in block 18: itself, \<open>KN;1\<close>, \<open>ID;1\<close> and \<open>LINUXBOO.CFG;1\<close>.\<close>

definition boot_dir :: bytes where
  "boot_dir = boot_record 18 2048 [0] @ boot_record 19 0x600 [0x4b, 0x4e, 0x3b, 0x31]
     @ boot_record 20 4 [0x49, 0x44, 0x3b, 0x31]
     @ boot_record 21 40 [0x4c, 0x49, 0x4e, 0x55, 0x58, 0x42, 0x4f, 0x4f, 0x2e, 0x43, 0x46, 0x47, 0x3b, 0x31]"

definition boot_disc :: "u32 \<Rightarrow> bytes" where
  "boot_disc s =
     (if s = 16 then replicate 156 0 @ boot_record 18 2048 [0] @ replicate 1858 0
      else if s = 18 then boot_dir @ replicate 1893 0
      else if s = 21 then disc_text @ replicate 2008 0
      else replicate 2048 1)"

lemma disc_text_eq: "disc_text = [0x74, 0x69, 0x74, 0x6c, 0x65, 0x20, 0x61, 0x0a,
    0x6b, 0x65, 0x72, 0x6e, 0x65, 0x6c, 0x20, 0x2f, 0x6b, 0x6e, 0x0a, 0x69, 0x6e, 0x69, 0x74, 0x72, 0x64, 0x20, 0x2f, 0x69, 0x64, 0x0a,
    0x61, 0x70, 0x70, 0x65, 0x6e, 0x64, 0x20, 0x72, 0x6f, 0x0a]"
  by (simp add: disc_text_def boot_lines_def file_text_def line_text_def kw_defs)

lemma boot_dir_eq: "boot_dir =
  [34, 0, 18, 0, 0, 0, 0, 0, 0, 0, 0, 8, 0, 0, 0, 0, 0, 0, 0, 0, 0, 0, 0, 0, 0, 0, 0, 0, 0, 0, 0, 0, 1, 0] @
  [37, 0, 19, 0, 0, 0, 0, 0, 0, 0, 0, 6, 0, 0, 0, 0, 0, 0, 0, 0, 0, 0, 0, 0, 0, 0, 0, 0, 0, 0, 0, 0, 4, 0x4b, 0x4e, 0x3b, 0x31] @
  [37, 0, 20, 0, 0, 0, 0, 0, 0, 0, 4, 0, 0, 0, 0, 0, 0, 0, 0, 0, 0, 0, 0, 0, 0, 0, 0, 0, 0, 0, 0, 0, 4, 0x49, 0x44, 0x3b, 0x31] @
  [47, 0, 21, 0, 0, 0, 0, 0, 0, 0, 40, 0, 0, 0, 0, 0, 0, 0, 0, 0, 0, 0, 0, 0, 0, 0, 0, 0, 0, 0, 0, 0, 14,
   0x4c, 0x49, 0x4e, 0x55, 0x58, 0x42, 0x4f, 0x4f, 0x2e, 0x43, 0x46, 0x47, 0x3b, 0x31]"
  by (simp add: boot_dir_def boot_record_def le32_bytes_def)

lemma boot_disc_length: "length (boot_disc s) = 2048"
  by (simp add: boot_disc_def boot_dir_def disc_text_eq boot_record_def)

definition boot_block :: bytes where
  "boot_block = boot_dir @ replicate 1893 0"

lemma boot_block_fields:
  "byte_at boot_block 0 = Some 34" "byte_at boot_block 34 = Some 37" "byte_at boot_block 71 = Some 37"
  "byte_at boot_block 108 = Some 47" "byte_at boot_block 155 = Some 0"
  "length boot_block = 2048"
  by (simp_all add: byte_at_def boot_block_def boot_dir_eq nth_append)

lemma boot_block_records: "dir_records boot_block 2048 0 = Some [boot_block, drop 34 boot_block, drop 71 boot_block, drop 108 boot_block]"
  by (simp add: boot_block_fields dir_records.simps [of boot_block 2048 0] dir_records.simps [of boot_block 2048 34]
      dir_records.simps [of boot_block 2048 71] dir_records.simps [of boot_block 2048 108]
      dir_records.simps [of boot_block 2048 155] dir_records.simps [of boot_block 2048 2048])

lemma boot_names:
  "\<not> named boot_block"
  "named (drop 34 boot_block)" "rec_name (drop 34 boot_block) = [0x6b, 0x6e]"
  "named (drop 71 boot_block)" "rec_name (drop 71 boot_block) = [0x69, 0x64]"
  "named (drop 108 boot_block)" "rec_name (drop 108 boot_block) = tl path_linuxboo"
  "wf_rec boot_block" "wf_rec (drop 34 boot_block)" "wf_rec (drop 71 boot_block)" "wf_rec (drop 108 boot_block)"
  by (simp_all add: named_def rec_name_def rec_name_len_def boot_block_def boot_dir_eq nth_append path_linuxboo_def wf_rec_def
      iso9660_name_translate_def translate_char_def byte_at_def isupper_def tolower_def upt_rec)

lemma boot_root: "root_walk boot_disc cs = iso_walk boot_disc 18 2048 cs"
proof -
  have "rec_extent (drop 156 (boot_disc 16)) = 18" "rec_size (drop 156 (boot_disc 16)) = 2048"
    by (simp_all add: boot_disc_def boot_record_def rec_extent_def rec_size_def le32_def le32_bytes_def nth_append)
  then show ?thesis by (simp add: root_walk_def)
qed

lemma boot_root_dir: "iso_dir boot_disc 18 2048 = Some [boot_block, drop 34 boot_block, drop 71 boot_block, drop 108 boot_block]"
proof -
  have "blocks boot_disc 18 1 = boot_block" by (simp add: boot_disc_def boot_block_def)
  then show ?thesis using boot_block_records boot_names(8-11) by (simp add: iso_dir_def)
qed

lemma boot_walk:
  "root_walk boot_disc [[0x6b, 0x6e]] = Some (Some (take 33 (drop 34 boot_block)))"
  "root_walk boot_disc [[0x69, 0x64]] = Some (Some (take 33 (drop 71 boot_block)))"
  "root_walk boot_disc [tl path_linuxboo] = Some (Some (take 33 (drop 108 boot_block)))"
  by (simp_all add: boot_root boot_root_dir iso_child_def boot_names(1-7) path_linuxboo_def)

lemma boot_records:
  "rec_extent (take 33 (drop 34 boot_block)) = 19" "rec_size (take 33 (drop 34 boot_block)) = 0x600"
  "rec_extent (take 33 (drop 71 boot_block)) = 20" "rec_size (take 33 (drop 71 boot_block)) = 4"
  "rec_extent (take 33 (drop 108 boot_block)) = 21" "rec_size (take 33 (drop 108 boot_block)) = 40"
  by (simp_all add: rec_extent_def rec_size_def le32_def boot_block_def boot_dir_eq)

lemma boot_files:
  "on_disc boot_disc [[0x6b, 0x6e]] (replicate 0x600 1)" "on_disc boot_disc [[0x69, 0x64]] (replicate 4 1)"
  "padded_on_disc boot_disc linuxboo_cfg disc_text"
proof -
  have up: "unat (round_up 0x600) div 2048 = Suc 0" "unat (round_up 4) div 2048 = Suc 0" "unat (round_up 40) div 2048 = Suc 0"
    by (simp_all add: round_up_def)
  have text_len: "length disc_text = 40" by (simp add: disc_text_eq)
  show "on_disc boot_disc [[0x6b, 0x6e]] (replicate 0x600 1)" "on_disc boot_disc [[0x69, 0x64]] (replicate 4 1)"
    by (simp_all add: on_disc_def path_ok_def boot_walk boot_records up) (simp_all add: boot_disc_def)
  have cfg: "root_walk boot_disc linuxboo_cfg = Some (Some (take 33 (drop 108 boot_block)))" "path_ok linuxboo_cfg"
    using boot_walk(3) by (simp_all add: linuxboo_cfg_def path_ok_def path_linuxboo_def)
  have blocks: "blocks boot_disc 21 (Suc 0) = disc_text @ replicate 2008 0" by (simp add: boot_disc_def)
  then show "padded_on_disc boot_disc linuxboo_cfg disc_text"
    by (simp add: padded_on_disc_def on_disc_def cfg boot_records up text_len del: blocks.simps)
qed

section \<open>Properties\<close>

text \<open>C2. From a disc: of the configuration \<open>linuxboo.cfg\<close> any entry whose kernel and RAM disk are on the disc
  boots in the same way. A file must leave room for the block that the code reads behind a file of whole
  blocks, and the last block of the configuration is filled up with zeros.\<close>

theorem disc_boots:
  assumes "disc_machine mc drv blk ready info" and "ready d"
    and "padded_on_disc (blk d) linuxboo_cfg (file_text lines)"
    and "lines \<noteq> []" and "\<forall>l\<in>set lines. good_line None l" and "length (file_text lines) < 0x800"
    and "i < length (boot_entries None lines)" and "e = boot_entries None lines ! i"
    and "e_kernel e = iso_path kcs" and "on_disc (blk d) kcs K"
    and "e_initrd e = iso_path ics" and "ics \<noteq> []" and "on_disc (blk d) ics I"
    and "0x1f1 < length K" and "hdr = (unat (K ! 0x1f1) + 1) * 512" and "hdr \<le> length K"
    and "length K < 0x800000" and "length I + 2048 \<le> 0x2100000" and "I \<noteq> []"
    and "xbox_ram vmode = 64 \<or> xbox_ram vmode = 128"
  shows "\<exists>es m1 d1 m d2. LoadConfigCD mc drv (mem s) d = Some (es, m1, d1) \<and> length es = length (boot_entries None lines)
    \<and> BootMenuEntry mc info vmode (es ! i) (s\<lparr>mem := m1\<rparr>) d1 = Some (Entered kernel_entry m, d2)
    \<and> starts_linux kernel_entry m hdr K I (e_append e) (xbox_ram vmode)"
  by (rule disc_machine.disc_starts [OF assms])

definition disc_ata :: ata_dev where
  "disc_ata = blank_ata\<lparr>t_disc := boot_disc\<rparr>"

lemma disc_ready: "console_ready 9 (blank_smb 0, disc_ata)" "t_disc (snd (blank_smb 0, disc_ata)) = boot_disc"
  using blank_ready(1) boot_disc_length
  by (simp_all add: console_ready_def disc_ata_def ide_ready_def smb_ready_def blank_smb_def)

theorem disc_boots_witness:
  "\<exists>es m1 d1 m d2. LoadConfigCD console_machine 1 (mem demo_boot) (blank_smb 0, disc_ata) = Some (es, m1, d1)
    \<and> BootMenuEntry console_machine xbox_drives demo_screen (es ! 0) (demo_boot\<lparr>mem := m1\<rparr>) d1
        = Some (Entered kernel_entry m, d2)
    \<and> starts_linux kernel_entry m 1024 (replicate 0x600 1) (replicate 4 1) [0x72, 0x6f] 64"
proof -
  let ?lines = "boot_lines [0x2f, 0x6b, 0x6e] [0x2f, 0x69, 0x64]"
  have "?lines \<noteq> []" "length (file_text ?lines) < 0x800"
    by (simp add: boot_lines_def) (simp add: disc_text_eq flip: disc_text_def)
  from disc_boots [OF console_disc.disc_machine_axioms disc_ready(1), unfolded disc_ready(2),
      OF boot_files(3) [unfolded disc_text_def] this(1) demo_lines_good(2) this(2),
      where i = 0 and e = "boot_entries None ?lines ! 0" and kcs = "[[0x6b, 0x6e]]" and ics = "[[0x69, 0x64]]"
        and K = "replicate 0x600 1" and I = "replicate 4 1" and hdr = 1024 and vmode = demo_screen and s = demo_boot]
  show ?thesis using boot_files(1,2) by (auto simp: demo_lines_entries demo_screen_def)
qed

text \<open>C27. A kernel that is not on the disc: the code tests the size, an unsigned number, for being negative, so
  that the error code -1 counts as the size of the kernel, and the copy of it overruns itself: no run of
  the code has a defined end, where the end meant is the stop with the red light.\<close>

theorem BootMenuEntry_missing_kernel:
  assumes "disc_machine mc drv blk ready info" and "ready d"
    and "bootType config = BOOT_CDROM" and "drive config = drv"
    and "szKernel config = iso_path kcs @ 0 # kr" and "0 \<notin> set (iso_path kcs)" and "not_on_disc (blk d) kcs"
  shows "BootMenuEntry mc info vmode config s d = None"
  by (rule disc_machine.BootMenuEntry_no_kernel [OF assms])

theorem BootMenuEntry_missing_kernel_witness:
  "BootMenuEntry console_machine xbox_drives demo_screen
    (cleared_entry\<lparr>drive := 1, szKernel := [0x2f, 0x78, 0x79, 0]\<rparr>) demo_boot (blank_smb 0, disc_ata) = None"
proof -
  have "not_on_disc boot_disc [[0x78, 0x79]]"
    by (simp add: not_on_disc_def path_ok_def boot_root boot_root_dir iso_child_def boot_names(1-7) path_linuxboo_def)
  then show ?thesis
    by (intro BootMenuEntry_missing_kernel [OF console_disc.disc_machine_axioms disc_ready(1), where kcs = "[[0x78, 0x79]]"])
      (simp_all add: disc_ata_def cleared_entry_def)
qed

end
