(* ===== verification/Vsprintf.thy ===== *)
theory Vsprintf
  imports Prelude
begin

text \<open>
  Formatted output and the reading of numbers, \<open>lib/misc/vsprintf.c\<close>. A \<open>long\<close> has 32 bits, as on the
  Xbox. A routine that writes at \<open>str\<close> gives the bytes it writes; the arguments of a variadic call are a
  list, and an argument of the wrong kind, or one too few, has no defined outcome.
\<close>

section \<open>Characters\<close>

definition is_digit :: "u8 \<Rightarrow> bool" where
  "is_digit c \<longleftrightarrow> 0x30 \<le> c \<and> c \<le> 0x39"

definition isxdigit :: "u8 \<Rightarrow> bool" where
  "isxdigit c \<longleftrightarrow> 0x30 \<le> c \<and> c \<le> 0x39 \<or> 0x61 \<le> c \<and> c \<le> 0x66 \<or> 0x41 \<le> c \<and> c \<le> 0x46"

definition islower :: "u8 \<Rightarrow> bool" where
  "islower c \<longleftrightarrow> 0x61 \<le> c \<and> c \<le> 0x7a"

definition toupper :: "u8 \<Rightarrow> u8" where
  "toupper c = (if islower c then c - (0x61 - 0x41) else c)"

section \<open>Reading numbers\<close>

definition digit_value :: "u8 \<Rightarrow> u32" where
  "digit_value c =
     (if is_digit c then ucast c - 0x30 else ucast (if islower c then toupper c else c) - 0x41 + 10)"

fun strtoul_loop :: "bytes \<Rightarrow> u32 \<Rightarrow> u32 \<Rightarrow> (u32 \<times> bytes) option" where
  "strtoul_loop [] base result = None"
| "strtoul_loop (c # cp) base result =
     (if isxdigit c \<and> digit_value c < base then strtoul_loop cp base (result * base + digit_value c)
      else Some (result, c # cp))"

definition strtoul_base :: "bytes \<Rightarrow> (u32 \<times> bytes) option" where
  "strtoul_base cp = do {
     c \<leftarrow> byte_at cp 0;
     if c = 0x30 then do {
       let cp = tl cp;
       c \<leftarrow> byte_at cp 0;
       if c = 0x78 then do {
         x \<leftarrow> byte_at cp 1;
         Some (if isxdigit x then (16, tl cp) else (8, cp)) }
       else Some (8, cp) }
     else Some (10, cp) }"

definition simple_strtoul :: "bytes \<Rightarrow> u32 \<Rightarrow> (u32 \<times> bytes) option" where
  "simple_strtoul cp base = do {
     (base, cp) \<leftarrow> (if base = 0 then strtoul_base cp else Some (base, cp));
     strtoul_loop cp base 0 }"

definition simple_strtol :: "bytes \<Rightarrow> u32 \<Rightarrow> (u32 \<times> bytes) option" where
  "simple_strtol cp base = do {
     c \<leftarrow> byte_at cp 0;
     if c = 0x2d then map_option (apfst uminus) (simple_strtoul (tl cp) base)
     else simple_strtoul cp base }"

fun skip_atoi :: "bytes \<Rightarrow> u32 \<Rightarrow> (u32 \<times> bytes) option" where
  "skip_atoi [] i = None"
| "skip_atoi (c # s) i = (if is_digit c then skip_atoi s (i * 10 + ucast c - 0x30) else Some (i, c # s))"

section \<open>Printing a number\<close>

abbreviation (input) "ZEROPAD \<equiv> 1 :: u32"
abbreviation (input) "SIGN \<equiv> 2 :: u32"
abbreviation (input) "PLUS \<equiv> 4 :: u32"
abbreviation (input) "SPACE \<equiv> 8 :: u32"
abbreviation (input) "LEFT \<equiv> 16 :: u32"
abbreviation (input) "SPECIAL \<equiv> 32 :: u32"
abbreviation (input) "LARGE \<equiv> 64 :: u32"

definition small_digits :: bytes where
  "small_digits = [0x30, 0x31, 0x32, 0x33, 0x34, 0x35, 0x36, 0x37, 0x38, 0x39, 0x61, 0x62, 0x63, 0x64, 0x65, 0x66, 0x67,
     0x68, 0x69, 0x6a, 0x6b, 0x6c, 0x6d, 0x6e, 0x6f, 0x70, 0x71, 0x72, 0x73, 0x74, 0x75, 0x76, 0x77, 0x78, 0x79, 0x7a]"

definition large_digits :: bytes where
  "large_digits = [0x30, 0x31, 0x32, 0x33, 0x34, 0x35, 0x36, 0x37, 0x38, 0x39, 0x41, 0x42, 0x43, 0x44, 0x45, 0x46, 0x47,
     0x48, 0x49, 0x4a, 0x4b, 0x4c, 0x4d, 0x4e, 0x4f, 0x50, 0x51, 0x52, 0x53, 0x54, 0x55, 0x56, 0x57, 0x58, 0x59, 0x5a]"

text \<open>\<open>while (width-- > 0) *str++ = c\<close>: what is written, and \<open>width\<close> afterwards.\<close>

function pad :: "u32 \<Rightarrow> u8 \<Rightarrow> bytes \<times> u32" where
  "pad n c = (if 0 <s n then let (s, n) = pad (n - 1) c in (c # s, n) else ([], n - 1))"
  by pat_completeness auto

text \<open>The digits into \<open>tmp\<close>, the lowest first. The base is at least 2.\<close>

function number_digits :: "bytes \<Rightarrow> u32 \<Rightarrow> u32 \<Rightarrow> bytes" where
  "number_digits digits base num =
     (if num = 0 \<or> base < 2 then [] else digits ! unat (num mod base) # number_digits digits base (num div base))"
  by pat_completeness auto

definition number_sign :: "u32 \<Rightarrow> u32 \<Rightarrow> u32 \<Rightarrow> u8 \<times> u32 \<times> u32" where
  "number_sign num width typ =
     (if typ AND SIGN \<noteq> 0
      then if num <s 0 then (0x2d, - num, width - 1)
           else if typ AND PLUS \<noteq> 0 then (0x2b, num, width - 1)
           else if typ AND SPACE \<noteq> 0 then (0x20, num, width - 1)
           else (0, num, width)
      else (0, num, width))"

text \<open>The second half of \<open>number\<close>, from the precision on: \<open>i\<close> digits are in \<open>tmp\<close>.\<close>

definition number_write :: "u32 \<Rightarrow> bytes \<Rightarrow> u32 \<Rightarrow> u8 \<Rightarrow> u32 \<Rightarrow> u32 \<Rightarrow> bytes \<Rightarrow> bytes" where
  "number_write typ digits base sign width precision tmp =
     (let c = (if typ AND ZEROPAD \<noteq> 0 then 0x30 else 0x20);
          i = of_nat (length tmp);
          precision = (if precision <s i then i else precision);
          width = width - precision;
          (left, width) = (if typ AND (ZEROPAD + LEFT) = 0 then pad width 0x20 else ([], width));
          prefix = (if typ AND SPECIAL \<noteq> 0
                    then if base = 8 then [0x30] else if base = 16 then [0x30, digits ! 33] else [] else []);
          (fill, width) = (if typ AND LEFT = 0 then pad width c else ([], width));
          zeros = fst (pad (precision - i) 0x30);
          right = fst (pad width 0x20)
      in left @ (if sign \<noteq> 0 then [sign] else []) @ prefix @ fill @ zeros @ rev tmp @ right)"

definition number :: "u32 \<Rightarrow> u32 \<Rightarrow> u32 \<Rightarrow> u32 \<Rightarrow> u32 \<Rightarrow> bytes option" where
  "number num base width precision typ =
     (let digits = (if typ AND LARGE \<noteq> 0 then large_digits else small_digits);
          typ = (if typ AND LEFT \<noteq> 0 then typ AND NOT ZEROPAD else typ)
      in if base <s 2 \<or> 36 <s base then None
         else
           let (sign, num, width) = number_sign num width typ;
               width = (if typ AND SPECIAL \<noteq> 0
                        then if base = 16 then width - 2 else if base = 8 then width - 1 else width else width);
               tmp = (if num = 0 then [0x30] else number_digits digits base num)
           in Some (number_write typ digits base sign width precision tmp))"

section \<open>Formats\<close>

datatype arg = Number u32 | Pointer "bytes option" | Counter

text \<open>The output: the text so far, how far the buffer has been written, and what was stored by \<open>%n\<close>.\<close>

record printed =
  out :: bytes
  reach :: nat
  counts :: "u32 list"

definition emit :: "bytes \<Rightarrow> printed \<Rightarrow> printed" where
  "emit bs o' = o'\<lparr>out := out o' @ bs, reach := max (reach o') (length (out o') + length bs)\<rparr>"

fun number_arg :: "arg list \<Rightarrow> (u32 \<times> arg list) option" where
  "number_arg (Number w # args) = Some (w, args)"
| "number_arg _ = None"

fun pointer_arg :: "arg list \<Rightarrow> (bytes option \<times> arg list) option" where
  "pointer_arg (Pointer p # args) = Some (p, args)"
| "pointer_arg _ = None"

fun counter_arg :: "arg list \<Rightarrow> arg list option" where
  "counter_arg (Counter # args) = Some args"
| "counter_arg _ = None"

definition flag_of :: "u8 \<Rightarrow> u32 option" where
  "flag_of c = (if c = 0x2d then Some LEFT else if c = 0x2b then Some PLUS else if c = 0x20 then Some SPACE
                else if c = 0x23 then Some SPECIAL else if c = 0x30 then Some ZEROPAD else None)"

fun read_flags :: "bytes \<Rightarrow> u32 \<Rightarrow> (u32 \<times> bytes) option" where
  "read_flags [] flags = None"
| "read_flags (c # fmt) flags =
     (case flag_of c of Some f \<Rightarrow> read_flags fmt (flags OR f) | None \<Rightarrow> Some (flags, c # fmt))"

definition read_width :: "bytes \<Rightarrow> arg list \<Rightarrow> u32 \<Rightarrow> (u32 \<times> u32 \<times> bytes \<times> arg list) option" where
  "read_width fmt args flags = do {
     c \<leftarrow> byte_at fmt 0;
     if is_digit c then do { (w, fmt) \<leftarrow> skip_atoi fmt 0; Some (w, flags, fmt, args) }
     else if c = 0x2a then do {
       (w, args) \<leftarrow> number_arg args;
       Some (if w <s 0 then (- w, flags OR LEFT, tl fmt, args) else (w, flags, tl fmt, args)) }
     else Some (- 1, flags, fmt, args) }"

definition read_precision :: "bytes \<Rightarrow> arg list \<Rightarrow> (u32 \<times> bytes \<times> arg list) option" where
  "read_precision fmt args = do {
     c \<leftarrow> byte_at fmt 0;
     if c = 0x2e then do {
       let fmt = tl fmt;
       c \<leftarrow> byte_at fmt 0;
       (p, fmt, args) \<leftarrow>
         (if is_digit c then do { (p, fmt) \<leftarrow> skip_atoi fmt 0; Some (p, fmt, args) }
          else if c = 0x2a then do { (p, args) \<leftarrow> number_arg args; Some (p, tl fmt, args) }
          else Some (- 1, fmt, args));
       Some (if p <s 0 then 0 else p, fmt, args) }
     else Some (- 1, fmt, args) }"

definition read_qualifier :: "bytes \<Rightarrow> (u8 option \<times> bytes) option" where
  "read_qualifier fmt = do {
     c \<leftarrow> byte_at fmt 0;
     Some (if c \<in> {0x68, 0x6c, 0x4c} then (Some c, tl fmt) else (None, fmt)) }"

section \<open>Conversions\<close>

text \<open>The loops \<open>while (--field_width > 0)\<close> and \<open>while (len < field_width--)\<close>, and the fields around
  them.\<close>

function pad_pre :: "u32 \<Rightarrow> bytes \<times> u32" where
  "pad_pre w = (let w = w - 1 in if 0 <s w then apfst (Cons 0x20) (pad_pre w) else ([], w))"
  by pat_completeness auto

function pad_len :: "u32 \<Rightarrow> u32 \<Rightarrow> bytes \<times> u32" where
  "pad_len len w = (if len <s w then apfst (Cons 0x20) (pad_len len (w - 1)) else ([], w - 1))"
  by pat_completeness auto

definition convert_char :: "u32 \<Rightarrow> u32 \<Rightarrow> u32 \<Rightarrow> bytes" where
  "convert_char flags w v =
     (let (left, w) = (if flags AND LEFT = 0 then pad_pre w else ([], w))
      in left @ [ucast v] @ fst (pad_pre w))"

text \<open>The length of a string, at most the precision.\<close>

fun str_length :: "bytes \<Rightarrow> u32 \<Rightarrow> u32 \<Rightarrow> u32 option" where
  "str_length [] len precision = None"
| "str_length (c # s) len precision =
     (if c \<noteq> 0 \<and> len < precision then str_length s (len + 1) precision else Some len)"

definition convert_string :: "u32 \<Rightarrow> u32 \<Rightarrow> u32 \<Rightarrow> bytes option \<Rightarrow> bytes option" where
  "convert_string flags w precision p = do {
     let s = (case p of None \<Rightarrow> [0x3c, 0x4e, 0x55, 0x4c, 0x4c, 0x3e, 0] | Some s \<Rightarrow> s);
     len \<leftarrow> str_length s 0 precision;
     let (left, w) = (if flags AND LEFT = 0 then pad_len len w else ([], w));
     Some (left @ take (unat len) s @ fst (pad_len len w)) }"

definition int_arg :: "u8 option \<Rightarrow> u32 \<Rightarrow> u32 \<Rightarrow> u32" where
  "int_arg qualifier flags v =
     (if qualifier = Some 0x6c then v
      else if qualifier = Some 0x68
      then if flags AND SIGN \<noteq> 0 then scast (ucast v :: u16) else ucast (ucast v :: u16)
      else v)"

text \<open>A call of \<open>sprintf\<close> at \<open>str\<close>: its text, and the zero behind it, which the next output overwrites.\<close>

definition emit_string :: "bytes \<Rightarrow> printed \<Rightarrow> printed" where
  "emit_string bs o' = o'\<lparr>out := out o' @ bs, reach := max (reach o') (length (out o') + length bs + 1)\<rparr>"

definition back_one :: "printed \<Rightarrow> printed" where
  "back_one o' = o'\<lparr>out := butlast (out o')\<rparr>"

fun emit_each :: "(arg list \<Rightarrow> bytes option) \<Rightarrow> u8 list \<Rightarrow> printed \<Rightarrow> printed option" where
  "emit_each f [] o' = Some o'"
| "emit_each f (b # bs) o' = do { t \<leftarrow> f [Number (ucast b)]; emit_each f bs (emit_string t o') }"

definition fmt_dot :: bytes where "fmt_dot = [0x25, 0x64, 0x2e, 0]"

definition fmt_colon :: bytes where "fmt_colon = [0x25, 0x30, 0x32, 0x68, 0x58, 0x3a, 0]"

definition word_bytes :: "u32 \<Rightarrow> bytes" where
  "word_bytes w = [ucast w, ucast (drop_bit 8 w), ucast (drop_bit 16 w), ucast (drop_bit 24 w)]"

text \<open>The conversion of one argument; \<open>sprintf_at\<close> is what \<open>sprintf\<close> writes for a format.\<close>

definition convert ::
  "(bytes \<Rightarrow> arg list \<Rightarrow> bytes option) \<Rightarrow> bytes \<Rightarrow> u32 \<Rightarrow> u32 \<Rightarrow> u32 \<Rightarrow> u8 option \<Rightarrow> arg list \<Rightarrow> printed
     \<Rightarrow> (bytes \<times> arg list \<times> printed) option" where
  "convert sprintf_at fmt flags field_width precision qualifier args o' = do {
     c \<leftarrow> byte_at fmt 0;
     if c = 0x63 then do {
       (v, args) \<leftarrow> number_arg args;
       Some (tl fmt, args, emit (convert_char flags field_width v) o') }
     else if c = 0x73 then do {
       (p, args) \<leftarrow> pointer_arg args;
       t \<leftarrow> convert_string flags field_width precision p;
       Some (tl fmt, args, emit t o') }
     else if c = 0x70 then do {
       let (w, flags) = (if field_width = - 1 then (8, flags OR ZEROPAD) else (field_width, flags));
       (v, args) \<leftarrow> number_arg args;
       t \<leftarrow> number v 16 w precision flags;
       Some (tl fmt, args, emit t o') }
     else if c = 0x6e then do {
       args \<leftarrow> counter_arg args;
       Some (tl fmt, args, o'\<lparr>counts := counts o' @ [of_nat (length (out o'))]\<rparr>) }
     else if c = 0x25 then Some (tl fmt, args, emit [0x25] o')
     else if c = 0x40 then do {
       (v, args) \<leftarrow> number_arg args;
       o' \<leftarrow> emit_each (sprintf_at fmt_dot) (word_bytes v) o';
       Some (tl fmt, args, back_one o') }
     else if c = 0x21 then do {
       (p, args) \<leftarrow> pointer_arg args;
       s \<leftarrow> p;
       if length s < 6 then None
       else do {
         o' \<leftarrow> emit_each (sprintf_at fmt_colon) (take 6 s) o';
         Some (tl fmt, args, back_one o') } }
     else if c \<in> {0x6f, 0x58, 0x78, 0x64, 0x69, 0x75} then do {
       let base = (if c = 0x6f then 8 else if c = 0x58 \<or> c = 0x78 then 16 else 10);
       let flags = (if c = 0x58 then flags OR LARGE else if c = 0x64 \<or> c = 0x69 then flags OR SIGN else flags);
       (v, args) \<leftarrow> number_arg args;
       t \<leftarrow> number (int_arg qualifier flags v) base field_width precision flags;
       Some (tl fmt, args, emit t o') }
     else if c = 0 then Some (fmt, args, emit [0x25] o')
     else Some (tl fmt, args, emit [0x25, c] o') }"

definition directive ::
  "(bytes \<Rightarrow> arg list \<Rightarrow> bytes option) \<Rightarrow> bytes \<Rightarrow> arg list \<Rightarrow> printed \<Rightarrow> (bytes \<times> arg list \<times> printed) option" where
  "directive sprintf_at fmt args o' = do {
     (flags, fmt) \<leftarrow> read_flags fmt 0;
     (field_width, flags, fmt, args) \<leftarrow> read_width fmt args flags;
     (precision, fmt, args) \<leftarrow> read_precision fmt args;
     (qualifier, fmt) \<leftarrow> read_qualifier fmt;
     convert sprintf_at fmt flags field_width precision qualifier args o' }"

function (sequential) format_loop ::
  "(bytes \<Rightarrow> arg list \<Rightarrow> bytes option) \<Rightarrow> bytes \<Rightarrow> arg list \<Rightarrow> printed \<Rightarrow> printed option" where
  "format_loop sprintf_at [] args o' = None"
| "format_loop sprintf_at (c # fmt) args o' =
     (if c = 0 then Some o'
      else if c \<noteq> 0x25 then format_loop sprintf_at fmt args (emit [c] o')
      else do {
        (fmt, args, o') \<leftarrow> directive sprintf_at fmt args o';
        format_loop sprintf_at fmt args o' })"
  by pat_completeness auto

section \<open>The loops end\<close>

lemma unat_minus_one_less: "0 <s (n :: u32) \<Longrightarrow> unat (n - 1) < unat n"
proof -
  assume "0 <s n"
  then have "n \<noteq> 0" by auto
  then show "unat (n - 1) < unat n" by (simp add: unat_minus_one unat_gt_0)
qed

termination pad
  by (relation "measure (\<lambda>(n, c). unat n)") (auto simp: unat_minus_one_less)

termination pad_pre
  by (relation "measure (\<lambda>w. unat (w - 1))") (auto simp del: diff_add_eq_diff_diff_swap dest: unat_minus_one_less)

termination pad_len
proof (relation "measure (\<lambda>(len, w). unat (w - len))")
  fix len w :: u32
  assume "len <s w"
  then have "w - len \<noteq> 0" by auto
  then show "((len, w - 1), len, w) \<in> measure (\<lambda>(len, w). unat (w - len))"
    by (simp add: diff_right_commute [of w 1] unat_minus_one unat_gt_0)
qed simp

termination number_digits
proof (relation "measure (\<lambda>(digits, base, num). unat num)")
  fix digits :: bytes and base num :: u32
  assume "\<not> (num = 0 \<or> base < 2)"
  then have "0 < unat num" "2 \<le> unat base" by (auto simp: word_less_nat_alt unat_gt_0)
  then show "((digits, base, num div base), digits, base, num) \<in> measure (\<lambda>(digits, base, num). unat num)"
    by (simp add: unat_div)
qed simp

lemma read_flags_length: "read_flags fmt flags = Some (f, r) \<Longrightarrow> length r \<le> length fmt"
  by (induction fmt flags rule: read_flags.induct) (auto split: option.splits)

lemma skip_atoi_length: "skip_atoi s i = Some (n, r) \<Longrightarrow> length r \<le> length s"
  by (induction s i rule: skip_atoi.induct) (auto split: if_splits)

lemma read_width_length: "read_width fmt args flags = Some (w, f, r, a) \<Longrightarrow> length r \<le> length fmt"
  by (auto simp: read_width_def bind_eq_Some_conv dest: skip_atoi_length split: if_splits)

lemma read_precision_length: "read_precision fmt args = Some (w, r, a) \<Longrightarrow> length r \<le> length fmt"
  by (auto simp: read_precision_def bind_eq_Some_conv Let_def dest!: skip_atoi_length split: if_splits)

lemma read_qualifier_length: "read_qualifier fmt = Some (q, r) \<Longrightarrow> length r \<le> length fmt"
  by (auto simp: read_qualifier_def bind_eq_Some_conv split: if_splits)

lemma convert_length: "convert f fmt flags w p q args o' = Some (r, a, o'') \<Longrightarrow> length r \<le> length fmt"
  by (auto simp: convert_def bind_eq_Some_conv Let_def split: if_splits)

lemma directive_length: "directive f fmt args o' = Some (r, a, o'') \<Longrightarrow> length r \<le> length fmt"
  unfolding directive_def
  by (auto simp: bind_eq_Some_conv dest!: read_flags_length read_width_length read_precision_length
      read_qualifier_length convert_length)

termination format_loop
  by (relation "measure (\<lambda>(f, fmt, args, o'). length fmt)") (auto dest!: directive_length)

section \<open>The routine\<close>

definition sprintf_text :: "(bytes \<Rightarrow> arg list \<Rightarrow> bytes option) \<Rightarrow> bytes \<Rightarrow> arg list \<Rightarrow> bytes option" where
  "sprintf_text sprintf_at fmt args = map_option out (format_loop sprintf_at fmt args \<lparr>out = [], reach = 0, counts = []\<rparr>)"

text \<open>\<open>vsprintf\<close> into a buffer of \<open>n\<close> bytes: the string there, whose length is the result, and the values
  stored by \<open>%n\<close>. The formats of the calls of \<open>sprintf\<close> in it make no such calls themselves.\<close>

definition vsprintf :: "nat \<Rightarrow> bytes \<Rightarrow> arg list \<Rightarrow> (bytes \<times> u32 list) option" where
  "vsprintf n fmt args = do {
     o' \<leftarrow> format_loop (sprintf_text (\<lambda>_ _. None)) fmt args \<lparr>out = [], reach = 0, counts = []\<rparr>;
     if max (reach o') (length (out o') + 1) \<le> n then Some (out o', counts o') else None }"

end
