(* ===== verification/VsprintfCorrect.thy ===== *)
theory VsprintfCorrect
  imports Vsprintf
begin

text \<open>
  The printing of one number, \<open>number\<close>, against a reference that works with natural numbers: sign, prefix,
  digits and the fill of the field (\<open>number_layout\<close>); and the reading of what was printed.
\<close>

section \<open>Signed words\<close>

lemma sint_range_u32: "- (2 ^ 31) \<le> sint (w :: u32)" "sint (w :: u32) < 2 ^ 31"
  using sint_greater_eq [of w] sint_less [of w] by simp_all

lemma sint_diff_u32:
  assumes "- (2 ^ 31) \<le> sint a - sint b" and "sint a - sint (b :: u32) < 2 ^ 31"
  shows "sint (a - b) = sint a - sint b"
proof -
  have "a - b = word_of_int (sint a - sint b)" by simp
  then have "sint (a - b) = sint (word_of_int (sint a - sint b) :: u32)" by (simp only:)
  also have "\<dots> = signed_take_bit 31 (sint a - sint b)" by (simp add: signed_of_int del: of_int_diff)
  also have "\<dots> = sint a - sint b" using assms by (intro signed_take_bit_int_eq_self) simp_all
  finally show ?thesis .
qed

lemma sint_of_nat_u32: "n < 2 ^ 31 \<Longrightarrow> sint (of_nat n :: u32) = int n"
  by (simp add: signed_of_nat signed_take_bit_int_eq_self)

lemma flag_bit: "(w :: u32) AND 1 = 0 \<longleftrightarrow> \<not> bit w 0" "w AND 2 = 0 \<longleftrightarrow> \<not> bit w 1" "w AND 4 = 0 \<longleftrightarrow> \<not> bit w 2"
  "w AND 8 = 0 \<longleftrightarrow> \<not> bit w 3" "w AND 16 = 0 \<longleftrightarrow> \<not> bit w 4" "w AND 32 = 0 \<longleftrightarrow> \<not> bit w 5" "w AND 64 = 0 \<longleftrightarrow> \<not> bit w 6"
  using and_exp_eq_0_iff_not_bit [of w 0] and_exp_eq_0_iff_not_bit [of w 1] and_exp_eq_0_iff_not_bit [of w 2]
    and_exp_eq_0_iff_not_bit [of w 3] and_exp_eq_0_iff_not_bit [of w 4] and_exp_eq_0_iff_not_bit [of w 5]
    and_exp_eq_0_iff_not_bit [of w 6]
  by simp_all

section \<open>Padding\<close>

declare pad.simps [simp del] pad_pre.simps [simp del] pad_len.simps [simp del] number_digits.simps [simp del]

lemma pad_eq: "pad n c = (replicate (nat (sint n)) c, if 0 <s n then - 1 else n - 1)"
proof (induction n c rule: pad.induct)
  case (1 n c)
  show ?case
  proof (cases "0 <s n")
    case True
    then have "sint (n - 1) = sint n - 1" "0 < sint n"
      using sint_diff_u32 [of n 1] sint_range_u32 [of n] by (simp_all add: word_sless_alt)
    moreover have "n = 1" if "sint n = 1" using that by (intro signed_word_eqI) simp
    ultimately show ?thesis using 1 [OF True] True
      by (subst pad.simps) (auto simp: word_sless_alt Suc_nat_eq_nat_zadd1 simp flip: replicate_Suc)
  next
    case False
    then show ?thesis by (subst pad.simps) (simp add: word_sless_alt)
  qed
qed

lemma pad_none: "sint n \<le> 0 \<Longrightarrow> pad n c = ([], n - 1)"
  by (simp add: pad_eq word_sless_alt)

section \<open>Digits\<close>

text \<open>The digits of a number in a base, the lowest first.\<close>

fun digits_of :: "nat \<Rightarrow> nat \<Rightarrow> nat list" where
  "digits_of b n = (if n = 0 \<or> b < 2 then [] else n mod b # digits_of b (n div b))"

declare digits_of.simps [simp del]

lemma digits_of_0 [simp]: "digits_of b 0 = []"
  by (simp add: digits_of.simps)

lemma digits_of_Cons: "0 < n \<Longrightarrow> 2 \<le> b \<Longrightarrow> digits_of b n = n mod b # digits_of b (n div b)"
  by (simp add: digits_of.simps)

lemma digits_of_less: "2 \<le> b \<Longrightarrow> d \<in> set (digits_of b n) \<Longrightarrow> d < b"
  by (induction b n rule: digits_of.induct) (subst (asm) (2) digits_of.simps, auto split: if_splits)

lemma length_digits_of: "2 \<le> b \<Longrightarrow> n < 2 ^ k \<Longrightarrow> length (digits_of b n) \<le> k"
proof (induction k arbitrary: n)
  case (Suc k)
  have "n div b \<le> n div 2" using Suc.prems(1) by (simp add: div_le_mono2)
  also have "\<dots> < 2 ^ k" using Suc.prems(2) by auto
  finally have "length (digits_of b (n div b)) \<le> k" using Suc.prems(1) by (intro Suc.IH)
  then show ?case by (cases "n = 0") (simp_all add: digits_of_Cons Suc.prems(1))
qed simp

lemma digits_of_value: "2 \<le> b \<Longrightarrow> foldl (\<lambda>a d. a * b + d) 0 (rev (digits_of b n)) = n"
proof (induction b n rule: digits_of.induct)
  case (1 b n)
  then show ?case by (cases "n = 0") (simp_all add: digits_of_Cons)
qed

lemma number_digits_eq:
  "2 \<le> base \<Longrightarrow> number_digits ds base num = map (nth ds) (digits_of (unat base) (unat num))"
proof (induction ds base num rule: number_digits.induct)
  case (1 ds base num)
  have b: "2 \<le> unat base" using 1(2) by (simp add: word_le_nat_alt)
  show ?case
  proof (cases "num = 0")
    case False
    then have "0 < unat num" by (simp add: unat_gt_0)
    moreover have "\<not> (num = 0 \<or> base < 2)" using False 1(2) by auto
    ultimately show ?thesis using 1(1) [OF _ 1(2)] b
      by (subst number_digits.simps) (simp add: digits_of_Cons unat_div unat_mod)
  qed (simp add: number_digits.simps)
qed

text \<open>The numeral of a number: 0 has one digit.\<close>

definition numeral_text :: "bool \<Rightarrow> nat \<Rightarrow> nat \<Rightarrow> bytes" where
  "numeral_text large b n =
     map (nth (if large then large_digits else small_digits)) (if n = 0 then [0] else rev (digits_of b n))"

lemma length_numeral: "2 \<le> b \<Longrightarrow> n < 2 ^ 32 \<Longrightarrow> 0 < length (numeral_text l b n) \<and> length (numeral_text l b n) \<le> 32"
  using length_digits_of [of b n 32] digits_of_Cons [of n b] by (auto simp: numeral_text_def)

section \<open>The layout of a number\<close>

text \<open>A text in a field: left of the spaces, right of them, or with zeros between its lead and its body.\<close>

definition field :: "bool \<Rightarrow> bool \<Rightarrow> int \<Rightarrow> bytes \<Rightarrow> bytes \<Rightarrow> bytes" where
  "field left zero width lead body =
     (let gap = nat (width - int (length lead + length body))
      in if left then lead @ body @ replicate gap 0x20
         else if zero then lead @ replicate gap 0x30 @ body
         else replicate gap 0x20 @ lead @ body)"

definition sign_text :: "u32 \<Rightarrow> u32 \<Rightarrow> bytes" where
  "sign_text typ num =
     (if bit typ 1
      then if num <s 0 then [0x2d] else if bit typ 2 then [0x2b] else if bit typ 3 then [0x20] else []
      else [])"

definition magnitude :: "u32 \<Rightarrow> u32 \<Rightarrow> nat" where
  "magnitude typ num = (if bit typ 1 then nat \<bar>sint num\<bar> else unat num)"

definition base_text :: "u32 \<Rightarrow> u32 \<Rightarrow> bytes" where
  "base_text typ base =
     (if bit typ 5 then if base = 8 then [0x30] else if base = 16 then [0x30, if bit typ 6 then 0x58 else 0x78] else [] else [])"

definition number_text :: "u32 \<Rightarrow> u32 \<Rightarrow> int \<Rightarrow> int \<Rightarrow> u32 \<Rightarrow> bytes" where
  "number_text num base width precision typ =
     (let digits = numeral_text (bit typ 6) (unat base) (magnitude typ num)
      in field (bit typ 4) (bit typ 0) width (sign_text typ num @ base_text typ base)
           (replicate (nat precision - length digits) 0x30 @ digits))"

lemma unat_minus_negative: "(num :: u32) <s 0 \<Longrightarrow> unat (- num) = nat \<bar>sint num\<bar>"
proof -
  assume "num <s 0"
  then have neg: "sint num < 0" by (simp add: word_sless_alt)
  have "- num = word_of_int (- sint num)" by simp
  then have "uint (- num) = uint (word_of_int (- sint num) :: u32)" by (simp only:)
  also have "\<dots> = take_bit 32 (- sint num)" by (simp add: unsigned_of_int del: of_int_minus)
  also have "\<dots> = - sint num" using neg sint_range_u32 [of num] by (intro take_bit_int_eq_self) simp_all
  finally show ?thesis using neg by (simp add: nat_uint_eq [symmetric] del: nat_uint_eq)
qed


lemma flag_17: "(w :: u32) AND 17 = 0 \<longleftrightarrow> \<not> bit w 0 \<and> \<not> bit w 4"
proof -
  have "w AND 17 = (w AND 1) OR (w AND 16)" by (simp flip: bit.conj_disj_distrib)
  then show ?thesis by (simp add: or_eq_0_iff flag_bit)
qed

lemma unat_nonnegative: "0 \<le> sint (num :: u32) \<Longrightarrow> unat num = nat (sint num)"
proof -
  assume n: "0 \<le> sint num"
  have "uint num = uint (word_of_int (sint num) :: u32)" by simp
  also have "\<dots> = take_bit 32 (sint num)" by (simp add: unsigned_of_int del: of_int_sint)
  also have "\<dots> = sint num" using n sint_range_u32 [of num] by (intro take_bit_int_eq_self) simp_all
  finally show ?thesis by (simp flip: nat_uint_eq)
qed

lemma number_sign_eq:
  assumes "- 1 \<le> sint width" and "number_sign num width typ = (sg, num', width')"
  shows "(if sg \<noteq> 0 then [sg] else []) = sign_text typ num" and "unat num' = magnitude typ num"
    and "sint width' = sint width - int (length (sign_text typ num))"
proof -
  have less: "sint (width - 1) = sint width - 1"
    using assms(1) sint_range_u32 [of width] by (subst sint_diff_u32) simp_all
  show "(if sg \<noteq> 0 then [sg] else []) = sign_text typ num" "sint width' = sint width - int (length (sign_text typ num))"
    using assms(2) less by (auto simp: number_sign_def flag_bit sign_text_def split: if_splits)
  show "unat num' = magnitude typ num"
    using assms(2) by (auto simp: number_sign_def flag_bit magnitude_def unat_minus_negative unat_nonnegative
        word_sless_alt split: if_splits)
qed

lemma base_text_width:
  assumes "- 2 \<le> sint (width :: u32)"
  shows "sint (if bit typ 5 then if base = 16 then width - 2 else if base = 8 then width - 1 else width else width)
    = sint width - int (length (base_text typ base))"
  using assms sint_range_u32 [of width] sint_diff_u32 [of width 2] sint_diff_u32 [of width 1]
  by (simp add: base_text_def)

lemma digits_33: "large_digits ! 33 = 0x58" "small_digits ! 33 = 0x78"
  by (simp_all add: large_digits_def small_digits_def)

lemma left_typ:
  "bit (if bit typ 4 then typ AND NOT 1 else typ :: u32) 0 \<longleftrightarrow> bit typ 0 \<and> \<not> bit typ 4"
  "0 < n \<Longrightarrow> bit (if bit typ 4 then typ AND NOT 1 else typ) n \<longleftrightarrow> bit typ n"
  by (auto simp: bit_simps bit_1_iff dest: bit_imp_le_length)

lemma number_write_eq:
  assumes lead: "(if sg \<noteq> 0 then [sg] else []) @ base_text typ base = lead" and dig: "digits ! 33 = (if bit typ 6 then 0x58 else 0x78)"
    and width: "sint w = W - int (length lead)" "- 1 \<le> W" "W < 2 ^ 30" "length lead \<le> 3"
    and precision: "sint precision < 2 ^ 30" and len: "length tmp \<le> 32"
  shows "number_write typ digits base sg w precision tmp =
    field (bit typ 4) (bit typ 0) W lead (replicate (nat (sint precision) - length tmp) 0x30 @ rev tmp)"
proof -
  define i :: u32 where "i = of_nat (length tmp)"
  have i: "sint i = int (length tmp)" unfolding i_def using len by (intro sint_of_nat_u32) simp
  define p where "p = (if precision <s i then i else precision)"
  have p: "sint p = max (sint precision) (int (length tmp))" by (simp add: p_def i word_sless_alt max_def)
  have pi: "nat (sint (p - i)) = nat (sint precision) - length tmp"
    using p i len precision by (subst sint_diff_u32) simp_all
  define v where "v = w - p"
  have v: "sint v = W - int (length lead) - max (sint precision) (int (length tmp))"
    unfolding v_def using width precision len p by (subst sint_diff_u32) (simp_all add: max_def)
  define body where "body = replicate (nat (sint precision) - length tmp) 0x30 @ rev tmp"
  have gap: "nat (sint v) = nat (W - int (length lead + length body))"
    unfolding v body_def by (rule arg_cong [of _ _ nat]) (auto simp: max_def)
  have eq: "number_write typ digits base sg w precision tmp =
      (let (left, w) = (if typ AND 17 = 0 then pad v 0x20 else ([], v));
           (fill, w) = (if typ AND 16 = 0 then pad w (if typ AND 1 \<noteq> 0 then 0x30 else 0x20) else ([], w))
       in left @ lead @ fill @ body @ fst (pad w 0x20))"
    unfolding number_write_def Let_def i_def [symmetric] p_def [symmetric] v_def [symmetric] lead [symmetric] body_def
      base_text_def pi [symmetric]
    by (simp add: flag_bit dig pad_eq split: prod.split)
  define n where "n = nat (W - int (length lead + length body))"
  have pad_v: "fst (pad v c) = replicate n c" for c by (simp add: pad_eq gap n_def)
  have less: "sint (v - 1) = sint v - 1" "sint (v - 2) = sint v - 2" if "sint v \<le> 0"
    using that v width precision len by (subst sint_diff_u32; simp add: max_def)+
  have used_up: "fst (pad (snd (pad v c)) c') = []" "fst (pad (snd (pad (snd (pad v c)) c')) c'') = []" for c c' c''
    by (cases "sint v \<le> 0"; simp add: pad_eq word_sless_alt less)+
  consider "bit typ 4" | "\<not> bit typ 4" "bit typ 0" | "\<not> bit typ 4" "\<not> bit typ 0" by blast
  then show ?thesis
    unfolding eq body_def [symmetric] split_beta Let_def
    by cases (simp_all add: flag_17 flag_bit field_def used_up pad_v n_def)
qed

lemma number_layout:
  assumes base: "2 \<le> unat base" "unat base \<le> 36"
    and width: "- 1 \<le> sint width" "sint width < 2 ^ 30" and precision: "sint precision < 2 ^ 30"
  shows "number num base width precision typ = Some (number_text num base (sint width) (sint precision) typ)"
proof -
  define typ' where "typ' = (if bit typ 4 then typ AND NOT 1 else typ)"
  have typ': "bit typ' 0 \<longleftrightarrow> bit typ 0 \<and> \<not> bit typ 4" "\<And>n. 0 < n \<Longrightarrow> bit typ' n \<longleftrightarrow> bit typ n"
    unfolding typ'_def by (rule left_typ)+
  obtain sg num' w1 where sgn: "number_sign num width typ' = (sg, num', w1)" by (cases "number_sign num width typ'") auto
  have same: "sign_text typ' num = sign_text typ num" "magnitude typ' num = magnitude typ num" "base_text typ' base = base_text typ base"
    by (simp_all add: sign_text_def magnitude_def base_text_def typ'(2))
  note sg = number_sign_eq [OF width(1) sgn, unfolded same]
  define w2 where "w2 = (if bit typ' 5 then if base = 16 then w1 - 2 else if base = 8 then w1 - 1 else w1 else w1)"
  have "length (sign_text typ num) \<le> 1" "length (base_text typ base) \<le> 2"
    by (simp_all add: sign_text_def base_text_def)
  have w2: "sint w2 = sint w1 - int (length (base_text typ base))"
    unfolding w2_def same(3) [symmetric] using sg(3) width \<open>length (sign_text typ num) \<le> 1\<close> by (intro base_text_width) simp
  define large where "large = bit typ 6"
  define ds where "ds = (if large then large_digits else small_digits)"
  define tmp where "tmp = (if num' = 0 then [0x30] else number_digits ds base num')"
  have b2: "2 \<le> base" using base by (simp add: word_le_nat_alt)
  have tmp: "rev tmp = numeral_text large (unat base) (magnitude typ num)"
    unfolding tmp_def numeral_text_def sg(2) [symmetric] number_digits_eq [OF b2] ds_def
    by (simp add: rev_map large_digits_def small_digits_def unat_eq_zero)
  have lt: "length tmp = length (numeral_text large (unat base) (magnitude typ num))"
    using tmp by (metis length_rev)
  have "magnitude typ num < 2 ^ 32" using unsigned_less [of num'] by (simp flip: sg(2))
  then have len: "length tmp \<le> 32"
    using length_numeral [OF base(1), of "magnitude typ num" large] tmp by (metis length_rev)
  have guard: "\<not> (base <s 2 \<or> 36 <s base)"
  proof -
    have "sint base = int (unat base)" using base sint_of_nat_u32 [of "unat base"] by simp
    then show ?thesis using base unfolding word_sless_alt by (simp del: uint_nat of_nat_unat)
  qed
  have "number num base width precision typ = Some (number_write typ' ds base sg w2 precision tmp)"
    unfolding number_def Let_def flag_bit not_not typ'_def [symmetric] large_def [symmetric] ds_def [symmetric] sgn
      if_not_P [OF guard] prod.case w2_def [symmetric] tmp_def [symmetric] by (rule refl)
  also have "number_write typ' ds base sg w2 precision tmp =
      field (bit typ' 4) (bit typ' 0) (sint width) (sign_text typ num @ base_text typ base)
        (replicate (nat (sint precision) - length tmp) 0x30 @ rev tmp)"
    using sg(1,3) w2 width precision len \<open>length (sign_text typ num) \<le> 1\<close> \<open>length (base_text typ base) \<le> 2\<close>
    by (intro number_write_eq) (simp_all add: same typ'(2) ds_def large_def digits_33)
  also have "\<dots> = number_text num base (sint width) (sint precision) typ"
    using lt by (simp add: number_text_def Let_def tmp large_def typ' field_def)
  finally show ?thesis .
qed

section \<open>Reading a number back\<close>

lemma digit_chars:
  assumes "d < 16"
  shows "isxdigit (small_digits ! d)" "digit_value (small_digits ! d) = of_nat d"
    and "isxdigit (large_digits ! d)" "digit_value (large_digits ! d) = of_nat d"
proof -
  have "\<forall>d\<in>set [0..<16]. isxdigit (small_digits ! d) \<and> digit_value (small_digits ! d) = of_nat d
      \<and> isxdigit (large_digits ! d) \<and> digit_value (large_digits ! d) = of_nat d"
    by code_simp
  then show "isxdigit (small_digits ! d)" "digit_value (small_digits ! d) = of_nat d"
    and "isxdigit (large_digits ! d)" "digit_value (large_digits ! d) = of_nat d"
    using assms by auto
qed

lemma strtoul_digits:
  assumes "b \<le> 16" and "\<forall>d\<in>set xs. d < b" and "ds = small_digits \<or> ds = large_digits"
  shows "strtoul_loop (map (nth ds) xs @ t) (of_nat b) acc =
    strtoul_loop t (of_nat b) (foldl (\<lambda>a d. a * of_nat b + of_nat d) acc xs)"
  using assms
proof (induction xs arbitrary: acc)
  case (Cons d xs)
  have "d < 16" using Cons.prems by auto
  then have d: "isxdigit (ds ! d)" "digit_value (ds ! d) = of_nat d" using Cons.prems(3) digit_chars by auto
  have "(of_nat d :: u32) < of_nat b" using Cons.prems by (simp add: of_nat_word_less_iff take_bit_nat_eq_self)
  then show ?case using Cons by (simp add: d)
qed simp

lemma foldl_of_nat:
  "foldl (\<lambda>a d. a * of_nat b + of_nat d) (of_nat acc :: u32) xs = of_nat (foldl (\<lambda>a d. a * b + d) acc xs)"
  by (induction xs arbitrary: acc) (simp_all flip: of_nat_mult of_nat_add)

lemma foldl_zeros: "foldl (\<lambda>a d. a * b + d) (0 :: nat) (replicate k 0) = 0"
  by (induction k) simp_all

text \<open>Zeros and a numeral, up to a character that is no digit in the base.\<close>

lemma strtoul_numeral:
  assumes "2 \<le> b" and "b \<le> 16" and "\<not> (isxdigit c \<and> digit_value c < of_nat b)"
  shows "strtoul_loop (replicate k 0x30 @ numeral_text l b n @ c # r) (of_nat b) 0 = Some (of_nat n, c # r)"
proof -
  define ds where "ds = (if l then large_digits else small_digits)"
  define xs where "xs = replicate k 0 @ (if n = 0 then [0] else rev (digits_of b n))"
  have ds: "ds = small_digits \<or> ds = large_digits" "ds ! 0 = 0x30"
    by (simp_all add: ds_def small_digits_def large_digits_def)
  have eq: "replicate k 0x30 @ numeral_text l b n = map (nth ds) xs"
    unfolding xs_def map_append map_replicate ds(2) numeral_text_def by (simp add: ds_def)
  have less: "\<forall>d\<in>set xs. d < b"
    using digits_of_less [OF assms(1)] assms(1) by (auto simp: xs_def split: if_splits)
  have "foldl (\<lambda>a d. a * b + d) 0 xs = n"
    using digits_of_value [OF assms(1), of n] by (simp add: foldl_zeros xs_def)
  then have "foldl (\<lambda>a d. a * of_nat b + of_nat d) (0 :: u32) xs = of_nat n"
    using foldl_of_nat [of b 0 xs] by simp
  then have "strtoul_loop ((replicate k 0x30 @ numeral_text l b n) @ c # r) (of_nat b) 0
      = strtoul_loop (c # r) (of_nat b) (of_nat n)"
    unfolding eq using strtoul_digits [OF assms(2) less ds(1), of "c # r" 0] by simp
  then show ?thesis using assms(3) by auto
qed

lemma highest_digit: "0 < n \<Longrightarrow> 2 \<le> b \<Longrightarrow> digits_of b n \<noteq> [] \<and> 0 < last (digits_of b n)"
proof (induction b n rule: digits_of.induct)
  case (1 b n)
  have "n < b \<Longrightarrow> n div b = 0" "\<not> n < b \<Longrightarrow> 0 < n div b" using 1(3) by (simp_all add: div_greater_zero_iff)
  then show ?case using 1 by (cases "n < b") (auto simp: digits_of_Cons)
qed

text \<open>The first character of a numeral: a digit, and not 0 but for the number 0.\<close>

lemma numeral_Cons:
  assumes "2 \<le> b"
  obtains d t where "numeral_text l b n = (if l then large_digits else small_digits) ! d # t" "d < b" "0 < n \<Longrightarrow> 0 < d"
proof (cases "n = 0")
  case True
  then show ?thesis using that [of 0 "[]"] assms by (simp add: numeral_text_def)
next
  case False
  then have ne: "digits_of b n \<noteq> []" "0 < last (digits_of b n)" using highest_digit assms by auto
  then obtain xs d where xs: "digits_of b n = xs @ [d]" by (metis append_butlast_last_id)
  have "d < b" using digits_of_less [OF assms, of d n] xs by simp
  then show ?thesis using that [of d "map (nth (if l then large_digits else small_digits)) (rev xs)"] False ne xs
    by (simp add: numeral_text_def)
qed

lemma digit_chars_apart:
  assumes "d < 16"
  shows "small_digits ! d \<noteq> 0x2d" "large_digits ! d \<noteq> 0x2d" "small_digits ! d \<noteq> 0x78" "large_digits ! d \<noteq> 0x78"
    and "0 < d \<Longrightarrow> small_digits ! d \<noteq> 0x30" "0 < d \<Longrightarrow> large_digits ! d \<noteq> 0x30"
proof -
  have "\<forall>d\<in>set [0..<16]. small_digits ! d \<noteq> 0x2d \<and> large_digits ! d \<noteq> 0x2d \<and> small_digits ! d \<noteq> 0x78
      \<and> large_digits ! d \<noteq> 0x78 \<and> (0 < d \<longrightarrow> small_digits ! d \<noteq> 0x30 \<and> large_digits ! d \<noteq> 0x30)"
    by code_simp
  then show "small_digits ! d \<noteq> 0x2d" "large_digits ! d \<noteq> 0x2d" "small_digits ! d \<noteq> 0x78" "large_digits ! d \<noteq> 0x78"
    and "0 < d \<Longrightarrow> small_digits ! d \<noteq> 0x30" "0 < d \<Longrightarrow> large_digits ! d \<noteq> 0x30"
    using assms by auto
qed

lemma digit_10: "isxdigit c \<and> digit_value c < 10 \<longleftrightarrow> is_digit c"
proof -
  have "\<forall>n\<in>set [0..<256]. isxdigit (of_nat n) \<and> digit_value (of_nat n) < 10 \<longleftrightarrow> is_digit (of_nat n)"
    by code_simp
  then show ?thesis by (rule all_u8)
qed

text \<open>A signed decimal, with zeros or blanks to fill the field.\<close>

lemma strtol_reads_number:
  assumes "- 1 \<le> sint width" and "sint width < 2 ^ 30" and "sint precision < 2 ^ 30" and "\<not> is_digit c"
    and "typ = SIGN \<and> sint width \<le> 1 \<or> typ = SIGN OR ZEROPAD \<or> typ = SIGN OR LEFT"
  shows "\<exists>t k. number v 10 width precision typ = Some t
    \<and> simple_strtol (t @ c # r) 10 = Some (v, replicate k 0x20 @ c # r)"
proof -
  have bits: "bit typ 1" "\<not> bit typ 2" "\<not> bit typ 3" using assms(5) by (auto simp: bit_simps)
  define n where "n = nat \<bar>sint v\<bar>"
  have sgn: "sign_text typ v = (if v <s 0 then [0x2d] else [])" and mag: "magnitude typ v = n"
    using bits by (simp_all add: sign_text_def magnitude_def n_def)
  have negated: "(if v <s 0 then - of_nat n else of_nat n) = v"
    by (simp add: n_def word_sless_alt not_less)
  have num: "number v 10 width precision typ = Some (number_text v 10 (sint width) (sint precision) typ)"
    using assms(1-3) by (intro number_layout) simp_all
  obtain z k where eq: "number_text v 10 (sint width) (sint precision) typ
      = sign_text typ v @ replicate z 0x30 @ numeral_text False 10 n @ replicate k 0x20"
  proof -
    have "0 < length (numeral_text False 10 n)"
      using numeral_Cons [of 10 False n] by fastforce
    then have pos: "0 < length (sign_text typ v @ replicate y 0x30 @ numeral_text False 10 n)" for y by simp
    define y where "y = nat (sint precision) - length (numeral_text False 10 n)"
    define gap where "gap = nat (sint width - int (length (sign_text typ v @ replicate y 0x30 @ numeral_text False 10 n)))"
    have "\<not> bit typ 6" "base_text typ 10 = []" using assms(5) by (auto simp: bit_simps base_text_def)
    then have eq: "number_text v 10 (sint width) (sint precision) typ =
        (if bit typ 4 then sign_text typ v @ replicate y 0x30 @ numeral_text False 10 n @ replicate gap 0x20
         else if bit typ 0 then sign_text typ v @ replicate gap 0x30 @ replicate y 0x30 @ numeral_text False 10 n
         else replicate gap 0x20 @ sign_text typ v @ replicate y 0x30 @ numeral_text False 10 n)"
      by (simp add: number_text_def field_def Let_def mag y_def gap_def)
    consider "bit typ 4" | "\<not> bit typ 4" "bit typ 0" | "\<not> bit typ 4" "\<not> bit typ 0" "sint width \<le> 1"
      using assms(5) by (auto simp: bit_simps)
    then show ?thesis
    proof cases
      case 2
      then show ?thesis using that [where z = "gap + y" and k = 0] by (simp add: eq replicate_add)
    next
      case 3
      have pos2: "0 < length (sign_text typ v @ replicate y 0x30 @ numeral_text False 10 n)" by (rule pos)
      from 3 have "sint width - int (length (sign_text typ v @ replicate y 0x30 @ numeral_text False 10 n)) \<le> 0"
        using pos2 by linarith
      then have "gap = 0" unfolding gap_def by (rule nat_0_iff [THEN iffD2])
      then show ?thesis using 3 that [where z = y and k = 0] by (simp add: eq)
    qed (use that eq in simp)
  qed
  obtain c' r' where rest_: "replicate k 0x20 @ c # r = c' # r'" "\<not> is_digit c'"
    using assms(4) by (cases k) (auto simp: is_digit_def)
  have read: "simple_strtoul (replicate z 0x30 @ numeral_text False 10 n @ replicate k 0x20 @ c # r) 10 = Some (of_nat n, c' # r')"
    using strtoul_numeral [where b = 10 and c = c' and k = z and l = False and n = n and r = r'] rest_ digit_10 by (simp add: simple_strtoul_def)
  have "\<exists>h t. replicate z 0x30 @ numeral_text False 10 n @ replicate k 0x20 @ c # r = h # t \<and> h \<noteq> 0x2d"
  proof (cases z)
    case 0
    then show ?thesis using numeral_Cons [of 10 False n] digit_chars_apart(1) by fastforce
  qed simp
  then have "simple_strtol (number_text v 10 (sint width) (sint precision) typ @ c # r) 10 = Some (v, c' # r')"
    using read negated by (auto simp: eq sgn simple_strtol_def byte_at_def)
  then show ?thesis using num rest_ by (metis append_assoc)
qed

text \<open>With the prefix of its base a number is read back when the base is to be found out.\<close>

lemma strtoul_reads_number:
  assumes "base \<in> {8, 10, 16}" and "\<not> isxdigit c" and "c \<noteq> 0x78"
  shows "\<exists>t. number v base (- 1) (- 1) SPECIAL = Some t \<and> simple_strtoul (t @ c # r) 0 = Some (v, c # r)"
proof -
  have base: "2 \<le> unat base" "unat base \<le> 16" using assms(1) by auto
  define n where "n = unat v"
  define digits where "digits = numeral_text False (unat base) n"
  have flags: "bit SPECIAL 5" "\<not> bit SPECIAL 4" "\<not> bit SPECIAL 0" "\<not> bit SPECIAL 1" "\<not> bit SPECIAL 6"
    by (simp_all add: bit_simps)
  have num: "number v base (- 1) (- 1) SPECIAL = Some (base_text SPECIAL base @ digits)"
    using base by (subst number_layout)
      (simp_all add: number_text_def Let_def field_def sign_text_def magnitude_def flags digits_def n_def)
  obtain d t where head: "digits = small_digits ! d # t" "d < unat base" "0 < n \<Longrightarrow> 0 < d"
    using numeral_Cons [OF base(1), of False n] unfolding digits_def by auto
  have d: "isxdigit (small_digits ! d)" "small_digits ! d \<noteq> 0x78" "0 < n \<Longrightarrow> small_digits ! d \<noteq> 0x30"
    using head(2,3) base(2) digit_chars [of d] digit_chars_apart [of d] by auto
  have read: "strtoul_loop (digits @ c # r) base 0 = Some (v, c # r)"
    using strtoul_numeral [OF base, of c 0 False n r] assms(2) by (simp add: digits_def n_def)
  consider "base = 8" | "base = 16" | "base = 10" "0 < n" | "base = 10" "n = 0" using assms(1) by auto
  then have "simple_strtoul ((base_text SPECIAL base @ digits) @ c # r) 0 = Some (v, c # r)"
  proof cases
    case 4
    then have "digits = [0x30]" "v = 0" by (simp_all add: digits_def numeral_text_def small_digits_def n_def unat_eq_zero)
    then show ?thesis using 4 assms(2,3) by (simp add: base_text_def simple_strtoul_def strtoul_base_def byte_at_def)
  qed (use head(1) d read in \<open>simp_all add: base_text_def flags simple_strtoul_def strtoul_base_def byte_at_def\<close>)
  then show ?thesis using num by blast
qed

section \<open>Properties\<close>

text \<open>What \<open>number\<close> prints, the two routines that read numbers read back: a signed decimal that fills its field
  with zeros, or with blanks on the right, by \<open>simple_strtol\<close>; and a number with the prefix of its base by
  \<open>simple_strtoul\<close> when it has to find the base out. What follows the number must not look like its
  continuation.\<close>

theorem number_reads_back:
  assumes "- 1 \<le> sint width" and "sint width < 2 ^ 30" and "sint precision < 2 ^ 30" and "\<not> isxdigit c" and "c \<noteq> 0x78"
    and "typ = SIGN \<and> sint width \<le> 1 \<or> typ = SIGN OR ZEROPAD \<or> typ = SIGN OR LEFT" and "base = 8 \<or> base = 10 \<or> base = 16"
  shows "(\<exists>t k. number v 10 width precision typ = Some t
      \<and> simple_strtol (t @ c # r) 10 = Some (v, replicate k 0x20 @ c # r))
    \<and> (\<exists>t. number v base (- 1) (- 1) SPECIAL = Some t \<and> simple_strtoul (t @ c # r) 0 = Some (v, c # r))"
proof -
  have "\<not> is_digit c" using assms(4) by (auto simp: isxdigit_def is_digit_def)
  then show ?thesis
    using strtol_reads_number [OF assms(1-3) _ assms(6)] strtoul_reads_number [of base c v r] assms(4,5,7) by auto
qed

theorem number_reads_back_witness:
  "(\<exists>t k. number (- 42) 10 5 (- 1) (SIGN OR ZEROPAD) = Some t
      \<and> simple_strtol (t @ 0 # []) 10 = Some (- 42, replicate k 0x20 @ 0 # []))
    \<and> (\<exists>t. number (- 42) 16 (- 1) (- 1) SPECIAL = Some t \<and> simple_strtoul (t @ 0 # []) 0 = Some (- 42, 0 # []))"
  by (rule number_reads_back) (simp_all add: isxdigit_def)

end
