(* ===== verification/FormatCorrect.thy ===== *)
theory FormatCorrect
  imports VsprintfCorrect
begin

text \<open>
  What \<open>vsprintf\<close> prints for a format: a format is the text of a list of items, each a character, a
  percent sign, or a conversion with its layout and its argument, and what is printed is the items'
  fields one after the other.
\<close>

section \<open>Items\<close>

record layout =
  l_left :: bool
  l_plus :: bool
  l_space :: bool
  l_special :: bool
  l_zero :: bool
  l_width :: nat
  l_precision :: "nat option"

datatype item =
    Character u8
  | Percent
  | Integer layout u32
  | Natural layout u32
  | Octal layout u32
  | Hexadecimal layout bool u32
  | Char_field layout u32
  | String_field layout bytes
  | Address u32

text \<open>The text of an item in the format; a width of 0 is none, which is why a width starts with no zero.\<close>

definition flag_chars :: "layout \<Rightarrow> bytes" where
  "flag_chars l = (if l_left l then [0x2d] else []) @ (if l_plus l then [0x2b] else []) @ (if l_space l then [0x20] else [])
     @ (if l_special l then [0x23] else []) @ (if l_zero l then [0x30] else [])"

definition decimal :: "nat \<Rightarrow> bytes" where
  "decimal n = numeral_text False 10 n"

definition show_layout :: "layout \<Rightarrow> bytes" where
  "show_layout l = 0x25 # flag_chars l @ (if l_width l = 0 then [] else decimal (l_width l))
     @ (case l_precision l of None \<Rightarrow> [] | Some p \<Rightarrow> 0x2e # decimal p)"

fun show_item :: "item \<Rightarrow> bytes" where
  "show_item (Character c) = [c]"
| "show_item Percent = [0x25, 0x25]"
| "show_item (Integer l v) = show_layout l @ [0x64]"
| "show_item (Natural l v) = show_layout l @ [0x75]"
| "show_item (Octal l v) = show_layout l @ [0x6f]"
| "show_item (Hexadecimal l large v) = show_layout l @ [if large then 0x58 else 0x78]"
| "show_item (Char_field l v) = show_layout l @ [0x63]"
| "show_item (String_field l s) = show_layout l @ [0x73]"
| "show_item (Address v) = [0x25, 0x40]"

fun item_args :: "item \<Rightarrow> arg list" where
  "item_args (Character c) = []"
| "item_args Percent = []"
| "item_args (Integer l v) = [Number v]"
| "item_args (Natural l v) = [Number v]"
| "item_args (Octal l v) = [Number v]"
| "item_args (Hexadecimal l large v) = [Number v]"
| "item_args (Char_field l v) = [Number v]"
| "item_args (String_field l s) = [Pointer (Some (s @ [0]))]"
| "item_args (Address v) = [Number v]"

definition layout_flags :: "layout \<Rightarrow> u32" where
  "layout_flags l = (if l_left l then LEFT else 0) OR (if l_plus l then PLUS else 0) OR (if l_space l then SPACE else 0)
     OR (if l_special l then SPECIAL else 0) OR (if l_zero l then ZEROPAD else 0)"

definition layout_width :: "layout \<Rightarrow> int" where
  "layout_width l = (if l_width l = 0 then - 1 else int (l_width l))"

definition layout_precision :: "layout \<Rightarrow> int" where
  "layout_precision l = (case l_precision l of None \<Rightarrow> - 1 | Some p \<Rightarrow> int p)"

fun item_text :: "item \<Rightarrow> bytes" where
  "item_text (Character c) = [c]"
| "item_text Percent = [0x25]"
| "item_text (Integer l v) = number_text v 10 (layout_width l) (layout_precision l) (layout_flags l OR SIGN)"
| "item_text (Natural l v) = number_text v 10 (layout_width l) (layout_precision l) (layout_flags l)"
| "item_text (Octal l v) = number_text v 8 (layout_width l) (layout_precision l) (layout_flags l)"
| "item_text (Hexadecimal l large v) =
     number_text v 16 (layout_width l) (layout_precision l) (layout_flags l OR (if large then LARGE else 0))"
| "item_text (Char_field l v) = field (l_left l) False (layout_width l) [] [ucast v]"
| "item_text (String_field l s) =
     field (l_left l) False (layout_width l) [] (case l_precision l of None \<Rightarrow> s | Some p \<Rightarrow> take p s)"
| "item_text (Address v) =
     decimal (unat v mod 256) @ 0x2e # decimal (unat v div 256 mod 256) @ 0x2e # decimal (unat v div 65536 mod 256)
     @ 0x2e # decimal (unat v div 16777216)"

definition good_layout :: "layout \<Rightarrow> bool" where
  "good_layout l \<longleftrightarrow> l_width l < 2 ^ 30 \<and> (case l_precision l of None \<Rightarrow> True | Some p \<Rightarrow> p < 2 ^ 30)"

fun good_item :: "item \<Rightarrow> bool" where
  "good_item (Character c) \<longleftrightarrow> c \<noteq> 0 \<and> c \<noteq> 0x25"
| "good_item (Integer l v) \<longleftrightarrow> good_layout l"
| "good_item (Natural l v) \<longleftrightarrow> good_layout l"
| "good_item (Octal l v) \<longleftrightarrow> good_layout l"
| "good_item (Hexadecimal l large v) \<longleftrightarrow> good_layout l"
| "good_item (Char_field l v) \<longleftrightarrow> good_layout l"
| "good_item (String_field l s) \<longleftrightarrow> good_layout l \<and> 0 \<notin> set s \<and> length s < 2 ^ 30"
| "good_item _ \<longleftrightarrow> True"

section \<open>Reading a layout\<close>

lemma digit_chars_10:
  assumes "d < 10"
  shows "is_digit (small_digits ! d)" "ucast (small_digits ! d) = (0x30 + of_nat d :: u32)"
    and "0 < d \<Longrightarrow> flag_of (small_digits ! d) = None"
proof -
  have "\<forall>d\<in>set [0..<10]. is_digit (small_digits ! d) \<and> ucast (small_digits ! d) = (0x30 + of_nat d :: u32)
      \<and> (0 < d \<longrightarrow> flag_of (small_digits ! d) = None)"
    by code_simp
  then show "is_digit (small_digits ! d)" "ucast (small_digits ! d) = (0x30 + of_nat d :: u32)"
    and "0 < d \<Longrightarrow> flag_of (small_digits ! d) = None"
    using assms by auto
qed

lemma skip_atoi_digits:
  "\<forall>d\<in>set xs. d < 10 \<Longrightarrow> \<not> is_digit c \<Longrightarrow>
   skip_atoi (map (nth small_digits) xs @ c # r) i = Some (foldl (\<lambda>a d. a * 10 + of_nat d) i xs, c # r)"
  by (induction xs arbitrary: i) (simp_all add: digit_chars_10)

lemma skip_atoi_decimal: "\<not> is_digit c \<Longrightarrow> skip_atoi (decimal n @ c # r) 0 = Some (of_nat n, c # r)"
proof -
  let ?xs = "if n = 0 then [0] else rev (digits_of 10 n)"
  assume c: "\<not> is_digit c"
  have less: "\<forall>d\<in>set ?xs. d < 10" using digits_of_less [of 10 _ n] by (auto split: if_splits)
  have "foldl (\<lambda>a d. a * 10 + d) 0 ?xs = n" using digits_of_value [of 10 n] by simp
  then have "foldl (\<lambda>a d. a * 10 + of_nat d) (0 :: u32) ?xs = of_nat n"
    using foldl_of_nat [of 10 0 ?xs] by simp
  then show ?thesis using skip_atoi_digits [OF less c, of r 0] by (simp add: decimal_def numeral_text_def)
qed

lemma decimal_Cons:
  obtains d t where "decimal n = small_digits ! d # t" "d < 10" "0 < n \<Longrightarrow> 0 < d"
  using numeral_Cons [of 10 False n] by (auto simp: decimal_def)

lemma flag_of_flags:
  "flag_of 0x2d = Some LEFT" "flag_of 0x2b = Some PLUS" "flag_of 0x20 = Some SPACE" "flag_of 0x23 = Some SPECIAL"
  "flag_of 0x30 = Some ZEROPAD"
  by (simp_all add: flag_of_def)

lemma read_flags_if:
  "flag_of x = Some f \<Longrightarrow>
   read_flags ((if b then [x] else []) @ r) w = read_flags r (w OR (if b then f else 0))"
  by simp

lemma read_flags_chars:
  assumes "flag_of c = None"
  shows "read_flags (flag_chars l @ c # r) 0 = Some (layout_flags l, c # r)"
proof -
  have "read_flags (c # r) w = Some (w, c # r)" for w using assms by simp
  then show ?thesis
    unfolding flag_chars_def append_assoc read_flags_if [OF flag_of_flags(1)] read_flags_if [OF flag_of_flags(2)]
      read_flags_if [OF flag_of_flags(3)] read_flags_if [OF flag_of_flags(4)] read_flags_if [OF flag_of_flags(5)]
    by (simp only: layout_flags_def or.left_neutral or.assoc)
qed

lemma bit_if: "bit (if b then w else 0 :: u32) n \<longleftrightarrow> b \<and> bit w n"
  by simp

lemma layout_bits:
  "bit (layout_flags l) 0 = l_zero l" "bit (layout_flags l) 1 = False" "bit (layout_flags l) 4 = l_left l"
  unfolding layout_flags_def bit_or_iff bit_if by simp_all

lemma read_layout:
  assumes "good_layout l" and "flag_of c = None" and "\<not> is_digit c" and "c \<notin> {0x2a, 0x2e}"
  shows "\<exists>fmt1 fmt2. read_flags (tl (show_layout l) @ c # r) 0 = Some (layout_flags l, fmt1)
    \<and> read_width fmt1 args (layout_flags l) = Some (word_of_int (layout_width l), layout_flags l, fmt2, args)
    \<and> read_precision fmt2 args = Some (word_of_int (layout_precision l), c # r, args)"
proof -
  define fmt2 where "fmt2 = (case l_precision l of None \<Rightarrow> [] | Some p \<Rightarrow> 0x2e # decimal p) @ c # r"
  define fmt1 where "fmt1 = (if l_width l = 0 then [] else decimal (l_width l)) @ fmt2"
  obtain c2 r2 where fmt2: "fmt2 = c2 # r2" "flag_of c2 = None" "\<not> is_digit c2" "c2 \<noteq> 0x2a"
    using assms(2-4) by (cases "l_precision l") (simp_all add: fmt2_def flag_of_def is_digit_def)
  obtain c1 r1 where fmt1: "fmt1 = c1 # r1" "flag_of c1 = None"
  proof (cases "l_width l = 0")
    case False
    then obtain d t where "decimal (l_width l) = small_digits ! d # t" "d < 10" "0 < d"
      using decimal_Cons [of "l_width l"] by blast
    then show ?thesis using that False digit_chars_10(3) by (simp add: fmt1_def)
  qed (use that fmt2 in \<open>simp add: fmt1_def\<close>)
  have "read_flags (tl (show_layout l) @ c # r) 0 = Some (layout_flags l, fmt1)"
    using read_flags_chars [OF fmt1(2), of l r1] unfolding fmt1(1) [symmetric] by (simp add: show_layout_def fmt1_def fmt2_def)
  moreover have "read_width fmt1 args (layout_flags l) = Some (word_of_int (layout_width l), layout_flags l, fmt2, args)"
  proof (cases "l_width l = 0")
    case True
    then show ?thesis using fmt2 by (simp add: read_width_def layout_width_def fmt1_def byte_at_def)
  next
    case False
    then obtain d t where d: "decimal (l_width l) = small_digits ! d # t" "d < 10"
      using decimal_Cons by blast
    have "skip_atoi (decimal (l_width l) @ fmt2) 0 = Some (of_nat (l_width l), fmt2)"
      using skip_atoi_decimal [OF fmt2(3)] fmt2(1) by simp
    then show ?thesis
      using False d digit_chars_10(1) by (simp add: read_width_def layout_width_def fmt1_def byte_at_def)
  qed
  moreover have "read_precision fmt2 args = Some (word_of_int (layout_precision l), c # r, args)"
  proof (cases "l_precision l")
    case None
    then show ?thesis using assms(4) by (simp add: fmt2_def read_precision_def layout_precision_def byte_at_def)
  next
    case (Some p)
    then obtain d t where d: "decimal p = small_digits ! d # t" "d < 10"
      using decimal_Cons by blast
    have "\<not> (of_nat p :: u32) <s 0"
      using assms(1) Some by (simp add: good_layout_def word_sless_alt sint_of_nat_u32)
    then show ?thesis
      using Some d digit_chars_10(1) skip_atoi_decimal [OF assms(3), of p r]
      by (simp add: fmt2_def read_precision_def layout_precision_def byte_at_def)
  qed
  ultimately show ?thesis by blast
qed

section \<open>Fields\<close>

lemma pad_pre_eq:
  "- (2 ^ 30) \<le> sint w \<Longrightarrow> pad_pre w = (replicate (nat (sint w - 1)) 0x20, if 1 <s w then 0 else w - 1)"
proof (induction w rule: pad_pre.induct)
  case (1 w)
  have w: "sint (w - 1) = sint w - 1" using 1(2) sint_range_u32 [of w] by (subst sint_diff_u32) simp_all
  show ?case
  proof (cases "0 <s w - 1")
    case True
    then have "1 < sint w" using w by (simp add: word_sless_alt)
    moreover have "w = 2" if "sint w = 2" using that by (intro signed_word_eqI) simp
    ultimately show ?thesis using 1(1) [OF refl True] True w
      by (subst pad_pre.simps)
        (auto simp: word_sless_alt Suc_nat_eq_nat_zadd1 diff_diff_eq simp flip: replicate_Suc)
  next
    case False
    then show ?thesis using w by (subst pad_pre.simps) (simp add: word_sless_alt)
  qed
qed

lemma convert_char_field:
  assumes "- 1 \<le> sint w"
  shows "convert_char flags w v = field (bit flags 4) False (sint w) [] [ucast v]"
proof -
  have "pad_pre w = (replicate (nat (sint w - 1)) 0x20, if 1 <s w then 0 else w - 1)"
    using assms by (intro pad_pre_eq) simp
  moreover have "fst (pad_pre (if 1 <s w then 0 else w - 1)) = []"
  proof -
    have "sint (w - 1) = sint w - 1" using assms sint_range_u32 [of w] by (subst sint_diff_u32) simp_all
    then show ?thesis using assms by (subst pad_pre_eq) (auto simp: word_sless_alt)
  qed
  ultimately show ?thesis by (simp add: convert_char_def field_def flag_bit)
qed

lemma pad_len_eq:
  "- 2 \<le> sint w \<Longrightarrow> 0 \<le> sint len \<Longrightarrow>
   pad_len len w = (replicate (nat (sint w - sint len)) 0x20, if len <s w then len - 1 else w - 1)"
proof (induction len w rule: pad_len.induct)
  case (1 len w)
  show ?case
  proof (cases "len <s w")
    case True
    then have w: "sint (w - 1) = sint w - 1" "sint len < sint w"
      using 1(2,3) sint_range_u32 [of w] by (simp_all add: word_sless_alt sint_diff_u32)
    moreover have "w = len + 1" if "sint w = sint len + 1"
    proof -
      have "w - 1 = len" using that w by (intro signed_word_eqI) simp
      then show ?thesis by auto
    qed
    ultimately show ?thesis using 1 True
      by (subst pad_len.simps) (auto simp: word_sless_alt Suc_nat_eq_nat_zadd1 simp flip: replicate_Suc)
  next
    case False
    then show ?thesis by (subst pad_len.simps) (simp add: word_sless_alt)
  qed
qed

lemma str_length_eq:
  "0 \<notin> set s \<Longrightarrow> length s + unat len < 2 ^ 32 \<Longrightarrow>
   str_length (s @ 0 # r) len p = Some (of_nat (min (length s) (unat p - unat len)) + len)"
proof (induction s arbitrary: len)
  case (Cons c s)
  show ?case
  proof (cases "len < p")
    case True
    then have l: "unat (len + 1) = unat len + 1" "unat len < unat p"
      using Cons.prems(2) by (simp_all add: word_less_nat_alt unat_word_ariths)
    have "min (Suc (length s)) (unat p - unat len) = Suc (min (length s) (unat p - unat (len + 1)))" using l by simp
    moreover have "str_length (s @ 0 # r) (len + 1) p = Some (of_nat (min (length s) (unat p - unat (len + 1))) + (len + 1))"
      using Cons l by simp
    ultimately show ?thesis using Cons.prems True by simp
  next
    case False
    then show ?thesis by (simp add: word_less_nat_alt)
  qed
qed simp

lemma convert_string_field:
  assumes "- 1 \<le> sint w" and "0 \<notin> set s" and "length s < 2 ^ 30"
  shows "convert_string flags w p (Some (s @ [0])) = Some (field (bit flags 4) False (sint w) [] (take (unat p) s))"
proof -
  define n where "n = min (length s) (unat p)"
  define len :: u32 where "len = of_nat n"
  have len: "sint len = int n" "unat len = n" "length (take (unat p) s) = n"
    using assms(3) by (simp_all add: len_def n_def sint_of_nat_u32 unat_of_nat_u32)
  have str: "str_length (s @ [0]) 0 p = Some len"
    using str_length_eq [OF assms(2), of 0 "[]" p] assms(3) by (simp add: len_def n_def)
  have taken: "take (unat len) s = take (unat p) s" "take (unat len) (s @ [0]) = take (unat p) s"
    by (simp_all add: len(2) n_def min_def)
  have pad: "pad_len len w = (replicate (nat (sint w - int n)) 0x20, if len <s w then len - 1 else w - 1)"
    using assms(1) by (subst pad_len_eq) (simp_all add: len(1))
  have "sint (w - 1) = sint w - 1" "sint (len - 1) = sint len - 1"
    using assms sint_range_u32 [of w] len(1) by (simp_all add: sint_diff_u32 n_def)
  then have used_up: "fst (pad_len len (if len <s w then len - 1 else w - 1)) = []"
    using assms(1) len(1) by (subst pad_len_eq) (auto simp: word_sless_alt)
  show ?thesis
    using pad used_up len(3) by (simp add: convert_string_def str taken field_def flag_bit Let_def del: take_append)
qed

section \<open>One item\<close>

lemma unat_minus_1: "unat (- 1 :: u32) = 2 ^ 32 - 1"
  by (simp add: unsigned_minus_1_eq_mask mask_eq_exp_minus_1)

lemma layout_sints:
  assumes "good_layout l"
  shows "sint (word_of_int (layout_width l) :: u32) = layout_width l" "- 1 \<le> layout_width l" "layout_width l < 2 ^ 30"
    and "sint (word_of_int (layout_precision l) :: u32) = layout_precision l" "layout_precision l < 2 ^ 30"
    and "unat (word_of_int (layout_precision l) :: u32) = (case l_precision l of None \<Rightarrow> 2 ^ 32 - 1 | Some p \<Rightarrow> p)"
  using assms
  by (auto simp: good_layout_def layout_width_def layout_precision_def sint_of_nat_u32 unat_of_nat_u32 unat_minus_1 split: option.splits)

lemma directive_layout:
  assumes "good_layout l" and "c \<in> {0x63, 0x73, 0x25, 0x6f, 0x58, 0x78, 0x64, 0x75, 0x40}"
  shows "directive f (tl (show_layout l) @ c # r) args o' =
    convert f (c # r) (layout_flags l) (word_of_int (layout_width l)) (word_of_int (layout_precision l)) None args o'"
proof -
  have c: "flag_of c = None" "\<not> is_digit c" "c \<notin> {0x2a, 0x2e}" "read_qualifier (c # r) = Some (None, c # r)"
    using assms(2) by (auto simp: flag_of_def is_digit_def read_qualifier_def byte_at_def)
  from read_layout [OF assms(1) c(1-3), of r args] show ?thesis
    by (auto simp: directive_def c(4))
qed

lemma format_directive:
  assumes "good_layout l" and "c \<in> {0x63, 0x73, 0x25, 0x6f, 0x58, 0x78, 0x64, 0x75, 0x40}"
  shows "format_loop f (show_layout l @ c # r) args o' = do {
    (fmt, args, o') \<leftarrow> convert f (c # r) (layout_flags l) (word_of_int (layout_width l)) (word_of_int (layout_precision l)) None args o';
    format_loop f fmt args o' }"
  using directive_layout [OF assms] by (simp add: show_layout_def)

definition no_layout :: layout where
  "no_layout = \<lparr>l_left = False, l_plus = False, l_space = False, l_special = False, l_zero = False, l_width = 0, l_precision = None\<rparr>"

lemma no_layout_facts: "good_layout no_layout" "show_layout no_layout = [0x25]" "layout_width no_layout = - 1"
  "layout_precision no_layout = - 1" "layout_flags no_layout = 0"
  by (simp_all add: no_layout_def good_layout_def show_layout_def flag_chars_def layout_width_def layout_precision_def layout_flags_def)

text \<open>An item that makes no call of \<open>sprintf\<close> prints its text.\<close>

fun plain :: "item \<Rightarrow> bool" where
  "plain (Address v) \<longleftrightarrow> False"
| "plain _ \<longleftrightarrow> True"

lemma format_plain:
  assumes "good_item it" and "plain it"
  shows "format_loop f (show_item it @ r) (item_args it @ args) o' = format_loop f r args (emit (item_text it) o')"
proof (cases it)
  case (Character c)
  then show ?thesis using assms by simp
next
  case Percent
  then show ?thesis using format_directive [OF no_layout_facts(1), where c = "0x25"] by (simp add: no_layout_facts(2) convert_def byte_at_def)
next
  case (Char_field l v)
  then show ?thesis using assms layout_sints
    by (simp add: format_directive convert_def byte_at_def convert_char_field layout_bits)
next
  case (String_field l s)
  then have "convert_string (layout_flags l) (word_of_int (layout_width l)) (word_of_int (layout_precision l)) (Some (s @ [0]))
      = Some (item_text it)"
    using assms layout_sints by (subst convert_string_field) (simp_all add: layout_bits split: option.split)
  then show ?thesis using String_field assms by (simp add: format_directive convert_def byte_at_def del: item_text.simps)
qed (use assms layout_sints in \<open>simp_all add: format_directive convert_def byte_at_def int_arg_def number_layout\<close>)

section \<open>Addresses\<close>

lemma number_text_byte: "number_text (ucast (b :: u8)) 10 (- 1) (- 1) (0 OR SIGN) = decimal (unat b)"
proof -
  have "sint (ucast b :: u32) = int (unat b)"
    using sint_of_nat_u32 [of "unat b"] unat_lt_u8 [of b] by simp
  then show ?thesis
    by (simp add: number_text_def field_def Let_def sign_text_def magnitude_def base_text_def decimal_def word_sless_alt
        del: of_nat_unat)
qed

lemma sprintf_dot: "sprintf_text g fmt_dot [Number (ucast (b :: u8))] = Some (decimal (unat b) @ [0x2e])"
proof -
  let ?o = "\<lparr>out = [], reach = 0, counts = []\<rparr>"
  have "fmt_dot = show_item (Integer no_layout (ucast b)) @ show_item (Character 0x2e) @ [0]"
    by (simp add: fmt_dot_def no_layout_facts)
  moreover have "good_item (Integer no_layout (ucast b))" "good_item (Character 0x2e)"
    by (simp_all add: no_layout_facts)
  ultimately have "format_loop g fmt_dot [Number (ucast b)] ?o
      = Some (emit [0x2e] (emit (item_text (Integer no_layout (ucast b))) ?o))"
    using format_plain [of "Integer no_layout (ucast b)" g "show_item (Character 0x2e) @ [0]" "[]" ?o]
    by simp
  then show ?thesis by (simp add: sprintf_text_def emit_def no_layout_facts number_text_byte [simplified])
qed

definition has_room :: "printed \<Rightarrow> bool" where
  "has_room o' \<longleftrightarrow> reach o' \<le> length (out o') + 2"

lemma emit_dots:
  "bs \<noteq> [] \<Longrightarrow> has_room o' \<Longrightarrow> \<exists>o''. emit_each (sprintf_text g fmt_dot) bs o' = Some o''
    \<and> out o'' = out o' @ concat (map (\<lambda>b. decimal (unat b) @ [0x2e]) bs) \<and> counts o'' = counts o'
    \<and> reach o'' \<le> length (out o'') + 1"
proof (induction bs arbitrary: o')
  case (Cons b bs)
  let ?o = "emit_string (decimal (unat b) @ [0x2e]) o'"
  have o: "out ?o = out o' @ decimal (unat b) @ [0x2e]" "counts ?o = counts o'" "reach ?o \<le> length (out ?o) + 1"
    using Cons.prems(2) by (simp_all add: emit_string_def has_room_def)
  show ?case
  proof (cases bs)
    case Nil
    then show ?thesis using o by (simp add: sprintf_dot)
  next
    case (Cons b' bs')
    moreover have "has_room ?o" using o(3) by (simp add: has_room_def)
    ultimately show ?thesis using Cons.IH [of ?o] o by (simp add: sprintf_dot)
  qed
qed simp

lemma word_bytes_unat:
  "map unat (word_bytes v) = [unat v mod 256, unat v div 256 mod 256, unat v div 65536 mod 256, unat v div 16777216]"
proof -
  have v: "unat v < 2 ^ 32" by (rule unat_lt_u32)
  have "unat v div 16777216 < 256" using v by (simp add: less_mult_imp_div_less)
  then show ?thesis
    by (simp add: word_bytes_def unsigned_ucast_eq take_bit_eq_mod unat_drop_bit_u32)
qed

lemma address_text:
  "butlast (concat (map (\<lambda>b. decimal (unat b) @ [0x2e]) (word_bytes v))) = item_text (Address v)"
proof -
  have "concat (map (\<lambda>b. decimal (unat b) @ [0x2e]) (word_bytes v)) = concat (map (\<lambda>n. decimal n @ [0x2e]) (map unat (word_bytes v)))"
    by (simp add: o_def)
  also have "butlast \<dots> = item_text (Address v)" unfolding word_bytes_unat by (simp add: butlast_append)
  finally show ?thesis by simp
qed

lemma format_item:
  assumes "good_item it" and "has_room o'"
  shows "\<exists>o''. format_loop (sprintf_text g) (show_item it @ r) (item_args it @ args) o' = format_loop (sprintf_text g) r args o''
    \<and> out o'' = out o' @ item_text it \<and> counts o'' = counts o' \<and> has_room o''"
proof (cases "plain it")
  case True
  then show ?thesis
    using assms by (intro exI [of _ "emit (item_text it) o'"]) (auto simp: format_plain emit_def has_room_def)
next
  case False
  then obtain v where it: "it = Address v" by (cases it) auto
  have ne: "word_bytes v \<noteq> []" by (simp add: word_bytes_def)
  from emit_dots [OF this assms(2), of g] obtain o1 where o1:
    "emit_each (sprintf_text g fmt_dot) (word_bytes v) o' = Some o1"
    "out o1 = out o' @ concat (map (\<lambda>b. decimal (unat b) @ [0x2e]) (word_bytes v))"
    "counts o1 = counts o'" "reach o1 \<le> length (out o1) + 1" by blast
  have "concat (map (\<lambda>b. decimal (unat b) @ [0x2e]) (word_bytes v)) \<noteq> []" by (simp add: word_bytes_def)
  then have "out (back_one o1) = out o' @ item_text it" "counts (back_one o1) = counts o'"
    using o1(2,3) address_text [of v] by (simp_all add: back_one_def it butlast_append)
  moreover have "has_room (back_one o1)" using o1(4) by (simp add: back_one_def has_room_def)
  moreover have "format_loop (sprintf_text g) (show_item it @ r) (item_args it @ args) o'
      = format_loop (sprintf_text g) r args (back_one o1)"
    using format_directive [OF no_layout_facts(1), where c = "0x40"] o1(1)
    by (simp add: it no_layout_facts(2) convert_def byte_at_def)
  ultimately show ?thesis by blast
qed

lemma format_items:
  "\<forall>it\<in>set its. good_item it \<Longrightarrow> has_room o' \<Longrightarrow>
   \<exists>o''. format_loop (sprintf_text g) (concat (map show_item its) @ 0 # r) (concat (map item_args its)) o' = Some o''
     \<and> out o'' = out o' @ concat (map item_text its) \<and> counts o'' = counts o' \<and> has_room o''"
proof (induction its arbitrary: o')
  case (Cons it its)
  obtain o1 where o1: "format_loop (sprintf_text g) (show_item it @ concat (map show_item its) @ 0 # r)
      (item_args it @ concat (map item_args its)) o'
      = format_loop (sprintf_text g) (concat (map show_item its) @ 0 # r) (concat (map item_args its)) o1"
    "out o1 = out o' @ item_text it" "counts o1 = counts o'" "has_room o1"
    using format_item [of it o' g "concat (map show_item its) @ 0 # r" "concat (map item_args its)"] Cons.prems by auto
  then show ?case using Cons.IH [of o1] Cons.prems(1) by (auto simp del: format_loop.simps)
qed simp

section \<open>Properties\<close>

text \<open>For a format made of characters, percent signs and conversions (\<open>%d %u %o %x %X %c %s %@\<close> with flags,
  width and precision) \<open>vsprintf\<close> prints the fields of its arguments one after the other: the reference
  \<open>item_text\<close> says of each field what its sign, prefix, digits and fill are.\<close>

theorem vsprintf_prints:
  assumes "\<forall>it\<in>set its. good_item it" and "length (concat (map item_text its)) + 2 \<le> n"
  shows "vsprintf n (concat (map show_item its) @ 0 # r) (concat (map item_args its)) = Some (concat (map item_text its), [])"
  using format_items [OF assms(1), of "\<lparr>out = [], reach = 0, counts = []\<rparr>" "\<lambda>_ _. None" r] assms(2)
  by (auto simp: vsprintf_def has_room_def)

definition sample_layout :: layout where
  "sample_layout = no_layout\<lparr>l_zero := True, l_width := 5\<rparr>"

definition sample_items :: "item list" where
  "sample_items = [Character 0x61, Integer sample_layout (- 42), Percent, Hexadecimal (no_layout\<lparr>l_special := True\<rparr>) False 255,
     Address 0x0100a8c0]"

theorem vsprintf_prints_witness:
  "vsprintf 64 (concat (map show_item sample_items) @ 0 # []) (concat (map item_args sample_items)) =
     Some ([0x61, 0x2d, 0x30, 0x30, 0x34, 0x32, 0x25, 0x30, 0x78, 0x66, 0x66] @
       [0x31, 0x39, 0x32, 0x2e, 0x31, 0x36, 0x38, 0x2e, 0x30, 0x2e, 0x31], [])"
proof -
  have eq: "concat (map item_text sample_items) = [0x61, 0x2d, 0x30, 0x30, 0x34, 0x32, 0x25, 0x30, 0x78, 0x66, 0x66] @
       [0x31, 0x39, 0x32, 0x2e, 0x31, 0x36, 0x38, 0x2e, 0x30, 0x2e, 0x31]"
    by (simp add: sample_items_def sample_layout_def no_layout_def number_text_def field_def Let_def numeral_text_def
        sign_text_def base_text_def magnitude_def layout_flags_def layout_width_def layout_precision_def decimal_def
        digits_of.simps small_digits_def word_sless_alt) (simp add: numeral_2_eq_2)
  have "\<forall>it\<in>set sample_items. good_item it"
    by (simp add: sample_items_def sample_layout_def no_layout_def good_layout_def)
  from vsprintf_prints [OF this, of 64 "[]", unfolded eq] show ?thesis by simp
qed

end
