(* ===== verification/Spec2Isabelle.thy ===== *)
theory Spec2Isabelle
  imports CString MemMgr Sha1 Rc4 HddKey I2c Eeprom FatxCorrect IsoCorrect IdeInit FlashUpdate BootChain ImageTemplates Md5 ParserCorrect PciCorrect InterruptsCorrect LinuxFatx LinuxCdrom FormatCorrect
begin

text \<open>
  A verification development for the Gentoox loader, the boot loader of the Xbox that
  \<open>src/\<close> holds.
\<close>

end
